(* ===== verification/Prelude.thy ===== *)
theory Prelude
  imports Main "HOL-Library.Word"
begin

unbundle bit_operations_syntax

text \<open>
  Shared vocabulary of the development: the machine integers of \<^verbatim>\<open>src/common.h\<close>, the errors a
  C++ statement of the simulator can end in, the result type that carries them, and the word lemmas
  the components share.

  A computation that may throw, exit or run into undefined behaviour returns
  \<open>sim_error + 'a\<close>; \<open>rbind\<close> runs the next statement only after a normal end.
\<close>

section \<open>Machine integers\<close>

type_synonym u8 = "8 word"
type_synonym u16 = "16 word"
type_synonym u32 = "32 word"

named_theorems flag_simps \<open>how the flags and registers read after a write\<close>
named_theorems bus_simps \<open>transport functions on the cases they distinguish\<close>
named_theorems instr_defs \<open>the definitions of the instruction handlers\<close>

section \<open>Results with errors\<close>

text \<open>
  \<open>AssertFailed\<close>: an \<^verbatim>\<open>assert\<close> of the source is false.
  \<open>OutOfBounds\<close>: an access outside an allocation, undefined behaviour in C++.
  \<open>BusError a d\<close>: \<^verbatim>\<open>Cpu::ReadBus\<close> throws its \<^verbatim>\<open>runtime_error\<close> for address \<open>a\<close> and data \<open>d\<close>.
  \<open>NotImplemented op\<close>: the \<^verbatim>\<open>runtime_error\<close> of an opcode that the jump table rejects.
  \<open>UnknownInstruction op\<close>: the \<^verbatim>\<open>exit(EXIT_FAILURE)\<close> of the jump table's default case.
  \<open>FileError\<close>: a file could not be opened or read.
  \<open>UnknownCartridge\<close>: no memory bank controller for the cartridge type.
  \<open>ReportError\<close>: \<^verbatim>\<open>SC_REPORT_ERROR\<close>, which throws.
  \<open>DmiUnavailable\<close>: a module could not get direct access to the interrupt registers.
  \<open>BusDepth\<close>: the model's bound on bus accesses nested in each other is used up.
  \<open>HaltUnresolved\<close>: the busy-waiting loop of HALT was followed for the whole polling bound.
  \<open>LogicError\<close>, \<open>InvalidArgument\<close>, \<open>OutOfRange\<close>: the exceptions of these names, thrown by the debugger's
  protocol and by the conversions and accesses of the standard library.
  \<open>SystemError\<close>: the \<^verbatim>\<open>runtime_error\<close> for a failed call of the operating system.
  \<open>Blocked\<close>: a blocking call waits for an input that never comes.
  \<open>Exited n\<close>: the program calls \<^verbatim>\<open>exit(n)\<close>.
  \<open>SignedOverflow\<close>: an arithmetic overflow of a signed integer, undefined behaviour in C++.
  \<open>FloatConversion\<close>: the conversion of a \<^verbatim>\<open>float\<close> to an integer type it does not fit, undefined as well.
\<close>

datatype sim_error =
    AssertFailed
  | OutOfBounds
  | BusError u16 u8
  | NotImplemented u8
  | UnknownInstruction u8
  | FileError
  | UnknownCartridge
  | ReportError
  | DmiUnavailable
  | BusDepth
  | HaltUnresolved
  | LogicError
  | InvalidArgument
  | OutOfRange
  | SystemError
  | Blocked
  | Exited nat
  | SignedOverflow
  | FloatConversion

type_synonym 'a res = "sim_error + 'a"

definition rbind :: "'a res \<Rightarrow> ('a \<Rightarrow> 'b res) \<Rightarrow> 'b res" where
  "rbind r f = (case r of Inl e \<Rightarrow> Inl e | Inr x \<Rightarrow> f x)"

lemma rbind_simps [simp]:
  "rbind (Inl e) f = Inl e"
  "rbind (Inr x) f = f x"
  by (simp_all add: rbind_def)

lemma rbind_Inr_iff: "rbind r f = Inr y \<longleftrightarrow> (\<exists>x. r = Inr x \<and> f x = Inr y)"
  by (cases r) auto

lemma rbind_Inl_iff: "rbind r f = Inl e \<longleftrightarrow> r = Inl e \<or> (\<exists>x. r = Inr x \<and> f x = Inl e)"
  by (cases r) auto

lemma rbind_assoc: "rbind (rbind r f) g = rbind r (\<lambda>x. rbind (f x) g)"
  by (cases r) auto

lemma rbind_cong [fundef_cong]:
  "r = r' \<Longrightarrow> (\<And>x. r' = Inr x \<Longrightarrow> f x = g x) \<Longrightarrow> rbind r f = rbind r' g"
  by (cases r') auto

lemma rbind_InrE:
  assumes "rbind r f = Inr y"
  obtains x where "r = Inr x" and "f x = Inr y"
  using assms by (auto simp: rbind_Inr_iff)

text \<open>
  Two judgements about a result: \<open>returns_with P r\<close>, every normal result satisfies \<open>P\<close>
  (partial correctness), and \<open>only_errors E r\<close>, every error is one of \<open>E\<close>.
\<close>

definition returns_with :: "('a \<Rightarrow> bool) \<Rightarrow> 'a res \<Rightarrow> bool" where
  "returns_with P r = (case r of Inl e \<Rightarrow> True | Inr x \<Rightarrow> P x)"

definition only_errors :: "sim_error set \<Rightarrow> 'a res \<Rightarrow> bool" where
  "only_errors E r = (case r of Inl e \<Rightarrow> e \<in> E | Inr x \<Rightarrow> True)"

lemma returns_with_simps [simp]:
  "returns_with P (Inl e)"
  "returns_with P (Inr x) \<longleftrightarrow> P x"
  by (simp_all add: returns_with_def)

lemma only_errors_simps [simp]:
  "only_errors E (Inl e) \<longleftrightarrow> e \<in> E"
  "only_errors E (Inr x)"
  by (simp_all add: only_errors_def)

lemma returns_with_rbind:
  "returns_with (\<lambda>x. returns_with P (f x)) r \<Longrightarrow> returns_with P (rbind r f)"
  by (cases r) auto

lemma only_errors_rbind:
  "only_errors E r \<Longrightarrow> (\<And>x. r = Inr x \<Longrightarrow> only_errors E (f x)) \<Longrightarrow> only_errors E (rbind r f)"
  by (cases r) auto

lemma returns_with_mono:
  "returns_with P r \<Longrightarrow> (\<And>x. P x \<Longrightarrow> Q x) \<Longrightarrow> returns_with Q r"
  by (cases r) auto

lemma returns_withD: "returns_with P r \<Longrightarrow> r = Inr x \<Longrightarrow> P x"
  by simp

lemma returns_withI: "(\<And>x. r = Inr x \<Longrightarrow> P x) \<Longrightarrow> returns_with P r"
  by (cases r) auto

text \<open>A \<^verbatim>\<open>for\<close> loop whose body may fail; \<^verbatim>\<open>continue\<close> is a normal end of the body.\<close>

fun for_each :: "'a list \<Rightarrow> ('a \<Rightarrow> 's \<Rightarrow> 's res) \<Rightarrow> 's \<Rightarrow> 's res" where
  "for_each [] f s = Inr s"
| "for_each (x # xs) f s = rbind (f x s) (for_each xs f)"

lemma for_each_append: "for_each (xs @ ys) f s = rbind (for_each xs f s) (for_each ys f)"
proof (induction xs arbitrary: s)
  case (Cons x xs)
  then have "for_each (xs @ ys) f = (\<lambda>s. rbind (for_each xs f s) (for_each ys f))"
    by (rule ext)
  then show ?case by (simp add: rbind_assoc)
qed simp

lemma for_each_cong:
  "(\<And>x s. x \<in> set xs \<Longrightarrow> f x s = g x s) \<Longrightarrow> for_each xs f s = for_each xs g s"
proof (induction xs arbitrary: s)
  case (Cons x xs)
  then have "for_each xs f = for_each xs g" by (intro ext) simp
  with Cons.prems show ?case by simp
qed simp

text \<open>A loop whose body never fails is a fold, and an invariant of the body is one of the loop.\<close>

lemma for_each_fold:
  assumes "\<And>x s. x \<in> set xs \<Longrightarrow> I s \<Longrightarrow> f x s = Inr (g x s) \<and> I (g x s)" and "I s"
  shows "for_each xs f s = Inr (fold g xs s)" and "I (fold g xs s)"
  using assms by (induction xs arbitrary: s) simp_all

lemma for_each_invariant:
  assumes "\<And>x s. x \<in> set xs \<Longrightarrow> I s \<Longrightarrow> \<exists>t. f x s = Inr t \<and> I t" and "I s"
  shows "\<exists>t. for_each xs f s = Inr t \<and> I t"
  using assms
proof (induction xs arbitrary: s)
  case (Cons x xs)
  then obtain t where "f x s = Inr t" "I t" by fastforce
  with Cons show ?case by simp
qed simp

section \<open>Words\<close>

text \<open>Equality of bytes bit by bit: with \<open>bit_simps\<close> it decides masks and shifts by constants.\<close>

lemma less_eight_cases: "n < 8 \<longleftrightarrow> n \<in> {0, 1, 2, 3, 4, 5, 6, 7::nat}"
  by auto

lemma u8_eq_iff_bits:
  "(a :: u8) = b \<longleftrightarrow>
    bit a 0 = bit b 0 \<and> bit a 1 = bit b 1 \<and> bit a 2 = bit b 2 \<and> bit a 3 = bit b 3 \<and>
    bit a 4 = bit b 4 \<and> bit a 5 = bit b 5 \<and> bit a 6 = bit b 6 \<and> bit a 7 = bit b 7"
  (is "?l \<longleftrightarrow> ?r")
proof
  assume ?r
  show ?l
  proof (rule bit_word_eqI)
    fix n assume "n < LENGTH(8)"
    then have "n \<in> {0, 1, 2, 3, 4, 5, 6, 7}" by (simp add: less_eight_cases)
    with \<open>?r\<close> show "bit a n = bit b n" by auto
  qed
qed simp

lemma u8_and_255 [simp]: "w AND 255 = (w :: u8)"
  by (simp add: u8_eq_iff_bits bit_simps)

lemma u8_split_nibbles: "(w AND 0xF0) OR (w AND 0x0F) = (w :: u8)"
  by (simp add: u8_eq_iff_bits bit_simps)

lemma uint_u8_bounds: "0 \<le> uint (w :: u8)" "uint (w :: u8) < 256"
  using uint_bounded [of w] by simp_all

lemma unat_u8_less: "unat (w :: u8) < 256"
  using unsigned_less [of w] by simp

lemma unat_u16_less: "unat (w :: u16) < 65536"
  using unsigned_less [of w] by simp

lemma unat_and_mask: "unat ((2 ^ n - 1) AND w :: u8) = unat w mod 2 ^ n" if "n \<le> 8"
proof -
  have "(2 ^ n - 1) AND w = take_bit n w"
    by (simp only: take_bit_eq_mask mask_eq_exp_minus_1 and.commute)
  then show ?thesis
    by (simp only: unsigned_take_bit_eq) (simp only: take_bit_eq_mod)
qed

text \<open>Splitting a 16-bit word into its bytes and joining two bytes.\<close>

definition hi8 :: "u16 \<Rightarrow> u8" where
  "hi8 w = ucast (drop_bit 8 w)"

definition lo8 :: "u16 \<Rightarrow> u8" where
  "lo8 w = ucast w"

definition make16 :: "u8 \<Rightarrow> u8 \<Rightarrow> u16" where
  "make16 msb lsb = push_bit 8 (ucast msb) OR ucast lsb"

lemma hi8_make16 [simp]: "hi8 (make16 h l) = h"
  by (rule bit_word_eqI)
    (auto simp: hi8_def make16_def bit_simps dest: bit_imp_le_length)

lemma lo8_make16 [simp]: "lo8 (make16 h l) = l"
  by (rule bit_word_eqI)
    (auto simp: lo8_def make16_def bit_simps dest: bit_imp_le_length)

lemma make16_hi8_lo8 [simp]: "make16 (hi8 w) (lo8 w) = w"
  by (rule bit_word_eqI)
    (auto simp: hi8_def lo8_def make16_def bit_simps dest: bit_imp_le_length)

lemma make16_eq_iff: "make16 h l = make16 h' l' \<longleftrightarrow> h = h' \<and> l = l'"
  by (metis hi8_make16 lo8_make16)

end
