(* ===== verification/Gb_Utils.thy ===== *)
theory Gb_Utils
  imports Prelude
begin

text \<open>
  The bit helpers of \<^verbatim>\<open>src/utils.h\<close> and the constants of \<^verbatim>\<open>src/gb_const.h\<close>. Both helpers
  assert that the bit index is below 8; every call of the program passes a constant below 8, so the
  index is a \<open>nat\<close> here and the lemmas carry the bound where it matters. (With assertions compiled
  out an index of 8 or more changes nothing in C++ either, because the result is cut to 8 bits.)
\<close>

section \<open>Constants\<close>

definition kVBlankIf :: u8 where "kVBlankIf = 1"
definition kLCDCIf :: u8 where "kLCDCIf = push_bit 1 1"
definition kTimerOfIf :: u8 where "kTimerOfIf = push_bit 2 1"
definition kSerialIOIf :: u8 where "kSerialIOIf = push_bit 3 1"
definition kJoypadIf :: u8 where "kJoypadIf = push_bit 4 1"

definition kMaskBit0 :: u8 where "kMaskBit0 = 0x01"
definition kMaskBit3 :: u8 where "kMaskBit3 = 0x08"
definition kMaskBit6 :: u8 where "kMaskBit6 = 0x40"
definition kMaskBit7 :: u8 where "kMaskBit7 = 0x80"

definition kNsPerClkCycle :: nat where "kNsPerClkCycle = 238"

lemmas gb_consts =
  kVBlankIf_def kLCDCIf_def kTimerOfIf_def kSerialIOIf_def kJoypadIf_def
  kMaskBit0_def kMaskBit3_def kMaskBit6_def kMaskBit7_def

lemma kNsPerClkCycle_pos [simp]: "0 < kNsPerClkCycle"
  by (simp add: kNsPerClkCycle_def)

section \<open>Bits of a byte\<close>

definition IsBitSet :: "u8 \<Rightarrow> nat \<Rightarrow> bool" where
  "IsBitSet dat bit_index = (dat AND push_bit bit_index 1 \<noteq> 0)"

definition SetBit :: "u8 \<Rightarrow> bool \<Rightarrow> nat \<Rightarrow> u8" where
  "SetBit dat val bit_index =
     (dat AND NOT (push_bit bit_index 1)) OR push_bit bit_index (of_bool val)"

lemma IsBitSet_iff_bit: "IsBitSet dat i \<longleftrightarrow> bit dat i"
proof -
  have "dat AND push_bit i 1 = of_bool (bit dat i) * push_bit i (1 :: u8)"
    by (rule bit_word_eqI) (auto simp: bit_simps)
  then show ?thesis
    by (auto simp: IsBitSet_def bit_simps dest: bit_imp_le_length)
qed

lemma bit_SetBit: "bit (SetBit dat v i) j \<longleftrightarrow> (if i = j then v \<and> j < 8 else bit dat j)"
  by (auto simp: SetBit_def bit_simps dest: bit_imp_le_length)

lemma IsBitSet_SetBit [flag_simps]:
  "i < 8 \<Longrightarrow> j < 8 \<Longrightarrow> IsBitSet (SetBit dat v i) j \<longleftrightarrow> (if i = j then v else IsBitSet dat j)"
  by (simp add: IsBitSet_iff_bit bit_SetBit)

lemma SetBit_same: "IsBitSet dat i = v \<Longrightarrow> i < 8 \<Longrightarrow> SetBit dat v i = dat"
  by (rule bit_word_eqI) (auto simp: bit_SetBit IsBitSet_iff_bit)

lemma SetBit_SetBit: "SetBit (SetBit dat v i) w i = SetBit dat w i"
  by (rule bit_word_eqI) (auto simp: bit_SetBit)

lemma SetBit_commute: "i \<noteq> j \<Longrightarrow> SetBit (SetBit dat v i) w j = SetBit (SetBit dat w j) v i"
  by (rule bit_word_eqI) (auto simp: bit_SetBit)

lemma SetBit_and_mask:
  "\<not> bit m i \<Longrightarrow> SetBit dat v i AND m = dat AND (m :: u8)"
  by (rule bit_word_eqI) (auto simp: bit_SetBit bit_simps)

end
