(* ===== verification/Memory.thy ===== *)
theory Memory
  imports Gb_Utils
begin

text \<open>
  The TLM transaction as the modules of the simulator use it (\<^verbatim>\<open>tlm_generic_payload\<close> with the
  extension of \<^verbatim>\<open>src/common.h\<close>) and the generic memory of \<^verbatim>\<open>src/generic_memory.cpp\<close>.

  A payload points to a byte of its initiator; the model carries the byte itself. Every initiator
  sets a 16-bit address and every target reads it back through \<^verbatim>\<open>static_cast<u16>\<close>, so the address is
  a \<open>u16\<close>. The time argument of \<^verbatim>\<open>b_transport\<close> is a dummy in this program and is left out.
\<close>

section \<open>Transactions\<close>

datatype tlm_command = TLM_READ_COMMAND | TLM_WRITE_COMMAND | TLM_IGNORE_COMMAND

datatype tlm_response_status =
    TLM_OK_RESPONSE
  | TLM_INCOMPLETE_RESPONSE
  | TLM_ADDRESS_ERROR_RESPONSE
  | TLM_COMMAND_ERROR_RESPONSE

datatype GbCommand = kGbReadInst | kGbReadData | kGbWriteData

record payload =
  command :: tlm_command
  address :: u16
  data_byte :: u8
  response_status :: tlm_response_status
  extension :: "GbCommand option"

text \<open>TLM counts everything but OK as an error, the initial INCOMPLETE included.\<close>

definition is_response_error :: "payload \<Rightarrow> bool" where
  "is_response_error pl = (response_status pl \<noteq> TLM_OK_RESPONSE)"

definition MakeSharedPayloadPtr :: "tlm_command \<Rightarrow> u16 \<Rightarrow> u8 \<Rightarrow> payload" where
  "MakeSharedPayloadPtr cmd addr data =
     \<lparr>command = cmd, address = addr, data_byte = data,
      response_status = TLM_INCOMPLETE_RESPONSE, extension = None\<rparr>"

section \<open>Generic memory\<close>

record GenericMemory =
  mem_data :: "nat \<Rightarrow> u8"
  memory_size :: nat

definition new_memory :: "nat \<Rightarrow> GenericMemory" where
  "new_memory n = \<lparr>mem_data = (\<lambda>_. 0), memory_size = n\<rparr>"

definition mem_b_transport :: "payload \<Rightarrow> GenericMemory \<Rightarrow> (payload \<times> GenericMemory) res" where
  "mem_b_transport pl m =
     (let adr = unat (address pl) in
      case command pl of
        TLM_READ_COMMAND \<Rightarrow>
          (if adr < memory_size m
           then Inr (pl\<lparr>data_byte := mem_data m adr, response_status := TLM_OK_RESPONSE\<rparr>, m)
           else Inl OutOfBounds)
      | TLM_WRITE_COMMAND \<Rightarrow>
          (if adr < memory_size m
           then Inr (pl\<lparr>response_status := TLM_OK_RESPONSE\<rparr>,
                     m\<lparr>mem_data := (mem_data m)(adr := data_byte pl)\<rparr>)
           else Inl OutOfBounds)
      | TLM_IGNORE_COMMAND \<Rightarrow> Inr (pl\<lparr>response_status := TLM_COMMAND_ERROR_RESPONSE\<rparr>, m))"

definition mem_transport_dbg :: "payload \<Rightarrow> GenericMemory \<Rightarrow> (payload \<times> GenericMemory) res" where
  "mem_transport_dbg pl m = mem_b_transport pl m"

text \<open>
  Direct memory access: the bounds a target reports and the bytes behind the pointer it hands out, as
  functions on the state \<open>'m\<close> the target belongs to. Index 0 is the byte the pointer points to.
\<close>

record 'm dmi =
  dmi_start :: nat
  dmi_end :: nat
  dmi_load :: "'m \<Rightarrow> nat \<Rightarrow> u8"
  dmi_store :: "nat \<Rightarrow> u8 \<Rightarrow> 'm \<Rightarrow> 'm"

definition mem_get_direct_mem_ptr ::
  "payload \<Rightarrow> GenericMemory \<Rightarrow> GenericMemory dmi option res" where
  "mem_get_direct_mem_ptr pl m =
     (let adr = unat (address pl) in
      if adr < memory_size m
      then Inr (Some \<lparr>dmi_start = 0, dmi_end = memory_size m - 1,
                      dmi_load = (\<lambda>m i. mem_data m (adr + i)),
                      dmi_store = (\<lambda>i v m. m\<lparr>mem_data := (mem_data m)(adr + i := v)\<rparr>)\<rparr>)
      else Inl AssertFailed)"

definition SetMemData :: "u8 list \<Rightarrow> GenericMemory \<Rightarrow> GenericMemory res" where
  "SetMemData src m =
     (if length src < memory_size m
      then Inr (m\<lparr>mem_data := (\<lambda>i. if i < length src then src ! i else mem_data m i)\<rparr>)
      else Inl AssertFailed)"

definition LoadFromData :: "u8 list \<Rightarrow> GenericMemory \<Rightarrow> GenericMemory" where
  "LoadFromData src m =
     (let copy_size = min (length src) (memory_size m) in
      m\<lparr>mem_data := (\<lambda>i. if i < copy_size then src ! i else mem_data m i)\<rparr>)"

text \<open>
  \<open>LoadFromFile file offset\<close>: \<open>file\<close> is the content, \<open>None\<close> when it cannot be opened. The size that
  is read is computed as the code computes it; a negative one makes \<^verbatim>\<open>istream::read\<close> fail.
\<close>

definition LoadFromFile_size :: "int \<Rightarrow> int \<Rightarrow> int \<Rightarrow> int" where
  "LoadFromFile_size file_size offset mem_size =
     (if file_size - offset > mem_size then mem_size - offset else file_size - offset)"

definition LoadFromFile :: "u8 list option \<Rightarrow> nat \<Rightarrow> GenericMemory \<Rightarrow> GenericMemory res" where
  "LoadFromFile file offset m =
     (case file of
        None \<Rightarrow> Inl FileError
      | Some content \<Rightarrow>
          (if length content < offset then Inl AssertFailed
           else
             (let n = LoadFromFile_size (int (length content)) (int offset) (int (memory_size m)) in
              if n < 0 then Inl FileError
              else Inr (m\<lparr>mem_data := (\<lambda>i. if i < nat n then content ! (offset + i)
                                          else mem_data m i)\<rparr>))))"

definition SaveToFile :: "GenericMemory \<Rightarrow> u8 list" where
  "SaveToFile m = map (mem_data m) [0..<memory_size m]"

section \<open>Accesses that keep an invariant\<close>

text \<open>\<open>keeps I E r\<close>: the access ends in a state with \<open>I\<close> or with an error of \<open>E\<close>.\<close>

definition keeps :: "('m \<Rightarrow> bool) \<Rightarrow> sim_error set \<Rightarrow> (payload \<times> 'm) res \<Rightarrow> bool" where
  "keeps I E r = (case r of Inl e \<Rightarrow> e \<in> E | Inr (pl, m) \<Rightarrow> I m)"

lemma keeps_simps [simp]: "keeps I E (Inl e) \<longleftrightarrow> e \<in> E" "keeps I E (Inr (pl, m)) \<longleftrightarrow> I m"
  by (simp_all add: keeps_def)

lemma keeps_map:
  assumes "keeps I E r" and "\<And>m. I m \<Longrightarrow> J (f m)"
  shows "keeps J E (map_sum id (map_prod g f) r)"
  using assms by (auto simp: keeps_def split: sum.splits)

lemma keepsI:
  "r = Inr (pl, m) \<Longrightarrow> I m \<Longrightarrow> keeps I E r"
  by simp

section \<open>Lemmas\<close>

lemma mem_read [bus_simps]:
  "command pl = TLM_READ_COMMAND \<Longrightarrow> unat (address pl) < memory_size m \<Longrightarrow>
   mem_b_transport pl m =
     Inr (pl\<lparr>data_byte := mem_data m (unat (address pl)),
                response_status := TLM_OK_RESPONSE\<rparr>, m)"
  by (simp add: mem_b_transport_def Let_def)

lemma mem_write [bus_simps]:
  "command pl = TLM_WRITE_COMMAND \<Longrightarrow> unat (address pl) < memory_size m \<Longrightarrow>
   mem_b_transport pl m =
     Inr (pl\<lparr>response_status := TLM_OK_RESPONSE\<rparr>,
          m\<lparr>mem_data := (mem_data m)(unat (address pl) := data_byte pl)\<rparr>)"
  by (simp add: mem_b_transport_def Let_def)

lemma mem_b_transport_size:
  "mem_b_transport pl m = Inr (pl', m') \<Longrightarrow> memory_size m' = memory_size m"
  by (auto simp: mem_b_transport_def Let_def split: tlm_command.splits if_splits)

lemma mem_b_transport_in_bounds:
  "unat (address pl) < memory_size m \<Longrightarrow> \<exists>r. mem_b_transport pl m = Inr r"
  by (auto simp: mem_b_transport_def Let_def split: tlm_command.splits)

lemma mem_b_transport_keeps:
  assumes "memory_size m = n" and "unat (address pl) < n"
  shows "keeps (\<lambda>m. memory_size m = n) E (mem_b_transport pl m)"
  using assms by (auto simp: mem_b_transport_def Let_def split: tlm_command.splits)

text \<open>
  A memory that is not large enough for the rest of the file loses \<open>offset\<close> bytes more than it has
  to: the code subtracts the offset from the memory's size.
\<close>

lemma LoadFromFile_size_le_memory:
  "0 \<le> offset \<Longrightarrow> LoadFromFile_size file_size offset mem_size \<le> mem_size"
  by (simp add: LoadFromFile_size_def)

lemma LoadFromFile_in_bounds:
  assumes "LoadFromFile (Some content) offset m = Inr m'" and "memory_size m \<le> i"
  shows "mem_data m' i = mem_data m i"
  using assms LoadFromFile_size_le_memory
    [of "int offset" "int (length content)" "int (memory_size m)"]
  by (auto simp: LoadFromFile_def Let_def split: if_splits)

lemma LoadFromFile_content:
  assumes "LoadFromFile (Some content) offset m = Inr m'" and "length content - offset \<le> memory_size m"
    and "offset + i < length content"
  shows "mem_data m' i = content ! (offset + i)"
  using assms
  by (auto simp: LoadFromFile_def LoadFromFile_size_def Let_def of_nat_diff split: if_splits)

lemma memory_size_LoadFromFile:
  "LoadFromFile file offset m = Inr m' \<Longrightarrow> memory_size m' = memory_size m"
  by (auto simp: LoadFromFile_def Let_def split: option.splits if_splits)

text \<open>Saving a memory and loading the file back into one of the same size restores it.\<close>

lemma LoadFromFile_SaveToFile:
  assumes "memory_size m' = memory_size m" and "i < memory_size m"
  shows "\<exists>m''. LoadFromFile (Some (SaveToFile m)) 0 m' = Inr m'' \<and> mem_data m'' i = mem_data m i"
  using assms by (simp add: LoadFromFile_def LoadFromFile_size_def SaveToFile_def Let_def)

end
