(* ===== verification/Bus.thy ===== *)
theory Bus
  imports Memory "HOL-Library.Multiset"
begin

text \<open>
  The bus of \<^verbatim>\<open>src/bus.cpp\<close>: a list of slaves with their address ranges, searched in the order of
  the \<^verbatim>\<open>AddBusSlave\<close> calls. A slave is modelled by its transport functions on the state \<open>'m\<close> of the
  whole system; \<open>on_part\<close> makes them from those of one module.
\<close>

section \<open>Slaves\<close>

record 'm BusSlave =
  addr_from :: u16
  addr_to :: u16
  slave_b_transport :: "payload \<Rightarrow> 'm \<Rightarrow> (payload \<times> 'm) res"
  slave_transport_dbg :: "payload \<Rightarrow> 'm \<Rightarrow> (payload \<times> 'm) res"
  slave_get_direct_mem_ptr :: "payload \<Rightarrow> 'm \<Rightarrow> 'm dmi option res"

definition on_part ::
  "('m \<Rightarrow> 'c) \<Rightarrow> ('c \<Rightarrow> 'm \<Rightarrow> 'm) \<Rightarrow> (payload \<Rightarrow> 'c \<Rightarrow> (payload \<times> 'c) res) \<Rightarrow>
   payload \<Rightarrow> 'm \<Rightarrow> (payload \<times> 'm) res" where
  "on_part get put f pl m = rbind (f pl (get m)) (\<lambda>(pl', c). Inr (pl', put c m))"

definition dmi_on_part :: "('m \<Rightarrow> 'c) \<Rightarrow> ('c \<Rightarrow> 'm \<Rightarrow> 'm) \<Rightarrow> 'c dmi \<Rightarrow> 'm dmi" where
  "dmi_on_part get put d =
     \<lparr>dmi_start = dmi_start d, dmi_end = dmi_end d,
      dmi_load = (\<lambda>m. dmi_load d (get m)),
      dmi_store = (\<lambda>i v m. put (dmi_store d i v (get m)) m)\<rparr>"

text \<open>A slave without \<^verbatim>\<open>get_direct_mem_ptr\<close> refuses direct access.\<close>

definition no_dmi :: "payload \<Rightarrow> 'm \<Rightarrow> 'm dmi option res" where
  "no_dmi pl m = Inr None"

definition memory_slave ::
  "('m \<Rightarrow> GenericMemory) \<Rightarrow> (GenericMemory \<Rightarrow> 'm \<Rightarrow> 'm) \<Rightarrow> u16 \<Rightarrow> u16 \<Rightarrow> 'm BusSlave" where
  "memory_slave get put from to =
     \<lparr>addr_from = from, addr_to = to,
      slave_b_transport = on_part get put mem_b_transport,
      slave_transport_dbg = on_part get put mem_transport_dbg,
      slave_get_direct_mem_ptr = (\<lambda>pl m.
        map_sum id (map_option (dmi_on_part get put)) (mem_get_direct_mem_ptr pl (get m)))\<rparr>"

section \<open>The bus\<close>

definition AddBusSlave :: "'m BusSlave \<Rightarrow> 'm BusSlave list \<Rightarrow> 'm BusSlave list" where
  "AddBusSlave sl bus_slave_vec = bus_slave_vec @ [sl]"

fun bus_b_transport :: "'m BusSlave list \<Rightarrow> payload \<Rightarrow> 'm \<Rightarrow> (payload \<times> 'm) res" where
  "bus_b_transport [] pl m = Inr (pl\<lparr>response_status := TLM_ADDRESS_ERROR_RESPONSE\<rparr>, m)"
| "bus_b_transport (slave # rest) pl m =
     (if addr_from slave \<le> address pl \<and> address pl \<le> addr_to slave
      then slave_b_transport slave (pl\<lparr>address := address pl - addr_from slave\<rparr>) m
      else bus_b_transport rest pl m)"

fun bus_transport_dbg :: "'m BusSlave list \<Rightarrow> payload \<Rightarrow> 'm \<Rightarrow> (payload \<times> 'm) res" where
  "bus_transport_dbg [] pl m = Inr (pl\<lparr>response_status := TLM_ADDRESS_ERROR_RESPONSE\<rparr>, m)"
| "bus_transport_dbg (slave # rest) pl m =
     (if addr_from slave \<le> address pl \<and> address pl \<le> addr_to slave
      then slave_transport_dbg slave (pl\<lparr>address := address pl - addr_from slave\<rparr>) m
      else bus_transport_dbg rest pl m)"

fun bus_get_direct_mem_ptr :: "'m BusSlave list \<Rightarrow> payload \<Rightarrow> 'm \<Rightarrow> 'm dmi option res" where
  "bus_get_direct_mem_ptr [] pl m = Inr None"
| "bus_get_direct_mem_ptr (slave # rest) pl m =
     (if addr_from slave \<le> address pl \<and> address pl \<le> addr_to slave
      then slave_get_direct_mem_ptr slave (pl\<lparr>address := address pl - addr_from slave\<rparr>) m
      else bus_get_direct_mem_ptr rest pl m)"

text \<open>How the modules ask for a direct pointer at the start of the simulation, and their assertions.\<close>

definition dmi_at :: "'m BusSlave list \<Rightarrow> u16 \<Rightarrow> 'm \<Rightarrow> 'm dmi res" where
  "dmi_at slaves a m =
     rbind (bus_get_direct_mem_ptr slaves (MakeSharedPayloadPtr TLM_READ_COMMAND a 0) m)
       (\<lambda>d. case d of None \<Rightarrow> Inl DmiUnavailable | Some d \<Rightarrow> Inr d)"

definition require :: "bool \<Rightarrow> 'a res \<Rightarrow> 'a res" where
  "require b r = (if b then r else Inl AssertFailed)"

lemma require_simps [simp]: "require True r = r" "require False r = Inl AssertFailed"
  by (simp_all add: require_def)

section \<open>Address decoding\<close>

definition in_range :: "u16 \<Rightarrow> 'm BusSlave \<Rightarrow> bool" where
  "in_range a sl \<longleftrightarrow> addr_from sl \<le> a \<and> a \<le> addr_to sl"

definition disjoint_slaves :: "'m BusSlave \<Rightarrow> 'm BusSlave \<Rightarrow> bool" where
  "disjoint_slaves sl sl' \<longleftrightarrow> addr_to sl < addr_from sl' \<or> addr_to sl' < addr_from sl"

lemma disjoint_slaves_sym: "disjoint_slaves sl sl' \<Longrightarrow> disjoint_slaves sl' sl"
  by (auto simp: disjoint_slaves_def)

lemma disjoint_slaves_in_range:
  "disjoint_slaves sl sl' \<Longrightarrow> in_range a sl \<Longrightarrow> \<not> in_range a sl'"
  by (auto simp: disjoint_slaves_def in_range_def)

lemma bus_find:
  "bus_b_transport slaves pl m =
    (case find (in_range (address pl)) slaves of
       None \<Rightarrow> Inr (pl\<lparr>response_status := TLM_ADDRESS_ERROR_RESPONSE\<rparr>, m)
     | Some sl \<Rightarrow> slave_b_transport sl (pl\<lparr>address := address pl - addr_from sl\<rparr>) m)"
  "bus_transport_dbg slaves pl m =
    (case find (in_range (address pl)) slaves of
       None \<Rightarrow> Inr (pl\<lparr>response_status := TLM_ADDRESS_ERROR_RESPONSE\<rparr>, m)
     | Some sl \<Rightarrow> slave_transport_dbg sl (pl\<lparr>address := address pl - addr_from sl\<rparr>) m)"
  "bus_get_direct_mem_ptr slaves pl m =
    (case find (in_range (address pl)) slaves of
       None \<Rightarrow> Inr None
     | Some sl \<Rightarrow> slave_get_direct_mem_ptr sl (pl\<lparr>address := address pl - addr_from sl\<rparr>) m)"
  by (induction slaves) (auto simp: in_range_def)

text \<open>The ranges do not overlap: then at most one slave answers, whatever the order.\<close>

lemma find_unique:
  assumes "sorted_wrt disjoint_slaves slaves" and "sl \<in> set slaves" and "in_range a sl"
  shows "find (in_range a) slaves = Some sl"
  using assms
proof (induction slaves)
  case (Cons sl' slaves)
  show ?case
  proof (cases "in_range a sl'")
    case True
    have "sl = sl'"
      using Cons.prems True disjoint_slaves_in_range [OF _ True] by auto
    with True show ?thesis by simp
  next
    case False
    then show ?thesis using Cons by auto
  qed
qed simp

lemma find_perm:
  assumes "sorted_wrt disjoint_slaves slaves" and "sorted_wrt disjoint_slaves slaves'"
    and "set slaves = set slaves'"
  shows "find (in_range a) slaves = find (in_range a) slaves'"
proof (cases "\<exists>sl \<in> set slaves. in_range a sl")
  case True
  then obtain sl where "sl \<in> set slaves" "in_range a sl" by auto
  then show ?thesis using assms by (simp add: find_unique)
next
  case False
  then show ?thesis using assms(3) by (metis find_None_iff)
qed

lemma sorted_wrt_disjoint_perm:
  assumes "sorted_wrt disjoint_slaves slaves" and "mset slaves' = mset slaves"
  shows "sorted_wrt disjoint_slaves slaves'"
  using assms
proof (induction slaves' arbitrary: slaves)
  case (Cons sl slaves')
  from Cons.prems(2) have "sl \<in> set slaves"
    by (metis list.set_intros(1) set_mset_mset)
  then obtain xs ys where split: "slaves = xs @ sl # ys"
    by (auto dest: split_list)
  with Cons.prems have rest: "mset slaves' = mset (xs @ ys)"
    and xs: "\<forall>x \<in> set xs. disjoint_slaves x sl" and ys: "\<forall>y \<in> set ys. disjoint_slaves sl y"
    and sorted: "sorted_wrt disjoint_slaves (xs @ ys)"
    by (auto simp: sorted_wrt_append)
  have "set slaves' = set xs \<union> set ys"
    using rest by (metis mset_eq_setD set_append)
  with xs ys have "\<forall>x \<in> set slaves'. disjoint_slaves sl x"
    by (auto intro: disjoint_slaves_sym)
  moreover have "sorted_wrt disjoint_slaves slaves'"
    using Cons.IH sorted rest by blast
  ultimately show ?case by simp
qed simp

text \<open>The address a slave sees is relative to its range and within it.\<close>

lemma relative_address:
  assumes "in_range a sl"
  shows "unat (a - addr_from sl) = unat a - unat (addr_from sl)"
    and "unat (a - addr_from sl) \<le> unat (addr_to sl) - unat (addr_from sl)"
proof -
  have "addr_from sl \<le> a" "a \<le> addr_to sl" using assms by (simp_all add: in_range_def)
  then show "unat (a - addr_from sl) = unat a - unat (addr_from sl)"
    by (simp add: unat_sub word_le_nat_alt)
  then show "unat (a - addr_from sl) \<le> unat (addr_to sl) - unat (addr_from sl)"
    using \<open>a \<le> addr_to sl\<close> by (simp add: word_le_nat_alt diff_le_mono)
qed

section \<open>Properties\<close>

text \<open>
  C35. If the address ranges do not overlap, each of the three bus interfaces forwards an access to the
  one slave whose range holds the address, with the address relative to that range, whatever the order
  in which the slaves were added.
\<close>

theorem Bus_decodes:
  assumes "sorted_wrt disjoint_slaves slaves" and "mset slaves' = mset slaves"
    and "sl \<in> set slaves" and "in_range (address pl) sl"
  shows "bus_b_transport slaves' pl m =
      slave_b_transport sl (pl\<lparr>address := address pl - addr_from sl\<rparr>) m \<and>
    bus_transport_dbg slaves' pl m =
      slave_transport_dbg sl (pl\<lparr>address := address pl - addr_from sl\<rparr>) m \<and>
    bus_get_direct_mem_ptr slaves' pl m =
      slave_get_direct_mem_ptr sl (pl\<lparr>address := address pl - addr_from sl\<rparr>) m \<and>
    unat (address pl - addr_from sl) = unat (address pl) - unat (addr_from sl)"
proof -
  have "sl \<in> set slaves'" using assms(2,3) by (metis set_mset_mset)
  then have "find (in_range (address pl)) slaves' = Some sl"
    by (rule find_unique [OF sorted_wrt_disjoint_perm [OF assms(1,2)] _ assms(4)])
  then show ?thesis
    using relative_address(1) [OF assms(4)] by (simp add: bus_find)
qed

definition two_memories :: "(GenericMemory \<times> GenericMemory) BusSlave list" where
  "two_memories = [memory_slave fst (\<lambda>c m. (c, snd m)) 0x0000 0x00FF,
     memory_slave snd (\<lambda>c m. (fst m, c)) 0x0100 0x01FF]"

lemma Bus_decodes_witness:
  "\<exists>pl'. bus_b_transport (rev two_memories) (MakeSharedPayloadPtr TLM_READ_COMMAND 0x0180 0)
      (new_memory 256, (new_memory 256)\<lparr>mem_data := (\<lambda>_. 0)(0x80 := 7)\<rparr>) =
    Inr (pl', new_memory 256, (new_memory 256)\<lparr>mem_data := (\<lambda>_. 0)(0x80 := 7)\<rparr>) \<and>
    data_byte pl' = 7"
proof -
  let ?sl = "memory_slave snd (\<lambda>c m. (fst m, c)) 0x0100 0x01FF ::
    (GenericMemory \<times> GenericMemory) BusSlave"
  have "sorted_wrt disjoint_slaves two_memories" "?sl \<in> set two_memories"
    by (simp_all add: two_memories_def disjoint_slaves_def memory_slave_def)
  moreover have "in_range (0x0180 :: u16) ?sl"
    by (simp add: in_range_def memory_slave_def)
  ultimately show ?thesis
    using Bus_decodes [of two_memories "rev two_memories" ?sl
        "MakeSharedPayloadPtr TLM_READ_COMMAND 0x0180 0"]
    by (simp add: MakeSharedPayloadPtr_def memory_slave_def on_part_def mem_b_transport_def
        new_memory_def)
qed

text \<open>
  Loading a file from an offset copies the rest of the file into the memory and nothing else, if
  the rest fits; if it does not fit, \<open>offset\<close> bytes fewer than the memory could hold are copied.
\<close>

lemma LoadFromFile_copies:
  assumes "LoadFromFile (Some content) offset m = Inr m'"
  shows "memory_size m' = memory_size m \<and> offset \<le> length content \<and>
    mem_data m' i =
      (if i < (if memory_size m < length content - offset then memory_size m - offset
               else length content - offset)
       then content ! (offset + i) else mem_data m i)"
  using assms
  by (auto simp: LoadFromFile_def LoadFromFile_size_def Let_def of_nat_diff split: if_splits)

text \<open>
  Saving a memory to a file and loading the file into a memory of the same size restores it.
\<close>

lemma SaveToFile_LoadFromFile:
  assumes "memory_size m' = memory_size m"
  shows "\<exists>m''. LoadFromFile (Some (SaveToFile m)) 0 m' = Inr m'' \<and> memory_size m'' = memory_size m \<and>
    SaveToFile m'' = SaveToFile m"
  using assms by (simp add: LoadFromFile_def LoadFromFile_size_def SaveToFile_def)

end
