(* ===== verification/Float32.thy ===== *)
theory Float32
  imports Prelude Complex_Main "HOL-Library.Log_Nat"
begin

text \<open>
  The type \<^verbatim>\<open>float\<close> of the host: the finite numbers of the binary32 format of IEEE 754, as rational numbers.
  An operation is the exact one followed by \<open>f32\<close>, which rounds to the nearest number of the format, ties to
  even. The sign of zero and the values that are not finite are left out: no operation of the program
  that is modelled with them gets near \<open>2 ^ 128\<close>, and nothing divides by zero.
\<close>

section \<open>Rounding\<close>

definition exponent :: "rat \<Rightarrow> int" where
  "exponent x =
     (let (p, q) = quotient_of \<bar>x\<bar>; e = bitlen p - bitlen q in if 2 powi e \<le> \<bar>x\<bar> then e else e - 1)"

definition round_even :: "rat \<Rightarrow> int" where
  "round_even y =
     (let n = \<lfloor>y\<rfloor> in
      if y - of_int n < 1 / 2 \<or> y - of_int n = 1 / 2 \<and> even n then n else n + 1)"

definition f32 :: "rat \<Rightarrow> rat" where
  "f32 x = (let u = 2 powi (max (exponent x) (- 126) - 23) in of_int (round_even (x / u)) * u)"

text \<open>A conversion to an integer type drops the fraction.\<close>

definition to_integer :: "rat \<Rightarrow> int" where
  "to_integer x = (if 0 \<le> x then \<lfloor>x\<rfloor> else \<lceil>x\<rceil>)"

section \<open>The error of a rounding\<close>

lemma exponent_le:
  assumes "x \<noteq> 0"
  shows "2 powi exponent x \<le> \<bar>x\<bar>"
proof -
  obtain p q where pq: "quotient_of \<bar>x\<bar> = (p, q)" by fastforce
  have q: "0 < q" and x: "\<bar>x\<bar> = of_int p / of_int q"
    using quotient_of_denom_pos [OF pq] quotient_of_div [OF pq] by simp_all
  then have "0 < (of_int p :: rat)" using assms by (metis divide_le_0_iff of_int_0_less_iff not_less zero_less_abs_iff less_imp_le)
  then have p: "0 < p" by simp
  let ?e = "bitlen p - bitlen q"
  have bp: "2 ^ nat (bitlen p - 1) \<le> p" and bq: "q < 2 ^ nat (bitlen q)"
    using bitlen_bounds [OF p] bitlen_bounds [OF q] by simp_all
  have "0 < bitlen n" if "0 < n" for n
    using that bitlen_nonneg [of n] bitlen_eq_zero_iff [of n] by linarith
  then have pos: "0 < bitlen p" "0 < bitlen q" using p q by simp_all
  have "(2 :: rat) powi (bitlen p - 1) \<le> of_int p"
    using bp pos by (simp add: power_int_def)
  moreover have "of_int q \<le> (2 :: rat) powi bitlen q"
    using bq pos by (simp add: power_int_def)
  ultimately have "2 powi (bitlen p - 1) / 2 powi bitlen q \<le> \<bar>x\<bar>"
    unfolding x using q p by (intro frac_le) simp_all
  moreover have "(2 :: rat) powi (bitlen p - 1) / 2 powi bitlen q = 2 powi (?e - 1)"
    by (subst power_int_diff [symmetric]) (simp_all add: algebra_simps)
  ultimately have "2 powi (?e - 1) \<le> \<bar>x\<bar>" by simp
  then show ?thesis by (simp add: exponent_def pq Let_def)
qed

lemma exponent_0: "exponent 0 = - 2"
  by (simp add: exponent_def bitlen_def floorlog_def power_int_def)

lemma round_even_error: "\<bar>of_int (round_even y) - y\<bar> \<le> 1 / 2"
proof -
  have "of_int \<lfloor>y\<rfloor> \<le> y" "y < of_int \<lfloor>y\<rfloor> + 1" using floor_correct [of y] by simp_all
  then show ?thesis by (auto simp: round_even_def Let_def)
qed

lemma round_even_of_int [simp]: "round_even (of_int n) = n"
  by (simp add: round_even_def)

lemma round_even_0 [simp]: "round_even 0 = 0"
  using round_even_of_int [of 0] by simp

lemma f32_0 [simp]: "f32 0 = 0"
  by (simp add: f32_def)

lemma f32_error: "\<bar>f32 x - x\<bar> \<le> \<bar>x\<bar> / 2 ^ 24 + 1 / 2 ^ 150"
proof (cases "x = 0")
  case False
  let ?e = "max (exponent x) (- 126)"
  let ?u = "2 powi (?e - 23) :: rat"
  have u: "0 < ?u" by simp
  have "f32 x - x = (of_int (round_even (x / ?u)) - x / ?u) * ?u"
    by (simp add: f32_def Let_def left_diff_distrib)
  then have "\<bar>f32 x - x\<bar> = \<bar>of_int (round_even (x / ?u)) - x / ?u\<bar> * ?u"
    using u by (simp only: abs_mult abs_of_pos)
  also have "\<dots> \<le> 1 / 2 * ?u"
    using round_even_error u by (intro mult_right_mono) simp_all
  also have "\<dots> \<le> \<bar>x\<bar> / 2 ^ 24 + 1 / 2 ^ 150"
  proof (cases "- 126 \<le> exponent x")
    case True
    then have "1 / 2 * ?u = 2 powi exponent x / 2 ^ 24"
      by (simp add: max_def power_int_diff)
    then show ?thesis using exponent_le [OF False] by (simp add: divide_right_mono add_increasing2)
  next
    case neg: False
    then have "1 / 2 * ?u = 1 / 2 ^ 150" by (simp add: max_def power_int_def power_one_over)
    then show ?thesis by simp
  qed
  finally show ?thesis .
qed simp

lemma f32_nonneg: "0 \<le> x \<Longrightarrow> 0 \<le> f32 x"
proof -
  assume "0 \<le> x"
  then have "0 \<le> round_even (x / u)" if "0 < u" for u
    using that by (simp add: round_even_def Let_def)
  then show "0 \<le> f32 x" by (simp add: f32_def Let_def)
qed


lemma f32_bound: "\<bar>x\<bar> \<le> b \<Longrightarrow> \<bar>f32 x\<bar> \<le> b + b / 10 ^ 7 + 1 / 10 ^ 40"
  using f32_error [of x] by simp

lemma f32_bounds: "a \<le> x \<Longrightarrow> x \<le> b \<Longrightarrow> \<bar>a\<bar> \<le> c \<Longrightarrow> \<bar>b\<bar> \<le> c \<Longrightarrow>
  a - c / 10 ^ 7 - 1 / 10 ^ 40 \<le> f32 x \<and> f32 x \<le> b + c / 10 ^ 7 + 1 / 10 ^ 40"
proof -
  assume "a \<le> x" "x \<le> b" "\<bar>a\<bar> \<le> c" "\<bar>b\<bar> \<le> c"
  then have "\<bar>x\<bar> \<le> c" by linarith
  then have "\<bar>f32 x - x\<bar> \<le> c / 10 ^ 7 + 1 / 10 ^ 40" using f32_error [of x] by simp
  with \<open>a \<le> x\<close> \<open>x \<le> b\<close> show ?thesis by linarith
qed

lemma to_integer_le: "\<bar>of_int (to_integer x)\<bar> \<le> \<bar>x\<bar>"
proof (cases "0 \<le> x")
  case True
  then show ?thesis using floor_correct [of x] by (simp add: to_integer_def)
next
  case False
  then have "\<lceil>x\<rceil> \<le> 0" by simp
  then show ?thesis using False ceiling_correct [of x] by (simp add: to_integer_def)
qed

lemma f32_positive:
  "0 \<le> x \<Longrightarrow> x * (9999999 / 10 ^ 7) - 1 / 10 ^ 40 \<le> f32 x \<and> f32 x \<le> x * (10000001 / 10 ^ 7) + 1 / 10 ^ 40"
  using f32_bounds [of x x x x] by simp

lemma f32_large: "b \<le> \<bar>x\<bar> \<Longrightarrow> 0 \<le> b \<Longrightarrow> b * (9999999 / 10 ^ 7) - 1 / 10 ^ 40 \<le> \<bar>f32 x\<bar>"
proof -
  assume b: "b \<le> \<bar>x\<bar>" "0 \<le> b"
  have "\<bar>x\<bar> - \<bar>f32 x - x\<bar> \<le> \<bar>f32 x\<bar>" by linarith
  with f32_error [of x] b show "b * (9999999 / 10 ^ 7) - 1 / 10 ^ 40 \<le> \<bar>f32 x\<bar>" by simp
qed

lemma to_integer_ge: "\<bar>x\<bar> - 1 < \<bar>of_int (to_integer x)\<bar>"
proof (cases "0 \<le> x")
  case True
  then show ?thesis using floor_correct [of x] by (simp add: to_integer_def)
next
  case False
  then have "\<lceil>x\<rceil> \<le> 0" by simp
  then show ?thesis using False ceiling_correct [of x] by (simp add: to_integer_def)
qed

text \<open>Small natural numbers are numbers of the format.\<close>

lemma f32_small_table: "list_all (\<lambda>n. f32 (of_nat n) = of_nat n) [0..<17]"
  by code_simp

lemma f32_small: "n \<le> 16 \<Longrightarrow> f32 (of_nat n) = of_nat n"
  using f32_small_table by (simp add: list_all_iff)

end
