(* ===== verification/Apu.thy ===== *)
theory Apu
  imports Bus Float32
begin

text \<open>
  The sound unit of \<^verbatim>\<open>src/apu.cpp\<close> and \<^verbatim>\<open>src/apu.h\<close>: the four channels with their length counters, the
  frequency sweep of the first one, the volume envelopes, the shift register of the noise channel, and
  the samples that they write into SDL's buffer. The registers are those of the I/O module from 0xFF10
  on, which the unit reaches through a direct pointer; \<open>r\<close> stands for its bytes. Members of the type
  \<^verbatim>\<open>float\<close> are rational numbers that \<open>f32\<close> has rounded.
\<close>

section \<open>State\<close>

type_synonym apu_regs = "nat \<Rightarrow> u8"

text \<open>The pointers into the registers.\<close>

definition reg_nr10 :: nat where "reg_nr10 = 0xFF10 - 0xFF10"
definition reg_nr11 :: nat where "reg_nr11 = 0xFF11 - 0xFF10"
definition reg_nr12 :: nat where "reg_nr12 = 0xFF12 - 0xFF10"
definition reg_nr13 :: nat where "reg_nr13 = 0xFF13 - 0xFF10"
definition reg_nr14 :: nat where "reg_nr14 = 0xFF14 - 0xFF10"
definition reg_nr21 :: nat where "reg_nr21 = 0xFF16 - 0xFF10"
definition reg_nr22 :: nat where "reg_nr22 = 0xFF17 - 0xFF10"
definition reg_nr23 :: nat where "reg_nr23 = 0xFF18 - 0xFF10"
definition reg_nr24 :: nat where "reg_nr24 = 0xFF19 - 0xFF10"
definition reg_nr30 :: nat where "reg_nr30 = 0xFF1A - 0xFF10"
definition reg_nr31 :: nat where "reg_nr31 = 0xFF1B - 0xFF10"
definition reg_nr32 :: nat where "reg_nr32 = 0xFF1C - 0xFF10"
definition reg_nr33 :: nat where "reg_nr33 = 0xFF1D - 0xFF10"
definition reg_nr34 :: nat where "reg_nr34 = 0xFF1E - 0xFF10"
definition reg_nr41 :: nat where "reg_nr41 = 0xFF20 - 0xFF10"
definition reg_nr42 :: nat where "reg_nr42 = 0xFF21 - 0xFF10"
definition reg_nr43 :: nat where "reg_nr43 = 0xFF22 - 0xFF10"
definition reg_nr44 :: nat where "reg_nr44 = 0xFF23 - 0xFF10"
definition reg_nr52 :: nat where "reg_nr52 = 0xFF26 - 0xFF10"

lemmas apu_reg_defs = reg_nr10_def reg_nr11_def reg_nr12_def reg_nr13_def reg_nr14_def reg_nr21_def
  reg_nr22_def reg_nr23_def reg_nr24_def reg_nr30_def reg_nr31_def reg_nr32_def reg_nr33_def
  reg_nr34_def reg_nr41_def reg_nr42_def reg_nr43_def reg_nr44_def reg_nr52_def

definition kSquare1StatusMask :: u8 where "kSquare1StatusMask = 1"
definition kSquare2StatusMask :: u8 where "kSquare2StatusMask = push_bit 1 1"
definition kWaveStatusMask :: u8 where "kWaveStatusMask = push_bit 2 1"
definition kNoiseStatusMask :: u8 where "kNoiseStatusMask = push_bit 3 1"

lemmas apu_mask_defs = kSquare1StatusMask_def kSquare2StatusMask_def kWaveStatusMask_def
  kNoiseStatusMask_def

text \<open>\<open>uint\<close> is the 32-bit unsigned type of the host.\<close>

record Channel =
  length_enable :: bool
  volume :: int
  length_load :: u32

record Square = Channel +
  envelope_mode :: bool
  sweep_direction :: bool
  duty :: u32
  frequency :: u32
  period :: u32
  sweep_counter :: u32
  sweep_step :: u32
  sweep_period :: u32
  tick_counter :: rat
  phase :: rat

record Noise = Channel +
  noise_envelope_mode :: bool
  divisor :: u32
  lfsr_bits :: u32
  lfsr_width :: u32
  noise_period :: u32
  noise_shift :: u32
  cpu_ticks_per_lfsr_sample :: u32
  tick_cntr :: u32
  capacitor :: rat
  lfsr_sum :: rat

record Wave = Channel +
  dac_enable :: bool
  wave_period :: u32
  sample_index :: u32
  wave_tick_counter :: rat

text \<open>
  \<open>envelope_i\<close> is the static counter of \<^verbatim>\<open>UpdateEnvelopes\<close>, \<open>lfsr_sum\<close> the static sum of \<^verbatim>\<open>DoLfsrTicks\<close>,
  \<open>audio_pc\<close> the control point of the thread. But for the phases no constructor initialises the channels,
  so a new unit is an arbitrary one at the start of its thread.
\<close>

record Apu =
  square1 :: Square
  square2 :: Square
  noise :: Noise
  wave :: Wave
  envelope_i :: u32
  audio_pc :: nat

definition new_Apu :: "Square \<Rightarrow> Square \<Rightarrow> Noise \<Rightarrow> Wave \<Rightarrow> Apu" where
  "new_Apu s1 s2 n w =
     \<lparr>square1 = s1\<lparr>phase := 1\<rparr>, square2 = s2\<lparr>phase := 1\<rparr>, noise = n\<lparr>lfsr_sum := 0\<rparr>, wave = w,
      envelope_i = 0, audio_pc = 0\<rparr>"

section \<open>Length counters\<close>

definition dec_length :: "u8 \<Rightarrow> 'c Channel_scheme \<Rightarrow> u8 \<Rightarrow> 'c Channel_scheme \<times> u8" where
  "dec_length mask_bit ch nr52 =
     (if length_enable ch \<and> length_load ch \<ge> 1 then
        (let ch = ch\<lparr>length_load := length_load ch - 1\<rparr> in
         (ch, if length_load ch = 0 then nr52 AND NOT mask_bit else nr52))
      else (ch, nr52))"

definition DecrementLengths :: "apu_regs \<times> Apu \<Rightarrow> apu_regs \<times> Apu" where
  "DecrementLengths = (\<lambda>(r, a).
     let s1 = (square1 a)\<lparr>length_enable := r reg_nr14 AND 0x40 \<noteq> 0\<rparr>;
         s2 = (square2 a)\<lparr>length_enable := r reg_nr24 AND 0x40 \<noteq> 0\<rparr>;
         w = (wave a)\<lparr>length_enable := r reg_nr34 AND 0x40 \<noteq> 0\<rparr>;
         n = (noise a)\<lparr>length_enable := r reg_nr44 AND 0x40 \<noteq> 0\<rparr>;
         (s1, nr52) = dec_length kSquare1StatusMask s1 (r reg_nr52);
         (s2, nr52) = dec_length kSquare2StatusMask s2 nr52;
         (w, nr52) = dec_length kWaveStatusMask w nr52;
         (n, nr52) = dec_length kNoiseStatusMask n nr52 in
     (r(reg_nr52 := nr52), a\<lparr>square1 := s1, square2 := s2, wave := w, noise := n\<rparr>))"

definition ReloadLengthSquare1 :: "apu_regs \<Rightarrow> Apu \<Rightarrow> Apu" where
  "ReloadLengthSquare1 r a =
     a\<lparr>square1 := (square1 a)\<lparr>length_load := 64 - ucast (r reg_nr11 AND 0x3F)\<rparr>\<rparr>"

definition ReloadLengthSquare2 :: "apu_regs \<Rightarrow> Apu \<Rightarrow> Apu" where
  "ReloadLengthSquare2 r a =
     a\<lparr>square2 := (square2 a)\<lparr>length_load := 64 - ucast (r reg_nr21 AND 0x3F)\<rparr>\<rparr>"

definition ReloadLengthWave :: "apu_regs \<Rightarrow> Apu \<Rightarrow> Apu" where
  "ReloadLengthWave r a =
     a\<lparr>wave := (wave a)\<lparr>length_load := 256 - ucast (r reg_nr31)\<rparr>\<rparr>"

definition ReloadLengthNoise :: "apu_regs \<Rightarrow> Apu \<Rightarrow> Apu" where
  "ReloadLengthNoise r a =
     a\<lparr>noise := (noise a)\<lparr>length_load := 64 - ucast (r reg_nr41 AND 0x3F)\<rparr>\<rparr>"

section \<open>Triggers\<close>

definition TriggerEventSquare1 :: "apu_regs \<times> Apu \<Rightarrow> apu_regs \<times> Apu" where
  "TriggerEventSquare1 = (\<lambda>(r, a).
     let a = (if length_load (square1 a) = 0 then ReloadLengthSquare1 r a else a);
         a = a\<lparr>square1 := (square1 a)\<lparr>volume := uint (drop_bit 4 (r reg_nr12))\<rparr>\<rparr> in
     (if r reg_nr12 AND 0xF8 \<noteq> 0 then r(reg_nr52 := r reg_nr52 OR kSquare1StatusMask) else r, a))"

definition TriggerEventSquare2 :: "apu_regs \<times> Apu \<Rightarrow> apu_regs \<times> Apu" where
  "TriggerEventSquare2 = (\<lambda>(r, a).
     let a = (if length_load (square2 a) = 0 then ReloadLengthSquare2 r a else a);
         a = a\<lparr>square2 := (square2 a)\<lparr>volume := uint (drop_bit 4 (r reg_nr22))\<rparr>\<rparr> in
     (if r reg_nr22 AND 0xF8 \<noteq> 0 then r(reg_nr52 := r reg_nr52 OR kSquare2StatusMask) else r, a))"

definition TriggerEventWave :: "apu_regs \<times> Apu \<Rightarrow> apu_regs \<times> Apu" where
  "TriggerEventWave = (\<lambda>(r, a).
     let a = (if length_load (wave a) = 0 then ReloadLengthWave r a else a);
         a = a\<lparr>wave := (wave a)\<lparr>volume := uint (drop_bit 5 (r reg_nr32) AND 3)\<rparr>\<rparr> in
     (r(reg_nr52 := r reg_nr52 OR kWaveStatusMask), a))"

definition TriggerEventNoise :: "apu_regs \<times> Apu \<Rightarrow> apu_regs \<times> Apu" where
  "TriggerEventNoise = (\<lambda>(r, a).
     let a = (if length_load (noise a) = 0 then ReloadLengthNoise r a else a);
         a = a\<lparr>noise := (noise a)\<lparr>volume := uint (drop_bit 4 (r reg_nr42)), lfsr_bits := 0\<rparr>\<rparr> in
     (if r reg_nr42 AND 0xF8 \<noteq> 0 then r(reg_nr52 := r reg_nr52 OR kNoiseStatusMask) else r, a))"

section \<open>Sweep\<close>

text \<open>
  The arithmetic is unsigned: \<^verbatim>\<open>dir * square1.frequency\<close> converts the sign to \<^verbatim>\<open>uint\<close> before the division.
\<close>

definition DoSweep :: "apu_regs \<times> Apu \<Rightarrow> apu_regs \<times> Apu" where
  "DoSweep = (\<lambda>(r, a).
     let s = (square1 a)\<lparr>sweep_step := ucast (r reg_nr10 AND 7),
           sweep_direction := r reg_nr10 AND 8 \<noteq> 0,
           sweep_period := ucast (drop_bit 4 (r reg_nr10) AND 7)\<rparr> in
     if sweep_period s = 0 then (r, a\<lparr>square1 := s\<rparr>)
     else if sweep_counter s \<ge> sweep_period s then
       (let dir = (if sweep_direction s then - 1 else 1);
            s = s\<lparr>frequency := frequency s + dir * frequency s div push_bit (unat (sweep_step s)) 1\<rparr>;
            r = (if frequency s > 2047 then r(reg_nr52 := r reg_nr52 AND NOT kSquare1StatusMask) else r);
            s = s\<lparr>frequency := min 2047 (frequency s)\<rparr>;
            s = s\<lparr>sweep_counter := 0\<rparr>;
            r = r(reg_nr13 := ucast (frequency s AND 0xFF));
            r = r(reg_nr14 := ucast (drop_bit 8 (frequency s AND 0x700))) in
        (r, a\<lparr>square1 := s\<rparr>))
     else (r, a\<lparr>square1 := s\<lparr>sweep_counter := sweep_counter s + 1\<rparr>\<rparr>))"

section \<open>Envelopes\<close>

definition envelope :: "bool \<Rightarrow> u32 \<Rightarrow> u32 \<Rightarrow> int \<Rightarrow> int" where
  "envelope mode per i vol =
     (if per \<noteq> 0 then
        (if i mod per = 0 then (if mode then min (vol + 1) 15 else max (vol - 1) 0) else vol)
      else vol)"

definition UpdateEnvelopes :: "apu_regs \<Rightarrow> Apu \<Rightarrow> Apu" where
  "UpdateEnvelopes r a =
     (let i = envelope_i a;
          s1 = (square1 a)\<lparr>envelope_mode := r reg_nr12 AND 8 \<noteq> 0, period := ucast (r reg_nr12 AND 7)\<rparr>;
          s1 = s1\<lparr>volume := envelope (envelope_mode s1) (period s1) i (volume s1)\<rparr>;
          s2 = (square2 a)\<lparr>envelope_mode := r reg_nr22 AND 8 \<noteq> 0, period := ucast (r reg_nr22 AND 7)\<rparr>;
          s2 = s2\<lparr>volume := envelope (envelope_mode s2) (period s2) i (volume s2)\<rparr>;
          n = (noise a)\<lparr>noise_envelope_mode := r reg_nr42 AND 8 \<noteq> 0,
            noise_period := ucast (r reg_nr42 AND 7)\<rparr>;
          n = n\<lparr>volume := envelope (noise_envelope_mode n) (noise_period n) i (volume n)\<rparr> in
      a\<lparr>square1 := s1, square2 := s2, noise := n, envelope_i := i + 1\<rparr>)"

section \<open>Square waves\<close>

definition kSampleRate :: rat where "kSampleRate = 44000"

definition SDL_MAX_SINT16 :: rat where "SDL_MAX_SINT16 = 0x7FFF"

definition periods_per_sample :: "u32 \<Rightarrow> rat" where
  "periods_per_sample freq = f32 (f32 (131072 / kSampleRate) / f32 (of_int (uint (2048 - freq))))"

definition fduty :: "u32 \<Rightarrow> rat" where
  "fduty d =
     (if d = 0 then 1 / 8 else if d = 1 then 1 / 4 else if d = 2 then 1 / 2
      else if d = 3 then 3 / 4 else 1 / 2)"

text \<open>The factor \<^verbatim>\<open>((float)volume) / 60.f\<close>.\<close>

definition gain :: "'c Channel_scheme \<Rightarrow> rat" where
  "gain ch = f32 (f32 (of_int (volume ch)) / 60)"

text \<open>One round of the loop: what it adds to the sample, and the channel after it.\<close>

definition square_step :: "rat \<Rightarrow> rat \<Rightarrow> Square \<Rightarrow> rat \<times> Square" where
  "square_step periods dut s =
     (let d = (if phase s = 1 then dut else f32 (1 - dut)) in
      if tick_counter s < d then
        (f32 (f32 (SDL_MAX_SINT16 * phase s) * gain s),
         s\<lparr>tick_counter := f32 (tick_counter s + periods)\<rparr>)
      else
        (let s = s\<lparr>tick_counter := f32 (tick_counter s - d)\<rparr>;
             factor = f32 (tick_counter s / periods);
             s = s\<lparr>phase := - phase s\<rparr> in
         (f32 (f32 (f32 (f32 (f32 (2 * factor) - 1) * SDL_MAX_SINT16) * phase s) * gain s),
          s\<lparr>tick_counter := f32 (tick_counter s + periods)\<rparr>)))"

fun square_samples :: "nat \<Rightarrow> rat \<Rightarrow> rat \<Rightarrow> Square \<Rightarrow> rat list \<times> Square" where
  "square_samples 0 periods dut s = ([], s)"
| "square_samples (Suc k) periods dut s =
     (let (x, s) = square_step periods dut s; (xs, s) = square_samples k periods dut s in (x # xs, s))"

text \<open>
  A channel's contribution to the buffer, one value for each sample, or none if it is silent. A value is
  an error where the code reads outside a memory.
\<close>

definition Square_WriteDataIntoStream :: "nat \<Rightarrow> Square \<Rightarrow> rat res list \<times> Square" where
  "Square_WriteDataIntoStream len s =
     (if length_load s = 0 \<and> length_enable s then ([], s)
      else if volume s = 0 then ([], s)
      else if periods_per_sample (frequency s) \<ge> fduty (duty s) then ([], s)
      else
        (let (xs, s) = square_samples len (periods_per_sample (frequency s)) (fduty (duty s)) s in
         (map Inr xs, s)))"

section \<open>Noise\<close>

text \<open>A negative number of ticks is none, but divides the sum.\<close>

definition lfsr_tick :: "u32 \<Rightarrow> u32 \<Rightarrow> u32" where
  "lfsr_tick width bits =
     (let val = of_bool ((bits AND 1) XOR (drop_bit 1 bits AND 1) = 0);
          bits = bits OR push_bit (unat width) val in
      drop_bit 1 bits)"

fun lfsr_ticks :: "u32 \<Rightarrow> nat \<Rightarrow> u32 \<Rightarrow> rat \<Rightarrow> u32 \<times> rat" where
  "lfsr_ticks width 0 bits acc = (bits, acc)"
| "lfsr_ticks width (Suc k) bits acc =
     (let bits = lfsr_tick width bits in
      lfsr_ticks width k bits (f32 (acc + of_nat (unat (bits AND 1)))))"

definition DoLfsrTicks :: "int \<Rightarrow> Noise \<Rightarrow> rat \<times> Noise" where
  "DoLfsrTicks num_ticks n =
     (if num_ticks = 0 then (lfsr_sum n, n)
      else
        (let (bits, acc) = lfsr_ticks (lfsr_width n) (nat num_ticks) (lfsr_bits n) 0 in
         (f32 (acc / f32 (of_int num_ticks)), n\<lparr>lfsr_bits := bits, lfsr_sum := acc\<rparr>)))"

definition Hipass :: "rat \<Rightarrow> Noise \<Rightarrow> rat \<times> Noise" where
  "Hipass sample n =
     (let out = f32 (sample - capacitor n) in
      (out, n\<lparr>capacitor := f32 (sample - f32 (out * f32 (996 / 1000)))\<rparr>))"

definition stream_sample_length :: u32 where
  "stream_sample_length = 4194304 div 44000"

definition noise_step :: "Noise \<Rightarrow> rat \<times> Noise" where
  "noise_step n =
     (let n = n\<lparr>tick_cntr := tick_cntr n + stream_sample_length\<rparr>;
          ticks = tick_cntr n div cpu_ticks_per_lfsr_sample n;
          (sample, n) = DoLfsrTicks (sint ticks) n;
          (sample, n) = Hipass sample n;
          n = n\<lparr>tick_cntr := tick_cntr n - ticks * cpu_ticks_per_lfsr_sample n\<rparr> in
      (f32 (f32 (SDL_MAX_SINT16 * f32 (f32 (2 * sample) - 1)) * gain n), n))"

fun noise_samples :: "nat \<Rightarrow> Noise \<Rightarrow> rat list \<times> Noise" where
  "noise_samples 0 n = ([], n)"
| "noise_samples (Suc k) n =
     (let (x, n) = noise_step n; (xs, n) = noise_samples k n in (x # xs, n))"

definition Noise_WriteDataIntoStream :: "nat \<Rightarrow> Noise \<Rightarrow> rat res list \<times> Noise" where
  "Noise_WriteDataIntoStream len n =
     (if length_load n = 0 \<and> length_enable n then ([], n)
      else (let (xs, n) = noise_samples len n in (map Inr xs, n)))"

section \<open>The wave channel\<close>

definition fvolume :: "int \<Rightarrow> rat" where
  "fvolume v = (if v = 0 then 0 else if v = 1 then 1 else if v = 2 then 1 / 2 else if v = 3 then 1 / 4 else 0)"

definition entries_per_sample :: "u32 \<Rightarrow> rat" where
  "entries_per_sample per = f32 (f32 (2097152 / kSampleRate) / f32 (2048 - f32 (of_int (uint per))))"

text \<open>The wave table starts at 0xFF30; the pointer is one into the memory of the I/O registers.\<close>

definition wave_nibble :: "apu_regs \<Rightarrow> u32 \<Rightarrow> u8 res" where
  "wave_nibble r i =
     (if unat i div 2 < 0x60 then
        (let sample = r (0x20 + unat i div 2) in
         Inr (if i mod 2 \<noteq> 0 then sample AND 0xF else drop_bit 4 (sample AND 0xF0)))
      else Inl OutOfBounds)"

definition wave_step :: "rat \<Rightarrow> apu_regs \<Rightarrow> Wave \<Rightarrow> rat res \<times> Wave" where
  "wave_step entries r w =
     (let w = w\<lparr>wave_tick_counter := f32 (wave_tick_counter w + entries)\<rparr>;
          w = (if wave_tick_counter w \<ge> 1 then
                 (let w = w\<lparr>sample_index := sample_index w + 1\<rparr>;
                      w = w\<lparr>wave_tick_counter := f32 (wave_tick_counter w - 1)\<rparr> in
                  w\<lparr>sample_index := (if sample_index w > 31 then 0 else sample_index w)\<rparr>)
               else w) in
      (map_sum id (\<lambda>sample. f32 (f32 (SDL_MAX_SINT16 *
         f32 (f32 (f32 (2 * of_nat (unat sample)) / 15) - 1)) * f32 (fvolume (volume w) * (1 / 4))))
         (wave_nibble r (sample_index w)), w))"

fun wave_samples :: "nat \<Rightarrow> rat \<Rightarrow> apu_regs \<Rightarrow> Wave \<Rightarrow> rat res list \<times> Wave" where
  "wave_samples 0 entries r w = ([], w)"
| "wave_samples (Suc k) entries r w =
     (let (x, w) = wave_step entries r w; (xs, w) = wave_samples k entries r w in (x # xs, w))"

definition Wave_WriteDataIntoStream :: "nat \<Rightarrow> apu_regs \<Rightarrow> Wave \<Rightarrow> rat res list \<times> Wave" where
  "Wave_WriteDataIntoStream len r w =
     (if length_load w = 0 \<and> length_enable w then ([], w)
      else if \<not> dac_enable w then ([], w)
      else if fvolume (volume w) = 0 then ([], w)
      else if entries_per_sample (wave_period w) \<ge> 1 then ([], w)
      else wave_samples len (entries_per_sample (wave_period w)) r w)"

section \<open>The callback\<close>

definition reg_frequency :: "u8 \<Rightarrow> u8 \<Rightarrow> u32" where
  "reg_frequency frequency_lsb frequency_msb =
     push_bit 8 (ucast (frequency_msb AND 7)) OR ucast frequency_lsb"

definition divisor_table :: "u32 list" where
  "divisor_table = [8, 16, 32, 48, 64, 80, 96, 112]"

text \<open>
  SDL's call for a buffer of \<open>len\<close> samples. It runs in a thread of its own; here it is one step. The
  channels read their registers and write one after the other: \<open>audio_channels\<close> are the values that they
  add to the buffer, and the unit after it.
\<close>

definition audio_channels :: "nat \<Rightarrow> apu_regs \<Rightarrow> Apu \<Rightarrow> rat res list list \<times> Apu" where
  "audio_channels len r a =
     (if drop_bit 7 (r reg_nr52) = 0 then ([], a)
      else
       (let s1 = (square1 a)\<lparr>duty := ucast (drop_bit 6 (r reg_nr11)),
              frequency := reg_frequency (r reg_nr13) (r reg_nr14)\<rparr>;
            (xs1, s1) = Square_WriteDataIntoStream len s1;
            s2 = (square2 a)\<lparr>duty := ucast (drop_bit 6 (r reg_nr21)),
              frequency := reg_frequency (r reg_nr23) (r reg_nr24)\<rparr>;
            (xs2, s2) = Square_WriteDataIntoStream len s2;
            w = (wave a)\<lparr>dac_enable := r reg_nr30 AND 0x80 \<noteq> 0,
              volume := uint (drop_bit 5 (r reg_nr32) AND 3),
              wave_period := reg_frequency (r reg_nr33) (r reg_nr34)\<rparr>;
            (xsw, w) = Wave_WriteDataIntoStream len r w;
            n = (noise a)\<lparr>divisor := divisor_table ! unat (r reg_nr43 AND 7),
              lfsr_width := (if drop_bit 3 (r reg_nr43) AND 1 \<noteq> 0 then 7 else 15),
              noise_shift := ucast (drop_bit 4 (r reg_nr43))\<rparr>;
            n = n\<lparr>cpu_ticks_per_lfsr_sample := push_bit (unat (noise_shift n)) (divisor n)\<rparr>;
            (xsn, n) = Noise_WriteDataIntoStream len n in
        ([xs1, xs2, xsw, xsn], a\<lparr>square1 := s1, square2 := s2, wave := w, noise := n\<rparr>)))"

text \<open>
  \<^verbatim>\<open>stream[i] += x\<close>: the sum is a \<^verbatim>\<open>float\<close>, and its conversion to 16 bits is undefined when the number does
  not fit.
\<close>

definition add_sample :: "int \<Rightarrow> rat \<Rightarrow> int res" where
  "add_sample sample x =
     (let v = to_integer (f32 (f32 (of_int sample) + x)) in
      if - 0x8000 \<le> v \<and> v \<le> 0x7FFF then Inr v else Inl FloatConversion)"

fun add_channel :: "rat res list \<Rightarrow> int list \<Rightarrow> int list res" where
  "add_channel (y # ys) (sample # stream) =
     rbind y (\<lambda>x.
     rbind (add_sample sample x) (\<lambda>sample.
     rbind (add_channel ys stream) (\<lambda>stream. Inr (sample # stream))))"
| "add_channel ys stream = Inr stream"

definition audio_stream :: "nat \<Rightarrow> apu_regs \<Rightarrow> Apu \<Rightarrow> int list res" where
  "audio_stream len r a = for_each (fst (audio_channels len r a)) add_channel (replicate len 0)"

definition audio_callback :: "nat \<Rightarrow> apu_regs \<Rightarrow> Apu \<Rightarrow> Apu" where
  "audio_callback len r a = snd (audio_channels len r a)"

section \<open>The thread\<close>

text \<open>From one wait to the next one, with the clock cycles that it waits.\<close>

definition AudioLoop_step :: "apu_regs \<times> Apu \<Rightarrow> nat \<times> apu_regs \<times> Apu" where
  "AudioLoop_step = (\<lambda>(r, a).
     case audio_pc a of
       0 \<Rightarrow> (16384 * kNsPerClkCycle, DecrementLengths (r, a\<lparr>audio_pc := 1\<rparr>))
     | Suc 0 \<Rightarrow> (16384 * kNsPerClkCycle, DoSweep (DecrementLengths (r, a\<lparr>audio_pc := 2\<rparr>)))
     | Suc (Suc 0) \<Rightarrow> (16384 * kNsPerClkCycle, DecrementLengths (r, a\<lparr>audio_pc := 3\<rparr>))
     | Suc (Suc (Suc 0)) \<Rightarrow> (8192 * kNsPerClkCycle, DoSweep (DecrementLengths (r, a\<lparr>audio_pc := 4\<rparr>)))
     | _ \<Rightarrow> (8192 * kNsPerClkCycle, r, UpdateEnvelopes r (a\<lparr>audio_pc := 0\<rparr>)))"

section \<open>Start of the simulation\<close>

definition apu_start_of_simulation :: "'m BusSlave list \<Rightarrow> 'm \<Rightarrow> 'm dmi res" where
  "apu_start_of_simulation slaves m =
     rbind (dmi_at slaves 0xFF10 m) (\<lambda>io.
     require (dmi_start io = 0) (require (0x16 \<le> dmi_end io) (Inr io)))"

end
