(* ===== verification/Apu_Properties.thy ===== *)
theory Apu_Properties
  imports Apu
begin

text \<open>
  The properties of the sound unit: length counters that switch their channel off in time, the sweep,
  the bounds of every counter, and the period of the noise.
\<close>

section \<open>Length counters\<close>

text \<open>The channels in the order of the status bits of NR52.\<close>

definition channel_length :: "nat \<Rightarrow> Apu \<Rightarrow> u32" where
  "channel_length i a =
     [length_load (square1 a), length_load (square2 a), length_load (wave a), length_load (noise a)] ! i"

definition channel_nr4 :: "nat \<Rightarrow> nat" where
  "channel_nr4 i = [reg_nr14, reg_nr24, reg_nr34, reg_nr44] ! i"

lemma enable_bit: "(v :: u8) AND 0x40 \<noteq> 0 \<longleftrightarrow> bit v 6"
  by (simp add: u8_eq_iff_bits bit_simps)

lemma load_pos: "(1 :: u32) \<le> n \<longleftrightarrow> n \<noteq> 0"
  by (simp add: word_le_nat_alt word_unat_eq_iff) linarith

text \<open>The length counter and the status register after a clock of the counters.\<close>

definition clocked :: "bool \<Rightarrow> u32 \<Rightarrow> u32" where
  "clocked en n = (if en \<and> n \<noteq> 0 then n - 1 else n)"

definition ended :: "bool \<Rightarrow> u32 \<Rightarrow> u8 \<Rightarrow> u8 \<Rightarrow> u8" where
  "ended en n m s = (if en \<and> n = 1 then s AND NOT m else s)"

lemma dec_length_eq:
  "dec_length m ch s =
    (ch\<lparr>length_load := clocked (length_enable ch) (length_load ch)\<rparr>,
     ended (length_enable ch) (length_load ch) m s)"
  by (auto simp: dec_length_def Let_def load_pos clocked_def ended_def)

lemma DecrementLengths_eq:
  fixes a :: Apu
  shows "DecrementLengths (r, a) =
    (r(reg_nr52 := ended (bit (r reg_nr44) 6) (length_load (noise a)) 8
        (ended (bit (r reg_nr34) 6) (length_load (wave a)) 4
        (ended (bit (r reg_nr24) 6) (length_load (square2 a)) 2
        (ended (bit (r reg_nr14) 6) (length_load (square1 a)) 1 (r reg_nr52))))),
     a\<lparr>square1 := (square1 a)\<lparr>length_enable := bit (r reg_nr14) 6,
          length_load := clocked (bit (r reg_nr14) 6) (length_load (square1 a))\<rparr>,
       square2 := (square2 a)\<lparr>length_enable := bit (r reg_nr24) 6,
          length_load := clocked (bit (r reg_nr24) 6) (length_load (square2 a))\<rparr>,
       wave := (wave a)\<lparr>length_enable := bit (r reg_nr34) 6,
          length_load := clocked (bit (r reg_nr34) 6) (length_load (wave a))\<rparr>,
       noise := (noise a)\<lparr>length_enable := bit (r reg_nr44) 6,
          length_load := clocked (bit (r reg_nr44) 6) (length_load (noise a))\<rparr>\<rparr>)"
  by (simp add: DecrementLengths_def dec_length_eq enable_bit apu_mask_defs Let_def del: bit_and_iff)

lemma ended_push_bit:
  "k < 8 \<Longrightarrow> bit (ended en n (push_bit k 1) s) i \<longleftrightarrow> bit s i \<and> \<not> (i = k \<and> en \<and> n = 1)"
  using bit_imp_le_length [of s i] by (auto simp: ended_def bit_simps)

lemma ended_bit:
  "bit (ended en n 1 s) i \<longleftrightarrow> bit s i \<and> \<not> (i = 0 \<and> en \<and> n = 1)"
  "bit (ended en n 2 s) i \<longleftrightarrow> bit s i \<and> \<not> (i = 1 \<and> en \<and> n = 1)"
  "bit (ended en n 4 s) i \<longleftrightarrow> bit s i \<and> \<not> (i = 2 \<and> en \<and> n = 1)"
  "bit (ended en n 8 s) i \<longleftrightarrow> bit s i \<and> \<not> (i = 3 \<and> en \<and> n = 1)"
  using ended_push_bit [of 0 en n s i] ended_push_bit [of 1 en n s i] ended_push_bit [of 2 en n s i]
    ended_push_bit [of 3 en n s i]
  by simp_all

lemma DecrementLengths_channel:
  assumes "i < 4"
  shows "channel_length i (snd (DecrementLengths (r, a))) =
      clocked (bit (r (channel_nr4 i)) 6) (channel_length i a)"
    and "channel_nr4 i \<noteq> reg_nr52" and "fst (DecrementLengths (r, a)) (channel_nr4 i) = r (channel_nr4 i)"
    and "bit (fst (DecrementLengths (r, a)) reg_nr52) i \<longleftrightarrow>
      bit (r reg_nr52) i \<and> \<not> (bit (r (channel_nr4 i)) 6 \<and> channel_length i a = 1)"
proof -
  have i: "i = 0 \<or> i = 1 \<or> i = 2 \<or> i = 3" using assms by auto
  show "channel_length i (snd (DecrementLengths (r, a))) =
      clocked (bit (r (channel_nr4 i)) 6) (channel_length i a)"
    using i by (elim disjE) (simp_all add: DecrementLengths_eq channel_length_def channel_nr4_def)
  show nr4: "channel_nr4 i \<noteq> reg_nr52"
    using i by (elim disjE) (simp_all add: channel_nr4_def apu_reg_defs)
  then show "fst (DecrementLengths (r, a)) (channel_nr4 i) = r (channel_nr4 i)"
    by (simp add: DecrementLengths_eq)
  show "bit (fst (DecrementLengths (r, a)) reg_nr52) i \<longleftrightarrow>
      bit (r reg_nr52) i \<and> \<not> (bit (r (channel_nr4 i)) 6 \<and> channel_length i a = 1)"
    using i by (elim disjE) (simp_all add: DecrementLengths_eq channel_length_def channel_nr4_def ended_bit)
qed

lemma DecrementLengths_iterate:
  assumes "i < 4" and "bit (r (channel_nr4 i)) 6"
  shows "fst ((DecrementLengths ^^ k) (r, a)) (channel_nr4 i) = r (channel_nr4 i) \<and>
    unat (channel_length i (snd ((DecrementLengths ^^ k) (r, a)))) = unat (channel_length i a) - k \<and>
    (bit (fst ((DecrementLengths ^^ k) (r, a)) reg_nr52) i \<longleftrightarrow>
      bit (r reg_nr52) i \<and> (k < unat (channel_length i a) \<or> channel_length i a = 0))"
proof (induction k)
  case (Suc k)
  obtain r' a' where s: "(DecrementLengths ^^ k) (r, a) = (r', a')" by fastforce
  note step = DecrementLengths_channel(1) [OF assms(1), of r' a'] DecrementLengths_channel(3,4) [OF assms(1)]
  have en: "bit (r' (channel_nr4 i)) 6" using Suc s assms(2) by simp
  let ?l = "channel_length i a'"
  have l: "unat ?l = unat (channel_length i a) - k" using Suc s by simp
  have "unat (clocked True ?l) = unat ?l - 1"
    by (simp add: clocked_def unat_minus_one)
  moreover have "?l = 1 \<longleftrightarrow> unat (channel_length i a) = Suc k"
    using l by (auto simp: word_unat_eq_iff)
  moreover have "channel_length i a = 0 \<longleftrightarrow> unat (channel_length i a) = 0"
    by (simp add: word_unat_eq_iff)
  ultimately show ?case
    using Suc s step en l by (auto simp: less_Suc_eq)
qed (auto simp: word_unat_eq_iff)

section \<open>The invariant\<close>

definition channel_ok :: "nat \<Rightarrow> int \<Rightarrow> 'c Channel_scheme \<Rightarrow> bool" where
  "channel_ok len vol ch \<longleftrightarrow> unat (length_load ch) \<le> len \<and> 0 \<le> volume ch \<and> volume ch \<le> vol"

definition apu_ok :: "Apu \<Rightarrow> bool" where
  "apu_ok a \<longleftrightarrow> channel_ok 64 15 (square1 a) \<and> channel_ok 64 15 (square2 a) \<and> channel_ok 256 3 (wave a) \<and>
     channel_ok 64 15 (noise a) \<and> unat (frequency (square1 a)) < 2048 \<and> unat (frequency (square2 a)) < 2048 \<and>
     unat (lfsr_bits (noise a)) < 2 ^ 15 \<and> audio_pc a < 5"

lemma channel_ok_clocked:
  assumes "channel_ok len vol ch"
  shows "channel_ok len vol (ch\<lparr>length_enable := b, length_load := clocked en (length_load ch)\<rparr>)"
proof -
  have "unat (clocked en (length_load ch)) \<le> unat (length_load ch)"
    by (simp add: clocked_def unat_minus_one)
  then show ?thesis using assms by (simp add: channel_ok_def)
qed

lemma DecrementLengths_ok: "apu_ok a \<Longrightarrow> apu_ok (snd (DecrementLengths (r, a)))"
  by (simp add: apu_ok_def DecrementLengths_eq channel_ok_clocked)

text \<open>Reloading and triggering.\<close>

lemma unat_ucast_u8_u32 [simp]: "unat (ucast (v :: u8) :: u32) = unat v"
  by (simp add: unsigned_ucast_eq take_bit_nat_eq_self_iff order.strict_trans [OF unat_u8_less])

lemma reload_less: "unat (64 - ucast (v AND 0x3F) :: u32) \<le> 64" "unat (256 - ucast (v :: u8) :: u32) \<le> 256"
proof -
  have "unat (v AND 0x3F :: u8) \<le> 0x3F" for v
    using word_and_le1 [of v "0x3F"] by (simp add: word_le_nat_alt)
  then have "unat (ucast (v AND 0x3F :: u8) :: u32) \<le> 0x3F" for v
    by simp
  moreover have "unat (64 - x) \<le> 64" if "unat x \<le> 0x3F" for x :: u32
    using that unat_sub [of x 64] by (simp add: word_le_nat_alt)
  ultimately show "unat (64 - ucast (v AND 0x3F) :: u32) \<le> 64" by blast
  have "unat (ucast (v :: u8) :: u32) < 256"
    using unat_u8_less [of v] by simp
  then show "unat (256 - ucast (v :: u8) :: u32) \<le> 256"
    using unat_sub [of "ucast v :: u32" 256] by (simp add: word_le_nat_alt)
qed

lemma reloads_ok:
  "apu_ok a \<Longrightarrow> apu_ok (ReloadLengthSquare1 r a)" "apu_ok a \<Longrightarrow> apu_ok (ReloadLengthSquare2 r a)"
  "apu_ok a \<Longrightarrow> apu_ok (ReloadLengthWave r a)" "apu_ok a \<Longrightarrow> apu_ok (ReloadLengthNoise r a)"
  by (simp_all add: apu_ok_def channel_ok_def reload_less ReloadLengthSquare1_def ReloadLengthSquare2_def
      ReloadLengthWave_def ReloadLengthNoise_def)

lemma volume_less:
  "0 \<le> uint (drop_bit 4 (v :: u8))" "uint (drop_bit 4 (v :: u8)) \<le> 15"
  "0 \<le> uint ((v :: u8) AND 3)" "uint ((v :: u8) AND 3) \<le> 3"
proof -
  have "unat (drop_bit 4 v) = unat v div 16" by (subst unat_drop_bit_eq) (simp add: drop_bit_eq_div)
  then show "uint (drop_bit 4 v) \<le> 15" using unat_u8_less [of v] unfolding uint_nat by linarith
  have "v AND 3 \<le> 3" by (rule word_and_le1)
  then show "uint (v AND 3) \<le> 3" by (simp add: word_le_def)
qed simp_all

lemma triggers_ok:
  assumes "apu_ok a"
  shows "apu_ok (snd (TriggerEventSquare1 (r, a)))" "apu_ok (snd (TriggerEventSquare2 (r, a)))"
    "apu_ok (snd (TriggerEventWave (r, a)))" "apu_ok (snd (TriggerEventNoise (r, a)))"
proof -
  have volumes: "apu_ok b \<Longrightarrow> apu_ok (b\<lparr>square1 := (square1 b)\<lparr>volume := uint (drop_bit 4 v)\<rparr>\<rparr>)"
    "apu_ok b \<Longrightarrow> apu_ok (b\<lparr>square2 := (square2 b)\<lparr>volume := uint (drop_bit 4 v)\<rparr>\<rparr>)"
    "apu_ok b \<Longrightarrow> apu_ok (b\<lparr>wave := (wave b)\<lparr>volume := uint (x AND 3)\<rparr>\<rparr>)"
    "apu_ok b \<Longrightarrow> apu_ok (b\<lparr>noise := (noise b)\<lparr>volume := uint (drop_bit 4 v), lfsr_bits := 0\<rparr>\<rparr>)"
    for b :: Apu and v x :: u8
    by (simp_all add: apu_ok_def channel_ok_def volume_less)
  show "apu_ok (snd (TriggerEventSquare1 (r, a)))" "apu_ok (snd (TriggerEventSquare2 (r, a)))"
    "apu_ok (snd (TriggerEventWave (r, a)))" "apu_ok (snd (TriggerEventNoise (r, a)))"
    unfolding TriggerEventSquare1_def TriggerEventSquare2_def TriggerEventWave_def TriggerEventNoise_def
      prod.case Let_def snd_conv
    using assms by (intro volumes, simp add: reloads_ok)+
qed

lemma unat_less_bits: "unat (w :: u32) < 2 ^ k \<longleftrightarrow> (\<forall>n \<ge> k. \<not> bit w n)"
proof -
  have "unat w < 2 ^ k \<longleftrightarrow> take_bit k (unat w) = unat w" by (simp add: take_bit_nat_eq_self_iff)
  also have "\<dots> \<longleftrightarrow> take_bit k w = w" by (simp add: word_unat_eq_iff unsigned_take_bit_eq)
  also have "\<dots> \<longleftrightarrow> (\<forall>n \<ge> k. \<not> bit w n)"
    by (metis bit_take_bit_iff bit_eq_iff not_le)
  finally show ?thesis .
qed

section \<open>Sweep\<close>

text \<open>The registers and the clock of the sweep.\<close>

definition sweep_due :: "apu_regs \<Rightarrow> Apu \<Rightarrow> bool" where
  "sweep_due r a \<longleftrightarrow> drop_bit 4 (r reg_nr10) AND 7 \<noteq> 0 \<and>
     unat (drop_bit 4 (r reg_nr10) AND 7) \<le> unat (sweep_counter (square1 a))"

text \<open>The new frequency before it is limited; downwards the division is one of an unsigned number.\<close>

definition swept :: "apu_regs \<Rightarrow> u32 \<Rightarrow> u32" where
  "swept r f = f + (if bit (r reg_nr10) 3 then - f else f) div push_bit (unat (r reg_nr10 AND 7)) 1"

lemma sweep_bits: "(v :: u8) AND 8 \<noteq> 0 \<longleftrightarrow> bit v 3"
  by (simp add: u8_eq_iff_bits bit_simps)

lemma DoSweep_eq:
  "DoSweep (r, a) =
    (let s = (square1 a)\<lparr>sweep_step := ucast (r reg_nr10 AND 7), sweep_direction := bit (r reg_nr10) 3,
           sweep_period := ucast (drop_bit 4 (r reg_nr10) AND 7)\<rparr>;
         f = min 2047 (swept r (frequency (square1 a))) in
     if sweep_due r a then
       (r(reg_nr52 := (if swept r (frequency (square1 a)) > 2047 then r reg_nr52 AND NOT 1 else r reg_nr52),
          reg_nr13 := ucast (f AND 0xFF), reg_nr14 := ucast (drop_bit 8 (f AND 0x700))),
        a\<lparr>square1 := s\<lparr>frequency := f, sweep_counter := 0\<rparr>\<rparr>)
     else (r, a\<lparr>square1 := s\<lparr>sweep_counter := (if sweep_period s = 0 then sweep_counter s
       else sweep_counter s + 1)\<rparr>\<rparr>))"
proof -
  have "ucast v = (0 :: u32) \<longleftrightarrow> v = 0" for v :: u8
    by (simp add: word_unat_eq_iff)
  then show ?thesis
    by (auto simp: DoSweep_def Let_def sweep_bits sweep_due_def swept_def kSquare1StatusMask_def
        word_le_nat_alt apu_reg_defs fun_upd_twist)
qed

lemma unat_power_two: "n < 32 \<Longrightarrow> unat (push_bit n 1 :: u32) = 2 ^ n"
  unfolding unsigned_push_bit_eq by (simp add: take_bit_nat_eq_self_iff push_bit_eq_mult)

lemma shift_less: "unat (v AND 7 :: u8) \<le> 7"
  using word_and_le1 [of v 7] by (simp add: word_le_nat_alt)

lemma swept_up:
  assumes "\<not> bit (r reg_nr10) 3" and "unat f < 2048"
  shows "unat (swept r f) = unat f + unat f div 2 ^ unat (r reg_nr10 AND 7)"
proof -
  have s: "unat (r reg_nr10 AND 7) < 32" using shift_less [of "r reg_nr10"] by simp
  have D: "unat (f div push_bit (unat (r reg_nr10 AND 7)) 1) = unat f div 2 ^ unat (r reg_nr10 AND 7)"
    using s by (simp only: unat_div_distrib unat_power_two)
  have "unat f + unat f div 2 ^ unat (r reg_nr10 AND 7) < 4096"
    using assms(2) div_le_dividend [of "unat f" "2 ^ unat (r reg_nr10 AND 7)"] by linarith
  then have "unat f + unat (f div push_bit (unat (r reg_nr10 AND 7)) 1) < 2 ^ LENGTH(32)"
    unfolding D by simp
  then show ?thesis
    using assms(1) D unfolding swept_def by (simp add: unat_add_lem [THEN iffD1] del: push_bit_of_1)
qed

lemma swept_down:
  assumes "bit (r reg_nr10) 3" and "unat f < 2048"
  shows "f \<noteq> 0 \<and> r reg_nr10 AND 7 \<noteq> 0 \<Longrightarrow> swept r f > 2047"
    and "f = 0 \<or> r reg_nr10 AND 7 = 0 \<Longrightarrow> swept r f = 0"
proof -
  let ?k = "unat (r reg_nr10 AND 7)"
  have k: "?k < 32" "?k \<le> 7" using shift_less [of "r reg_nr10"] by simp_all
  have swept: "swept r f = f + (- f) div push_bit ?k 1" using assms(1) by (simp add: swept_def)
  show "swept r f > 2047" if "f \<noteq> 0 \<and> r reg_nr10 AND 7 \<noteq> 0"
  proof -
    have F: "0 < unat f" using that by (simp add: word_unat_eq_iff)
    have U: "0 < uint f" "uint f < 2048"
      using F assms(2) uint_nat [of f] by linarith+
    have "0 < ?k" using that by (simp add: word_unat_eq_iff)
    then have cases: "?k = 1 \<or> ?k = 2 \<or> ?k = 3 \<or> ?k = 4 \<or> ?k = 5 \<or> ?k = 6 \<or> ?k = 7"
      using k(2) by linarith
    have "uint (- f) = (- uint f) mod 2 ^ 32" by (simp add: uint_word_ariths)
    also have "\<dots> = (2 ^ 32 - uint f) mod 2 ^ 32" by simp
    also have "\<dots> = 2 ^ 32 - uint f"
      using U by (intro mod_pos_pos_trivial) simp_all
    finally have "int (unat (- f)) = 4294967296 - int (unat f)"
      unfolding uint_nat by simp
    then have "unat (- f) = 4294967296 - unat f"
      using assms(2) by linarith
    then have neg: "unat (- f) = 2 ^ 32 - unat f" by simp
    have "unat ((- f) div push_bit ?k 1) = (2 ^ 32 - unat f) div 2 ^ ?k"
      by (simp only: unat_div_distrib unat_power_two [OF k(1)] neg)
    moreover have "2047 < (2 ^ 32 - unat f) div 2 ^ ?k \<and> (2 ^ 32 - unat f) div 2 ^ ?k < 2 ^ 31 + 1"
      using cases assms(2) by (elim disjE) (simp_all, linarith+)
    ultimately have D: "2047 < unat ((- f) div push_bit ?k 1)" "unat ((- f) div push_bit ?k 1) < 2 ^ 31 + 1"
      by simp_all
    then have "unat (swept r f) = unat f + unat ((- f) div push_bit ?k 1)"
      using assms(2) unfolding swept by (subst unat_add_lem [THEN iffD1]) simp_all
    then show ?thesis using D by (simp add: word_less_nat_alt)
  qed
  show "swept r f = 0" if "f = 0 \<or> r reg_nr10 AND 7 = 0"
    using that by (auto simp: swept)
qed

text \<open>The new frequency in the two registers.\<close>

lemma frequency_bits: "bit (0xFF :: int) n \<longleftrightarrow> n < 8" "bit (7 :: int) n \<longleftrightarrow> n < 3"
  "bit (0x700 :: u32) n \<longleftrightarrow> 8 \<le> n \<and> n < 11"
proof -
  have masks: "(0xFF :: int) = mask 8" "(7 :: int) = mask 3" "(0x700 :: u32) = push_bit 8 (mask 3)"
    by (simp_all add: mask_eq_exp_minus_1 push_bit_eq_mult)
  show "bit (0xFF :: int) n \<longleftrightarrow> n < 8" "bit (7 :: int) n \<longleftrightarrow> n < 3" "bit (0x700 :: u32) n \<longleftrightarrow> 8 \<le> n \<and> n < 11"
    unfolding masks by (auto simp: bit_simps)
qed

lemma frequency_bytes:
  assumes "unat (g :: u32) < 2048"
  shows "reg_frequency (ucast (g AND 0xFF)) (ucast (drop_bit 8 (g AND 0x700))) = g"
    and "\<not> bit (ucast (drop_bit 8 (g AND 0x700)) :: u8) 6"
proof -
  have "unat g < 2 ^ 11" using assms by simp
  then have high: "\<not> bit g n" if "11 \<le> n" for n using that unfolding unat_less_bits by blast
  show "reg_frequency (ucast (g AND 0xFF)) (ucast (drop_bit 8 (g AND 0x700))) = g"
  proof (rule bit_word_eqI)
    fix n
    assume "n < LENGTH(32)"
    then show "bit (reg_frequency (ucast (g AND 0xFF)) (ucast (drop_bit 8 (g AND 0x700)))) n = bit g n"
      using high [of n] by (cases "n < 8"; cases "n < 11") (auto simp: reg_frequency_def bit_simps frequency_bits)
  qed
  show "\<not> bit (ucast (drop_bit 8 (g AND 0x700)) :: u8) 6"
    by (simp add: bit_simps frequency_bits)
qed

lemma min_swept:
  assumes "unat f < 2048"
  shows "unat (min 2047 (swept r f)) =
    (if bit (r reg_nr10) 3 then (if f = 0 \<or> r reg_nr10 AND 7 = 0 then 0 else 2047)
     else min 2047 (unat f + unat f div 2 ^ unat (r reg_nr10 AND 7)))"
    and "swept r f > 2047 \<longleftrightarrow>
    (if bit (r reg_nr10) 3 then f \<noteq> 0 \<and> r reg_nr10 AND 7 \<noteq> 0
     else unat f + unat f div 2 ^ unat (r reg_nr10 AND 7) > 2047)"
proof -
  have m: "unat (min 2047 x) = min 2047 (unat x)" for x :: u32
    by (simp add: min_def word_le_nat_alt)
  have up: "swept r f > 2047 \<longleftrightarrow> unat f + unat f div 2 ^ unat (r reg_nr10 AND 7) > 2047"
    if "\<not> bit (r reg_nr10) 3"
    using swept_up [of r f] that assms by (simp add: word_less_nat_alt)
  show "unat (min 2047 (swept r f)) =
    (if bit (r reg_nr10) 3 then (if f = 0 \<or> r reg_nr10 AND 7 = 0 then 0 else 2047)
     else min 2047 (unat f + unat f div 2 ^ unat (r reg_nr10 AND 7)))"
    using swept_up [of r f] swept_down [of r f] assms unfolding m by (auto simp: word_less_nat_alt)
  show "swept r f > 2047 \<longleftrightarrow>
    (if bit (r reg_nr10) 3 then f \<noteq> 0 \<and> r reg_nr10 AND 7 \<noteq> 0
     else unat f + unat f div 2 ^ unat (r reg_nr10 AND 7) > 2047)"
    using up swept_down [of r f] assms by (cases "f = 0 \<or> r reg_nr10 AND 7 = 0") auto
qed

lemma DoSweep_ok:
  assumes "apu_ok a"
  shows "apu_ok (snd (DoSweep (r, a)))"
proof -
  have "unat (min 2047 f :: u32) < 2048" for f
    by (simp add: min_def word_le_nat_alt)
  then show ?thesis
    using assms by (simp add: DoSweep_eq Let_def apu_ok_def channel_ok_def)
qed

section \<open>Envelopes and noise\<close>

lemma envelope_ok: "0 \<le> v \<Longrightarrow> v \<le> 15 \<Longrightarrow> 0 \<le> envelope mode per i v \<and> envelope mode per i v \<le> 15"
  by (simp add: envelope_def)

lemma UpdateEnvelopes_ok: "apu_ok a \<Longrightarrow> apu_ok (UpdateEnvelopes r a)"
  by (simp add: apu_ok_def UpdateEnvelopes_def Let_def channel_ok_def envelope_ok)

lemma lfsr_tick_bits:
  "bit (lfsr_tick width bits) n \<longleftrightarrow>
    bit bits (Suc n) \<or> Suc n < 32 \<and> Suc n = unat width \<and> (bit bits 0 = bit bits (Suc 0))"
proof -
  have "(bits AND 1) XOR (drop_bit 1 bits AND 1) = 0 \<longleftrightarrow> (bit bits 0 = bit bits (Suc 0))"
  proof -
    have "x AND 1 = of_bool (bit x 0)" for x :: u32
      by (simp add: and_one_eq bit_0 mod_2_eq_odd)
    then show ?thesis by (cases "bit bits 0"; cases "bit bits (Suc 0)") (simp_all add: bit_simps)
  qed
  then show ?thesis by (auto simp: lfsr_tick_def Let_def bit_simps)
qed

lemma lfsr_tick_less:
  "unat bits < 2 ^ 15 \<Longrightarrow> unat width \<le> 15 \<Longrightarrow> unat (lfsr_tick width bits) < 2 ^ 15"
  unfolding unat_less_bits by (auto simp: lfsr_tick_bits)

lemma lfsr_ticks_less:
  "unat bits < 2 ^ 15 \<Longrightarrow> unat width \<le> 15 \<Longrightarrow> unat (fst (lfsr_ticks width k bits acc)) < 2 ^ 15"
  by (induction width k bits acc rule: lfsr_ticks.induct) (simp_all add: Let_def lfsr_tick_less del: power_numeral)

lemma reg_frequency_less: "unat (reg_frequency lsb msb) < 2048"
proof -
  have "bit (reg_frequency lsb msb) n \<Longrightarrow> n < 11" for n
  proof -
    have "(7 :: u8) = mask 3" by (simp add: mask_eq_exp_minus_1)
    then show "bit (reg_frequency lsb msb) n \<Longrightarrow> n < 11"
      by (auto simp: reg_frequency_def bit_simps bit_mask_iff dest: bit_imp_le_length)
  qed
  then have "unat (reg_frequency lsb msb) < 2 ^ 11"
    unfolding unat_less_bits by (meson not_le)
  then show ?thesis by simp
qed

text \<open>Writing samples keeps what the registers and counters say.\<close>

definition square_setup :: "Square \<Rightarrow> bool \<times> int \<times> u32 \<times> u32 \<times> u32" where
  "square_setup s = (length_enable s, volume s, length_load s, duty s, frequency s)"

lemma square_setup_step: "square_setup (snd (square_step p d s)) = square_setup s"
  by (simp add: square_step_def square_setup_def Let_def)

lemma square_setup_samples: "square_setup (snd (square_samples k p d s)) = square_setup s"
proof (induction k arbitrary: s)
  case (Suc k)
  then show ?case
    using square_setup_step [of p d s] by (simp add: split_beta)
qed simp

lemma square_setup_write: "square_setup (snd (Square_WriteDataIntoStream len s)) = square_setup s"
  by (simp add: Square_WriteDataIntoStream_def square_setup_samples split_beta)

definition wave_setup :: "Wave \<Rightarrow> bool \<times> int \<times> u32 \<times> bool \<times> u32" where
  "wave_setup w = (length_enable w, volume w, length_load w, dac_enable w, wave_period w)"

lemma wave_setup_step: "wave_setup (snd (wave_step e r w)) = wave_setup w"
  by (simp add: wave_step_def wave_setup_def Let_def)

lemma wave_setup_samples: "wave_setup (snd (wave_samples k e r w)) = wave_setup w"
proof (induction k arbitrary: w)
  case (Suc k)
  then show ?case
    using wave_setup_step [of e r w] by (simp add: split_beta)
qed simp

lemma wave_setup_write: "wave_setup (snd (Wave_WriteDataIntoStream len r w)) = wave_setup w"
  by (simp add: Wave_WriteDataIntoStream_def wave_setup_samples)

definition noise_setup :: "Noise \<Rightarrow> bool \<times> int \<times> u32 \<times> u32 \<times> u32" where
  "noise_setup n = (length_enable n, volume n, length_load n, lfsr_width n, cpu_ticks_per_lfsr_sample n)"

lemma noise_step_ok:
  assumes "unat (lfsr_bits n) < 2 ^ 15" and "unat (lfsr_width n) \<le> 15"
  shows "unat (lfsr_bits (snd (noise_step n))) < 2 ^ 15 \<and> noise_setup (snd (noise_step n)) = noise_setup n"
  using assms lfsr_ticks_less [OF assms]
  by (simp add: noise_step_def DoLfsrTicks_def Hipass_def noise_setup_def Let_def split_beta)

lemma noise_samples_ok:
  assumes "unat (lfsr_bits n) < 2 ^ 15" and "unat (lfsr_width n) \<le> 15"
  shows "unat (lfsr_bits (snd (noise_samples k n))) < 2 ^ 15 \<and>
    noise_setup (snd (noise_samples k n)) = noise_setup n"
  using assms
proof (induction k arbitrary: n)
  case (Suc k)
  then show ?case
    using noise_step_ok [OF Suc.prems] by (simp add: split_beta noise_setup_def)
qed simp

lemma noise_write_ok:
  assumes "unat (lfsr_bits n) < 2 ^ 15" and "unat (lfsr_width n) \<le> 15"
  shows "unat (lfsr_bits (snd (Noise_WriteDataIntoStream len n))) < 2 ^ 15 \<and>
    noise_setup (snd (Noise_WriteDataIntoStream len n)) = noise_setup n"
  using assms noise_samples_ok [OF assms] by (simp add: Noise_WriteDataIntoStream_def split_beta)

lemma audio_callback_ok:
  assumes "apu_ok a"
  shows "apu_ok (audio_callback len r a)"
proof -
  let ?s1 = "(square1 a)\<lparr>duty := ucast (drop_bit 6 (r reg_nr11)),
    frequency := reg_frequency (r reg_nr13) (r reg_nr14)\<rparr>"
  let ?s2 = "(square2 a)\<lparr>duty := ucast (drop_bit 6 (r reg_nr21)),
    frequency := reg_frequency (r reg_nr23) (r reg_nr24)\<rparr>"
  let ?w = "(wave a)\<lparr>dac_enable := r reg_nr30 AND 0x80 \<noteq> 0, volume := uint (drop_bit 5 (r reg_nr32) AND 3),
    wave_period := reg_frequency (r reg_nr33) (r reg_nr34)\<rparr>"
  let ?n = "(noise a)\<lparr>divisor := divisor_table ! unat (r reg_nr43 AND 7),
    lfsr_width := (if drop_bit 3 (r reg_nr43) AND 1 \<noteq> 0 then 7 else 15),
    noise_shift := ucast (drop_bit 4 (r reg_nr43)),
    cpu_ticks_per_lfsr_sample := push_bit (unat (ucast (drop_bit 4 (r reg_nr43)) :: u32))
      (divisor_table ! unat (r reg_nr43 AND 7))\<rparr>"
  have "unat (lfsr_bits ?n) < 2 ^ 15" "unat (lfsr_width ?n) \<le> 15"
    using assms by (simp_all add: apu_ok_def)
  note n = noise_write_ok [OF this, of len]
  note s1 = square_setup_write [of len ?s1] and s2 = square_setup_write [of len ?s2]
    and w = wave_setup_write [of len r ?w]
  show ?thesis
    using assms n s1 s2 w
    by (simp add: audio_callback_def audio_channels_def Let_def split_beta apu_ok_def channel_ok_def
        square_setup_def wave_setup_def noise_setup_def reg_frequency_less volume_less
        del: unat_ucast_u8_u32)
qed

lemma AudioLoop_ok:
  assumes "apu_ok a"
  shows "apu_ok (snd (snd (AudioLoop_step (r, a))))"
proof -
  have pc: "apu_ok (a\<lparr>audio_pc := k\<rparr>)" if "k < 5" for k
    using assms that by (simp add: apu_ok_def)
  have sweep: "apu_ok (snd (DoSweep (DecrementLengths (r, a\<lparr>audio_pc := k\<rparr>))))" if "k < 5" for k
    using DoSweep_ok DecrementLengths_ok [OF pc [OF that], of r] by (metis prod.collapse)
  show ?thesis
    by (simp add: AudioLoop_step_def pc sweep DecrementLengths_ok UpdateEnvelopes_ok split: nat.split)
qed

text \<open>The division of the noise channel is never one by 0.\<close>

lemma noise_ticks_positive:
  "push_bit (unat (ucast (drop_bit 4 (v :: u8)) :: u32)) (divisor_table ! unat (w AND 7 :: u8)) \<noteq> 0"
proof -
  have "unat (w AND 7) = 0 \<or> unat (w AND 7) = 1 \<or> unat (w AND 7) = 2 \<or> unat (w AND 7) = 3 \<or>
      unat (w AND 7) = 4 \<or> unat (w AND 7) = 5 \<or> unat (w AND 7) = 6 \<or> unat (w AND 7) = 7"
    using shift_less [of w] by linarith
  then have d: "8 \<le> unat (divisor_table ! unat (w AND 7))" "unat (divisor_table ! unat (w AND 7)) < 2 ^ 7"
    by (auto simp: divisor_table_def)
  have s: "unat (drop_bit 4 v) \<le> 15"
    using volume_less(2) [of v] uint_nat [of "drop_bit 4 v"] by linarith
  let ?d = "divisor_table ! unat (w AND 7)" and ?s = "unat (drop_bit 4 v)"
  have "unat ?d * 2 ^ ?s < 2 ^ 7 * 2 ^ 15"
    using d(2) s by (intro mult_less_le_imp_less power_increasing) simp_all
  then have "unat (push_bit ?s ?d) = unat ?d * 2 ^ ?s"
    unfolding unsigned_push_bit_eq by (simp add: take_bit_nat_eq_self_iff push_bit_eq_mult)
  then have "unat (push_bit ?s ?d) \<noteq> 0" using d(1) by simp
  then show ?thesis by (auto simp: word_unat_eq_iff)
qed

section \<open>The properties\<close>

definition test_Channel :: Channel where
  "test_Channel = \<lparr>length_enable = True, volume = 7, length_load = 3\<rparr>"

definition test_Apu :: Apu where
  "test_Apu = new_Apu
     (Channel.extend test_Channel \<lparr>envelope_mode = True, sweep_direction = True, duty = 0, frequency = 0x700,
        period = 0, sweep_counter = 1, sweep_step = 0, sweep_period = 0, tick_counter = 0, phase = 1\<rparr>)
     (Channel.extend test_Channel \<lparr>envelope_mode = True, sweep_direction = True, duty = 0, frequency = 0,
        period = 0, sweep_counter = 0, sweep_step = 0, sweep_period = 0, tick_counter = 0, phase = 1\<rparr>)
     (Channel.extend test_Channel \<lparr>noise_envelope_mode = True, divisor = 8, lfsr_bits = 0, lfsr_width = 15,
        noise_period = 0, noise_shift = 0, cpu_ticks_per_lfsr_sample = 8, tick_cntr = 0,
        capacitor = 0, lfsr_sum = 0\<rparr>)
     (Channel.extend (test_Channel\<lparr>volume := 3\<rparr>) \<lparr>dac_enable = True, wave_period = 0,
        sample_index = 0, wave_tick_counter = 0\<rparr>)"

lemma test_Apu_ok: "apu_ok test_Apu"
  by (simp add: apu_ok_def channel_ok_def test_Apu_def new_Apu_def test_Channel_def Channel.extend_def)

text \<open>
  C30. A channel (0 to 3: the two square channels, wave, noise) whose length counter is enabled and
  holds \<open>n\<close>, with \<open>n > 0\<close>, is switched off in NR52 by exactly the \<open>n\<close>th clock of the counters: until
  then its status bit stays, from then on it is clear and the counter stays 0.
\<close>

theorem Apu_length_ends:
  assumes "i < 4" and "bit (r (channel_nr4 i)) 6" and "channel_length i a = of_nat n" and "0 < n" and "n \<le> 256"
  shows "unat (channel_length i (snd ((DecrementLengths ^^ k) (r, a)))) = n - k \<and>
    (bit (fst ((DecrementLengths ^^ k) (r, a)) reg_nr52) i \<longleftrightarrow> bit (r reg_nr52) i \<and> k < n)"
proof -
  have n: "unat (channel_length i a) = n"
    using assms(3,5) by (simp add: unat_of_nat)
  moreover have "channel_length i a \<noteq> 0" using n assms(4) by auto
  ultimately show ?thesis
    using DecrementLengths_iterate [where i = i and r = r and k = k and a = a] assms(1,2) by simp
qed

lemma Apu_length_ends_witness:
  "bit (fst ((DecrementLengths ^^ 2) (\<lambda>_. 0xFF, test_Apu)) reg_nr52) 1 \<and>
    \<not> bit (fst ((DecrementLengths ^^ 3) (\<lambda>_. 0xFF, test_Apu)) reg_nr52) 1"
proof -
  have "channel_length 1 test_Apu = of_nat 3" "bit (0xFF :: u8) 6" "bit (0xFF :: u8) 1"
    by (simp_all add: channel_length_def test_Apu_def new_Apu_def test_Channel_def Channel.extend_def)
  then show ?thesis
    using Apu_length_ends [of 1 "\<lambda>_. 0xFF" test_Apu 3 2] Apu_length_ends [of 1 "\<lambda>_. 0xFF" test_Apu 3 3]
    by simp
qed

text \<open>
  C31. Every step of the sound unit keeps its counters in their ranges: lengths up to 64 and 256,
  volumes up to 15 and 3, frequencies of 11 bits, a shift register of 15 bits. This holds for the
  thread, the callback for new samples, and the methods that signals start. The period of the noise
  that the callback divides by is not 0.
\<close>

theorem Apu_keeps_ranges:
  assumes "apu_ok a"
  shows "apu_ok (snd (snd (AudioLoop_step (r, a)))) \<and> apu_ok (audio_callback len r a) \<and>
    apu_ok (ReloadLengthSquare1 r a) \<and> apu_ok (ReloadLengthSquare2 r a) \<and>
    apu_ok (ReloadLengthWave r a) \<and> apu_ok (ReloadLengthNoise r a) \<and>
    apu_ok (snd (TriggerEventSquare1 (r, a))) \<and> apu_ok (snd (TriggerEventSquare2 (r, a))) \<and>
    apu_ok (snd (TriggerEventWave (r, a))) \<and> apu_ok (snd (TriggerEventNoise (r, a))) \<and>
    push_bit (unat (ucast (drop_bit 4 (r reg_nr43)) :: u32)) (divisor_table ! unat (r reg_nr43 AND 7)) \<noteq> 0"
  using AudioLoop_ok [OF assms] audio_callback_ok [OF assms] reloads_ok [OF assms] triggers_ok [OF assms]
    noise_ticks_positive
  by simp

lemma Apu_keeps_ranges_witness:
  "apu_ok (audio_callback 512 (\<lambda>_. 0x9F) test_Apu) \<and> apu_ok (snd (TriggerEventNoise (\<lambda>_. 0x80, test_Apu)))"
  using Apu_keeps_ranges [OF test_Apu_ok, of "\<lambda>_. 0x9F" 512] Apu_keeps_ranges [OF test_Apu_ok, of "\<lambda>_. 0x80"]
  by blast

text \<open>
  C20. A clock of the sweep that is due: upwards the frequency becomes \<open>f + f div 2 ^ s\<close>, or 2047 with
  the channel switched off if that is larger. Downwards the unsigned division makes the frequency 2047
  and switches the channel off, for every frequency and shift but 0 (for these it becomes 0). The
  registers get the new frequency, and the length counter of the channel is disabled.
\<close>

theorem Apu_sweep:
  assumes "sweep_due r a" and "unat (frequency (square1 a)) < 2048" and "DoSweep (r, a) = (r', a')"
  shows "unat (frequency (square1 a')) =
      (if bit (r reg_nr10) 3
       then (if frequency (square1 a) = 0 \<or> r reg_nr10 AND 7 = 0 then 0 else 2047)
       else min 2047 (unat (frequency (square1 a)) +
         unat (frequency (square1 a)) div 2 ^ unat (r reg_nr10 AND 7))) \<and>
    (bit (r' reg_nr52) 0 \<longleftrightarrow> bit (r reg_nr52) 0 \<and>
      (if bit (r reg_nr10) 3 then frequency (square1 a) = 0 \<or> r reg_nr10 AND 7 = 0
       else unat (frequency (square1 a)) + unat (frequency (square1 a)) div 2 ^ unat (r reg_nr10 AND 7) \<le> 2047)) \<and>
    reg_frequency (r' reg_nr13) (r' reg_nr14) = frequency (square1 a') \<and> \<not> bit (r' reg_nr14) 6"
proof -
  let ?f = "frequency (square1 a)"
  have g: "unat (min 2047 (swept r ?f)) < 2048"
    by (simp add: min_def word_le_nat_alt)
  have r': "r' = r(reg_nr52 := (if swept r ?f > 2047 then r reg_nr52 AND NOT 1 else r reg_nr52),
      reg_nr13 := ucast (min 2047 (swept r ?f) AND 0xFF),
      reg_nr14 := ucast (drop_bit 8 (min 2047 (swept r ?f) AND 0x700)))"
    and f': "frequency (square1 a') = min 2047 (swept r ?f)"
    using assms(1,3) by (simp_all add: DoSweep_eq Let_def) (auto simp: fun_eq_iff)
  have regs: "r' reg_nr13 = ucast (min 2047 (swept r ?f) AND 0xFF)"
    "r' reg_nr14 = ucast (drop_bit 8 (min 2047 (swept r ?f) AND 0x700))"
    "bit (r' reg_nr52) 0 \<longleftrightarrow> bit (r reg_nr52) 0 \<and> \<not> swept r ?f > 2047"
    unfolding r' by (simp_all add: apu_reg_defs bit_simps)
  show ?thesis
    unfolding f' regs min_swept [OF assms(2)] frequency_bytes [OF g]
    using frequency_bytes(2) [OF g] by (simp add: not_less)
qed

lemma Apu_sweep_witness:
  "unat (frequency (square1 (snd (DoSweep (\<lambda>_. 0x19, test_Apu))))) = 2047"
proof -
  have "sweep_due (\<lambda>_. 0x19) test_Apu" "frequency (square1 test_Apu) = 0x700" "bit (0x19 :: u8) 3"
    by (simp_all add: sweep_due_def test_Apu_def new_Apu_def test_Channel_def Channel.extend_def)
  moreover obtain r' a' where "DoSweep (\<lambda>_. 0x19, test_Apu) = (r', a')" by fastforce
  ultimately show ?thesis using Apu_sweep [of "\<lambda>_. 0x19" test_Apu r' a'] by simp
qed

lemma lfsr_ticks_iterate: "fst (lfsr_ticks width k bits acc) = (lfsr_tick width ^^ k) bits"
  by (induction width k bits acc rule: lfsr_ticks.induct) (simp_all add: Let_def funpow_swap1)

text \<open>The short register as a number below 128.\<close>

definition short_tick :: "nat \<Rightarrow> nat" where
  "short_tick x = x div 2 + (if x mod 2 = x div 2 mod 2 then 64 else 0)"

lemma short_tick_less: "x < 128 \<Longrightarrow> short_tick x < 128"
proof -
  assume "x < 128"
  then have "x div 2 < 64" by linarith
  then show "short_tick x < 128" by (simp add: short_tick_def)
qed

lemma lfsr_short_table:
  "list_all (\<lambda>x. unat (lfsr_tick 7 (of_nat x)) = short_tick x) [0..<128]"
  by (simp add: upt_conv_Cons lfsr_tick_def short_tick_def)

lemma lfsr_short:
  assumes "unat bits < 128"
  shows "unat (lfsr_tick 7 bits) = short_tick (unat bits)"
proof -
  have "unat (lfsr_tick 7 (of_nat (unat bits))) = short_tick (unat bits)"
    using lfsr_short_table assms unfolding list_all_iff by (metis atLeastLessThan_iff set_upt zero_le)
  then show ?thesis by simp
qed

fun orbit :: "nat \<Rightarrow> nat \<Rightarrow> nat list" where
  "orbit 0 x = []"
| "orbit (Suc k) x = x # orbit k (short_tick x)"

lemma orbit_numeral: "orbit (numeral n) x = x # orbit (pred_numeral n) (short_tick x)"
  by (simp add: numeral_eq_Suc)

lemma orbit_nth: "i < k \<Longrightarrow> orbit k x ! i = (short_tick ^^ i) x"
proof (induction k arbitrary: i x)
  case (Suc k)
  then show ?case by (cases i) (simp_all add: funpow_swap1)
qed simp

lemma orbit_128: "orbit 128 0 ! 127 = 0" "0 \<notin> set (tl (orbit 127 0))"
  by (simp_all add: orbit_numeral short_tick_def)

lemma short_tick_iterate: "x < 128 \<Longrightarrow> (short_tick ^^ k) x < 128"
  by (induction k) (simp_all add: short_tick_less)

lemma lfsr_iterate: "unat ((lfsr_tick 7 ^^ k) 0) = (short_tick ^^ k) 0"
proof (induction k)
  case (Suc k)
  then show ?case using lfsr_short [of "(lfsr_tick 7 ^^ k) 0"] short_tick_iterate [of 0 k] by simp
qed simp

lemma orbit_length: "length (orbit k x) = k"
  by (induction k x rule: orbit.induct) simp_all

lemma short_tick_127: "(short_tick ^^ 127) 0 = 0" "0 < k \<Longrightarrow> k < 127 \<Longrightarrow> (short_tick ^^ k) 0 \<noteq> 0"
proof -
  show "(short_tick ^^ 127) 0 = 0" using orbit_128(1) orbit_nth [of 127 128 0] by simp
  show "(short_tick ^^ k) 0 \<noteq> 0" if k: "0 < k" "k < 127"
  proof -
    have "tl (orbit 127 0) ! (k - 1) = orbit 127 0 ! k" using k by (simp add: nth_tl orbit_length)
    moreover have "k - 1 < length (tl (orbit 127 0))" using k by (simp add: orbit_length)
    ultimately have "orbit 127 0 ! k \<in> set (tl (orbit 127 0))" by (metis nth_mem)
    then show ?thesis using orbit_128(2) orbit_nth [OF k(2), of 0] by metis
  qed
qed

lemma short_tick_period: "(short_tick ^^ k) 0 = (short_tick ^^ (k mod 127)) 0"
proof (induction k rule: less_induct)
  case (less k)
  show ?case
  proof (cases "k < 127")
    case False
    then have "(short_tick ^^ k) 0 = (short_tick ^^ (k - 127)) ((short_tick ^^ 127) 0)"
      by (metis comp_apply funpow_add le_add_diff_inverse2 not_less)
    then show ?thesis
      using less.IH [of "k - 127"] False short_tick_127(1) by (simp add: le_mod_geq)
  qed simp
qed

lemma lfsr_returns: "(lfsr_tick 7 ^^ k) 0 = 0 \<longleftrightarrow> 127 dvd k"
proof -
  have "(lfsr_tick 7 ^^ k) 0 = 0 \<longleftrightarrow> (short_tick ^^ (k mod 127)) 0 = 0"
    unfolding word_unat_eq_iff lfsr_iterate short_tick_period [of k] by simp
  also have "\<dots> \<longleftrightarrow> k mod 127 = 0"
    using short_tick_127(2) [of "k mod 127"] by (cases "k mod 127 = 0") simp_all
  finally show ?thesis by (simp add: dvd_eq_mod_eq_0)
qed

text \<open>
  In its short mode the noise repeats after 127 ticks and not before: from the state that a
  trigger leaves, the shift register is back after \<open>k\<close> ticks exactly when 127 divides \<open>k\<close>.
\<close>

lemma Noise_period:
  "fst (lfsr_ticks 7 k 0 acc) = 0 \<longleftrightarrow> 127 dvd k"
  using lfsr_returns by (simp add: lfsr_ticks_iterate)

end
