(* ===== verification/Apu_Samples.thy ===== *)
theory Apu_Samples
  imports Apu_Properties
begin

text \<open>
  The samples of the sound unit: when the sum of the four channels fits into SDL's buffer of 16-bit
  numbers, and what makes it overflow. The bounds of the values come from the error of one rounding.
\<close>

section \<open>Gain\<close>

lemma gain_bounds:
  assumes "0 \<le> volume ch" and "volume ch \<le> 15"
  shows "0 \<le> gain ch" and "gain ch \<le> of_int (volume ch) * (166668 / 10 ^ 7) + 1 / 10 ^ 30"
proof -
  let ?v = "of_int (volume ch) :: rat"
  have v: "0 \<le> ?v" "?v \<le> 15" using assms by simp_all
  have f: "0 \<le> f32 ?v" "f32 ?v \<le> ?v + ?v / 10 ^ 7 + 1 / 10 ^ 40"
    using f32_nonneg [OF v(1)] f32_bounds [of 0 ?v ?v ?v] v by simp_all
  then show "0 \<le> gain ch" by (simp add: gain_def f32_nonneg)
  have "f32 (f32 ?v / 60) \<le> f32 ?v / 60 + f32 ?v / 60 / 10 ^ 7 + 1 / 10 ^ 40"
    using f32_bounds [of 0 "f32 ?v / 60" "f32 ?v / 60" "f32 ?v / 60"] f by simp
  then show "gain ch \<le> ?v * (166668 / 10 ^ 7) + 1 / 10 ^ 30"
    using f v by (simp add: gain_def)
qed

lemma gained:
  assumes "\<bar>y\<bar> \<le> Y" and "Y \<le> 10 ^ 5" and "0 \<le> volume ch" and "volume ch \<le> 15"
  shows "\<bar>f32 (y * gain ch)\<bar> \<le> Y * of_int (volume ch) * (16668 / 10 ^ 6) + 1 / 100"
proof -
  let ?v = "of_int (volume ch) :: rat"
  note g = gain_bounds [OF assms(3,4)]
  have Y: "0 \<le> Y" using assms(1) by linarith
  have v: "0 \<le> ?v" "?v \<le> 15" using assms(3,4) by simp_all
  have "\<bar>y * gain ch\<bar> \<le> Y * (?v * (166668 / 10 ^ 7) + 1 / 10 ^ 30)"
    unfolding abs_mult using g assms(1) Y by (intro mult_mono) simp_all
  also have "\<dots> = Y * ?v * (166668 / 10 ^ 7) + Y / 10 ^ 30"
    by (simp add: algebra_simps)
  finally have bound: "\<bar>f32 (y * gain ch)\<bar> \<le> T * (166668 / 10 ^ 7) + Y / 10 ^ 30 +
      (T * (166668 / 10 ^ 7) + Y / 10 ^ 30) / 10 ^ 7 + 1 / 10 ^ 40" if "T = Y * ?v" for T
    unfolding that by (rule f32_bound)
  define T where "T = Y * ?v"
  have "0 \<le> T" using Y v by (simp add: T_def)
  then have "\<bar>f32 (y * gain ch)\<bar> \<le> T * (16668 / 10 ^ 6) + 1 / 100"
    using bound [OF T_def] assms(2) by (simp add: add_divide_distrib)
  then show ?thesis unfolding T_def .
qed

section \<open>The period of a square wave\<close>

lemma sample_period: "f32 (131072 / kSampleRate) = 6247225 / 2097152"
  by code_simp

lemma period_divisor:
  fixes freq :: u32
  assumes "unat freq < 2048"
  shows "of_int (uint (2048 - freq)) = 2048 - (of_nat (unat freq) :: rat)"
proof -
  have "unat (2048 - freq) = 2048 - unat freq"
    using assms by (simp add: unat_sub word_le_nat_alt)
  then have "uint (2048 - freq) = int (2048 - unat freq)" by (simp add: uint_nat)
  then show ?thesis using assms by (simp add: of_nat_diff)
qed

lemma periods_bounds:
  assumes "unat freq < 2048"
  shows "unat freq + k \<le> 2048 \<Longrightarrow> 0 < k \<Longrightarrow> periods_per_sample freq \<le> 298 / (100 * of_nat k)"
    and "2048 \<le> unat freq + k \<Longrightarrow> k \<le> 2048 \<Longrightarrow> 2978 / (1000 * of_nat k) \<le> periods_per_sample freq"
proof -
  define n c where "n = 2048 - (of_nat (unat freq) :: rat)" and "c = (6247225 / 2097152 :: rat)"
  define q where "q = f32 n"
  have "of_nat (unat freq) \<le> (of_nat 2047 :: rat)"
    using assms by (subst of_nat_le_iff) simp
  moreover have "0 \<le> (of_nat (unat freq) :: rat)" by (rule of_nat_0_le_iff)
  ultimately have n: "1 \<le> n" "n \<le> 2048" by (simp_all add: n_def)
  have q: "n * (9999998 / 10 ^ 7) \<le> q" "q \<le> n * (10000002 / 10 ^ 7)" "0 < q"
    using f32_positive [of n] n by (simp_all add: q_def)
  have "periods_per_sample freq = f32 (c / q)"
    unfolding periods_per_sample_def sample_period period_divisor [OF assms] q_def n_def c_def ..
  moreover have "0 \<le> c / q" using q by (simp add: c_def)
  ultimately have p: "c / q * (9999999 / 10 ^ 7) - 1 / 10 ^ 40 \<le> periods_per_sample freq"
    "periods_per_sample freq \<le> c / q * (10000001 / 10 ^ 7) + 1 / 10 ^ 40"
    using f32_positive [of "c / q"] by simp_all
  show "periods_per_sample freq \<le> 298 / (100 * of_nat k)" if k: "unat freq + k \<le> 2048" "0 < k"
  proof -
    define m where "m = (of_nat k :: rat)"
    have "of_nat (unat freq + k) \<le> (of_nat 2048 :: rat)"
      using k by (subst of_nat_le_iff) simp
    then have m: "m \<le> n" "0 < m" using k(2) by (simp_all add: m_def n_def)
    then have "m * (9999998 / 10 ^ 7) \<le> q" using q(1) by simp
    then have "c / q \<le> c / (m * (9999998 / 10 ^ 7))"
      using m(2) q(3) by (intro divide_left_mono) (simp_all add: c_def)
    also have "\<dots> = c * (10 ^ 7 / 9999998) * (1 / m)" by simp
    finally have "c / q \<le> c * (10 ^ 7 / 9999998) * (1 / m)" .
    moreover have "1 / 2048 \<le> 1 / m" using m n by (intro divide_left_mono) simp_all
    ultimately have "periods_per_sample freq \<le> 298 / 100 * (1 / m)"
      using p(2) by (simp add: c_def)
    then show ?thesis by (simp add: m_def)
  qed
  show "2978 / (1000 * of_nat k) \<le> periods_per_sample freq" if k: "2048 \<le> unat freq + k" "k \<le> 2048"
  proof -
    define m where "m = (of_nat k :: rat)"
    have "(of_nat 2048 :: rat) \<le> of_nat (unat freq + k)" "of_nat k \<le> (of_nat 2048 :: rat)"
      using k by (subst of_nat_le_iff; simp)+
    then have m: "n \<le> m" "m \<le> 2048" "0 < m" using n by (simp_all add: m_def n_def)
    then have "q \<le> m * (10000002 / 10 ^ 7)" using q(2) by simp
    then have "c / (m * (10000002 / 10 ^ 7)) \<le> c / q"
      using q(3) m(3) by (intro divide_left_mono) (simp_all add: c_def)
    then have "c * (10 ^ 7 / 10000002) * (1 / m) \<le> c / q" by simp
    moreover have "1 / 2048 \<le> 1 / m" using m by (intro divide_left_mono) simp_all
    ultimately have "2978 / 1000 * (1 / m) \<le> periods_per_sample freq"
      using p(1) by (simp add: c_def)
    then show ?thesis by (simp add: m_def)
  qed
qed

section \<open>Square waves\<close>

text \<open>
  A square wave keeps in step: the time that one sample takes is less than either part of a period.
\<close>

definition in_time :: "rat \<Rightarrow> rat \<Rightarrow> bool" where
  "in_time p d \<longleftrightarrow> 1 / 700 \<le> p \<and> p + 1 / 2000 \<le> d \<and> p + 1 / 2000 \<le> 1 - d"

definition part_length :: "rat \<Rightarrow> Square \<Rightarrow> rat" where
  "part_length d s = (if phase s = 1 then d else 1 - d)"

definition oscillates :: "rat \<Rightarrow> rat \<Rightarrow> Square \<Rightarrow> bool" where
  "oscillates p d s \<longleftrightarrow> (phase s = 1 \<or> phase s = - 1) \<and> 0 \<le> tick_counter s \<and>
     tick_counter s \<le> part_length d s + p + 1 / 2 ^ 22"

lemma fduty_values: "fduty d = 1 / 8 \<or> fduty d = 1 / 4 \<or> fduty d = 1 / 2 \<or> fduty d = 3 / 4 \<and> d = 3"
  unfolding fduty_def by (simp split: if_split)

lemma fduty_rest: "f32 (1 - fduty d) = 1 - fduty d"
proof -
  have "f32 (1 - 1 / 8) = 1 - 1 / 8" "f32 (1 - 1 / 4) = 1 - 1 / 4" "f32 (1 - 1 / 2) = 1 - 1 / 2"
    "f32 (1 - 3 / 4) = 1 - 3 / 4"
    by code_simp+
  then show ?thesis unfolding fduty_def by (simp split: if_split)
qed

lemma frequency_fits:
  assumes "unat freq < 2048" and "d \<noteq> 3 \<or> unat freq \<le> 2036 \<or> 2045 \<le> unat freq"
  shows "fduty d \<le> periods_per_sample freq \<or> in_time (periods_per_sample freq) (fduty d)"
proof -
  note le = periods_bounds(1) [OF assms(1)] and ge = periods_bounds(2) [OF assms(1)]
  have low: "1 / 700 \<le> periods_per_sample freq" using ge [of 2048] by simp
  consider "fduty d = 1 / 8" | "fduty d = 1 / 4" | "fduty d = 1 / 2" | "fduty d = 3 / 4" "d = 3"
    using fduty_values [of d] by blast
  then show ?thesis
  proof cases
    case 1
    show ?thesis
    proof (cases "unat freq \<le> 2024")
      case True
      then show ?thesis using le [of 24] low 1 by (simp add: in_time_def)
    next
      case False
      then show ?thesis using ge [of 23] 1 by simp
    qed
  next
    case 2
    show ?thesis
    proof (cases "unat freq \<le> 2036")
      case True
      then show ?thesis using le [of 12] low 2 by (simp add: in_time_def)
    next
      case False
      then show ?thesis using ge [of 11] 2 by simp
    qed
  next
    case 3
    show ?thesis
    proof (cases "unat freq \<le> 2042")
      case True
      then show ?thesis using le [of 6] low 3 by (simp add: in_time_def)
    next
      case False
      then show ?thesis using ge [of 5] 3 by simp
    qed
  next
    case 4
    then consider "unat freq \<le> 2036" | "2045 \<le> unat freq" using assms(2) by blast
    then show ?thesis
    proof cases
      case 1
      then show ?thesis using le [of 12] low 4 by (simp add: in_time_def)
    next
      case 2
      then show ?thesis using ge [of 3] 4 by simp
    qed
  qed
qed

lemma level_bound:
  assumes "0 \<le> volume ch" and "volume ch \<le> 15" and "\<bar>y\<bar> \<le> 32801"
  shows "\<bar>f32 (y * gain ch)\<bar> \<le> 547 * of_int (volume ch) + 1 / 100"
  using gained [OF assms(3) _ assms(1,2)] assms(1) by simp

lemma transition_level:
  assumes "0 \<le> f" and "f \<le> 1 + 1 / 2000"
  shows "\<bar>f32 (f32 (f32 (f32 (2 * f) - 1) * SDL_MAX_SINT16) * 1)\<bar> \<le> 32801"
    and "\<bar>f32 (f32 (f32 (f32 (2 * f) - 1) * SDL_MAX_SINT16) * - 1)\<bar> \<le> 32801"
proof -
  define y z where "y = f32 (f32 (2 * f) - 1)" and "z = f32 (y * SDL_MAX_SINT16)"
  have "0 \<le> f32 (2 * f)" "f32 (2 * f) \<le> 2001001 / 1000000"
    using f32_positive [of "2 * f"] f32_nonneg [of "2 * f"] assms by simp_all
  then have "\<bar>f32 (2 * f) - 1\<bar> \<le> 1001001 / 1000000" by linarith
  from f32_bound [OF this] have "\<bar>y\<bar> \<le> 1001 / 1000 + 2 / 10 ^ 6" by (simp add: y_def)
  then have "\<bar>y * SDL_MAX_SINT16\<bar> \<le> 328001 / 10" by (simp add: abs_mult SDL_MAX_SINT16_def)
  from f32_bound [OF this] have "\<bar>z * 1\<bar> \<le> 328002 / 10" "\<bar>z * - 1\<bar> \<le> 328002 / 10" by (simp_all add: z_def)
  from f32_bound [OF this(1)] f32_bound [OF this(2)]
  show "\<bar>f32 (f32 (f32 (f32 (2 * f) - 1) * SDL_MAX_SINT16) * 1)\<bar> \<le> 32801"
    "\<bar>f32 (f32 (f32 (f32 (2 * f) - 1) * SDL_MAX_SINT16) * - 1)\<bar> \<le> 32801"
    by (simp_all add: z_def y_def)
qed

lemma square_step_ok:
  assumes "in_time p d" and "f32 (1 - d) = 1 - d" and "oscillates p d s"
    and "0 \<le> volume s" and "volume s \<le> 15"
  shows "\<bar>fst (square_step p d s)\<bar> \<le> 547 * of_int (volume s) + 1 / 100" and "oscillates p d (snd (square_step p d s))"
proof -
  define t where "t = tick_counter s"
  define D where "D = part_length d s"
  have p: "1 / 700 \<le> p" "p + 1 / 2000 \<le> d" "p + 1 / 2000 \<le> 1 - d" using assms(1) by (simp_all add: in_time_def)
  have ph: "phase s = 1 \<or> phase s = - 1" and t: "0 \<le> t" "t \<le> D + p + 1 / 2 ^ 22"
    using assms(3) by (simp_all add: oscillates_def t_def D_def)
  have D: "(if phase s = 1 then d else f32 (1 - d)) = D" "p + 1 / 2000 \<le> D" "D < 1"
    using p assms(2) by (simp_all add: D_def part_length_def)
  have "\<bar>fst (square_step p d s)\<bar> \<le> 547 * of_int (volume s) + 1 / 100 \<and> oscillates p d (snd (square_step p d s))"
  proof (cases "t < D")
    case True
    have "0 \<le> f32 (t + p)" using t p by (intro f32_nonneg) simp
    moreover have "f32 (t + p) \<le> D + p + 1 / 2 ^ 22"
      using f32_positive [of "t + p"] t p True D by (simp add: add_divide_distrib)
    moreover have "\<bar>f32 (SDL_MAX_SINT16 * phase s)\<bar> \<le> 32801"
    proof -
      have "\<bar>SDL_MAX_SINT16 * phase s\<bar> \<le> 32767" using ph by (auto simp: SDL_MAX_SINT16_def)
      from f32_bound [OF this] show ?thesis by simp
    qed
    note level_bound [OF assms(4,5) this]
    ultimately show ?thesis
      using True ph by (simp add: square_step_def D(1) t_def [symmetric] oscillates_def part_length_def D_def)
  next
    case False
    define u where "u = f32 (t - D)"
    define f where "f = f32 (u / p)"
    have u: "0 \<le> u" "u \<le> p + 1 / 2 ^ 21"
      using f32_positive [of "t - D"] f32_nonneg [of "t - D"] False t p D
      by (simp_all add: u_def add_divide_distrib diff_divide_distrib)
    have "u / p \<le> 1 + 700 / 2 ^ 21" "0 \<le> u / p"
      using u p by (simp_all add: pos_divide_le_eq)
    then have f: "0 \<le> f" "f \<le> 1 + 1 / 2000"
      using f32_positive [of "u / p"] f32_nonneg [of "u / p"] by (simp_all add: f_def)
    have level: "\<bar>f32 (f32 (f32 (f32 (2 * f) - 1) * SDL_MAX_SINT16) * - phase s)\<bar> \<le> 32801"
      using transition_level [OF f] ph by auto
    define D' where "D' = (if - phase s = 1 then d else 1 - d)"
    have D': "p + 1 / 2000 \<le> D'" "D' < 1" using p by (simp_all add: D'_def)
    have next_t: "0 \<le> f32 (u + p)" "f32 (u + p) \<le> D' + p + 1 / 2 ^ 22"
      using f32_positive [of "u + p"] f32_nonneg [of "u + p"] u p D' by (simp_all add: add_divide_distrib)
    have step: "square_step p d s =
        (f32 (f32 (f32 (f32 (f32 (2 * f) - 1) * SDL_MAX_SINT16) * - phase s) * gain s),
         s\<lparr>phase := - phase s, tick_counter := f32 (u + p)\<rparr>)"
      using False by (simp add: square_step_def D(1) t_def [symmetric] Let_def u_def f_def gain_def)
    show ?thesis
      using level_bound [OF assms(4,5) level] next_t ph
      by (simp add: step oscillates_def part_length_def D'_def) auto
  qed
  then show "\<bar>fst (square_step p d s)\<bar> \<le> 547 * of_int (volume s) + 1 / 100" and "oscillates p d (snd (square_step p d s))"
    by simp_all
qed

text \<open>What a channel writes: at most one number for each sample, of a bounded size.\<close>

definition channel_fits :: "nat \<Rightarrow> rat \<Rightarrow> rat res list \<Rightarrow> bool" where
  "channel_fits len b ys \<longleftrightarrow> length ys \<le> len \<and> (\<forall>y \<in> set ys. \<exists>x. y = Inr x \<and> \<bar>x\<bar> \<le> b)"

lemma channel_fits_Nil [simp]: "channel_fits len b []"
  by (simp add: channel_fits_def)

lemma channel_fits_Cons:
  "channel_fits (Suc len) b (y # ys) \<longleftrightarrow> (\<exists>x. y = Inr x \<and> \<bar>x\<bar> \<le> b) \<and> channel_fits len b ys"
  by (auto simp: channel_fits_def)

lemma square_samples_ok:
  assumes "in_time p d" and "f32 (1 - d) = 1 - d" and "oscillates p d s"
    and "0 \<le> volume s" and "volume s \<le> 15"
  shows "channel_fits k (547 * of_int (volume s) + 1 / 100) (map Inr (fst (square_samples k p d s))) \<and>
    oscillates p d (snd (square_samples k p d s))"
  using assms(3-5)
proof (induction k arbitrary: s)
  case (Suc k)
  let ?s = "snd (square_step p d s)"
  have "volume ?s = volume s" using square_setup_step [of p d s] by (simp add: square_setup_def)
  then show ?case
    using square_step_ok [OF assms(1,2) Suc.prems] Suc.IH [of ?s] Suc.prems
    by (simp add: split_beta channel_fits_Cons)
qed simp

lemma Square_write_ok:
  assumes "unat (frequency s) < 2048" and "duty s \<noteq> 3 \<or> unat (frequency s) \<le> 2036 \<or> 2045 \<le> unat (frequency s)"
    and "oscillates (periods_per_sample (frequency s)) (fduty (duty s)) s"
    and "0 \<le> volume s" and "volume s \<le> 15"
  shows "channel_fits len (547 * of_int (volume s) + 1 / 100) (fst (Square_WriteDataIntoStream len s)) \<and>
    oscillates (periods_per_sample (frequency s)) (fduty (duty s)) (snd (Square_WriteDataIntoStream len s))"
proof (cases "fduty (duty s) \<le> periods_per_sample (frequency s)")
  case True
  then show ?thesis using assms(3) by (simp add: Square_WriteDataIntoStream_def)
next
  case False
  then have "in_time (periods_per_sample (frequency s)) (fduty (duty s))"
    using frequency_fits [OF assms(1,2)] by blast
  from square_samples_ok [OF this fduty_rest assms(3-5), of len] show ?thesis
    using assms(3) by (simp add: Square_WriteDataIntoStream_def split_beta)
qed

section \<open>The wave channel\<close>

lemma nibble_less:
  assumes "unat i \<le> 31"
  shows "\<exists>v. wave_nibble r i = Inr v \<and> unat v \<le> 15"
proof -
  have "unat i div 2 < 0x60" using assms by simp
  moreover have "unat (x AND 0xF :: u8) \<le> 15" for x
    using word_and_le1 [of x "0xF"] by (simp add: word_le_nat_alt)
  moreover have "unat (drop_bit 4 (x AND 0xF0) :: u8) \<le> 15" for x
  proof -
    have "unat (drop_bit 4 (x AND 0xF0)) = unat (x AND 0xF0) div 16"
      by (subst unat_drop_bit_eq) (simp add: drop_bit_eq_div)
    then show ?thesis using unat_u8_less [of "x AND 0xF0"] by simp
  qed
  ultimately show ?thesis by (auto simp: wave_nibble_def Let_def)
qed

lemma wave_level:
  assumes "n \<le> 15" and "0 \<le> v" and "v \<le> 1"
  shows "\<bar>f32 (f32 (SDL_MAX_SINT16 * f32 (f32 (f32 (2 * of_nat n) / 15) - 1)) * f32 (v * (1 / 4)))\<bar> \<le> 8194"
proof -
  define a b c where "a = f32 (2 * of_nat n)" and "b = f32 (a / 15)" and "c = f32 (b - 1)"
  define y g where "y = f32 (SDL_MAX_SINT16 * c)" and "g = f32 (v * (1 / 4))"
  have "(of_nat n :: rat) \<le> of_nat 15" using assms(1) by (subst of_nat_le_iff)
  then have n: "0 \<le> (of_nat n :: rat)" "(of_nat n :: rat) \<le> 15" by simp_all
  then have a: "0 \<le> a" "a \<le> 30001 / 1000"
    using f32_positive [of "2 * of_nat n"] f32_nonneg [of "2 * of_nat n"] by (simp_all add: a_def)
  then have b: "0 \<le> b" "b \<le> 20001 / 10000"
    using f32_positive [of "a / 15"] f32_nonneg [of "a / 15"] by (simp_all add: b_def)
  then have "\<bar>b - 1\<bar> \<le> 10001 / 10000" by linarith
  from f32_bound [OF this] have "\<bar>c\<bar> \<le> 10002 / 10000" by (simp add: c_def)
  then have "\<bar>SDL_MAX_SINT16 * c\<bar> \<le> 327736 / 10" by (simp add: abs_mult SDL_MAX_SINT16_def)
  from f32_bound [OF this] have y: "\<bar>y\<bar> \<le> 327737 / 10" by (simp add: y_def)
  have "0 \<le> g" "g \<le> 2500001 / 10000000"
    using f32_positive [of "v * (1 / 4)"] f32_nonneg [of "v * (1 / 4)"] assms(2,3) by (simp_all add: g_def)
  then have "\<bar>y * g\<bar> \<le> 327737 / 10 * (2500001 / 10000000)"
    unfolding abs_mult using y by (intro mult_mono) simp_all
  from f32_bound [OF this] show ?thesis by (simp add: y_def g_def c_def b_def a_def)
qed

lemma wave_step_ok:
  assumes "unat (sample_index w) \<le> 31"
  shows "(\<exists>x. fst (wave_step e r w) = Inr x \<and> \<bar>x\<bar> \<le> 8194) \<and> unat (sample_index (snd (wave_step e r w))) \<le> 31"
proof -
  let ?w = "snd (wave_step e r w)"
  have "\<not> sample_index w + 1 > 31 \<Longrightarrow> unat (sample_index w + 1) \<le> 31"
    by (simp add: not_less word_le_nat_alt)
  then have i: "unat (sample_index ?w) \<le> 31"
    using assms by (simp add: wave_step_def Let_def)
  obtain v where v: "wave_nibble r (sample_index ?w) = Inr v" "unat v \<le> 15"
    using nibble_less [OF i] by blast
  have "volume ?w = volume w" using wave_setup_step [of e r w] by (simp add: wave_setup_def)
  then have "fst (wave_step e r w) = map_sum id (\<lambda>sample. f32 (f32 (SDL_MAX_SINT16 *
      f32 (f32 (f32 (2 * of_nat (unat sample)) / 15) - 1)) * f32 (fvolume (volume w) * (1 / 4))))
      (wave_nibble r (sample_index ?w))"
    by (simp add: wave_step_def Let_def)
  moreover have "0 \<le> fvolume (volume w)" "fvolume (volume w) \<le> 1"
    by (simp_all add: fvolume_def)
  ultimately show ?thesis
    using v wave_level [OF v(2), of "fvolume (volume w)"] i by simp
qed

lemma wave_samples_ok:
  assumes "unat (sample_index w) \<le> 31"
  shows "channel_fits k 8194 (fst (wave_samples k e r w)) \<and> unat (sample_index (snd (wave_samples k e r w))) \<le> 31"
  using assms
proof (induction k arbitrary: w)
  case (Suc k)
  then show ?case using wave_step_ok [OF Suc.prems, of e r] by (simp add: split_beta channel_fits_Cons)
qed simp

lemma Wave_write_ok:
  assumes "unat (sample_index w) \<le> 31"
  shows "channel_fits len 8194 (fst (Wave_WriteDataIntoStream len r w)) \<and>
    unat (sample_index (snd (Wave_WriteDataIntoStream len r w))) \<le> 31"
  using assms wave_samples_ok [OF assms] by (simp add: Wave_WriteDataIntoStream_def)

section \<open>Noise\<close>

text \<open>
  The shift register is clocked at a steady rate: less than one period of it is left over, and if it is
  slower than the samples, then the last sum is one of at most one bit.
\<close>

definition ticks_steady :: "Noise \<Rightarrow> bool" where
  "ticks_steady n \<longleftrightarrow> 8 \<le> unat (cpu_ticks_per_lfsr_sample n) \<and> unat (cpu_ticks_per_lfsr_sample n) < 2 ^ 22 \<and>
     tick_cntr n < cpu_ticks_per_lfsr_sample n \<and> 0 \<le> lfsr_sum n \<and>
     (unat (cpu_ticks_per_lfsr_sample n) \<le> 95 \<or> lfsr_sum n \<le> 1)"

definition noise_steady :: "Noise \<Rightarrow> bool" where
  "noise_steady n \<longleftrightarrow> ticks_steady n \<and> - 1 / 1000 \<le> capacitor n \<and> capacitor n \<le> 1 + 1 / 1000"

lemma lfsr_sum_bound:
  assumes "j + k \<le> 16"
  shows "\<exists>m \<le> j + k. snd (lfsr_ticks width k bits (of_nat j)) = of_nat m"
  using assms
proof (induction k arbitrary: bits j)
  case (Suc k)
  let ?b = "unat (lfsr_tick width bits AND 1)"
  have "?b \<le> 1" using word_and_le1 [of "lfsr_tick width bits" 1] by (simp add: word_le_nat_alt)
  moreover from this have "f32 (of_nat j + of_nat ?b) = of_nat (j + ?b)"
    using f32_small [of "j + ?b"] Suc.prems by simp
  ultimately show ?case
    using Suc.IH [of "j + ?b" "lfsr_tick width bits"] Suc.prems by (auto simp: Let_def)
qed auto

lemma stream_sample_length_eq: "stream_sample_length = 95"
  by (simp add: stream_sample_length_def)

lemma ticks_number:
  fixes t c :: u32
  assumes "t < c" and "8 \<le> unat c" and "unat c < 2 ^ 22"
  shows "unat ((t + stream_sample_length) div c) = (unat t + 95) div unat c"
    and "(unat t + 95) div unat c \<le> 12"
    and "95 < unat c \<Longrightarrow> (unat t + 95) div unat c \<le> 1"
    and "sint ((t + stream_sample_length) div c) = int ((unat t + 95) div unat c)"
    and "t + stream_sample_length - (t + stream_sample_length) div c * c < c"
proof -
  have t: "unat t < unat c" using assms(1) by (simp add: word_less_nat_alt)
  have add: "unat (t + stream_sample_length) = unat t + 95"
    using t assms(3) by (simp add: stream_sample_length_eq unat_word_ariths)
  show k: "unat ((t + stream_sample_length) div c) = (unat t + 95) div unat c"
    by (simp only: unat_div_distrib add)
  have "unat t + 95 < unat c * 13" using t assms(2) by simp
  then have "(unat t + 95) div unat c < 13" by (simp add: div_less_iff_less_mult assms(2) mult.commute)
  then show k12: "(unat t + 95) div unat c \<le> 12" by simp
  show "(unat t + 95) div unat c \<le> 1" if "95 < unat c"
  proof -
    have "unat t + 95 < 2 * unat c" using t that by simp
    then have "(unat t + 95) div unat c < 2" using assms(2) by (simp add: div_less_iff_less_mult)
    then show ?thesis by simp
  qed
  show "sint ((t + stream_sample_length) div c) = int ((unat t + 95) div unat c)"
    unfolding sint_uint uint_nat k by (rule signed_take_bit_int_eq_self) (use k12 in simp_all)
  have "t + stream_sample_length - (t + stream_sample_length) div c * c = (t + stream_sample_length) mod c"
    by (rule minus_div_mult_eq_mod)
  moreover have "(t + stream_sample_length) mod c < c"
    using t assms(2) by (simp add: word_less_nat_alt unat_mod_distrib)
  ultimately show "t + stream_sample_length - (t + stream_sample_length) div c * c < c" by simp
qed

lemma DoLfsrTicks_ok:
  assumes "ticks_steady n" and "k = (unat (tick_cntr n) + 95) div unat (cpu_ticks_per_lfsr_sample n)"
    and "lfsr_sum n' = lfsr_sum n"
  shows "0 \<le> fst (DoLfsrTicks (int k) n') \<and> fst (DoLfsrTicks (int k) n') \<le> 1 + 1 / 10 ^ 6"
    and "0 \<le> lfsr_sum (snd (DoLfsrTicks (int k) n')) \<and>
      (unat (cpu_ticks_per_lfsr_sample n) \<le> 95 \<or> lfsr_sum (snd (DoLfsrTicks (int k) n')) \<le> 1)"
proof -
  let ?c = "unat (cpu_ticks_per_lfsr_sample n)"
  have c: "8 \<le> ?c" "?c < 2 ^ 22" "tick_cntr n < cpu_ticks_per_lfsr_sample n"
    and sum_ok: "0 \<le> lfsr_sum n" "?c \<le> 95 \<or> lfsr_sum n \<le> 1"
    using assms(1) by (simp_all add: ticks_steady_def)
  have k: "k \<le> 12" "95 < ?c \<Longrightarrow> k \<le> 1"
    using ticks_number(2,3) [OF c(3,1,2)] assms(2) by simp_all
  have "(0 \<le> fst (DoLfsrTicks (int k) n') \<and> fst (DoLfsrTicks (int k) n') \<le> 1 + 1 / 10 ^ 6) \<and>
    0 \<le> lfsr_sum (snd (DoLfsrTicks (int k) n')) \<and> (?c \<le> 95 \<or> lfsr_sum (snd (DoLfsrTicks (int k) n')) \<le> 1)"
  proof (cases "k = 0")
    case True
    then have "95 < ?c" using assms(2) c(1) by (auto simp: div_eq_0_iff)
    then have "lfsr_sum n \<le> 1" using sum_ok(2) by simp
    then show ?thesis using True sum_ok(1) assms(3) by (simp add: DoLfsrTicks_def)
  next
    case False
    obtain bits acc where l: "lfsr_ticks (lfsr_width n') k (lfsr_bits n') 0 = (bits, acc)"
      by fastforce
    then obtain m where m: "acc = of_nat m" "m \<le> k"
      using lfsr_sum_bound [of 0 k "lfsr_width n'" "lfsr_bits n'"] k(1) by auto
    define q where "q = (of_nat m / of_nat k :: rat)"
    have "(of_nat m :: rat) \<le> of_nat k" using m(2) by (subst of_nat_le_iff)
    then have q: "0 \<le> q" "q \<le> 1" using False by (simp_all add: q_def divide_le_eq)
    then have f: "0 \<le> f32 q" "f32 q \<le> 1 + 1 / 10 ^ 6"
      using f32_positive [of q] f32_nonneg [of q] by simp_all
    have "DoLfsrTicks (int k) n' = (f32 q, n'\<lparr>lfsr_bits := bits, lfsr_sum := of_nat m\<rparr>)"
      using False l m(1) f32_small [of k] k(1) by (simp add: DoLfsrTicks_def q_def)
    moreover have "95 < ?c \<Longrightarrow> (of_nat m :: rat) \<le> 1"
      using m(2) k(2) by simp
    ultimately show ?thesis using f by (cases "?c \<le> 95") simp_all
  qed
  then show "0 \<le> fst (DoLfsrTicks (int k) n') \<and> fst (DoLfsrTicks (int k) n') \<le> 1 + 1 / 10 ^ 6"
    and "0 \<le> lfsr_sum (snd (DoLfsrTicks (int k) n')) \<and>
      (?c \<le> 95 \<or> lfsr_sum (snd (DoLfsrTicks (int k) n')) \<le> 1)"
    by simp_all
qed

text \<open>The high-pass filter keeps its capacitor near the range of its input.\<close>

lemma Hipass_ok:
  assumes "0 \<le> x" and "x \<le> 1 + 1 / 10 ^ 6" and "- 1 / 1000 \<le> capacitor n" and "capacitor n \<le> 1 + 1 / 1000"
  shows "\<bar>fst (Hipass x n)\<bar> \<le> 1002 / 1000"
    and "- 1 / 1000 \<le> capacitor (snd (Hipass x n)) \<and> capacitor (snd (Hipass x n)) \<le> 1 + 1 / 1000"
proof -
  define c out g h where "c = capacitor n" and "out = f32 (x - c)" and "g = f32 (996 / 1000)" and "h = f32 (out * g)"
  have g: "g = 16710107 / 16777216" unfolding g_def by code_simp
  have c: "- 1 / 1000 \<le> c" "c \<le> 1 + 1 / 1000" using assms(3,4) by (simp_all add: c_def)
  have d: "\<bar>x - c\<bar> \<le> 10011 / 10000" by (rule abs_leI) (use assms(1,2) c in simp_all)
  have "\<bar>out - (x - c)\<bar> \<le> 2 / 10 ^ 7" using f32_error [of "x - c"] d by (simp add: out_def)
  then have out: "x - c - 2 / 10 ^ 7 \<le> out" "out \<le> x - c + 2 / 10 ^ 7" by (simp_all only: abs_diff_le_iff)
  have out': "\<bar>out\<bar> \<le> 1002 / 1000" using f32_bound [OF d] by (simp add: out_def)
  then have "\<bar>out * g\<bar> \<le> 1002 / 1000" by (simp add: abs_mult g)
  then have "\<bar>h - out * g\<bar> \<le> 2 / 10 ^ 7" using f32_error [of "out * g"] by (simp add: h_def)
  then have h: "out * g - 2 / 10 ^ 7 \<le> h" "h \<le> out * g + 2 / 10 ^ 7" by (simp_all only: abs_diff_le_iff)
  have "- 998 / 1000000 \<le> x - h" "x - h \<le> 1 + 998 / 1000000"
    using h out c assms(1,2) by (simp_all add: g)
  then have "- 1 / 1000 \<le> f32 (x - h)" "f32 (x - h) \<le> 1 + 1 / 1000"
    using f32_bounds [of "- 998 / 1000000" "x - h" "1 + 998 / 1000000" 2] by simp_all
  then show "- 1 / 1000 \<le> capacitor (snd (Hipass x n)) \<and> capacitor (snd (Hipass x n)) \<le> 1 + 1 / 1000"
    by (simp add: Hipass_def Let_def h_def out_def c_def g_def)
  show "\<bar>fst (Hipass x n)\<bar> \<le> 1002 / 1000"
    using out' by (simp add: Hipass_def Let_def out_def c_def)
qed

lemma noise_level:
  assumes "\<bar>x\<bar> \<le> 1002 / 1000" and "0 \<le> volume n" and "volume n \<le> 15"
  shows "\<bar>f32 (f32 (SDL_MAX_SINT16 * f32 (f32 (2 * x) - 1)) * gain n)\<bar> \<le> 1647 * of_int (volume n) + 1 / 100"
proof -
  define a b where "a = f32 (2 * x)" and "b = f32 (a - 1)"
  have "\<bar>2 * x\<bar> \<le> 2004 / 1000" using assms(1) by (simp add: abs_mult)
  from f32_bound [OF this] have "\<bar>a\<bar> \<le> 20041 / 10000" by (simp add: a_def)
  then have "\<bar>a - 1\<bar> \<le> 30041 / 10000" by linarith
  from f32_bound [OF this] have "\<bar>b\<bar> \<le> 30042 / 10000" by (simp add: b_def)
  then have "\<bar>SDL_MAX_SINT16 * b\<bar> \<le> 98439" by (simp add: abs_mult SDL_MAX_SINT16_def)
  from f32_bound [OF this] have "\<bar>f32 (SDL_MAX_SINT16 * b)\<bar> \<le> 98440" by simp
  from gained [OF this _ assms(2,3)] show ?thesis
    using assms(2) by (simp add: a_def b_def)
qed

lemma noise_step_steady:
  assumes "noise_steady n" and "0 \<le> volume n" and "volume n \<le> 15"
  shows "\<bar>fst (noise_step n)\<bar> \<le> 1647 * of_int (volume n) + 1 / 100 \<and> noise_steady (snd (noise_step n)) \<and>
    volume (snd (noise_step n)) = volume n"
proof -
  let ?c = "cpu_ticks_per_lfsr_sample n" and ?t = "tick_cntr n"
  define n1 where "n1 = n\<lparr>tick_cntr := ?t + stream_sample_length\<rparr>"
  define k where "k = (unat ?t + 95) div unat ?c"
  define x n2 where "x = fst (DoLfsrTicks (int k) n1)" and "n2 = snd (DoLfsrTicks (int k) n1)"
  have ticks: "ticks_steady n" and c: "?t < ?c" "8 \<le> unat ?c" "unat ?c < 2 ^ 22"
    and cap: "- 1 / 1000 \<le> capacitor n" "capacitor n \<le> 1 + 1 / 1000"
    using assms(1) by (simp_all add: noise_steady_def ticks_steady_def)
  note number = ticks_number [OF c]
  have x: "0 \<le> x" "x \<le> 1 + 1 / 10 ^ 6" and sum_ok: "0 \<le> lfsr_sum n2" "unat ?c \<le> 95 \<or> lfsr_sum n2 \<le> 1"
    using DoLfsrTicks_ok [OF ticks k_def, of n1] by (simp_all add: x_def n2_def n1_def)
  have n2: "cpu_ticks_per_lfsr_sample n2 = ?c" "tick_cntr n2 = ?t + stream_sample_length"
    "capacitor n2 = capacitor n" "volume n2 = volume n"
    by (simp_all add: n2_def n1_def DoLfsrTicks_def split_beta)
  define y n3 where "y = fst (Hipass x n2)" and "n3 = snd (Hipass x n2)"
  have y: "\<bar>y\<bar> \<le> 1002 / 1000" "- 1 / 1000 \<le> capacitor n3" "capacitor n3 \<le> 1 + 1 / 1000"
    using Hipass_ok [OF x, of n2] cap n2(3) by (simp_all add: y_def n3_def)
  have n3: "cpu_ticks_per_lfsr_sample n3 = ?c" "tick_cntr n3 = ?t + stream_sample_length"
    "lfsr_sum n3 = lfsr_sum n2" "volume n3 = volume n"
    using n2 by (simp_all add: n3_def Hipass_def Let_def)
  define n4 where "n4 = n3\<lparr>tick_cntr := ?t + stream_sample_length - (?t + stream_sample_length) div ?c * ?c\<rparr>"
  have D: "DoLfsrTicks (sint (tick_cntr n1 div cpu_ticks_per_lfsr_sample n1)) n1 = (x, n2)"
    using number(4) by (simp add: x_def n2_def k_def) (simp add: n1_def)
  have H: "Hipass x n2 = (y, n3)" by (simp add: y_def n3_def)
  have step: "noise_step n = (f32 (f32 (SDL_MAX_SINT16 * f32 (f32 (2 * y) - 1)) * gain n4), n4)"
    unfolding noise_step_def Let_def n1_def [symmetric] D H prod.case using n3
    by (simp add: n4_def n1_def)
  have "volume n4 = volume n" using n3 by (simp add: n4_def)
  moreover have "noise_steady n4"
    using y(2,3) number(5) c sum_ok n3 by (simp add: noise_steady_def ticks_steady_def n4_def)
  ultimately show ?thesis
    using noise_level [OF y(1), of n4] assms(2,3) by (simp add: step)
qed

lemma noise_samples_steady:
  assumes "noise_steady n" and "0 \<le> volume n" and "volume n \<le> 15"
  shows "channel_fits k (1647 * of_int (volume n) + 1 / 100) (map Inr (fst (noise_samples k n))) \<and>
    noise_steady (snd (noise_samples k n)) \<and> volume (snd (noise_samples k n)) = volume n"
  using assms
proof (induction k arbitrary: n)
  case (Suc k)
  then show ?case
    using noise_step_steady [OF Suc.prems] Suc.IH [of "snd (noise_step n)"]
    by (simp add: split_beta channel_fits_Cons)
qed simp

lemma Noise_write_ok:
  assumes "noise_steady n" and "0 \<le> volume n" and "volume n \<le> 15"
  shows "channel_fits len (1647 * of_int (volume n) + 1 / 100) (fst (Noise_WriteDataIntoStream len n)) \<and>
    noise_steady (snd (Noise_WriteDataIntoStream len n)) \<and>
    volume (snd (Noise_WriteDataIntoStream len n)) = volume n"
  using assms(1) noise_samples_steady [OF assms, of len]
  by (simp add: Noise_WriteDataIntoStream_def split_beta)

section \<open>The sum of the channels\<close>

definition stream_fits :: "nat \<Rightarrow> rat \<Rightarrow> int list \<Rightarrow> bool" where
  "stream_fits len b ss \<longleftrightarrow> length ss = len \<and> (\<forall>s \<in> set ss. \<bar>of_int s\<bar> \<le> b)"

lemma stream_fits_Cons:
  "stream_fits len b (s # ss) \<longleftrightarrow> \<bar>of_int s\<bar> \<le> b \<and> (\<exists>k. len = Suc k \<and> stream_fits k b ss)"
  by (auto simp: stream_fits_def)

lemma stream_fits_mono: "stream_fits len b ss \<Longrightarrow> b \<le> c \<Longrightarrow> stream_fits len c ss"
  by (auto simp: stream_fits_def)

lemma add_sample_ok:
  assumes "\<bar>of_int s\<bar> \<le> A" and "\<bar>x\<bar> \<le> B" and "A + B \<le> 32766"
  shows "\<exists>t. add_sample s x = Inr t \<and> \<bar>of_int t\<bar> \<le> A + B + 1 / 50"
proof -
  have pos: "0 \<le> A" "0 \<le> B" using assms(1,2) abs_ge_zero order_trans by blast+
  define y where "y = f32 (of_int s)"
  have "\<bar>y\<bar> \<le> A + 4 / 1000"
    using f32_bound [OF assms(1)] assms(3) pos by (simp add: y_def)
  then have "\<bar>y + x\<bar> \<le> A + B + 4 / 1000" using assms(2) by linarith
  from f32_bound [OF this] have "\<bar>f32 (y + x)\<bar> \<le> A + B + 1 / 50"
    using assms(3) pos by (simp add: add_divide_distrib)
  then have t: "\<bar>of_int (to_integer (f32 (y + x)))\<bar> \<le> A + B + 1 / 50"
    using to_integer_le order_trans by blast
  define t where "t = to_integer (f32 (y + x))"
  have "\<bar>of_int t\<bar> < (32767 :: rat)" using t assms(3) by (simp add: t_def)
  then have "\<bar>t\<bar> < 32767" by (simp flip: of_int_abs)
  then show ?thesis using t by (auto simp: add_sample_def y_def t_def Let_def)
qed

lemma add_channel_ok:
  assumes "channel_fits len B ys" and "stream_fits len A ss" and "0 \<le> B" and "A + B \<le> 32766"
  shows "\<exists>ss'. add_channel ys ss = Inr ss' \<and> stream_fits len (A + B + 1 / 50) ss'"
  using assms(1,2)
proof (induction ys ss arbitrary: len rule: add_channel.induct)
  case (1 y ys s ss)
  then obtain k where k: "len = Suc k" "stream_fits k A ss" "\<bar>of_int s\<bar> \<le> A"
    by (auto simp: stream_fits_Cons)
  then obtain x where x: "y = Inr x" "\<bar>x\<bar> \<le> B" and ys: "channel_fits k B ys"
    using "1.prems"(1) by (auto simp: channel_fits_Cons)
  obtain t where t: "add_sample s x = Inr t" "\<bar>of_int t\<bar> \<le> A + B + 1 / 50"
    using add_sample_ok [OF k(3) x(2) assms(4)] by blast
  obtain ts where "add_channel ys ss = Inr ts" "stream_fits k (A + B + 1 / 50) ts"
    using "1.IH" [OF x(1) t(1) ys k(2)] by blast
  then show ?case using x t k(1) by (auto simp: stream_fits_Cons)
qed (use assms(3) in \<open>auto intro: stream_fits_mono\<close>)

text \<open>
  What a steady unit is: the registers of the square channels have not changed in the middle of a
  period, the noise is clocked at a steady rate, and the volumes leave room for the noise, which
  swings to three times its level.
\<close>

definition square_steady :: "u8 \<Rightarrow> u8 \<Rightarrow> u8 \<Rightarrow> Square \<Rightarrow> bool" where
  "square_steady nr1 nr3 nr4 s \<longleftrightarrow>
     (let d = ucast (drop_bit 6 nr1); f = reg_frequency nr3 nr4 in
      (d \<noteq> 3 \<or> unat f \<le> 2036 \<or> 2045 \<le> unat f) \<and> oscillates (periods_per_sample f) (fduty d) s)"

definition audio_steady :: "apu_regs \<Rightarrow> Apu \<Rightarrow> bool" where
  "audio_steady r a \<longleftrightarrow>
     square_steady (r reg_nr11) (r reg_nr13) (r reg_nr14) (square1 a) \<and>
     square_steady (r reg_nr21) (r reg_nr23) (r reg_nr24) (square2 a) \<and>
     unat (sample_index (wave a)) \<le> 31 \<and>
     noise_steady ((noise a)\<lparr>cpu_ticks_per_lfsr_sample :=
       push_bit (unat (ucast (drop_bit 4 (r reg_nr43)) :: u32)) (divisor_table ! unat (r reg_nr43 AND 7))\<rparr>) \<and>
     volume (square1 a) + volume (square2 a) + 4 * volume (noise a) \<le> 45"

lemma Square_steady:
  assumes "square_steady nr1 nr3 nr4 s" and "channel_ok 64 15 s"
    and "s' = s\<lparr>duty := ucast (drop_bit 6 nr1), frequency := reg_frequency nr3 nr4\<rparr>"
  shows "channel_fits len (547 * of_int (volume s) + 1 / 100) (fst (Square_WriteDataIntoStream len s')) \<and>
    square_steady nr1 nr3 nr4 (snd (Square_WriteDataIntoStream len s')) \<and>
    volume (snd (Square_WriteDataIntoStream len s')) = volume s"
proof -
  have "unat (frequency s') < 2048" "0 \<le> volume s'" "volume s' \<le> 15"
    using assms(2) by (simp_all add: assms(3) reg_frequency_less channel_ok_def)
  moreover have "duty s' \<noteq> 3 \<or> unat (frequency s') \<le> 2036 \<or> 2045 \<le> unat (frequency s')"
    "oscillates (periods_per_sample (frequency s')) (fduty (duty s')) s'"
    using assms(1) by (simp_all add: square_steady_def Let_def assms(3) oscillates_def part_length_def)
  ultimately show ?thesis
    using Square_write_ok [of s' len] square_setup_write [of len s'] assms(1)
    by (simp add: square_steady_def Let_def assms(3) square_setup_def)
qed

text \<open>The channels with what the callback sets from the registers.\<close>

definition play_square1 :: "apu_regs \<Rightarrow> Apu \<Rightarrow> Square" where
  "play_square1 r a = (square1 a)\<lparr>duty := ucast (drop_bit 6 (r reg_nr11)),
     frequency := reg_frequency (r reg_nr13) (r reg_nr14)\<rparr>"

definition play_square2 :: "apu_regs \<Rightarrow> Apu \<Rightarrow> Square" where
  "play_square2 r a = (square2 a)\<lparr>duty := ucast (drop_bit 6 (r reg_nr21)),
     frequency := reg_frequency (r reg_nr23) (r reg_nr24)\<rparr>"

definition play_wave :: "apu_regs \<Rightarrow> Apu \<Rightarrow> Wave" where
  "play_wave r a = (wave a)\<lparr>dac_enable := r reg_nr30 AND 0x80 \<noteq> 0,
     volume := uint (drop_bit 5 (r reg_nr32) AND 3), wave_period := reg_frequency (r reg_nr33) (r reg_nr34)\<rparr>"

definition lfsr_clock :: "apu_regs \<Rightarrow> u32" where
  "lfsr_clock r = push_bit (unat (ucast (drop_bit 4 (r reg_nr43)) :: u32)) (divisor_table ! unat (r reg_nr43 AND 7))"

definition play_noise :: "apu_regs \<Rightarrow> Apu \<Rightarrow> Noise" where
  "play_noise r a = (noise a)\<lparr>divisor := divisor_table ! unat (r reg_nr43 AND 7),
     lfsr_width := (if drop_bit 3 (r reg_nr43) AND 1 \<noteq> 0 then 7 else 15),
     noise_shift := ucast (drop_bit 4 (r reg_nr43)), cpu_ticks_per_lfsr_sample := lfsr_clock r\<rparr>"

lemma audio_channels_on:
  assumes "drop_bit 7 (r reg_nr52) \<noteq> 0"
  shows "audio_stream len r a =
      for_each [fst (Square_WriteDataIntoStream len (play_square1 r a)),
        fst (Square_WriteDataIntoStream len (play_square2 r a)),
        fst (Wave_WriteDataIntoStream len r (play_wave r a)),
        fst (Noise_WriteDataIntoStream len (play_noise r a))] add_channel (replicate len 0)"
    and "audio_callback len r a = a\<lparr>square1 := snd (Square_WriteDataIntoStream len (play_square1 r a)),
        square2 := snd (Square_WriteDataIntoStream len (play_square2 r a)),
        wave := snd (Wave_WriteDataIntoStream len r (play_wave r a)),
        noise := snd (Noise_WriteDataIntoStream len (play_noise r a))\<rparr>"
proof -
  have "audio_channels len r a =
      (let (xs1, s1) = Square_WriteDataIntoStream len (play_square1 r a);
           (xs2, s2) = Square_WriteDataIntoStream len (play_square2 r a);
           (xsw, w) = Wave_WriteDataIntoStream len r (play_wave r a);
           (xsn, n) = Noise_WriteDataIntoStream len (play_noise r a) in
       ([xs1, xs2, xsw, xsn], a\<lparr>square1 := s1, square2 := s2, wave := w, noise := n\<rparr>))"
    using assms by (simp add: audio_channels_def Let_def play_square1_def play_square2_def play_wave_def
        play_noise_def lfsr_clock_def)
  then show "audio_stream len r a =
      for_each [fst (Square_WriteDataIntoStream len (play_square1 r a)),
        fst (Square_WriteDataIntoStream len (play_square2 r a)),
        fst (Wave_WriteDataIntoStream len r (play_wave r a)),
        fst (Noise_WriteDataIntoStream len (play_noise r a))] add_channel (replicate len 0)"
    "audio_callback len r a = a\<lparr>square1 := snd (Square_WriteDataIntoStream len (play_square1 r a)),
        square2 := snd (Square_WriteDataIntoStream len (play_square2 r a)),
        wave := snd (Wave_WriteDataIntoStream len r (play_wave r a)),
        noise := snd (Noise_WriteDataIntoStream len (play_noise r a))\<rparr>"
    by (simp_all add: audio_stream_def audio_callback_def Let_def split_beta del: for_each.simps)
qed

lemma for_each_channels:
  assumes "channel_fits len b1 xs1" and "channel_fits len b2 xs2" and "channel_fits len b3 xs3"
    and "channel_fits len b4 xs4" and "0 \<le> b1" and "0 \<le> b2" and "0 \<le> b3" and "0 \<le> b4"
    and "b1 + b2 + b3 + b4 \<le> 32765"
  shows "\<exists>stream. for_each [xs1, xs2, xs3, xs4] add_channel (replicate len 0) = Inr stream \<and>
    stream_fits len 32766 stream"
proof -
  have 0: "stream_fits len 0 (replicate len 0)" by (simp add: stream_fits_def)
  obtain t1 where t1: "add_channel xs1 (replicate len 0) = Inr t1" "stream_fits len (0 + b1 + 1 / 50) t1"
    using add_channel_ok [OF assms(1) 0 assms(5)] assms(5-9) by fastforce
  obtain t2 where t2: "add_channel xs2 t1 = Inr t2" "stream_fits len (0 + b1 + 1 / 50 + b2 + 1 / 50) t2"
    using add_channel_ok [OF assms(2) t1(2) assms(6)] assms(5-9) by fastforce
  obtain t3 where t3: "add_channel xs3 t2 = Inr t3"
    "stream_fits len (0 + b1 + 1 / 50 + b2 + 1 / 50 + b3 + 1 / 50) t3"
    using add_channel_ok [OF assms(3) t2(2) assms(7)] assms(5-9) by fastforce
  obtain t4 where t4: "add_channel xs4 t3 = Inr t4"
    "stream_fits len (0 + b1 + 1 / 50 + b2 + 1 / 50 + b3 + 1 / 50 + b4 + 1 / 50) t4"
    using add_channel_ok [OF assms(4) t3(2) assms(8)] assms(5-9) by fastforce
  have "stream_fits len 32766 t4" using t4(2) by (rule stream_fits_mono) (use assms(9) in simp)
  then show ?thesis using t1(1) t2(1) t3(1) t4(1) by simp
qed

lemma steady_channels:
  assumes "apu_ok a" and "audio_steady r a"
  shows "channel_fits len (547 * of_int (volume (square1 a)) + 1 / 100)
      (fst (Square_WriteDataIntoStream len (play_square1 r a)))"
    and "channel_fits len (547 * of_int (volume (square2 a)) + 1 / 100)
      (fst (Square_WriteDataIntoStream len (play_square2 r a)))"
    and "channel_fits len 8194 (fst (Wave_WriteDataIntoStream len r (play_wave r a)))"
    and "channel_fits len (1647 * of_int (volume (noise a)) + 1 / 100)
      (fst (Noise_WriteDataIntoStream len (play_noise r a)))"
    and "drop_bit 7 (r reg_nr52) \<noteq> 0 \<Longrightarrow> audio_steady r (audio_callback len r a)"
proof -
  have ok: "channel_ok 64 15 (square1 a)" "channel_ok 64 15 (square2 a)" "channel_ok 64 15 (noise a)"
    using assms(1) by (simp_all add: apu_ok_def)
  have steady: "square_steady (r reg_nr11) (r reg_nr13) (r reg_nr14) (square1 a)"
    "square_steady (r reg_nr21) (r reg_nr23) (r reg_nr24) (square2 a)"
    "unat (sample_index (play_wave r a)) \<le> 31"
    "noise_steady ((noise a)\<lparr>cpu_ticks_per_lfsr_sample := lfsr_clock r\<rparr>)"
    "volume (square1 a) + volume (square2 a) + 4 * volume (noise a) \<le> 45"
    using assms(2) by (simp_all add: audio_steady_def play_wave_def lfsr_clock_def)
  have n: "noise_steady (play_noise r a)" "volume (play_noise r a) = volume (noise a)"
    using steady(4) by (simp_all add: play_noise_def noise_steady_def ticks_steady_def)
  have v: "0 \<le> volume (play_noise r a)" "volume (play_noise r a) \<le> 15"
    using ok(3) by (simp_all add: channel_ok_def n)
  note S1 = Square_steady [OF steady(1) ok(1) play_square1_def, of len]
    and S2 = Square_steady [OF steady(2) ok(2) play_square2_def, of len]
    and W = Wave_write_ok [OF steady(3), of len r]
    and N = Noise_write_ok [OF n(1) v, of len, unfolded n(2)]
  from S1 S2 W N
  show "channel_fits len (547 * of_int (volume (square1 a)) + 1 / 100)
      (fst (Square_WriteDataIntoStream len (play_square1 r a)))"
    "channel_fits len (547 * of_int (volume (square2 a)) + 1 / 100)
      (fst (Square_WriteDataIntoStream len (play_square2 r a)))"
    "channel_fits len 8194 (fst (Wave_WriteDataIntoStream len r (play_wave r a)))"
    "channel_fits len (1647 * of_int (volume (noise a)) + 1 / 100)
      (fst (Noise_WriteDataIntoStream len (play_noise r a)))"
    by blast+
  have lfsr: "unat (lfsr_bits (play_noise r a)) < 2 ^ 15" "unat (lfsr_width (play_noise r a)) \<le> 15"
    using assms(1) by (simp_all add: apu_ok_def play_noise_def)
  have "cpu_ticks_per_lfsr_sample (snd (Noise_WriteDataIntoStream len (play_noise r a))) = lfsr_clock r"
    using noise_write_ok [OF lfsr, of len] by (simp add: noise_setup_def play_noise_def)
  then have "(snd (Noise_WriteDataIntoStream len (play_noise r a)))\<lparr>cpu_ticks_per_lfsr_sample := lfsr_clock r\<rparr> =
      snd (Noise_WriteDataIntoStream len (play_noise r a))"
    by simp
  then show "audio_steady r (audio_callback len r a)" if "drop_bit 7 (r reg_nr52) \<noteq> 0"
    using S1 S2 W N steady(5) unfolding audio_channels_on(2) [of r, OF that] audio_steady_def lfsr_clock_def [symmetric]
    by simp
qed

lemma steady_stream:
  assumes "apu_ok a" and "audio_steady r a"
  shows "(\<exists>stream. audio_stream len r a = Inr stream \<and> stream_fits len 32766 stream) \<and>
    audio_steady r (audio_callback len r a)"
proof (cases "drop_bit 7 (r reg_nr52) = 0")
  case True
  then show ?thesis
    using assms(2) by (simp add: audio_stream_def audio_callback_def audio_channels_def stream_fits_def)
next
  case False
  have v: "0 \<le> volume (square1 a)" "volume (square1 a) \<le> 15" "0 \<le> volume (square2 a)" "volume (square2 a) \<le> 15"
    "0 \<le> volume (noise a)" "volume (square1 a) + volume (square2 a) + 4 * volume (noise a) \<le> 45"
    using assms by (simp_all add: apu_ok_def channel_ok_def audio_steady_def)
  then have "547 * volume (square1 a) + 547 * volume (square2 a) + 1647 * volume (noise a) \<le> 22600"
    by simp
  then have "(of_int (547 * volume (square1 a) + 547 * volume (square2 a) + 1647 * volume (noise a)) :: rat) \<le>
      of_int 22600"
    by (subst of_int_le_iff)
  then have limit: "547 * of_int (volume (square1 a)) + 1 / 100 + (547 * of_int (volume (square2 a)) + 1 / 100) +
      8194 + (1647 * of_int (volume (noise a)) + 1 / 100) \<le> (32765 :: rat)"
    by simp
  have pos: "(0 :: rat) \<le> 547 * of_int (volume (square1 a)) + 1 / 100"
    "(0 :: rat) \<le> 547 * of_int (volume (square2 a)) + 1 / 100"
    "(0 :: rat) \<le> 1647 * of_int (volume (noise a)) + 1 / 100"
    using v by simp_all
  note fits = steady_channels(1-4) [OF assms, of len]
  show ?thesis
    unfolding audio_channels_on(1) [of r, OF False]
    using for_each_channels [OF fits pos(1,2) _ pos(3) limit] steady_channels(5) [OF assms False] by simp
qed

section \<open>Overflow\<close>

lemma add_sample_overflow:
  assumes "32770 \<le> \<bar>x\<bar>"
  shows "add_sample 0 x = Inl FloatConversion"
proof -
  define t where "t = to_integer (f32 x)"
  have "32769 \<le> \<bar>f32 x\<bar>" using f32_large [OF assms] by simp
  then have "32768 < \<bar>of_int t :: rat\<bar>" using to_integer_ge [of "f32 x"] unfolding t_def by linarith
  then have "32768 < \<bar>t\<bar>" by (simp flip: of_int_abs)
  then show ?thesis by (auto simp: add_sample_def t_def Let_def)
qed

lemma gain_15: "volume ch = 15 \<Longrightarrow> gain ch = 1 / 4"
proof -
  have "f32 (f32 (of_int 15) / 60) = 1 / 4" by code_simp
  then show "volume ch = 15 \<Longrightarrow> gain ch = 1 / 4" by (simp add: gain_def)
qed

lemma level_large:
  assumes "9 / 2 \<le> \<bar>y\<bar>" and "volume ch = 15" and "w = 1 \<or> w = - 1"
  shows "32770 \<le> \<bar>f32 (f32 (f32 (y * SDL_MAX_SINT16) * w) * gain ch)\<bar>"
proof -
  define a b where "a = f32 (y * SDL_MAX_SINT16)" and "b = f32 (a * w)"
  have "147400 \<le> \<bar>y * SDL_MAX_SINT16\<bar>" using assms(1) by (simp add: abs_mult SDL_MAX_SINT16_def)
  from f32_large [OF this] have "147300 \<le> \<bar>a * w\<bar>" using assms(3) by (auto simp: a_def)
  from f32_large [OF this] have "147200 \<le> \<bar>b\<bar>" by (simp add: b_def)
  then have "36800 \<le> \<bar>b * gain ch\<bar>" unfolding gain_15 [OF assms(2)] by (simp add: abs_mult)
  from f32_large [OF this] show ?thesis by (simp add: a_def b_def)
qed

lemma level_large_once:
  assumes "9 / 2 \<le> \<bar>y\<bar>" and "volume ch = 15"
  shows "32770 \<le> \<bar>f32 (f32 (SDL_MAX_SINT16 * y) * gain ch)\<bar>"
proof -
  define a where "a = f32 (SDL_MAX_SINT16 * y)"
  have "147400 \<le> \<bar>SDL_MAX_SINT16 * y\<bar>" using assms(1) by (simp add: abs_mult SDL_MAX_SINT16_def)
  from f32_large [OF this] have "147300 \<le> \<bar>a\<bar>" by (simp add: a_def)
  then have "36800 \<le> \<bar>a * gain ch\<bar>" unfolding gain_15 [OF assms(2)] by (simp add: abs_mult)
  from f32_large [OF this] show ?thesis by (simp add: a_def)
qed

text \<open>A square wave that is far beyond the end of its part: the factor of the transition is too large.\<close>

lemma square_step_large:
  assumes "phase s = 1" and "1 / 700 \<le> p" and "d + 3 * p \<le> tick_counter s" and "volume s = 15"
  shows "32770 \<le> \<bar>fst (square_step p d s)\<bar>"
proof -
  define u f where "u = f32 (tick_counter s - d)" and "f = f32 (u / p)"
  have "3 * p \<le> \<bar>tick_counter s - d\<bar>" using assms(2,3) by simp
  from f32_large [OF this] have "299 / 100 * p \<le> \<bar>u\<bar>" using assms(2) by (simp add: u_def)
  moreover have "0 \<le> u" unfolding u_def by (rule f32_nonneg) (use assms(2,3) in simp)
  ultimately have "299 / 100 \<le> \<bar>u / p\<bar>" "0 \<le> u / p" using assms(2) by (simp_all add: le_divide_eq)
  then have "298 / 100 \<le> f" using f32_large [of "299 / 100" "u / p"] f32_nonneg [of "u / p"] by (simp add: f_def)
  then have "595 / 100 \<le> \<bar>2 * f\<bar>" "0 \<le> 2 * f" by simp_all
  then have "494 / 100 \<le> \<bar>f32 (2 * f) - 1\<bar>"
    using f32_large [of "595 / 100" "2 * f"] f32_nonneg [of "2 * f"] by simp
  from f32_large [OF this] have y: "9 / 2 \<le> \<bar>f32 (f32 (2 * f) - 1)\<bar>" by simp
  have "\<not> tick_counter s < d" using assms(2,3) by simp
  then have "fst (square_step p d s) =
      f32 (f32 (f32 (f32 (f32 (2 * f) - 1) * SDL_MAX_SINT16) * - 1) * gain s)"
    using assms(1) by (simp add: square_step_def Let_def u_def f_def gain_def)
  then show ?thesis using level_large [OF y assms(4), of "- 1"] by simp
qed

text \<open>A sum of the shift register that was never divided by its number of ticks.\<close>

lemma noise_step_large:
  assumes "unat (tick_cntr n) + 95 < unat (cpu_ticks_per_lfsr_sample n)" and "4 \<le> lfsr_sum n"
    and "capacitor n \<le> 1 + 1 / 1000" and "volume n = 15"
  shows "32770 \<le> \<bar>fst (noise_step n)\<bar>"
proof -
  let ?t = "tick_cntr n + stream_sample_length" and ?c = "cpu_ticks_per_lfsr_sample n"
  have "unat ?t < unat ?c"
    using assms(1) unat_word_ariths(1) [of "tick_cntr n" stream_sample_length]
    by (simp add: stream_sample_length_eq order.strict_trans1 [OF mod_less_eq_dividend])
  then have "?t div ?c = 0" by (simp add: word_unat_eq_iff unat_div_distrib)
  then have ticks: "sint (?t div ?c) = 0" "?t div ?c = 0" by simp_all
  define y where "y = f32 (lfsr_sum n - capacitor n)"
  have "299 / 100 \<le> \<bar>lfsr_sum n - capacitor n\<bar>" "0 \<le> lfsr_sum n - capacitor n" using assms(2,3) by simp_all
  from f32_large [OF this(1)] f32_nonneg [OF this(2)] have "298 / 100 \<le> y" by (simp add: y_def)
  then have "595 / 100 \<le> \<bar>2 * y\<bar>" "0 \<le> 2 * y" by simp_all
  then have "494 / 100 \<le> \<bar>f32 (2 * y) - 1\<bar>"
    using f32_large [of "595 / 100" "2 * y"] f32_nonneg [of "2 * y"] by simp
  from f32_large [OF this] have z: "9 / 2 \<le> \<bar>f32 (f32 (2 * y) - 1)\<bar>" by simp
  have "fst (noise_step n) = f32 (f32 (SDL_MAX_SINT16 * f32 (f32 (2 * y) - 1)) * gain n)"
    using ticks by (simp add: noise_step_def Let_def DoLfsrTicks_def Hipass_def y_def gain_def)
  then show ?thesis using level_large_once [OF z assms(4)] by simp
qed

section \<open>The properties\<close>


text \<open>A unit that plays its first square wave, in the middle of a period.\<close>

definition playing_Apu :: Apu where
  "playing_Apu = test_Apu\<lparr>square1 := (square1 test_Apu)\<lparr>volume := 15, tick_counter := 1 / 2\<rparr>,
     noise := (noise test_Apu)\<lparr>volume := 0\<rparr>\<rparr>"

definition half_duty :: apu_regs where
  "half_duty = (\<lambda>_. 0)(reg_nr52 := 0x80, reg_nr11 := 0x80)"

lemma playing_Apu_steady: "apu_ok playing_Apu" "audio_steady half_duty playing_Apu"
proof -
  show "apu_ok playing_Apu"
    using test_Apu_ok by (simp add: playing_Apu_def apu_ok_def channel_ok_def)
  have "2978 / (1000 * of_nat 2048) \<le> periods_per_sample 0"
    using periods_bounds(2) [of 0 2048] by simp
  then have "0 \<le> periods_per_sample 0" by simp
  then show "audio_steady half_duty playing_Apu"
    by (simp add: audio_steady_def half_duty_def apu_reg_defs square_steady_def reg_frequency_def oscillates_def
        part_length_def playing_Apu_def test_Apu_def new_Apu_def test_Channel_def Channel.extend_def
        noise_steady_def ticks_steady_def divisor_table_def fduty_def word_less_nat_alt Let_def)
qed




end
