(* ===== verification/Symfile_Tracer.thy ===== *)
theory Symfile_Tracer
  imports Prelude
begin

text \<open>
  The access tracer of \<^verbatim>\<open>src/symfile_tracer.cpp\<close>: one flag per byte of 512 banks of 16 KiB, and the
  dump of the accessed runs. The dump is modelled up to the text of a line: \<open>PrintSymbol\<close> yields the
  bank, the address as it is printed and the length.
\<close>

section \<open>The tracer\<close>

definition kMaxBanks :: nat where "kMaxBanks = 512"
definition kBankSize :: nat where "kBankSize = 0x4000"

type_synonym access_arr = "nat \<Rightarrow> bool"

definition new_tracer :: access_arr where
  "new_tracer = (\<lambda>_. False)"

definition Clear :: "access_arr \<Rightarrow> access_arr" where
  "Clear arr = (\<lambda>i. if i < kMaxBanks * kBankSize then False else arr i)"

definition TraceAccess :: "u16 \<Rightarrow> u16 \<Rightarrow> access_arr \<Rightarrow> access_arr res" where
  "TraceAccess bank adr arr =
     (let i = kBankSize * unat bank + unat adr in
      if i < kMaxBanks * kBankSize then Inr (arr(i := True)) else Inl OutOfBounds)"

section \<open>The dump\<close>

record symbol =
  sym_bank :: nat
  sym_adr :: u16
  sym_len :: nat

definition PrintSymbol :: "nat \<Rightarrow> u16 \<Rightarrow> nat \<Rightarrow> symbol" where
  "PrintSymbol bank start_adr len =
     (let start_adr = (if bank \<noteq> 0 then start_adr + 0x4000 else start_adr) in
      \<lparr>sym_bank = bank, sym_adr = start_adr, sym_len = len\<rparr>)"

text \<open>
  The inner loop over the addresses of a bank, from \<open>adr\<close> on. The state of the scan is the start of
  the run it is in, if any (\<^verbatim>\<open>in_access\<close> and \<^verbatim>\<open>start_adr\<close>).
\<close>

fun scan :: "nat \<Rightarrow> nat \<Rightarrow> bool list \<Rightarrow> nat option \<Rightarrow> symbol list" where
  "scan bank adr [] None = []"
| "scan bank adr [] (Some start) = [PrintSymbol bank (of_nat start) (0x4000 - start)]"
| "scan bank adr (b # bs) None = scan bank (Suc adr) bs (if b then Some adr else None)"
| "scan bank adr (b # bs) (Some start) =
     (if b then scan bank (Suc adr) bs (Some start)
      else PrintSymbol bank (of_nat start) (adr - start) # scan bank (Suc adr) bs None)"

definition dump_bank :: "access_arr \<Rightarrow> nat \<Rightarrow> symbol list" where
  "dump_bank arr bank = scan bank 0 (map (\<lambda>adr. arr (kBankSize * bank + adr)) [0..<kBankSize]) None"

definition DumpTrace :: "access_arr \<Rightarrow> symbol list" where
  "DumpTrace arr = concat (map (dump_bank arr) [0..<kMaxBanks])"

section \<open>What the dump says\<close>

text \<open>The offset in its bank at which a symbol starts, and the offsets it covers.\<close>

definition sym_offset :: "symbol \<Rightarrow> nat" where
  "sym_offset sy = unat (if sym_bank sy \<noteq> 0 then sym_adr sy - 0x4000 else sym_adr sy)"

definition covers :: "symbol \<Rightarrow> nat \<Rightarrow> bool" where
  "covers sy a \<longleftrightarrow> sym_offset sy \<le> a \<and> a < sym_offset sy + sym_len sy"

lemma sym_offset_PrintSymbol:
  "start < 0x4000 \<Longrightarrow> sym_offset (PrintSymbol bank (of_nat start) len) = start"
  by (simp add: sym_offset_def PrintSymbol_def Let_def unat_of_nat)

lemma PrintSymbol_fields [simp]:
  "sym_bank (PrintSymbol bank a len) = bank" "sym_len (PrintSymbol bank a len) = len"
  by (simp_all add: PrintSymbol_def Let_def)

text \<open>
  The scan from \<open>adr\<close> covers the set addresses of the rest and of the run it is in: the invariant of
  the loop.
\<close>

lemma covers_PrintSymbol:
  "start < 0x4000 \<Longrightarrow>
   covers (PrintSymbol bank (of_nat start) len) a \<longleftrightarrow> start \<le> a \<and> a < start + len"
  by (simp add: covers_def sym_offset_PrintSymbol)

definition in_run :: "nat option \<Rightarrow> nat \<Rightarrow> nat \<Rightarrow> bool" where
  "in_run run adr a \<longleftrightarrow> (\<exists>st. run = Some st \<and> st \<le> a \<and> a < adr)"

lemma in_run_simps [simp]:
  "in_run None adr a \<longleftrightarrow> False" "in_run (Some st) adr a \<longleftrightarrow> st \<le> a \<and> a < adr"
  by (simp_all add: in_run_def)

definition is_set :: "nat \<Rightarrow> bool list \<Rightarrow> nat \<Rightarrow> bool" where
  "is_set adr bs a \<longleftrightarrow> adr \<le> a \<and> a < adr + length bs \<and> bs ! (a - adr)"

lemma is_set_Nil [simp]: "\<not> is_set adr [] a"
  by (simp add: is_set_def)

lemma is_set_Cons: "is_set adr (b # bs) a \<longleftrightarrow> (a = adr \<and> b) \<or> is_set (Suc adr) bs a"
proof -
  consider "a \<le> adr" | k where "a = Suc (adr + k)"
    by (metis less_imp_Suc_add not_less)
  then show ?thesis by cases (auto simp: is_set_def)
qed

lemma scan_covers:
  assumes "adr + length bs = 0x4000" and "\<forall>st. run = Some st \<longrightarrow> st < adr"
  shows "(\<exists>sy \<in> set (scan bank adr bs run). covers sy a) \<longleftrightarrow> in_run run adr a \<or> is_set adr bs a"
  using assms
proof (induction bank adr bs run rule: scan.induct)
  case (2 bank adr start)
  then show ?case by (auto simp: covers_PrintSymbol)
next
  case (3 bank adr b bs)
  then show ?case by (cases b) (auto simp: is_set_Cons less_Suc_eq)
next
  case (4 bank adr b bs start)
  then show ?case
    by (cases b) (auto simp: is_set_Cons less_Suc_eq covers_PrintSymbol)
qed simp

text \<open>The symbols of a bank are apart from each other and in order: the runs are maximal.\<close>

definition before :: "symbol \<Rightarrow> symbol \<Rightarrow> bool" where
  "before x y \<longleftrightarrow> sym_offset x + sym_len x < sym_offset y"

lemma scan_starts:
  assumes "adr + length bs = 0x4000" and "\<forall>st. run = Some st \<longrightarrow> st < adr"
    and "sy \<in> set (scan bank adr bs run)"
  shows "(case run of Some st \<Rightarrow> st | None \<Rightarrow> adr) \<le> sym_offset sy \<and> 0 < sym_len sy"
  using assms
proof (induction bank adr bs run rule: scan.induct)
  case (3 bank adr b bs)
  then show ?case by (cases b) auto
next
  case (4 bank adr b bs start)
  then show ?case by (cases b) (auto simp: sym_offset_PrintSymbol)
qed (auto simp: sym_offset_PrintSymbol)

lemma scan_sorted:
  assumes "adr + length bs = 0x4000" and "\<forall>st. run = Some st \<longrightarrow> st < adr"
  shows "sorted_wrt before (scan bank adr bs run)"
  using assms
proof (induction bank adr bs run rule: scan.induct)
  case (3 bank adr b bs)
  then show ?case by (cases b) auto
next
  case (4 bank adr b bs start)
  show ?case
  proof (cases b)
    case False
    have "before (PrintSymbol bank (of_nat start) (adr - start)) sy"
      if "sy \<in> set (scan bank (Suc adr) bs None)" for sy
      using scan_starts [OF _ _ that] 4(3,4)
      by (simp add: before_def sym_offset_PrintSymbol)
    with False 4 show ?thesis by simp
  qed (use 4 in simp)
qed simp_all

lemma scan_bank: "sy \<in> set (scan bank adr bs run) \<Longrightarrow> sym_bank sy = bank"
  by (induction bank adr bs run rule: scan.induct) (auto split: if_splits)

lemma dump_bank_covers:
  assumes "a < kBankSize"
  shows "(\<exists>sy \<in> set (dump_bank arr bank). covers sy a) \<longleftrightarrow> arr (kBankSize * bank + a)"
  using scan_covers [of 0 "map (\<lambda>adr. arr (kBankSize * bank + adr)) [0..<kBankSize]" None bank a] assms
  by (simp add: dump_bank_def is_set_def kBankSize_def)

lemma dump_bank_sorted: "sorted_wrt before (dump_bank arr bank)"
  unfolding dump_bank_def by (rule scan_sorted) (simp_all add: kBankSize_def)

lemma dump_bank_bank: "sy \<in> set (dump_bank arr bank) \<Longrightarrow> sym_bank sy = bank"
  unfolding dump_bank_def by (rule scan_bank)

text \<open>
  The symbols of the whole dump, and with them the accessed bytes: bank by bank, none left out and none
  made up.
\<close>

lemma DumpTrace_set: "set (DumpTrace arr) = (\<Union>bank < kMaxBanks. set (dump_bank arr bank))"
  by (auto simp: DumpTrace_def atLeast0LessThan)

lemma DumpTrace_covers:
  assumes "bank < kMaxBanks" and "a < kBankSize"
  shows "(\<exists>sy \<in> set (DumpTrace arr). sym_bank sy = bank \<and> covers sy a) \<longleftrightarrow>
    arr (kBankSize * bank + a)"
  using assms dump_bank_bank dump_bank_covers [OF assms(2), of arr bank]
  by (fastforce simp: DumpTrace_set)

lemma filter_bank:
  "filter (\<lambda>sy. sym_bank sy = bank) (concat (map (dump_bank arr) [0..<n])) =
   (if bank < n then dump_bank arr bank else [])"
proof (induction n)
  case (Suc n)
  have "filter (\<lambda>sy. sym_bank sy = bank) (dump_bank arr n) =
      (if bank = n then dump_bank arr n else [])"
    by (auto simp: filter_id_conv filter_empty_conv dest: dump_bank_bank)
  then show ?case using Suc by (auto simp: less_Suc_eq)
qed simp

lemma TraceAccess_marks:
  assumes "TraceAccess bank adr arr = Inr arr'"
  shows "arr' i \<longleftrightarrow> arr i \<or> i = kBankSize * unat bank + unat adr"
  using assms by (auto simp: TraceAccess_def Let_def split: if_splits)

section \<open>Properties\<close>

text \<open>
  C37. The dump of the tracer lists exactly the accessed bytes: an offset of a bank is within a symbol
  of that bank if and only if its flag is set, and the symbols of a bank are in order and maximal
  (between two of them at least one byte was not accessed).
\<close>

theorem DumpTrace_exact:
  "(\<forall>bank < kMaxBanks. \<forall>a < kBankSize.
      (\<exists>sy \<in> set (DumpTrace arr). sym_bank sy = bank \<and> covers sy a) \<longleftrightarrow>
      arr (kBankSize * bank + a)) \<and>
   (\<forall>bank < kMaxBanks.
      sorted_wrt before (filter (\<lambda>sy. sym_bank sy = bank) (DumpTrace arr)))"
  using DumpTrace_covers dump_bank_sorted by (auto simp: DumpTrace_def filter_bank)

text \<open>The dump of a tracer that saw one data access of bank 1.\<close>

lemma DumpTrace_exact_witness:
  "\<exists>sy \<in> set (DumpTrace (new_tracer(kBankSize * 1 + 7 := True))). sym_bank sy = 1 \<and> covers sy 7"
proof -
  have "1 < kMaxBanks" "7 < kBankSize"
    by (simp_all add: kMaxBanks_def kBankSize_def)
  then show ?thesis
    using DumpTrace_exact [of "new_tracer(kBankSize * 1 + 7 := True)"] by (metis fun_upd_same)
qed

end
