(* ===== verification/Cartridge.thy ===== *)
theory Cartridge
  imports Memory Symfile_Tracer
begin

text \<open>
  The memory bank controllers of \<^verbatim>\<open>src/cartridge.cpp\<close>. The class hierarchy is a record with
  extensions: \<open>MemoryBankCtrler\<close> is the base class, \<open>Mbc1\<close>, \<open>Mbc3\<close> and \<open>Mbc5\<close> add their
  registers, and the virtual transport functions become one function per class.

  The content of a game file is a parameter (a list of bytes), as are the boot ROM and the wall clock
  of the real-time clock of MBC3. The messages on the console are left out.
\<close>

section \<open>Bank-switched memory\<close>

text \<open>\<open>bank_data\<close> is the offset of the pointer \<^verbatim>\<open>bank_data_\<close> in the memory.\<close>

record BankSwitchedMem =
  bs_mem :: GenericMemory
  current_bank_ind :: nat
  num_banks :: nat
  bank_size :: nat
  bank_data :: nat

definition DoBankSwitch :: "u8 \<Rightarrow> BankSwitchedMem \<Rightarrow> BankSwitchedMem res" where
  "DoBankSwitch index b =
     (if unat index < num_banks b
      then Inr (b\<lparr>bank_data := unat index * bank_size b, current_bank_ind := unat index\<rparr>)
      else Inl AssertFailed)"

definition new_BankSwitchedMem :: "nat \<Rightarrow> nat \<Rightarrow> BankSwitchedMem" where
  "new_BankSwitchedMem n sz =
     \<lparr>bs_mem = new_memory (sz * n), current_bank_ind = 0, num_banks = n, bank_size = sz,
      bank_data = 0\<rparr>"

definition GetCurrentBankIndex :: "BankSwitchedMem \<Rightarrow> u8" where
  "GetCurrentBankIndex b = of_nat (current_bank_ind b)"

definition bs_b_transport :: "payload \<Rightarrow> BankSwitchedMem \<Rightarrow> (payload \<times> BankSwitchedMem) res" where
  "bs_b_transport pl b =
     (let adr = unat (address pl) in
      if \<not> adr < bank_size b then Inl AssertFailed
      else
        (case command pl of
           TLM_READ_COMMAND \<Rightarrow>
             (if bank_data b + adr < memory_size (bs_mem b)
              then Inr (pl\<lparr>data_byte := mem_data (bs_mem b) (bank_data b + adr),
                          response_status := TLM_OK_RESPONSE\<rparr>, b)
              else Inl OutOfBounds)
         | TLM_WRITE_COMMAND \<Rightarrow>
             (if bank_data b + adr < memory_size (bs_mem b)
              then Inr (pl\<lparr>response_status := TLM_OK_RESPONSE\<rparr>,
                        b\<lparr>bs_mem := (bs_mem b)
                           \<lparr>mem_data := (mem_data (bs_mem b))(bank_data b + adr := data_byte pl)\<rparr>\<rparr>)
              else Inl OutOfBounds)
         | TLM_IGNORE_COMMAND \<Rightarrow> Inr (pl\<lparr>response_status := TLM_COMMAND_ERROR_RESPONSE\<rparr>, b)))"

definition bs_transport_dbg :: "payload \<Rightarrow> BankSwitchedMem \<Rightarrow> (payload \<times> BankSwitchedMem) res" where
  "bs_transport_dbg pl b = bs_b_transport pl b"

definition bs_LoadFromFile ::
  "u8 list option \<Rightarrow> nat \<Rightarrow> BankSwitchedMem \<Rightarrow> BankSwitchedMem res" where
  "bs_LoadFromFile file offset b =
     map_sum id (\<lambda>m. b\<lparr>bs_mem := m\<rparr>) (LoadFromFile file offset (bs_mem b))"

section \<open>The base class\<close>

record MemoryBankCtrler =
  rom_low :: GenericMemory
  rom_high :: BankSwitchedMem
  ext_ram :: BankSwitchedMem
  game_file :: "u8 list option"
  symfile_tracer :: "access_arr option"
  ram_ind :: u8
  rom_ind :: u8

definition new_ctrler :: "nat \<Rightarrow> nat \<Rightarrow> bool \<Rightarrow> u8 list option \<Rightarrow> MemoryBankCtrler" where
  "new_ctrler num_rom_banks num_ram_banks symbol_file game =
     \<lparr>rom_low = new_memory 0x4000,
      rom_high = new_BankSwitchedMem num_rom_banks 0x4000,
      ext_ram = new_BankSwitchedMem num_ram_banks 0x2000,
      game_file = game,
      symfile_tracer = (if symbol_file then Some new_tracer else None),
      ram_ind = 0, rom_ind = 0\<rparr>"

text \<open>
  What the constructors of all four controllers do: the lower bank from the file, the boot ROM over
  it, the switchable banks from the file at 16 KiB. \<open>boot\<close> is the embedded boot ROM
  (\<open>Inl\<close>, the original or the quick one) or the content of a boot ROM file.
\<close>

definition LoadBootRom :: "u8 list + u8 list option \<Rightarrow> GenericMemory \<Rightarrow> GenericMemory res" where
  "LoadBootRom boot m =
     (case boot of
        Inl embedded \<Rightarrow> Inr (LoadFromData embedded m)
      | Inr file \<Rightarrow> LoadFromFile file 0 m)"

definition load_roms ::
  "u8 list + u8 list option \<Rightarrow> 'a MemoryBankCtrler_scheme \<Rightarrow> 'a MemoryBankCtrler_scheme res" where
  "load_roms boot c =
     rbind (LoadFromFile (game_file c) 0 (rom_low c)) (\<lambda>low.
     rbind (LoadBootRom boot low) (\<lambda>low.
     rbind (bs_LoadFromFile (game_file c) 0x4000 (rom_high c)) (\<lambda>high.
     Inr (c\<lparr>rom_low := low, rom_high := high\<rparr>))))"

definition UnmapBootRom :: "'a MemoryBankCtrler_scheme \<Rightarrow> 'a MemoryBankCtrler_scheme res" where
  "UnmapBootRom c =
     map_sum id (\<lambda>m. c\<lparr>rom_low := m\<rparr>) (LoadFromFile (game_file c) 0 (rom_low c))"

text \<open>An access to a part of the controller, with the address relative to that part.\<close>

definition access_rom_low ::
  "payload \<Rightarrow> 'a MemoryBankCtrler_scheme \<Rightarrow> (payload \<times> 'a MemoryBankCtrler_scheme) res" where
  "access_rom_low pl c =
     map_sum id (\<lambda>(pl', m). (pl', c\<lparr>rom_low := m\<rparr>)) (mem_b_transport pl (rom_low c))"

definition access_rom_high ::
  "payload \<Rightarrow> 'a MemoryBankCtrler_scheme \<Rightarrow> (payload \<times> 'a MemoryBankCtrler_scheme) res" where
  "access_rom_high pl c =
     map_sum id (\<lambda>(pl', b). (pl', c\<lparr>rom_high := b\<rparr>)) (bs_b_transport pl (rom_high c))"

definition access_ext_ram ::
  "payload \<Rightarrow> 'a MemoryBankCtrler_scheme \<Rightarrow> (payload \<times> 'a MemoryBankCtrler_scheme) res" where
  "access_ext_ram pl c =
     map_sum id (\<lambda>(pl', b). (pl', c\<lparr>ext_ram := b\<rparr>)) (bs_b_transport pl (ext_ram c))"

definition trace_data_access ::
  "u16 \<Rightarrow> payload \<Rightarrow> 'a MemoryBankCtrler_scheme \<Rightarrow> 'a MemoryBankCtrler_scheme res" where
  "trace_data_access bank pl c =
     (case symfile_tracer c of
        None \<Rightarrow> Inr c
      | Some arr \<Rightarrow>
          (if extension pl = Some kGbReadData
           then map_sum id (\<lambda>arr'. c\<lparr>symfile_tracer := Some arr'\<rparr>)
                  (TraceAccess bank (address pl) arr)
           else Inr c))"

definition transport_dbg_rom ::
  "payload \<Rightarrow> 'a MemoryBankCtrler_scheme \<Rightarrow> (payload \<times> 'a MemoryBankCtrler_scheme) res" where
  "transport_dbg_rom pl c =
     (if \<not> address pl < 0x8000 then Inl AssertFailed
      else if address pl < 0x4000 then access_rom_low pl c
      else access_rom_high (pl\<lparr>address := address pl - 0x4000\<rparr>) c)"

text \<open>The switch of both memories to the bank indices of the registers.\<close>

definition switch_banks ::
  "u8 \<Rightarrow> u8 \<Rightarrow> 'a MemoryBankCtrler_scheme \<Rightarrow> 'a MemoryBankCtrler_scheme res" where
  "switch_banks rom ram c =
     rbind (DoBankSwitch rom (rom_high c)) (\<lambda>high.
     rbind (DoBankSwitch ram (ext_ram c)) (\<lambda>ext.
     Inr (c\<lparr>rom_high := high, ext_ram := ext\<rparr>)))"

text \<open>A read of the ROM as the controllers ROM-only, MBC1 and MBC3 do it, traced if it is a data access.\<close>

definition read_rom ::
  "payload \<Rightarrow> 'a MemoryBankCtrler_scheme \<Rightarrow> (payload \<times> 'a MemoryBankCtrler_scheme) res" where
  "read_rom pl c =
     (if address pl < 0x4000 then rbind (trace_data_access 0 pl c) (access_rom_low pl)
      else rbind (trace_data_access (ucast (GetCurrentBankIndex (rom_high c))) pl c)
             (access_rom_high (pl\<lparr>address := address pl - 0x4000\<rparr>)))"

section \<open>ROM only\<close>

definition new_Rom :: "u8 list option \<Rightarrow> u8 list + u8 list option \<Rightarrow> bool \<Rightarrow> MemoryBankCtrler res" where
  "new_Rom game boot symbol_file = load_roms boot (new_ctrler 1 1 symbol_file game)"

definition rom_b_transport_rom ::
  "payload \<Rightarrow> MemoryBankCtrler \<Rightarrow> (payload \<times> MemoryBankCtrler) res" where
  "rom_b_transport_rom pl c =
     (if \<not> address pl < 0x8000 then Inl AssertFailed
      else if command pl = TLM_WRITE_COMMAND
      then Inr (pl\<lparr>response_status := TLM_OK_RESPONSE\<rparr>, c)
      else read_rom pl c)"

definition rom_b_transport_ram ::
  "payload \<Rightarrow> MemoryBankCtrler \<Rightarrow> (payload \<times> MemoryBankCtrler) res" where
  "rom_b_transport_ram pl c =
     (if \<not> address pl < 0x8000 then Inl AssertFailed
      else
        (let pl = pl\<lparr>response_status := TLM_OK_RESPONSE\<rparr> in
         case command pl of
           TLM_READ_COMMAND \<Rightarrow> Inr (pl\<lparr>data_byte := 0\<rparr>, c)
         | _ \<Rightarrow> Inr (pl, c)))"

section \<open>MBC1\<close>

record Mbc1 = MemoryBankCtrler +
  rom_bank_low_bits :: u8
  the_two_bits :: u8
  more_ram_mode :: bool
  ram_enabled :: bool

definition new_Mbc1 ::
  "u8 list option \<Rightarrow> u8 list + u8 list option \<Rightarrow> bool \<Rightarrow> u8 list option \<Rightarrow> Mbc1 res" where
  "new_Mbc1 game boot symbol_file save =
     rbind (load_roms boot (MemoryBankCtrler.extend (new_ctrler 128 4 symbol_file game)
       (Mbc1.fields 0 0 False False))) (\<lambda>c.
     case save of
       None \<Rightarrow> Inr c
     | Some content \<Rightarrow>
         map_sum id (\<lambda>ram. c\<lparr>ext_ram := ram\<rparr>) (bs_LoadFromFile (Some content) 0 (ext_ram c)))"

definition mbc1_set_registers :: "u16 \<Rightarrow> u8 \<Rightarrow> Mbc1 \<Rightarrow> Mbc1" where
  "mbc1_set_registers adr d c =
     (if adr \<le> 0x1FFF then c\<lparr>ram_enabled := (d AND 0xA = 0xA)\<rparr>
      else if adr \<le> 0x3FFF then c\<lparr>rom_bank_low_bits := 0x1F AND d\<rparr>
      else if adr \<le> 0x5FFF then c\<lparr>the_two_bits := d AND 0x03\<rparr>
      else if adr \<le> 0x7FFF then c\<lparr>more_ram_mode := (d AND 0x1 \<noteq> 0)\<rparr>
      else c)"

definition mbc1_rom_ind :: "Mbc1 \<Rightarrow> u8" where
  "mbc1_rom_ind c =
     (let i = rom_bank_low_bits c OR (if more_ram_mode c then 0 else push_bit 5 (the_two_bits c)) in
      if i = 0 \<or> i = 0x20 \<or> i = 0x40 \<or> i = 0x60 then i + 1 else i)"

definition mbc1_b_transport_rom :: "payload \<Rightarrow> Mbc1 \<Rightarrow> (payload \<times> Mbc1) res" where
  "mbc1_b_transport_rom pl c =
     (if \<not> address pl < 0x8000 then Inl AssertFailed
      else
        (case command pl of
           TLM_WRITE_COMMAND \<Rightarrow>
             (let c = mbc1_set_registers (address pl) (data_byte pl) c;
                  c = c\<lparr>rom_ind := mbc1_rom_ind c\<rparr>;
                  c = c\<lparr>ram_ind := (if more_ram_mode c then the_two_bits c else 0)\<rparr> in
              if \<not> (0 < rom_ind c \<and> rom_ind c < 128) then Inl AssertFailed
              else if \<not> (more_ram_mode c \<or> ram_ind c = 0) then Inl AssertFailed
              else map_sum id (\<lambda>c. (pl, c)) (switch_banks (rom_ind c - 1) (ram_ind c) c))
         | TLM_READ_COMMAND \<Rightarrow> read_rom pl c
         | TLM_IGNORE_COMMAND \<Rightarrow> Inr (pl, c)))"

definition mbc1_b_transport_ram :: "payload \<Rightarrow> Mbc1 \<Rightarrow> (payload \<times> Mbc1) res" where
  "mbc1_b_transport_ram pl c =
     (if \<not> address pl \<le> 0x1FFF then Inl AssertFailed
      else if ram_enabled c then access_ext_ram pl c
      else Inr (pl, c))"

section \<open>MBC3\<close>

record Mbc3 = MemoryBankCtrler +
  rtc_reg :: nat
  ram_rtc_enabled :: bool
  rtc_mapped :: bool
  rtc_halted :: bool

definition new_Mbc3 ::
  "u8 list option \<Rightarrow> u8 list + u8 list option \<Rightarrow> bool \<Rightarrow> u8 list option \<Rightarrow> Mbc3 res" where
  "new_Mbc3 game boot symbol_file save =
     rbind (load_roms boot (MemoryBankCtrler.extend (new_ctrler 128 4 symbol_file game)
       (Mbc3.fields 0 False False False))) (\<lambda>c.
     case save of
       None \<Rightarrow> Inr c
     | Some content \<Rightarrow>
         map_sum id (\<lambda>ram. c\<lparr>ext_ram := ram\<rparr>) (bs_LoadFromFile (Some content) 0 (ext_ram c)))"

definition mbc3_set_registers :: "u16 \<Rightarrow> u8 \<Rightarrow> Mbc3 \<Rightarrow> Mbc3" where
  "mbc3_set_registers adr d c =
     (if adr \<le> 0x1FFF then c\<lparr>ram_rtc_enabled := (d AND 0xA = 0xA)\<rparr>
      else if adr \<le> 0x3FFF then c\<lparr>rom_ind := 0x7F AND d\<rparr>
      else if adr \<le> 0x5FFF then
        (if d < 8 then c\<lparr>ram_ind := d, rtc_mapped := False\<rparr>
         else if d < 13 then c\<lparr>rtc_reg := unat d - 8, rtc_mapped := True\<rparr>
         else c)
      else c)"

definition mbc3_b_transport_rom :: "payload \<Rightarrow> Mbc3 \<Rightarrow> (payload \<times> Mbc3) res" where
  "mbc3_b_transport_rom pl c =
     (if \<not> address pl < 0x8000 then Inl AssertFailed
      else
        (case command pl of
           TLM_WRITE_COMMAND \<Rightarrow>
             (let c = mbc3_set_registers (address pl) (data_byte pl) c;
                  c = c\<lparr>rom_ind := (if rom_ind c = 0 then 1 else rom_ind c)\<rparr> in
              if \<not> rom_ind c < 128 then Inl AssertFailed
              else map_sum id (\<lambda>c. (pl, c)) (switch_banks (rom_ind c - 1) (ram_ind c) c))
         | TLM_READ_COMMAND \<Rightarrow> read_rom pl c
         | TLM_IGNORE_COMMAND \<Rightarrow> Inr (pl, c)))"

text \<open>The register of the real-time clock at the wall-clock time \<open>now\<close>, in seconds since 1970.\<close>

definition rtc_value :: "nat \<Rightarrow> nat \<Rightarrow> bool \<Rightarrow> u8" where
  "rtc_value now reg halt =
     (let secs = now mod 60;
          minutes = now div 60 mod 60;
          hours = now div (60 * 60) mod 60;
          days = now div (60 * 60 * 24) mod 512 in
      of_nat (if reg = 0 then secs
              else if reg = 1 then minutes
              else if reg = 2 then hours
              else if reg = 3 then days mod 256
              else if reg = 4 then days div 256 OR push_bit 6 (of_bool halt)
              else 0))"

definition mbc3_b_transport_ram :: "nat \<Rightarrow> payload \<Rightarrow> Mbc3 \<Rightarrow> (payload \<times> Mbc3) res" where
  "mbc3_b_transport_ram now pl c =
     (if \<not> address pl \<le> 0x1FFF then Inl AssertFailed
      else if ram_rtc_enabled c then
        (if rtc_mapped c then
           (let pl = pl\<lparr>response_status := TLM_OK_RESPONSE\<rparr> in
            if command pl = TLM_WRITE_COMMAND then Inr (pl, c)
            else Inr (pl\<lparr>data_byte := rtc_value now (rtc_reg c) (rtc_halted c)\<rparr>, c))
         else access_ext_ram pl c)
      else Inr (pl, c))"

section \<open>MBC5\<close>

record Mbc5 = MemoryBankCtrler +
  mbc5_ram_bits :: u16
  mbc5_low_bits :: u16
  mbc5_high_bits :: u16
  mbc5_ram_enabled :: bool

definition new_Mbc5 ::
  "u8 list option \<Rightarrow> u8 list + u8 list option \<Rightarrow> bool \<Rightarrow> Mbc5 res" where
  "new_Mbc5 game boot symbol_file =
     load_roms boot (MemoryBankCtrler.extend (new_ctrler 512 16 symbol_file game)
       (Mbc5.fields 0 0 0 False))"

definition mbc5_set_registers :: "u16 \<Rightarrow> u8 \<Rightarrow> Mbc5 \<Rightarrow> Mbc5" where
  "mbc5_set_registers adr d c =
     (if adr \<le> 0x1FFF then c\<lparr>mbc5_ram_enabled := (d AND 0xA = 0xA)\<rparr>
      else if adr \<le> 0x2FFF then c\<lparr>mbc5_low_bits := ucast d\<rparr>
      else if adr \<le> 0x3FFF then c\<lparr>mbc5_high_bits := ucast (d AND 1)\<rparr>
      else if adr \<le> 0x5FFF then c\<lparr>mbc5_ram_bits := ucast (d AND 0x0F)\<rparr>
      else c)"

text \<open>The bank number has nine bits, \<^verbatim>\<open>rom_ind_\<close> has eight.\<close>

definition mbc5_b_transport_rom :: "payload \<Rightarrow> Mbc5 \<Rightarrow> (payload \<times> Mbc5) res" where
  "mbc5_b_transport_rom pl c =
     (if \<not> address pl < 0x8000 then Inl AssertFailed
      else
        (case command pl of
           TLM_WRITE_COMMAND \<Rightarrow>
             (let c = mbc5_set_registers (address pl) (data_byte pl) c;
                  c = c\<lparr>ram_ind := (if mbc5_ram_enabled c then ucast (mbc5_ram_bits c) else 0),
                        rom_ind := ucast (push_bit 8 (mbc5_high_bits c) OR mbc5_low_bits c)\<rparr> in
              map_sum id (\<lambda>c. (pl, c)) (switch_banks (rom_ind c) (ram_ind c) c))
         | TLM_READ_COMMAND \<Rightarrow>
             (if address pl \<le> 0x3FFF then access_rom_low pl c
              else access_rom_high (pl\<lparr>address := address pl - 0x4000\<rparr>) c)
         | TLM_IGNORE_COMMAND \<Rightarrow> Inr (pl, c)))"

definition mbc5_b_transport_ram :: "payload \<Rightarrow> Mbc5 \<Rightarrow> (payload \<times> Mbc5) res" where
  "mbc5_b_transport_ram pl c =
     (if \<not> address pl \<le> 0x1FFF then Inl AssertFailed
      else if mbc5_ram_enabled c then access_ext_ram pl c
      else Inl AssertFailed)"

definition mbc5_transport_dbg_ram :: "payload \<Rightarrow> Mbc5 \<Rightarrow> (payload \<times> Mbc5) res" where
  "mbc5_transport_dbg_ram pl c =
     (if \<not> address pl \<le> 0x1FFF then Inl AssertFailed else access_ext_ram pl c)"

section \<open>The cartridge\<close>

datatype mbc = MbcRom MemoryBankCtrler | MbcOne Mbc1 | MbcThree Mbc3 | MbcFive Mbc5

text \<open>The choice of the controller by the name of the cartridge type.\<close>

definition new_Cartridge ::
  "string \<Rightarrow> u8 list option \<Rightarrow> u8 list + u8 list option \<Rightarrow> bool \<Rightarrow> u8 list option \<Rightarrow> mbc res" where
  "new_Cartridge cr_type game boot symbol_file save =
     (if cr_type = ''ROM ONLY'' then map_sum id MbcRom (new_Rom game boot symbol_file)
      else if cr_type = ''MBC1'' \<or> cr_type = ''MBC1+RAM'' \<or> cr_type = ''MBC1+BAT+RAM''
      then map_sum id MbcOne (new_Mbc1 game boot symbol_file save)
      else if cr_type = ''MBC3'' \<or> cr_type = ''MBC3+RAM'' \<or> cr_type = ''MBC3+BAT+RAM''
      then map_sum id MbcThree (new_Mbc3 game boot symbol_file save)
      else if cr_type = ''MBC5'' \<or> cr_type = ''MBC5+RAM'' \<or> cr_type = ''MBC5+BAT+RAM''
      then map_sum id MbcFive (new_Mbc5 game boot symbol_file)
      else Inl UnknownCartridge)"

text \<open>The virtual functions; \<open>now\<close> is the wall clock.\<close>

fun mbc_b_transport_rom :: "payload \<Rightarrow> mbc \<Rightarrow> (payload \<times> mbc) res" where
  "mbc_b_transport_rom pl (MbcRom c) = map_sum id (map_prod id MbcRom) (rom_b_transport_rom pl c)"
| "mbc_b_transport_rom pl (MbcOne c) = map_sum id (map_prod id MbcOne) (mbc1_b_transport_rom pl c)"
| "mbc_b_transport_rom pl (MbcThree c) =
     map_sum id (map_prod id MbcThree) (mbc3_b_transport_rom pl c)"
| "mbc_b_transport_rom pl (MbcFive c) = map_sum id (map_prod id MbcFive) (mbc5_b_transport_rom pl c)"

fun mbc_b_transport_ram :: "nat \<Rightarrow> payload \<Rightarrow> mbc \<Rightarrow> (payload \<times> mbc) res" where
  "mbc_b_transport_ram now pl (MbcRom c) =
     map_sum id (map_prod id MbcRom) (rom_b_transport_ram pl c)"
| "mbc_b_transport_ram now pl (MbcOne c) =
     map_sum id (map_prod id MbcOne) (mbc1_b_transport_ram pl c)"
| "mbc_b_transport_ram now pl (MbcThree c) =
     map_sum id (map_prod id MbcThree) (mbc3_b_transport_ram now pl c)"
| "mbc_b_transport_ram now pl (MbcFive c) =
     map_sum id (map_prod id MbcFive) (mbc5_b_transport_ram pl c)"

fun mbc_transport_dbg_rom :: "payload \<Rightarrow> mbc \<Rightarrow> (payload \<times> mbc) res" where
  "mbc_transport_dbg_rom pl (MbcRom c) = map_sum id (map_prod id MbcRom) (transport_dbg_rom pl c)"
| "mbc_transport_dbg_rom pl (MbcOne c) = map_sum id (map_prod id MbcOne) (transport_dbg_rom pl c)"
| "mbc_transport_dbg_rom pl (MbcThree c) =
     map_sum id (map_prod id MbcThree) (transport_dbg_rom pl c)"
| "mbc_transport_dbg_rom pl (MbcFive c) = map_sum id (map_prod id MbcFive) (transport_dbg_rom pl c)"

fun mbc_transport_dbg_ram :: "nat \<Rightarrow> payload \<Rightarrow> mbc \<Rightarrow> (payload \<times> mbc) res" where
  "mbc_transport_dbg_ram now pl (MbcFive c) =
     map_sum id (map_prod id MbcFive) (mbc5_transport_dbg_ram pl c)"
| "mbc_transport_dbg_ram now pl c = mbc_b_transport_ram now pl c"

fun mbc_UnmapBootRom :: "mbc \<Rightarrow> mbc res" where
  "mbc_UnmapBootRom (MbcRom c) = map_sum id MbcRom (UnmapBootRom c)"
| "mbc_UnmapBootRom (MbcOne c) = map_sum id MbcOne (UnmapBootRom c)"
| "mbc_UnmapBootRom (MbcThree c) = map_sum id MbcThree (UnmapBootRom c)"
| "mbc_UnmapBootRom (MbcFive c) = map_sum id MbcFive (UnmapBootRom c)"

text \<open>
  The base class hands out direct access to the lower ROM bank, if the accesses are not traced.
\<close>

fun mbc_rom_low :: "mbc \<Rightarrow> GenericMemory" where
  "mbc_rom_low (MbcRom c) = rom_low c"
| "mbc_rom_low (MbcOne c) = rom_low c"
| "mbc_rom_low (MbcThree c) = rom_low c"
| "mbc_rom_low (MbcFive c) = rom_low c"

fun mbc_put_rom_low :: "GenericMemory \<Rightarrow> mbc \<Rightarrow> mbc" where
  "mbc_put_rom_low m (MbcRom c) = MbcRom (c\<lparr>rom_low := m\<rparr>)"
| "mbc_put_rom_low m (MbcOne c) = MbcOne (c\<lparr>rom_low := m\<rparr>)"
| "mbc_put_rom_low m (MbcThree c) = MbcThree (c\<lparr>rom_low := m\<rparr>)"
| "mbc_put_rom_low m (MbcFive c) = MbcFive (c\<lparr>rom_low := m\<rparr>)"

fun mbc_tracer :: "mbc \<Rightarrow> access_arr option" where
  "mbc_tracer (MbcRom c) = symfile_tracer c"
| "mbc_tracer (MbcOne c) = symfile_tracer c"
| "mbc_tracer (MbcThree c) = symfile_tracer c"
| "mbc_tracer (MbcFive c) = symfile_tracer c"

definition mbc_get_direct_mem_ptr :: "payload \<Rightarrow> mbc \<Rightarrow> mbc dmi option res" where
  "mbc_get_direct_mem_ptr pl c =
     (if address pl \<ge> 0x4000 \<or> mbc_tracer c \<noteq> None then Inr None
      else Inr (Some \<lparr>dmi_start = 0, dmi_end = 0x3FFF,
        dmi_load = (\<lambda>c i. mem_data (mbc_rom_low c) (unat (address pl) + i)),
        dmi_store = (\<lambda>i v c. mbc_put_rom_low ((mbc_rom_low c)
          \<lparr>mem_data := (mem_data (mbc_rom_low c))(unat (address pl) + i := v)\<rparr>) c)\<rparr>))"

text \<open>The destructors of MBC1 and MBC3 save the external RAM, that of the base class the trace.\<close>

fun mbc_save :: "mbc \<Rightarrow> u8 list option" where
  "mbc_save (MbcOne c) = Some (SaveToFile (bs_mem (ext_ram c)))"
| "mbc_save (MbcThree c) = Some (SaveToFile (bs_mem (ext_ram c)))"
| "mbc_save c = None"

definition mbc_trace :: "mbc \<Rightarrow> symbol list option" where
  "mbc_trace c = map_option DumpTrace (mbc_tracer c)"

text \<open>The handler of the signal that unmaps the boot ROM.\<close>

definition SigHandler :: "mbc \<Rightarrow> mbc res" where
  "SigHandler c = mbc_UnmapBootRom c"

end
