(* ===== verification/Cpp_Strings.thy ===== *)
theory Cpp_Strings
  imports Prelude
begin

text \<open>
  What the program uses of the strings of the C++ standard library: the classes of characters, the
  conversions between strings and numbers, and \<^verbatim>\<open>substr\<close>. A \<^verbatim>\<open>std::string\<close> is a list of characters.
\<close>

section \<open>Characters\<close>

definition char_in :: "nat \<Rightarrow> nat \<Rightarrow> char \<Rightarrow> bool" where
  "char_in lo hi c = (lo \<le> of_char c \<and> of_char c \<le> hi)"

definition is_digit :: "char \<Rightarrow> bool" where
  "is_digit = char_in 48 57"

definition is_xdigit :: "char \<Rightarrow> bool" where
  "is_xdigit c = (is_digit c \<or> char_in 65 70 c \<or> char_in 97 102 c)"

definition is_space :: "char \<Rightarrow> bool" where
  "is_space c = (c = CHR '' '' \<or> char_in 9 13 c)"

text \<open>The type \<^verbatim>\<open>char\<close> is signed; a conversion to \<^verbatim>\<open>uint\<close> extends the sign.\<close>

definition char_uint :: "char \<Rightarrow> u32" where
  "char_uint c = scast (of_char c :: u8)"

section \<open>Printing and reading numbers\<close>

definition hex_digit :: "nat \<Rightarrow> char" where
  "hex_digit d = ''0123456789abcdef'' ! d"

fun to_hex :: "nat \<Rightarrow> string" where
  "to_hex n = (if n < 16 then [hex_digit n] else to_hex (n div 16) @ [hex_digit (n mod 16)])"

declare to_hex.simps [simp del]

text \<open>\<open>format_hex w n\<close> is the format \<open>{:0wx}\<close>.\<close>

definition format_hex :: "nat \<Rightarrow> nat \<Rightarrow> string" where
  "format_hex w n = (let s = to_hex n in replicate (w - length s) CHR ''0'' @ s)"

definition hex_value :: "char \<Rightarrow> nat" where
  "hex_value c =
     (if is_digit c then of_char c - 48
      else if char_in 65 70 c then of_char c - 55
      else of_char c - 87)"

definition hex_number :: "string \<Rightarrow> nat" where
  "hex_number s = foldl (\<lambda>n c. 16 * n + hex_value c) 0 s"

text \<open>
  \<^verbatim>\<open>std::stoi(s, nullptr, 16)\<close> skips white space, accepts a sign and a prefix \<^verbatim>\<open>0x\<close>, and reads as
  many digits as there are. It throws when there is none, and when the value is no \<^verbatim>\<open>int\<close>.
\<close>

definition skip_prefix :: "string \<Rightarrow> string" where
  "skip_prefix s =
     (case s of
        CHR ''0'' # x # d # ds \<Rightarrow> if x \<in> {CHR ''x'', CHR ''X''} \<and> is_xdigit d then d # ds else s
      | _ \<Rightarrow> s)"

definition stoi16 :: "string \<Rightarrow> int res" where
  "stoi16 str =
     (let s = dropWhile is_space str;
          (sgn, s) = (case s of
             CHR ''-'' # r \<Rightarrow> (-1, r)
           | CHR ''+'' # r \<Rightarrow> (1, r)
           | _ \<Rightarrow> (1, s));
          digits = takeWhile is_xdigit (skip_prefix s);
          v = sgn * int (hex_number digits) in
      if digits = [] then Inl InvalidArgument
      else if v < - (2 ^ 31) \<or> 2 ^ 31 \<le> v then Inl OutOfRange
      else Inr v)"

text \<open>\<^verbatim>\<open>std::string::substr\<close> throws when it starts beyond the end.\<close>

definition substr :: "nat \<Rightarrow> nat \<Rightarrow> string \<Rightarrow> string res" where
  "substr pos n s = (if length s < pos then Inl OutOfRange else Inr (take n (drop pos s)))"

text \<open>
  \<^verbatim>\<open>std::stoll(s)\<close> reads a decimal number with a sign in the same way, \<^verbatim>\<open>std::stoul(s, nullptr, 16)\<close> a
  hexadecimal one that a minus sign negates modulo the range of its type.
\<close>

definition dec_number :: "string \<Rightarrow> nat" where
  "dec_number s = foldl (\<lambda>n c. 10 * n + (of_char c - 48)) 0 s"

definition split_sign :: "string \<Rightarrow> int \<times> string" where
  "split_sign s =
     (case s of
        CHR ''-'' # r \<Rightarrow> (-1, r)
      | CHR ''+'' # r \<Rightarrow> (1, r)
      | _ \<Rightarrow> (1, s))"

definition stoll :: "string \<Rightarrow> int res" where
  "stoll str =
     (let (sgn, s) = split_sign (dropWhile is_space str);
          digits = takeWhile is_digit s;
          v = sgn * int (dec_number digits) in
      if digits = [] then Inl InvalidArgument
      else if v < - (2 ^ 63) \<or> 2 ^ 63 \<le> v then Inl OutOfRange
      else Inr v)"

definition stoul16 :: "string \<Rightarrow> int res" where
  "stoul16 str =
     (let (sgn, s) = split_sign (dropWhile is_space str);
          digits = takeWhile is_xdigit (skip_prefix s);
          v = int (hex_number digits) in
      if digits = [] then Inl InvalidArgument
      else if 2 ^ 64 \<le> v then Inl OutOfRange
      else Inr ((sgn * v) mod 2 ^ 64))"

section \<open>Lemmas about numbers\<close>

lemma less_16_digits: "d < 16 \<Longrightarrow> d \<in> {0, 1, 2, 3, 4, 5, 6, 7, 8, 9, 10, 11, 12, 13, 14, 15::nat}"
  by (simp only: insert_iff empty_iff) arith

lemma hex_digit_char:
  assumes "d < 16"
  shows "is_xdigit (hex_digit d)" and "hex_value (hex_digit d) = d"
  using less_16_digits [OF assms]
  by (auto simp: hex_digit_def hex_value_def is_xdigit_def is_digit_def char_in_def)

lemma xdigit_simps [simp]:
  "is_xdigit c \<Longrightarrow> \<not> is_space c"
  "\<not> is_xdigit CHR '','' " "\<not> is_xdigit CHR '':''" "\<not> is_xdigit CHR ''#''" "\<not> is_xdigit CHR ''x''"
  "\<not> is_xdigit CHR ''X''" "\<not> is_xdigit CHR ''-''" "\<not> is_xdigit CHR ''+''" "\<not> is_xdigit CHR 0x00"
  by (auto simp: is_xdigit_def is_digit_def is_space_def char_in_def)

lemma to_hex_digits: "list_all is_xdigit (to_hex n)" and to_hex_not_Nil: "to_hex n \<noteq> []"
  by (induction n rule: to_hex.induct) (subst to_hex.simps, simp add: hex_digit_char)+

lemma hex_number_append: "hex_number (s @ [c]) = 16 * hex_number s + hex_value c"
  by (simp add: hex_number_def)

lemma hex_number_to_hex: "hex_number (to_hex n) = n"
proof (induction n rule: to_hex.induct)
  case (1 n)
  show ?case
  proof (cases "n < 16")
    case True
    then show ?thesis by (simp add: to_hex.simps [of n] hex_number_def hex_digit_char)
  next
    case False
    with 1 show ?thesis
      by (simp add: to_hex.simps [of n] hex_number_append hex_digit_char)
  qed
qed

lemma hex_number_leading_zeros: "hex_number (replicate k CHR ''0'' @ s) = hex_number s"
  by (induction k) (simp_all add: hex_number_def hex_value_def is_digit_def char_in_def)

lemma hex_number_format: "hex_number (format_hex w n) = n"
  by (simp add: format_hex_def Let_def hex_number_leading_zeros hex_number_to_hex)

lemma format_hex_digits: "list_all is_xdigit (format_hex w n)" "format_hex w n \<noteq> []"
  using to_hex_digits [of n] to_hex_not_Nil [of n]
  by (auto simp: format_hex_def Let_def list_all_iff is_xdigit_def is_digit_def char_in_def)

lemma length_to_hex: "n < 16 ^ w \<Longrightarrow> 0 < w \<Longrightarrow> length (to_hex n) \<le> w"
proof (induction n arbitrary: w rule: to_hex.induct)
  case (1 n)
  show ?case
  proof (cases "n < 16")
    case True
    with 1(3) show ?thesis by (simp add: to_hex.simps [of n])
  next
    case False
    then obtain v where w: "w = Suc v" "0 < v"
      using 1(2,3) by (cases w; cases "w - 1") auto
    then have "n div 16 < 16 ^ v" using 1(2) by (simp add: less_mult_imp_div_less mult.commute)
    then have "length (to_hex (n div 16)) \<le> v" using 1(1) False w by simp
    with False w show ?thesis by (simp add: to_hex.simps [of n])
  qed
qed

lemma length_format_hex: "n < 16 ^ w \<Longrightarrow> 0 < w \<Longrightarrow> length (format_hex w n) = w"
  using length_to_hex [of n w] by (simp add: format_hex_def Let_def)

text \<open>What the pattern lets through is read as it stands.\<close>

lemma skip_prefix_digits: "list_all is_xdigit s \<Longrightarrow> skip_prefix s = s"
  unfolding skip_prefix_def by (auto split: list.splits char.splits bool.splits)

lemma stoi16_digits:
  assumes "list_all is_xdigit s" and "s \<noteq> []"
  shows "stoi16 s = (if hex_number s < 2 ^ 31 then Inr (int (hex_number s)) else Inl OutOfRange)"
proof -
  obtain c cs where s: "s = c # cs" using assms(2) by (cases s) auto
  have c: "is_xdigit c" using assms(1) by (simp add: s)
  then have sgn: "c \<noteq> CHR ''-''" "c \<noteq> CHR ''+''" by (metis xdigit_simps(7,8))+
  have d: "dropWhile is_space s = s" using c by (simp add: s)
  have t: "takeWhile is_xdigit s = s" using assms(1) by (simp add: list_all_iff takeWhile_eq_all_conv)
  have "(case s of CHR ''-'' # r \<Rightarrow> (-1, r) | CHR ''+'' # r \<Rightarrow> (1, r) | _ \<Rightarrow> (1, s)) = (1::int, s)"
    using sgn by (auto simp: s split: char.splits bool.splits)
  then show ?thesis
    unfolding stoi16_def Let_def d
    by (simp add: skip_prefix_digits [OF assms(1)] t assms(2))
qed

lemma stoi16_format: "n < 2 ^ 31 \<Longrightarrow> stoi16 (format_hex w n) = Inr (int n)"
  by (simp add: stoi16_digits format_hex_digits hex_number_format)

text \<open>Two hexadecimal digits read as the byte they spell.\<close>

lemma hex_value_less: "is_xdigit c \<Longrightarrow> hex_value c < 16"
  by (auto simp: is_xdigit_def hex_value_def is_digit_def char_in_def)

lemma stoul16_byte:
  assumes "is_xdigit c" and "is_xdigit d"
  shows "stoul16 [c, d] = Inr (int (16 * hex_value c + hex_value d))"
proof -
  have "c \<noteq> CHR ''-''" "c \<noteq> CHR ''+''" using assms(1) by (metis xdigit_simps(7,8))+
  then have "split_sign (dropWhile is_space [c, d]) = (1, [c, d])"
    using assms(1) by (auto simp: split_sign_def split: char.split bool.split)
  moreover have "skip_prefix [c, d] = [c, d]"
    using assms by (intro skip_prefix_digits) simp
  ultimately show ?thesis
    using assms hex_value_less [OF assms(1)] hex_value_less [OF assms(2)]
    by (simp add: stoul16_def hex_number_def)
qed

end
