(* ===== verification/Game_Info.thy ===== *)
theory Game_Info
  imports Cartridge Cpp_Strings
begin

text \<open>
  The header of a cartridge, \<^verbatim>\<open>src/game_info.h\<close> and \<^verbatim>\<open>src/game_info.cpp\<close>, the choice of the memory
  bank controller by its type byte, and the embedded boot ROMs of \<^verbatim>\<open>src/dmg_rom_data.h\<close>. The bytes of
  the game file are an argument, \<open>None\<close> if it cannot be opened.

  The tables are the source's, entry by entry. A \<^verbatim>\<open>std::map\<close> that is made of two entries with the same
  key (as the license code 96) keeps the first, which is also what \<^const>\<open>map_of\<close> does.
\<close>

section \<open>Tables\<close>

definition new_license_code_map :: "(string \<times> string) list" where
  "new_license_code_map =
     [(''00'', ''none''), (''01'', ''Nintendo R&D1''), (''08'', ''Capcom''),
      (''13'', ''Electronic Arts''), (''18'', ''Hudon Soft''), (''19'', ''b-ai''),
      (''20'', ''kss''), (''22'', ''pow''), (''24'', ''PCM Complete''), (''25'', ''san-x''),
      (''28'', ''Kemco Japan''), (''29'', ''seta''), (''30'', ''Viacom''), (''31'', ''Nintendo''),
      (''32'', ''Bandai''), (''33'', ''Ocean/Acclaim''), (''34'', ''Konami''),
      (''35'', ''Hector''), (''37'', ''Taito''), (''38'', ''Hudson''), (''39'', ''Banpresto''),
      (''41'', ''Ubisoft''), (''42'', ''Atlus''), (''44'', ''Malibu''), (''46'', ''angel''),
      (''47'', ''Bullet-Proof''), (''49'', ''irem''), (''50'', ''Absolute''),
      (''51'', ''Acclaim''), (''52'', ''Activision''), (''53'', ''American sammy''),
      (''54'', ''Konami''), (''55'', ''Hi tech entertainment''), (''56'', ''LJN''),
      (''57'', ''Matchbox''), (''58'', ''Mattel''), (''59'', ''Milton Bradley''),
      (''60'', ''Titus''), (''61'', ''Virgin''), (''64'', ''LucasArts''), (''67'', ''Ocean''),
      (''69'', ''Electronic Arts''), (''70'', ''Infogrames''), (''71'', ''Interplay''),
      (''72'', ''Broderbund''), (''73'', ''sculptured''), (''75'', ''sci''), (''78'', ''THQ''),
      (''79'', ''Accolade''), (''80'', ''misawa''), (''83'', ''lozc''),
      (''86'', ''tokuma shoten''), (''87'', ''tsukuda ori''), (''91'', ''Chunsoft''),
      (''92'', ''Video system''), (''93'', ''Ocean/Acclaim''), (''95'', ''Varie''),
      (''96'', ''Yonezawa/s'pal''), (''97'', ''Kaneko''),
      (''99'', ''Pack in soft''), (''96'', ''Konami (Yu-Gi-Oh!)'')]"

definition old_license_code_map :: "(u8 \<times> string) list" where
  "old_license_code_map =
     [(0x00, ''none''), (0x01, ''nintendo''), (0x08, ''Capcom''), (0x09, ''hot-b''),
      (0x0A, ''jaleco''), (0x0B, ''coconuts''), (0x0C, ''elite systems''),
      (0x13, ''Electronic Arts''), (0x18, ''Hudon Soft''), (0x19, ''itc entertainment''),
      (0x1A, ''yanoman''), (0x1D, ''clary''), (0x1F, ''virgin''), (0x20, ''KSS''),
      (0x24, ''PCM Complete''), (0x25, ''san-x''), (0x28, ''kotobuki systems''), (0x29, ''seta''),
      (0x30, ''infogrames''), (0x31, ''Nintendo''), (0x32, ''Bandai''), (0x33, ''GBC''),
      (0x34, ''Konami''), (0x35, ''Hector''), (0x38, ''Capcom''), (0x39, ''Banpresto''),
      (0x3C, ''entertainment i''), (0x3E, ''gremlin''), (0x41, ''Ubisoft''), (0x42, ''Atlus''),
      (0x44, ''Malibu''), (0x46, ''angel''), (0x47, ''spectrum holobody''), (0x49, ''irem''),
      (0x4A, ''virgin''), (0x4D, ''Malibu''), (0x4f, ''U.S. Gold''), (0x50, ''Absolute''),
      (0x51, ''Acclaim''), (0x52, ''Activision''), (0x53, ''American sammy''), (0x54, ''Gametek''),
      (0x55, ''park place''), (0x56, ''LJN''), (0x57, ''Matchbox''), (0x59, ''Milton Bradley''),
      (0x5A, ''mindscape''), (0x5B, ''romstar''), (0x5C, ''naxat soft''), (0x5D, ''tradewest''),
      (0x60, ''titus''), (0x61, ''Virgin''), (0x67, ''Ocean''), (0x69, ''Electronic Arts''),
      (0x6E, ''Elite Systems''), (0x6F, ''Electro Brain''), (0x70, ''Infogrammes''),
      (0x71, ''Interplay''), (0x72, ''Broderbund''), (0x73, ''sculptured''),
      (0x75, ''the sales curve''), (0x78, ''THQ''), (0x79, ''Accolade''),
      (0x7A, ''triffix entertainment''), (0x7C, ''micropose''), (0x7F, ''kemco''),
      (0x80, ''misawa''), (0x83, ''lozc''), (0x86, ''tokuma shoten''),
      (0x8B, ''bullet-proof software''), (0x8c, ''vic tokai''), (0x8E, ''ape''),
      (0x8F, ''i'max''), (0x91, ''chun soft''), (0x92, ''video systen''),
      (0x93, ''tsuburava''), (0x95, ''varie''), (0x96, ''yonezawa/s'pal''),
      (0x97, ''kaneko''), (0x99, ''arc''), (0x9A, ''nihon bussan''), (0x9B, ''Tecmo''),
      (0x9C, ''imagineer''), (0x9D, ''Banpresto''), (0x9F, ''nova''), (0xA1, ''Hori electric''),
      (0xA2, ''Bandai''), (0xA4, ''Konami''), (0xA6, ''kawada''), (0xA7, ''takara''),
      (0xA9, ''technos japan''), (0xAA, ''broderbund''), (0xAC, ''Toei animation''),
      (0xAD, ''toho''), (0xAF, ''Namco''), (0xB0, ''Acclaim''), (0xB1, ''ascii or nexoft''),
      (0xB2, ''Bandai''), (0xB4, ''Enix''), (0xB6, ''HAL''), (0xB7, ''SNK''),
      (0xB9, ''pony canyon''), (0xBA, ''*culture brain o''), (0xBB, ''Sunsoft''),
      (0xBD, ''Sony imagesoft''), (0xBF, ''sammy''), (0xC0, ''Taito''), (0xC2, ''Kemco''),
      (0xC3, ''Squaresoft''), (0xC4, ''tokuma shoten''), (0xC5, ''data east''),
      (0xC6, ''tonkin house''), (0xC8, ''koei''), (0xC9, ''ufl''), (0xCA, ''ultra''),
      (0xCB, ''vap''), (0xCC, ''use''), (0xCD, ''meldac''), (0xCE, ''pony canyon''),
      (0xCF, ''angel''), (0xD0, ''Taito''), (0xD1, ''sofel''), (0xD2, ''quest''),
      (0xD3, ''sigma enterprises''), (0xD4, ''ask kodansha''), (0xD6, ''naxat soft''),
      (0xD7, ''copya systems''), (0xD9, ''Banpresto''), (0xDA, ''tomy''), (0xDB, ''ljn''),
      (0xDD, ''ncs''), (0xDE, ''human''), (0xDF, ''altron''), (0xE0, ''jaleco''),
      (0xE1, ''towachiki''), (0xE2, ''uutaka''), (0xE3, ''varie''), (0xE5, ''epoch''),
      (0xE7, ''athena''), (0xE8, ''asmik''), (0xE9, ''natsume''), (0xEA, ''king records''),
      (0xEB, ''atlus''), (0xEC, ''Epic/Sony records''), (0xEE, ''igs''), (0xF0, ''a wave''),
      (0xF3, ''extreme entertainment''), (0xFF, ''ljn'')]"

definition cartridge_type_map :: "(u32 \<times> string) list" where
  "cartridge_type_map =
     [(0x00, ''ROM ONLY''), (0x01, ''MBC1''), (0x02, ''MBC1+RAM''), (0x03, ''MBC1+BAT+RAM''),
      (0x05, ''MBC2''), (0x06, ''MBC2+BAT''), (0x08, ''ROM+RAM''), (0x09, ''ROM+BAT+RAM''),
      (0x0B, ''MMM01''), (0x0C, ''MMM01+RAM''), (0x0D, ''MMM01+BAT+RAM''),
      (0x0F, ''MBC3+BAT+TIM''), (0x10, ''MBC3+BAT+RAM+TIM''), (0x11, ''MBC3''),
      (0x12, ''MBC3+RAM''), (0x13, ''MBC3+BAT+RAM''), (0x19, ''MBC5''), (0x1A, ''MBC5+RAM''),
      (0x1B, ''MBC5+BAT+RAM''), (0x1C, ''MBC5+RUM''), (0x1D, ''MBC5+RAM+RUM''),
      (0x1E, ''MBC5+BAT+RAM+RUM''), (0x20, ''MBC6''), (0x22, ''MBC7+BAT+RAM+RUM+SEN''),
      (0xFC, ''POCKET CAM''), (0xFD, ''BANDAI TAMA5''), (0xFE, ''HuC3''), (0xFF, ''HuC1+RAM+BAT'')]"

definition rom_size_map :: "(u32 \<times> string \<times> nat) list" where
  "rom_size_map =
     [(0x00, ''32 KiB'', 0), (0x01, ''64 KiB (4 banks)'', 4), (0x02, ''128 KiB (8 banks)'', 8),
      (0x03, ''256 KiB (16 banks)'', 16), (0x04, ''512 KiB (32 banks)'', 32),
      (0x05, ''1 MiB (64 banks)'', 64), (0x06, ''2 MiB (128 banks)'', 128),
      (0x07, ''4 MiB (256 banks)'', 256), (0x08, ''8 MiB (512 banks)'', 512),
      (0x52, ''1.1 MiB (72 banks)'', 72), (0x53, ''1.2 MiB (80 banks)'', 80),
      (0x54, ''1.5 MiB (96 banks)'', 96)]"

definition ram_size_map :: "(u32 \<times> string \<times> nat) list" where
  "ram_size_map =
     [(0x00, ''None'', 0), (0x01, ''2 KiB'', 2), (0x02, ''8 KiB'', 8), (0x03, ''32 KiB'', 32),
      (0x04, ''128 KiB'', 128), (0x05, ''64 KiB'', 64)]"

definition region_map :: "(u32 \<times> string) list" where
  "region_map =
     [(0x00, ''Japanese''), (0x01, ''Non-Japanese'')]"

text \<open>\<^verbatim>\<open>at\<close> throws where there is no entry.\<close>

definition map_at :: "('k \<times> 'v) list \<Rightarrow> 'k \<Rightarrow> 'v res" where
  "map_at m k = (case map_of m k of None \<Rightarrow> Inl OutOfRange | Some v \<Rightarrow> Inr v)"

definition map_contains :: "('k \<times> 'v) list \<Rightarrow> 'k \<Rightarrow> bool" where
  "map_contains m k = (map_of m k \<noteq> None)"

section \<open>The constructor\<close>

definition kAdrTitleStart :: nat where "kAdrTitleStart = 0x134"
definition kAdrTitleEnd :: nat where "kAdrTitleEnd = 0x143"
definition kAdrNewLicenseStart :: nat where "kAdrNewLicenseStart = 0x144"
definition kAdrNewLicenseEnd :: nat where "kAdrNewLicenseEnd = 0x145"
definition kAdrSgbFunc :: nat where "kAdrSgbFunc = 0x146"
definition kAdrCartType :: nat where "kAdrCartType = 0x147"
definition kAdrRomSize :: nat where "kAdrRomSize = 0x148"
definition kAdrRamSize :: nat where "kAdrRamSize = 0x149"
definition kAdrRegionCode :: nat where "kAdrRegionCode = 0x14A"
definition kAdrOldLicense :: nat where "kAdrOldLicense = 0x14B"

lemmas header_addresses = kAdrTitleStart_def kAdrTitleEnd_def kAdrNewLicenseStart_def
  kAdrNewLicenseEnd_def kAdrSgbFunc_def kAdrCartType_def kAdrRomSize_def kAdrRamSize_def
  kAdrRegionCode_def kAdrOldLicense_def

record GameInfo =
  sgb_support :: bool
  uses_new_license :: bool
  cartridge_type :: string
  license_code :: string
  region :: string
  title :: string
  ram_size :: "string \<times> nat"
  rom_size :: "string \<times> nat"

text \<open>
  The file is read into an array of its size, and a byte beyond the array is out of bounds. The array
  has the type \<^verbatim>\<open>char\<close>, which is signed: the keys of type \<^verbatim>\<open>uint\<close> are made by sign extension.
\<close>

definition header_byte :: "u8 list \<Rightarrow> nat \<Rightarrow> u8 res" where
  "header_byte data i = (if i < length data then Inr (data ! i) else Inl OutOfBounds)"

definition byte_uint :: "u8 \<Rightarrow> u32" where
  "byte_uint b = scast b"

definition byte_char :: "u8 \<Rightarrow> char" where
  "byte_char b = char_of (unat b)"

fun read_title :: "u8 list \<Rightarrow> nat list \<Rightarrow> string res" where
  "read_title data [] = Inr []"
| "read_title data (i # is) =
     rbind (header_byte data i) (\<lambda>b.
     if b = 0 then Inr []
     else rbind (read_title data is) (\<lambda>rest. Inr (byte_char b # rest)))"

fun read_key :: "u8 list \<Rightarrow> nat list \<Rightarrow> string res" where
  "read_key data [] = Inr []"
| "read_key data (i # is) =
     rbind (header_byte data i) (\<lambda>b.
     rbind (read_key data is) (\<lambda>rest. Inr (byte_char b # rest)))"

definition read_license :: "u8 list \<Rightarrow> bool \<Rightarrow> string res" where
  "read_license data new_license =
     (if new_license then
        rbind (read_key data [kAdrNewLicenseStart..<Suc kAdrNewLicenseEnd]) (\<lambda>key.
        if map_contains new_license_code_map key then map_at new_license_code_map key
        else Inr ''Unknown'')
      else
        rbind (header_byte data kAdrOldLicense) (\<lambda>b.
        if map_contains old_license_code_map b then map_at old_license_code_map b
        else Inr ''Unknown''))"

definition new_GameInfo :: "u8 list option \<Rightarrow> GameInfo res" where
  "new_GameInfo file =
     (case file of
        None \<Rightarrow> Inl FileError
      | Some data \<Rightarrow>
          rbind (read_title data [kAdrTitleStart..<Suc kAdrTitleEnd]) (\<lambda>t.
          rbind (header_byte data kAdrOldLicense) (\<lambda>old.
          rbind (read_license data (old = 0x33)) (\<lambda>license.
          rbind (header_byte data kAdrSgbFunc) (\<lambda>sgb.
          rbind (rbind (header_byte data kAdrCartType) (\<lambda>b. map_at cartridge_type_map (byte_uint b))) (\<lambda>cart.
          rbind (rbind (header_byte data kAdrRomSize) (\<lambda>b. map_at rom_size_map (byte_uint b))) (\<lambda>rom.
          rbind (rbind (header_byte data kAdrRamSize) (\<lambda>b. map_at ram_size_map (byte_uint b))) (\<lambda>ram.
          rbind (header_byte data kAdrRegionCode) (\<lambda>b.
          rbind (if map_contains region_map (byte_uint b) then map_at region_map (byte_uint b)
                 else Inr ''Unknown'') (\<lambda>reg.
          Inr \<lparr>sgb_support = (sgb = 3), uses_new_license = (old = 0x33), cartridge_type = cart,
               license_code = license, region = reg, title = t, ram_size = ram,
               rom_size = rom\<rparr>))))))))))"

section \<open>Reading the fields\<close>

definition GetUsesNewLicense :: "GameInfo \<Rightarrow> bool" where
  "GetUsesNewLicense g = uses_new_license g"

definition GetSgbSupport :: "GameInfo \<Rightarrow> bool" where
  "GetSgbSupport g = sgb_support g"

definition GetCartridgeType :: "GameInfo \<Rightarrow> string" where
  "GetCartridgeType g = cartridge_type g"

definition GetLicenseCode :: "GameInfo \<Rightarrow> string" where
  "GetLicenseCode g = license_code g"

definition GetRegion :: "GameInfo \<Rightarrow> string" where
  "GetRegion g = region g"

definition GetTitle :: "GameInfo \<Rightarrow> string" where
  "GetTitle g = title g"

definition GetRamSize :: "GameInfo \<Rightarrow> nat" where
  "GetRamSize g = snd (ram_size g)"

definition GetRomSize :: "GameInfo \<Rightarrow> nat" where
  "GetRomSize g = snd (rom_size g)"

definition game_info_string :: "GameInfo \<Rightarrow> string" where
  "game_info_string g =
     ''############ Game Info #############'' @ [CHR 0x0A] @
     ''Title:          '' @ title g @ [CHR 0x0A] @
     ''Dev/Publisher:  '' @ license_code g @ [CHR 0x0A] @
     ''License type:   '' @ (if uses_new_license g then ''New'' else ''Old'') @ [CHR 0x0A] @
     ''SGB support:    '' @ (if sgb_support g then ''True'' else ''False'') @ [CHR 0x0A] @
     ''Cartridge type: '' @ cartridge_type g @ [CHR 0x0A] @
     ''ROM size:       '' @ fst (rom_size g) @ [CHR 0x0A] @
     ''RAM size:       '' @ fst (ram_size g) @ [CHR 0x0A] @
     ''####################################'' @ [CHR 0x0A]"

section \<open>The cartridge\<close>

text \<open>
  The embedded boot ROMs, and the choice among them and the boot ROM file: \<open>boot\<close> is \<open>None\<close> for an empty
  path.
\<close>

definition kOriginalBoot :: "u8 list" where
  "kOriginalBoot =
     [0x31, 0xfe, 0xff, 0xaf, 0x21, 0xff, 0x9f, 0x32, 0xcb, 0x7c, 0x20, 0xfb, 0x21, 0x26, 0xff, 0x0e,
      0x11, 0x3e, 0x80, 0x32, 0xe2, 0x0c, 0x3e, 0xf3, 0xe2, 0x32, 0x3e, 0x77, 0x77, 0x3e, 0xfc, 0xe0,
      0x47, 0x11, 0x04, 0x01, 0x21, 0x10, 0x80, 0x1a, 0xcd, 0x95, 0x00, 0xcd, 0x96, 0x00, 0x13, 0x7b,
      0xfe, 0x34, 0x20, 0xf3, 0x11, 0xd8, 0x00, 0x06, 0x08, 0x1a, 0x13, 0x22, 0x23, 0x05, 0x20, 0xf9,
      0x3e, 0x19, 0xea, 0x10, 0x99, 0x21, 0x2f, 0x99, 0x0e, 0x0c, 0x3d, 0x28, 0x08, 0x32, 0x0d, 0x20,
      0xf9, 0x2e, 0x0f, 0x18, 0xf3, 0x67, 0x3e, 0x64, 0x57, 0xe0, 0x42, 0x3e, 0x91, 0xe0, 0x40, 0x04,
      0x1e, 0x02, 0x0e, 0x0c, 0xf0, 0x44, 0xfe, 0x90, 0x20, 0xfa, 0x0d, 0x20, 0xf7, 0x1d, 0x20, 0xf2,
      0x0e, 0x13, 0x24, 0x7c, 0x1e, 0x83, 0xfe, 0x62, 0x28, 0x06, 0x1e, 0xc1, 0xfe, 0x64, 0x20, 0x06,
      0x7b, 0xe2, 0x0c, 0x3e, 0x87, 0xe2, 0xf0, 0x42, 0x90, 0xe0, 0x42, 0x15, 0x20, 0xd2, 0x05, 0x20,
      0x4f, 0x16, 0x20, 0x18, 0xcb, 0x4f, 0x06, 0x04, 0xc5, 0xcb, 0x11, 0x17, 0xc1, 0xcb, 0x11, 0x17,
      0x05, 0x20, 0xf5, 0x22, 0x23, 0x22, 0x23, 0xc9, 0xce, 0xed, 0x66, 0x66, 0xcc, 0x0d, 0x00, 0x0b,
      0x03, 0x73, 0x00, 0x83, 0x00, 0x0c, 0x00, 0x0d, 0x00, 0x08, 0x11, 0x1f, 0x88, 0x89, 0x00, 0x0e,
      0xdc, 0xcc, 0x6e, 0xe6, 0xdd, 0xdd, 0xd9, 0x99, 0xbb, 0xbb, 0x67, 0x63, 0x6e, 0x0e, 0xec, 0xcc,
      0xdd, 0xdc, 0x99, 0x9f, 0xbb, 0xb9, 0x33, 0x3e, 0x3c, 0x42, 0xb9, 0xa5, 0xb9, 0xa5, 0x42, 0x3c,
      0x21, 0x04, 0x01, 0x11, 0xa8, 0x00, 0x1a, 0x13, 0xbe, 0x20, 0xfe, 0x23, 0x7d, 0xfe, 0x34, 0x20,
      0xf5, 0x06, 0x19, 0x78, 0x86, 0x23, 0x05, 0x20, 0xfb, 0x86, 0x20, 0xfe, 0x3e, 0x01, 0xe0, 0x50]"

definition kQuickBoot :: "u8 list" where
  "kQuickBoot =
     [0x31, 0xfe, 0xff, 0xaf, 0x21, 0xff, 0x9f, 0x32, 0xcb, 0x7c, 0x20, 0xfb, 0x21, 0x26, 0xff, 0x0e,
      0x11, 0x3e, 0x80, 0x32, 0xe2, 0x0c, 0x3e, 0xf3, 0xe2, 0x32, 0x3e, 0x77, 0x77, 0x3e, 0xfc, 0xe0,
      0x47, 0xc3, 0xfc, 0x00, 0x00, 0x00, 0x00, 0x00, 0x00, 0x00, 0x00, 0x00, 0x00, 0x00, 0x00, 0x00,
      0x00, 0x00, 0x00, 0x00, 0x00, 0x00, 0x00, 0x00, 0x00, 0x00, 0x00, 0x00, 0x00, 0x00, 0x00, 0x00,
      0x00, 0x00, 0x00, 0x00, 0x00, 0x00, 0x00, 0x00, 0x00, 0x00, 0x00, 0x00, 0x00, 0x00, 0x00, 0x00,
      0x00, 0x00, 0x00, 0x00, 0x00, 0x00, 0x00, 0x00, 0x00, 0x00, 0x00, 0x00, 0x00, 0x00, 0x00, 0x00,
      0x00, 0x00, 0x00, 0x00, 0x00, 0x00, 0x00, 0x00, 0x00, 0x00, 0x00, 0x00, 0x00, 0x00, 0x00, 0x00,
      0x00, 0x00, 0x00, 0x00, 0x00, 0x00, 0x00, 0x00, 0x00, 0x00, 0x00, 0x00, 0x00, 0x00, 0x00, 0x00,
      0x00, 0x00, 0x00, 0x00, 0x00, 0x00, 0x00, 0x00, 0x00, 0x00, 0x00, 0x00, 0x00, 0x00, 0x00, 0x00,
      0x00, 0x00, 0x00, 0x00, 0x00, 0x00, 0x00, 0x00, 0x00, 0x00, 0x00, 0x00, 0x00, 0x00, 0x00, 0x00,
      0x00, 0x00, 0x00, 0x00, 0x00, 0x00, 0x00, 0x00, 0x00, 0x00, 0x00, 0x00, 0x00, 0x00, 0x00, 0x00,
      0x00, 0x00, 0x00, 0x00, 0x00, 0x00, 0x00, 0x00, 0x00, 0x00, 0x00, 0x00, 0x00, 0x00, 0x00, 0x00,
      0x00, 0x00, 0x00, 0x00, 0x00, 0x00, 0x00, 0x00, 0x00, 0x00, 0x00, 0x00, 0x00, 0x00, 0x00, 0x00,
      0x00, 0x00, 0x00, 0x00, 0x00, 0x00, 0x00, 0x00, 0x00, 0x00, 0x00, 0x00, 0x00, 0x00, 0x00, 0x00,
      0x00, 0x00, 0x00, 0x00, 0x00, 0x00, 0x00, 0x00, 0x00, 0x00, 0x00, 0x00, 0x00, 0x00, 0x00, 0x00,
      0x00, 0x00, 0x00, 0x00, 0x00, 0x00, 0x00, 0x00, 0x00, 0x00, 0x00, 0x00, 0x3e, 0x01, 0xe0, 0x50]"

definition boot_source :: "u8 list option option \<Rightarrow> bool \<Rightarrow> u8 list + u8 list option" where
  "boot_source boot quick_boot =
     (case boot of
        None \<Rightarrow> Inl (if quick_boot then kQuickBoot else kOriginalBoot)
      | Some file \<Rightarrow> Inr file)"

definition Cartridge_Cartridge ::
  "u8 list option \<Rightarrow> u8 list option option \<Rightarrow> bool \<Rightarrow> bool \<Rightarrow> u8 list option \<Rightarrow> (GameInfo \<times> mbc) res" where
  "Cartridge_Cartridge game boot symbol_file quick_boot save =
     rbind (new_GameInfo game) (\<lambda>game_info.
     rbind (new_Cartridge (GetCartridgeType game_info) game (boot_source boot quick_boot) symbol_file save)
       (\<lambda>mbc. Inr (game_info, mbc)))"

end
