(* ===== verification/Reg_File.thy ===== *)
theory Reg_File
  imports Gb_Utils
begin

text \<open>
  The register file of \<^verbatim>\<open>src/reg_file.h\<close>. All registers are references into one array of twelve
  bytes, \<^verbatim>\<open>_dat\<close>; a 16-bit register reads two neighbouring bytes in little-endian order, so it is an
  alias of the two 8-bit registers over them. The model keeps the array and makes a register a name
  with the index its constructor call binds it to.
\<close>

datatype reg8 = rA | rF | rB | rC | rD | rE | rH | rL | rSPmsb | rSPlsb | rPCmsb | rPClsb

datatype reg16 = rAF | rBC | rDE | rHL | rSP | rPC

type_synonym reg_data = "nat \<Rightarrow> u8"

definition dat_init :: reg_data where
  "dat_init = (\<lambda>_. 0)"

fun index8 :: "reg8 \<Rightarrow> nat" where
  "index8 rA = 1"
| "index8 rF = 0"
| "index8 rB = 3"
| "index8 rC = 2"
| "index8 rD = 5"
| "index8 rE = 4"
| "index8 rH = 7"
| "index8 rL = 6"
| "index8 rSPmsb = 9"
| "index8 rSPlsb = 8"
| "index8 rPCmsb = 11"
| "index8 rPClsb = 10"

fun index16 :: "reg16 \<Rightarrow> nat" where
  "index16 rAF = 0"
| "index16 rBC = 2"
| "index16 rDE = 4"
| "index16 rHL = 6"
| "index16 rSP = 8"
| "index16 rPC = 10"

text \<open>\<open>val8\<close> and \<open>val16\<close> read a register, \<open>set8\<close> and \<open>set16\<close> assign to it.\<close>

definition val8 :: "reg_data \<Rightarrow> reg8 \<Rightarrow> u8" where
  "val8 d r = d (index8 r)"

definition set8 :: "reg8 \<Rightarrow> u8 \<Rightarrow> reg_data \<Rightarrow> reg_data" where
  "set8 r v d = d(index8 r := v)"

definition val16 :: "reg_data \<Rightarrow> reg16 \<Rightarrow> u16" where
  "val16 d q = make16 (d (index16 q + 1)) (d (index16 q))"

definition set16 :: "reg16 \<Rightarrow> u16 \<Rightarrow> reg_data \<Rightarrow> reg_data" where
  "set16 q v d = d(index16 q := lo8 v, index16 q + 1 := hi8 v)"

text \<open>The order of the range-based for loops over the register file, \<^verbatim>\<open>reg_vec_\<close>.\<close>

definition reg_vec :: "reg16 list" where
  "reg_vec = [rAF, rBC, rDE, rHL, rSP, rPC]"

section \<open>Aliasing\<close>

text \<open>The 8-bit registers over the two bytes of a 16-bit register.\<close>

fun msb_of :: "reg16 \<Rightarrow> reg8" where
  "msb_of rAF = rA"
| "msb_of rBC = rB"
| "msb_of rDE = rD"
| "msb_of rHL = rH"
| "msb_of rSP = rSPmsb"
| "msb_of rPC = rPCmsb"

fun lsb_of :: "reg16 \<Rightarrow> reg8" where
  "lsb_of rAF = rF"
| "lsb_of rBC = rC"
| "lsb_of rDE = rE"
| "lsb_of rHL = rL"
| "lsb_of rSP = rSPlsb"
| "lsb_of rPC = rPClsb"

lemma index8_msb_of: "index8 (msb_of q) = Suc (index16 q)"
  by (cases q) auto

lemma index8_lsb_of: "index8 (lsb_of q) = index16 q"
  by (cases q) auto

lemma index8_inject [simp]: "index8 r = index8 r' \<longleftrightarrow> r = r'"
  by (cases r; cases r') auto

lemma index16_neq: "q \<noteq> q' \<Longrightarrow>
  index16 q \<noteq> index16 q' \<and> Suc (index16 q) \<noteq> index16 q' \<and>
  index16 q \<noteq> Suc (index16 q') \<and> Suc (index16 q) \<noteq> Suc (index16 q')"
  by (cases q; cases q') auto

lemma val16_eq_make16: "val16 d q = make16 (val8 d (msb_of q)) (val8 d (lsb_of q))"
  by (simp add: val16_def val8_def index8_msb_of index8_lsb_of)

lemma set16_eq_set8: "set16 q v d = set8 (msb_of q) (hi8 v) (set8 (lsb_of q) (lo8 v) d)"
  by (simp add: set16_def set8_def index8_msb_of index8_lsb_of)

lemma val8_set8 [flag_simps]: "val8 (set8 r v d) r' = (if r = r' then v else val8 d r')"
  by (simp add: val8_def set8_def)

lemma msb_of_neq_lsb_of [simp]: "msb_of q \<noteq> lsb_of q'" "lsb_of q' \<noteq> msb_of q"
  by (cases q; cases q'; simp)+

lemma val8_set16 [flag_simps]:
  "val8 (set16 q v d) r =
     (if r = msb_of q then hi8 v else if r = lsb_of q then lo8 v else val8 d r)"
  by (auto simp: set16_eq_set8 val8_set8)

lemma msb_of_inject [simp]: "msb_of q = msb_of q' \<longleftrightarrow> q = q'"
  by (cases q; cases q') auto

lemma lsb_of_inject [simp]: "lsb_of q = lsb_of q' \<longleftrightarrow> q = q'"
  by (cases q; cases q') auto

lemma val16_set16 [flag_simps]: "val16 (set16 q v d) q' = (if q = q' then v else val16 d q')"
  by (auto simp: val16_eq_make16 val8_set16)

lemma val16_set8 [flag_simps]:
  "val16 (set8 r v d) q =
     (if r = msb_of q then make16 v (val8 d (lsb_of q))
      else if r = lsb_of q then make16 (val8 d (msb_of q)) v
      else val16 d q)"
  by (auto simp: val16_eq_make16 val8_set8)

lemma set8_val8 [flag_simps]: "set8 r (val8 d r) d = d"
  by (simp add: set8_def val8_def)

lemma set16_val16 [flag_simps]: "set16 q (val16 d q) d = d"
  by (rule ext) (simp add: set16_def val16_def)

end
