(* ===== verification/Cpu_State.thy ===== *)
theory Cpu_State
  imports Memory Reg_File
begin

text \<open>
  The state of the CPU of \<^verbatim>\<open>src/cpu.h\<close> and the part of \<^verbatim>\<open>src/cpu.cpp\<close> below the instructions:
  flags, bus access and instruction fetch.

  The CPU reaches the rest of the system through its initiator socket, through three DMI pointers
  (interrupt enable, interrupt pending, lower ROM bank) and through the SystemC kernel. A
  \<open>'m socket\<close> bundles what is behind them, over the state \<open>'m\<close> of the rest of the system; the
  theory of the top level binds it to the bus, as \<^verbatim>\<open>GbTop\<close> does.
\<close>

section \<open>What the CPU is connected to\<close>

text \<open>
  \<open>sk_wait n\<close> is \<^verbatim>\<open>sc_core::wait\<close> for \<open>n\<close> nanoseconds: the other threads run. \<open>sk_pending\<close> is
  \<^verbatim>\<open>sc_time_to_pending_activity\<close>, \<open>None\<close> when nothing is scheduled. \<open>sk_indeterminate\<close> is the value
  of the uninitialised local byte of \<^verbatim>\<open>ReadBus\<close>, and \<open>sk_halt_polls\<close> bounds how often the model
  follows the busy-waiting loop of HALT.
\<close>

record 'm socket =
  sk_b_transport :: "payload \<Rightarrow> 'm \<Rightarrow> (payload \<times> 'm) res"
  sk_transport_dbg :: "payload \<Rightarrow> 'm \<Rightarrow> (payload \<times> 'm) res"
  sk_intr_enable :: "'m \<Rightarrow> u8"
  sk_intr_pending :: "'m \<Rightarrow> u8"
  sk_set_intr_pending :: "u8 \<Rightarrow> 'm \<Rightarrow> 'm"
  sk_rom_bank_0 :: "'m \<Rightarrow> (nat \<Rightarrow> u8) option"
  sk_wait :: "nat \<Rightarrow> 'm \<Rightarrow> 'm"
  sk_pending :: "'m \<Rightarrow> nat option"
  sk_indeterminate :: "'m \<Rightarrow> u8"
  sk_halt_polls :: nat

section \<open>State\<close>

datatype CpuState = kNominal | kTestPassed | kTestFailed

text \<open>
  \<open>payload_status\<close> is the response status of the one payload object the CPU reuses for every
  transaction, \<open>sim_stopped\<close> records \<^verbatim>\<open>sc_stop\<close>. Times are in nanoseconds.
\<close>

record 'm cpu =
  dat :: reg_data
  cpu_state :: CpuState
  intr_master_enable :: bool
  halted :: bool
  single_step :: bool
  wait_ns :: nat
  local_time_delta :: nat
  payload_status :: tlm_response_status
  gbcmd :: GbCommand
  sim_stopped :: bool
  sys :: 'm

definition get8 :: "'m cpu \<Rightarrow> reg8 \<Rightarrow> u8" where
  "get8 s r = val8 (dat s) r"

definition get16 :: "'m cpu \<Rightarrow> reg16 \<Rightarrow> u16" where
  "get16 s q = val16 (dat s) q"

definition put8 :: "reg8 \<Rightarrow> u8 \<Rightarrow> 'm cpu \<Rightarrow> 'm cpu" where
  "put8 r v s = s\<lparr>dat := set8 r v (dat s)\<rparr>"

definition put16 :: "reg16 \<Rightarrow> u16 \<Rightarrow> 'm cpu \<Rightarrow> 'm cpu" where
  "put16 q v s = s\<lparr>dat := set16 q v (dat s)\<rparr>"

text \<open>\<open>set_wait n\<close> is the assignment \<^verbatim>\<open>wait_ns_ = n * gb_const::kNsPerClkCycle\<close>.\<close>

definition set_wait :: "nat \<Rightarrow> 'm cpu \<Rightarrow> 'm cpu" where
  "set_wait n s = s\<lparr>wait_ns := n * kNsPerClkCycle\<rparr>"

definition Halt :: "'m cpu \<Rightarrow> 'm cpu" where
  "Halt s = s\<lparr>halted := True\<rparr>"

definition Continue :: "'m cpu \<Rightarrow> 'm cpu" where
  "Continue s = s\<lparr>halted := False\<rparr>"

text \<open>A CPU after its constructor; the command of the extension and the waiting time are not set yet.\<close>

definition new_cpu :: "bool \<Rightarrow> 'm \<Rightarrow> 'm cpu" where
  "new_cpu single m =
     \<lparr>dat = dat_init, cpu_state = kNominal, intr_master_enable = False, halted = False,
      single_step = single, wait_ns = 0, local_time_delta = 0,
      payload_status = TLM_INCOMPLETE_RESPONSE, gbcmd = kGbReadInst, sim_stopped = False, sys = m\<rparr>"

section \<open>Flags\<close>

definition kMaskZFlag :: u8 where "kMaskZFlag = 0x80"
definition kMaskNFlag :: u8 where "kMaskNFlag = 0x40"
definition kMaskHFlag :: u8 where "kMaskHFlag = 0x20"
definition kMaskCFlag :: u8 where "kMaskCFlag = 0x10"

definition kIndCFlag :: nat where "kIndCFlag = 4"
definition kIndHFlag :: nat where "kIndHFlag = 5"
definition kIndNFlag :: nat where "kIndNFlag = 6"
definition kIndZFlag :: nat where "kIndZFlag = 7"

definition SetFlagC :: "bool \<Rightarrow> 'm cpu \<Rightarrow> 'm cpu" where
  "SetFlagC val s = put8 rF (SetBit (get8 s rF) val kIndCFlag) s"

definition SetFlagH :: "bool \<Rightarrow> 'm cpu \<Rightarrow> 'm cpu" where
  "SetFlagH val s = put8 rF (SetBit (get8 s rF) val kIndHFlag) s"

definition SetFlagN :: "bool \<Rightarrow> 'm cpu \<Rightarrow> 'm cpu" where
  "SetFlagN val s = put8 rF (SetBit (get8 s rF) val kIndNFlag) s"

definition SetFlagZ :: "bool \<Rightarrow> 'm cpu \<Rightarrow> 'm cpu" where
  "SetFlagZ val s = put8 rF (SetBit (get8 s rF) val kIndZFlag) s"

definition GetFlagC :: "'m cpu \<Rightarrow> bool" where
  "GetFlagC s = (kMaskCFlag AND get8 s rF \<noteq> 0)"

definition GetFlagH :: "'m cpu \<Rightarrow> bool" where
  "GetFlagH s = (kMaskHFlag AND get8 s rF \<noteq> 0)"

definition GetFlagN :: "'m cpu \<Rightarrow> bool" where
  "GetFlagN s = (kMaskNFlag AND get8 s rF \<noteq> 0)"

definition GetFlagZ :: "'m cpu \<Rightarrow> bool" where
  "GetFlagZ s = (kMaskZFlag AND get8 s rF \<noteq> 0)"

section \<open>Bus access\<close>

definition WriteBus :: "'m socket \<Rightarrow> u16 \<Rightarrow> u8 \<Rightarrow> 'm cpu \<Rightarrow> 'm cpu res" where
  "WriteBus sk addr data s =
     (let pl = \<lparr>command = TLM_WRITE_COMMAND, address = addr, data_byte = data,
                response_status = payload_status s, extension = Some (gbcmd s)\<rparr> in
      rbind (sk_b_transport sk pl (sys s)) (\<lambda>(pl', m').
        Inr (s\<lparr>sys := m', payload_status := response_status pl'\<rparr>)))"

definition ReadBus :: "'m socket \<Rightarrow> u16 \<Rightarrow> GbCommand \<Rightarrow> 'm cpu \<Rightarrow> (u8 \<times> 'm cpu) res" where
  "ReadBus sk addr cmd s =
     (if addr \<le> 0x3FFF \<and> sk_rom_bank_0 sk (sys s) \<noteq> None
      then Inr (the (sk_rom_bank_0 sk (sys s)) (unat addr), s)
      else
        (let s = s\<lparr>gbcmd := cmd\<rparr>;
             pl = \<lparr>command = TLM_READ_COMMAND, address = addr,
                   data_byte = sk_indeterminate sk (sys s),
                   response_status = payload_status s, extension = Some (gbcmd s)\<rparr> in
         rbind (sk_b_transport sk pl (sys s)) (\<lambda>(pl', m').
           if is_response_error pl' then Inl (BusError addr (data_byte pl'))
           else Inr (data_byte pl', s\<lparr>sys := m', payload_status := response_status pl'\<rparr>))))"

text \<open>
  The debug accesses of the GDB server: a write that fails is reported as an error, a read that fails
  yields 0 with a warning.
\<close>

definition WriteBusDebug :: "'m socket \<Rightarrow> u16 \<Rightarrow> u8 \<Rightarrow> 'm cpu \<Rightarrow> 'm cpu res" where
  "WriteBusDebug sk addr data s =
     (let pl = \<lparr>command = TLM_WRITE_COMMAND, address = addr, data_byte = data,
                response_status = payload_status s, extension = Some (gbcmd s)\<rparr> in
      rbind (sk_transport_dbg sk pl (sys s)) (\<lambda>(pl', m').
        if is_response_error pl' then Inl ReportError
        else Inr (s\<lparr>sys := m', payload_status := response_status pl'\<rparr>)))"

definition ReadBusDebug :: "'m socket \<Rightarrow> u16 \<Rightarrow> 'm cpu \<Rightarrow> (u8 \<times> 'm cpu) res" where
  "ReadBusDebug sk addr s =
     (let pl = \<lparr>command = TLM_READ_COMMAND, address = addr,
                data_byte = sk_indeterminate sk (sys s),
                response_status = payload_status s, extension = Some (gbcmd s)\<rparr> in
      rbind (sk_transport_dbg sk pl (sys s)) (\<lambda>(pl', m').
        Inr (if is_response_error pl' then 0 else data_byte pl',
             s\<lparr>sys := m', payload_status := response_status pl'\<rparr>)))"

definition FetchNextInstrByte :: "'m socket \<Rightarrow> 'm cpu \<Rightarrow> (u8 \<times> 'm cpu) res" where
  "FetchNextInstrByte sk s =
     rbind (ReadBus sk (get16 s rPC) kGbReadInst s) (\<lambda>(val, s).
       Inr (val, put16 rPC (get16 s rPC + 1) s))"

definition FetchNext2InstrBytes :: "'m socket \<Rightarrow> 'm cpu \<Rightarrow> (u16 \<times> 'm cpu) res" where
  "FetchNext2InstrBytes sk s =
     (let s = s\<lparr>gbcmd := kGbReadInst\<rparr> in
      rbind (ReadBus sk (get16 s rPC) kGbReadInst s) (\<lambda>(lsb, s).
      let s = put16 rPC (get16 s rPC + 1) s in
      rbind (ReadBus sk (get16 s rPC) kGbReadInst s) (\<lambda>(msb, s).
      let s = put16 rPC (get16 s rPC + 1) s in
      Inr (make16 msb lsb, s))))"

section \<open>Reading after writing\<close>

lemma get8_put8 [flag_simps]: "get8 (put8 r v s) r' = (if r = r' then v else get8 s r')"
  by (simp add: get8_def put8_def val8_set8)

lemma get16_put16 [flag_simps]: "get16 (put16 q v s) q' = (if q = q' then v else get16 s q')"
  by (simp add: get16_def put16_def val16_set16)

lemma get8_put16 [flag_simps]:
  "get8 (put16 q v s) r =
     (if r = msb_of q then hi8 v else if r = lsb_of q then lo8 v else get8 s r)"
  by (simp add: get8_def put16_def val8_set16)

lemma get16_eq_make16: "get16 s q = make16 (get8 s (msb_of q)) (get8 s (lsb_of q))"
  by (simp add: get16_def get8_def val16_eq_make16)

lemma get16_put8 [flag_simps]:
  "get16 (put8 r v s) q =
     (if r = msb_of q then make16 v (get8 s (lsb_of q))
      else if r = lsb_of q then make16 (get8 s (msb_of q)) v
      else get16 s q)"
  by (auto simp: get16_eq_make16 get8_put8)

lemma get8_update [simp]:
  "get8 (s\<lparr>cpu_state := a\<rparr>) r = get8 s r" "get8 (s\<lparr>intr_master_enable := b\<rparr>) r = get8 s r"
  "get8 (s\<lparr>halted := b\<rparr>) r = get8 s r" "get8 (s\<lparr>single_step := b\<rparr>) r = get8 s r"
  "get8 (s\<lparr>wait_ns := n\<rparr>) r = get8 s r" "get8 (s\<lparr>local_time_delta := n\<rparr>) r = get8 s r"
  "get8 (s\<lparr>payload_status := st\<rparr>) r = get8 s r" "get8 (s\<lparr>gbcmd := g\<rparr>) r = get8 s r"
  "get8 (s\<lparr>sim_stopped := b\<rparr>) r = get8 s r" "get8 (s\<lparr>sys := m\<rparr>) r = get8 s r"
  by (simp_all add: get8_def)

lemma get16_update [simp]:
  "get16 (s\<lparr>cpu_state := a\<rparr>) q = get16 s q" "get16 (s\<lparr>intr_master_enable := b\<rparr>) q = get16 s q"
  "get16 (s\<lparr>halted := b\<rparr>) q = get16 s q" "get16 (s\<lparr>single_step := b\<rparr>) q = get16 s q"
  "get16 (s\<lparr>wait_ns := n\<rparr>) q = get16 s q" "get16 (s\<lparr>local_time_delta := n\<rparr>) q = get16 s q"
  "get16 (s\<lparr>payload_status := st\<rparr>) q = get16 s q" "get16 (s\<lparr>gbcmd := g\<rparr>) q = get16 s q"
  "get16 (s\<lparr>sim_stopped := b\<rparr>) q = get16 s q" "get16 (s\<lparr>sys := m\<rparr>) q = get16 s q"
  by (simp_all add: get16_def)

lemma get_set_wait [simp]:
  "get8 (set_wait n s) r = get8 s r" "get16 (set_wait n s) q = get16 s q"
  by (simp_all add: set_wait_def)

lemma put_fields [simp]:
  "cpu_state (put8 r v s) = cpu_state s" "cpu_state (put16 q w s) = cpu_state s"
  "intr_master_enable (put8 r v s) = intr_master_enable s"
  "intr_master_enable (put16 q w s) = intr_master_enable s"
  "halted (put8 r v s) = halted s" "halted (put16 q w s) = halted s"
  "single_step (put8 r v s) = single_step s" "single_step (put16 q w s) = single_step s"
  "wait_ns (put8 r v s) = wait_ns s" "wait_ns (put16 q w s) = wait_ns s"
  "local_time_delta (put8 r v s) = local_time_delta s"
  "local_time_delta (put16 q w s) = local_time_delta s"
  "payload_status (put8 r v s) = payload_status s"
  "payload_status (put16 q w s) = payload_status s"
  "gbcmd (put8 r v s) = gbcmd s" "gbcmd (put16 q w s) = gbcmd s"
  "sim_stopped (put8 r v s) = sim_stopped s" "sim_stopped (put16 q w s) = sim_stopped s"
  "sys (put8 r v s) = sys s" "sys (put16 q w s) = sys s"
  by (simp_all add: put8_def put16_def)

text \<open>Assignments to a register move inward past those to the system and the payload.\<close>

lemma set16_set16_same: "set16 q v (set16 q w d) = set16 q v d"
  by (auto simp: set16_def)

lemma put16_put16 [simp]: "put16 q v (put16 q w s) = put16 q v s"
  by (simp add: put16_def set16_set16_same)

lemma put8_same: "get8 s r = v \<Longrightarrow> put8 r v s = s"
  by (auto simp: put8_def get8_def set8_val8)

lemma put_bus [simp]:
  "put16 q v (s\<lparr>sys := m\<rparr>) = (put16 q v s)\<lparr>sys := m\<rparr>"
  "put16 q v (s\<lparr>payload_status := st\<rparr>) = (put16 q v s)\<lparr>payload_status := st\<rparr>"
  "put16 q v (s\<lparr>gbcmd := g\<rparr>) = (put16 q v s)\<lparr>gbcmd := g\<rparr>"
  "put8 r b (s\<lparr>sys := m\<rparr>) = (put8 r b s)\<lparr>sys := m\<rparr>"
  "put8 r b (s\<lparr>payload_status := st\<rparr>) = (put8 r b s)\<lparr>payload_status := st\<rparr>"
  "put8 r b (s\<lparr>gbcmd := g\<rparr>) = (put8 r b s)\<lparr>gbcmd := g\<rparr>"
  by (simp_all add: put16_def put8_def)

lemma set_wait_fields [simp]:
  "cpu_state (set_wait n s) = cpu_state s"
  "intr_master_enable (set_wait n s) = intr_master_enable s"
  "halted (set_wait n s) = halted s" "single_step (set_wait n s) = single_step s"
  "wait_ns (set_wait n s) = n * kNsPerClkCycle"
  "local_time_delta (set_wait n s) = local_time_delta s"
  "payload_status (set_wait n s) = payload_status s" "gbcmd (set_wait n s) = gbcmd s"
  "sim_stopped (set_wait n s) = sim_stopped s" "sys (set_wait n s) = sys s"
  by (simp_all add: set_wait_def)

lemmas set_flag_defs = SetFlagC_def SetFlagH_def SetFlagN_def SetFlagZ_def

lemmas flag_index_defs = kIndCFlag_def kIndHFlag_def kIndNFlag_def kIndZFlag_def

lemma set_flag_fields [simp]:
  "sys (SetFlagC v s) = sys s" "sys (SetFlagH v s) = sys s"
  "sys (SetFlagN v s) = sys s" "sys (SetFlagZ v s) = sys s"
  "intr_master_enable (SetFlagC v s) = intr_master_enable s"
  "intr_master_enable (SetFlagH v s) = intr_master_enable s"
  "intr_master_enable (SetFlagN v s) = intr_master_enable s"
  "intr_master_enable (SetFlagZ v s) = intr_master_enable s"
  "wait_ns (SetFlagC v s) = wait_ns s" "wait_ns (SetFlagH v s) = wait_ns s"
  "wait_ns (SetFlagN v s) = wait_ns s" "wait_ns (SetFlagZ v s) = wait_ns s"
  "payload_status (SetFlagC v s) = payload_status s"
  "payload_status (SetFlagH v s) = payload_status s"
  "payload_status (SetFlagN v s) = payload_status s"
  "payload_status (SetFlagZ v s) = payload_status s"
  by (simp_all add: set_flag_defs)

lemma get8_SetFlag [flag_simps]:
  "r \<noteq> rF \<Longrightarrow> get8 (SetFlagC v s) r = get8 s r"
  "r \<noteq> rF \<Longrightarrow> get8 (SetFlagH v s) r = get8 s r"
  "r \<noteq> rF \<Longrightarrow> get8 (SetFlagN v s) r = get8 s r"
  "r \<noteq> rF \<Longrightarrow> get8 (SetFlagZ v s) r = get8 s r"
  by (simp_all add: set_flag_defs get8_put8)

lemma lsb_of_eq_rF [simp]: "lsb_of q = rF \<longleftrightarrow> q = rAF" "rF = lsb_of q \<longleftrightarrow> q = rAF"
  by (cases q; simp)+

lemma msb_of_eq_rF [simp]: "msb_of q \<noteq> rF" "rF \<noteq> msb_of q"
  by (cases q; simp)+

lemma get16_SetFlag [flag_simps]:
  "q \<noteq> rAF \<Longrightarrow> get16 (SetFlagC v s) q = get16 s q"
  "q \<noteq> rAF \<Longrightarrow> get16 (SetFlagH v s) q = get16 s q"
  "q \<noteq> rAF \<Longrightarrow> get16 (SetFlagN v s) q = get16 s q"
  "q \<noteq> rAF \<Longrightarrow> get16 (SetFlagZ v s) q = get16 s q"
  by (simp_all add: set_flag_defs get16_put8)

text \<open>A flag getter is the flag's bit of F.\<close>

lemma GetFlag_iff_bit:
  "GetFlagC s \<longleftrightarrow> bit (get8 s rF) 4" "GetFlagH s \<longleftrightarrow> bit (get8 s rF) 5"
  "GetFlagN s \<longleftrightarrow> bit (get8 s rF) 6" "GetFlagZ s \<longleftrightarrow> bit (get8 s rF) 7"
  by (simp_all add: GetFlagC_def GetFlagH_def GetFlagN_def GetFlagZ_def kMaskCFlag_def
      kMaskHFlag_def kMaskNFlag_def kMaskZFlag_def u8_eq_iff_bits bit_simps)

lemma GetFlag_SetFlag [flag_simps]:
  "GetFlagC (SetFlagC v s) = v" "GetFlagC (SetFlagH v s) = GetFlagC s"
  "GetFlagC (SetFlagN v s) = GetFlagC s" "GetFlagC (SetFlagZ v s) = GetFlagC s"
  "GetFlagH (SetFlagC v s) = GetFlagH s" "GetFlagH (SetFlagH v s) = v"
  "GetFlagH (SetFlagN v s) = GetFlagH s" "GetFlagH (SetFlagZ v s) = GetFlagH s"
  "GetFlagN (SetFlagC v s) = GetFlagN s" "GetFlagN (SetFlagH v s) = GetFlagN s"
  "GetFlagN (SetFlagN v s) = v" "GetFlagN (SetFlagZ v s) = GetFlagN s"
  "GetFlagZ (SetFlagC v s) = GetFlagZ s" "GetFlagZ (SetFlagH v s) = GetFlagZ s"
  "GetFlagZ (SetFlagN v s) = GetFlagZ s" "GetFlagZ (SetFlagZ v s) = v"
  by (simp_all add: GetFlag_iff_bit set_flag_defs flag_index_defs get8_put8 bit_SetBit)

lemma GetFlag_put8 [flag_simps]:
  "r \<noteq> rF \<Longrightarrow> GetFlagC (put8 r v s) = GetFlagC s"
  "r \<noteq> rF \<Longrightarrow> GetFlagH (put8 r v s) = GetFlagH s"
  "r \<noteq> rF \<Longrightarrow> GetFlagN (put8 r v s) = GetFlagN s"
  "r \<noteq> rF \<Longrightarrow> GetFlagZ (put8 r v s) = GetFlagZ s"
  by (simp_all add: GetFlag_iff_bit get8_put8)

lemma GetFlag_put16 [flag_simps]:
  "q \<noteq> rAF \<Longrightarrow> GetFlagC (put16 q v s) = GetFlagC s"
  "q \<noteq> rAF \<Longrightarrow> GetFlagH (put16 q v s) = GetFlagH s"
  "q \<noteq> rAF \<Longrightarrow> GetFlagN (put16 q v s) = GetFlagN s"
  "q \<noteq> rAF \<Longrightarrow> GetFlagZ (put16 q v s) = GetFlagZ s"
  by (simp_all add: GetFlag_iff_bit get8_put16)

lemma GetFlag_set_wait [flag_simps]:
  "GetFlagC (set_wait n s) = GetFlagC s" "GetFlagH (set_wait n s) = GetFlagH s"
  "GetFlagN (set_wait n s) = GetFlagN s" "GetFlagZ (set_wait n s) = GetFlagZ s"
  by (simp_all add: GetFlag_iff_bit)

text \<open>Bus accesses keep the registers and everything but the payload, its command and the system.\<close>

definition same_core :: "'m cpu \<Rightarrow> 'm cpu \<Rightarrow> bool" where
  "same_core s t \<longleftrightarrow>
     dat t = dat s \<and> cpu_state t = cpu_state s \<and> intr_master_enable t = intr_master_enable s \<and>
     halted t = halted s \<and> single_step t = single_step s \<and> wait_ns t = wait_ns s \<and>
     local_time_delta t = local_time_delta s \<and> sim_stopped t = sim_stopped s"

lemma same_core_refl [simp]: "same_core s s"
  by (simp add: same_core_def)

lemma same_core_trans: "same_core s t \<Longrightarrow> same_core t u \<Longrightarrow> same_core s u"
  by (simp add: same_core_def)

lemma same_core_get:
  assumes "same_core s t"
  shows "get8 t r = get8 s r" "get16 t q = get16 s q"
    "GetFlagC t = GetFlagC s" "GetFlagH t = GetFlagH s" "GetFlagN t = GetFlagN s"
    "GetFlagZ t = GetFlagZ s"
  using assms by (simp_all add: same_core_def get8_def get16_def GetFlag_iff_bit)

lemma ReadBus_same_core: "ReadBus sk a c s = Inr (v, s') \<Longrightarrow> same_core s s'"
  by (auto simp: ReadBus_def Let_def same_core_def rbind_Inr_iff split: if_splits)

lemma WriteBus_same_core: "WriteBus sk a d s = Inr s' \<Longrightarrow> same_core s s'"
  by (auto simp: WriteBus_def Let_def same_core_def rbind_Inr_iff)

text \<open>A fetch advances the program counter by one, a fetch of two bytes by two.\<close>

lemma FetchNextInstrByte_Inr:
  "FetchNextInstrByte sk s = Inr (v, s') \<longleftrightarrow>
    (\<exists>t. ReadBus sk (get16 s rPC) kGbReadInst s = Inr (v, t) \<and>
         s' = put16 rPC (get16 s rPC + 1) t)"
proof -
  have pc: "get16 t rPC = get16 s rPC"
    if "ReadBus sk (get16 s rPC) kGbReadInst s = Inr (w, t)" for w t
    using that by (intro same_core_get(2) ReadBus_same_core)
  show ?thesis
    by (force simp: FetchNextInstrByte_def rbind_Inr_iff pc)
qed

lemma FetchNextInstrByte_get:
  assumes "FetchNextInstrByte sk s = Inr (v, s')"
  shows "get16 s' rPC = get16 s rPC + 1"
    and "r \<noteq> rPCmsb \<Longrightarrow> r \<noteq> rPClsb \<Longrightarrow> get8 s' r = get8 s r"
    and "GetFlagC s' = GetFlagC s" "GetFlagH s' = GetFlagH s" "GetFlagN s' = GetFlagN s"
    and "GetFlagZ s' = GetFlagZ s"
proof -
  obtain t where t: "ReadBus sk (get16 s rPC) kGbReadInst s = Inr (v, t)"
    and s': "s' = put16 rPC (get16 s rPC + 1) t"
    using assms by (auto simp: FetchNextInstrByte_Inr)
  note core = same_core_get [OF ReadBus_same_core [OF t]]
  show "get16 s' rPC = get16 s rPC + 1"
    by (simp add: s' flag_simps)
  show "get8 s' r = get8 s r" if "r \<noteq> rPCmsb" "r \<noteq> rPClsb"
    using that by (simp add: s' flag_simps core)
  show "GetFlagC s' = GetFlagC s" "GetFlagH s' = GetFlagH s" "GetFlagN s' = GetFlagN s"
    "GetFlagZ s' = GetFlagZ s"
    by (simp_all add: s' flag_simps core)
qed

end
