(* ===== verification/Cpu_Ops.thy ===== *)
theory Cpu_Ops
  imports Cpu_State
begin

text \<open>
  The instructions of \<^verbatim>\<open>src/cpu_ops.cpp\<close>, one definition per method and in its order. A handler that
  touches the bus or the kernel takes the CPU's socket and returns a result; the others are functions
  on the CPU state. The suffix tells the overloads apart: \<open>8\<close> for \<^verbatim>\<open>Reg<u8>&\<close>, \<open>16\<close> for
  \<^verbatim>\<open>Reg<u16>&\<close> (an address register or the register itself).

  C++ promotes to \<^verbatim>\<open>int\<close> before it adds, subtracts or compares, so the flag conditions are computed on
  \<open>uint\<close> and \<open>sint\<close>; an assignment to a register cuts the value to its width.
\<close>

section \<open>HALT, NOP, loads and stores\<close>

fun halt_loop :: "nat \<Rightarrow> 'm socket \<Rightarrow> 'm cpu \<Rightarrow> 'm cpu res" where
  "halt_loop 0 sk s = Inl HaltUnresolved"
| "halt_loop (Suc n) sk s =
     (let s = s\<lparr>sys := sk_wait sk (4 * kNsPerClkCycle) (sys s)\<rparr> in
      if sk_intr_enable sk (sys s) AND sk_intr_pending sk (sys s) = 0 then halt_loop n sk s
      else Inr s)"

definition InstrHalt :: "'m socket \<Rightarrow> 'm cpu \<Rightarrow> 'm cpu res" where
  "InstrHalt sk s = halt_loop (sk_halt_polls sk) sk s"

definition InstrNop :: "'m cpu \<Rightarrow> 'm cpu" where
  "InstrNop s = set_wait 4 s"

definition InstrLoad_addr :: "'m socket \<Rightarrow> reg8 \<Rightarrow> u16 \<Rightarrow> 'm cpu \<Rightarrow> 'm cpu res" where
  "InstrLoad_addr sk r addr_val s =
     rbind (ReadBus sk addr_val kGbReadData s) (\<lambda>(v, s).
     Inr (set_wait 16 (put8 r v s)))"

definition InstrLoad16 :: "'m socket \<Rightarrow> reg8 \<Rightarrow> reg16 \<Rightarrow> 'm cpu \<Rightarrow> 'm cpu res" where
  "InstrLoad16 sk r addr_reg s =
     rbind (ReadBus sk (get16 s addr_reg) kGbReadData s) (\<lambda>(v, s).
     Inr (set_wait 8 (put8 r v s)))"

definition InstrLoadImm16 :: "'m socket \<Rightarrow> reg16 \<Rightarrow> 'm cpu \<Rightarrow> 'm cpu res" where
  "InstrLoadImm16 sk q s =
     rbind (FetchNext2InstrBytes sk s) (\<lambda>(v, s).
     Inr (set_wait 12 (put16 q v s)))"

definition InstrLoadImm8 :: "'m socket \<Rightarrow> reg8 \<Rightarrow> 'm cpu \<Rightarrow> 'm cpu res" where
  "InstrLoadImm8 sk r s =
     rbind (FetchNextInstrByte sk s) (\<lambda>(v, s).
     Inr (set_wait 8 (put8 r v s)))"

definition InstrLoadInc :: "'m socket \<Rightarrow> reg8 \<Rightarrow> reg16 \<Rightarrow> 'm cpu \<Rightarrow> 'm cpu res" where
  "InstrLoadInc sk r addr_reg s =
     rbind (ReadBus sk (get16 s addr_reg) kGbReadData s) (\<lambda>(v, s).
     let s = put8 r v s;
         s = put16 addr_reg (get16 s addr_reg + 1) s in
     Inr (set_wait 8 s))"

definition InstrLoadDec :: "'m socket \<Rightarrow> reg16 \<Rightarrow> reg8 \<Rightarrow> 'm cpu \<Rightarrow> 'm cpu res" where
  "InstrLoadDec sk addr_reg r s =
     rbind (ReadBus sk (get16 s addr_reg) kGbReadData s) (\<lambda>(v, s).
     let s = put8 r v s;
         s = put16 addr_reg (get16 s addr_reg - 1) s in
     Inr (set_wait 8 s))"

definition InstrStoreInc :: "'m socket \<Rightarrow> reg16 \<Rightarrow> u8 \<Rightarrow> 'm cpu \<Rightarrow> 'm cpu res" where
  "InstrStoreInc sk addr_reg val s =
     rbind (WriteBus sk (get16 s addr_reg) val s) (\<lambda>s.
     Inr (set_wait 8 (put16 addr_reg (get16 s addr_reg + 1) s)))"

definition InstrStoreDec :: "'m socket \<Rightarrow> reg16 \<Rightarrow> u8 \<Rightarrow> 'm cpu \<Rightarrow> 'm cpu res" where
  "InstrStoreDec sk addr_reg val s =
     rbind (WriteBus sk (get16 s addr_reg) val s) (\<lambda>s.
     Inr (set_wait 8 (put16 addr_reg (get16 s addr_reg - 1) s)))"

definition InstrStore16 :: "'m socket \<Rightarrow> reg16 \<Rightarrow> reg8 \<Rightarrow> 'm cpu \<Rightarrow> 'm cpu res" where
  "InstrStore16 sk addr_reg r s =
     rbind (WriteBus sk (get16 s addr_reg) (get8 s r) s) (\<lambda>s.
     Inr (set_wait 8 s))"

definition InstrStore_u8 :: "'m socket \<Rightarrow> u8 \<Rightarrow> reg8 \<Rightarrow> 'm cpu \<Rightarrow> 'm cpu res" where
  "InstrStore_u8 sk addr_reg r s =
     rbind (WriteBus sk (ucast addr_reg + 0xFF00) (get8 s r) s) (\<lambda>s.
     Inr (set_wait 8 s))"

definition InstrStore8 :: "'m socket \<Rightarrow> reg8 \<Rightarrow> 'm cpu \<Rightarrow> 'm cpu res" where
  "InstrStore8 sk r s =
     rbind (FetchNext2InstrBytes sk s) (\<lambda>(addr, s).
     rbind (WriteBus sk addr (get8 s r) s) (\<lambda>s.
     Inr (set_wait 16 s)))"

definition InstrStoreImm :: "'m socket \<Rightarrow> reg16 \<Rightarrow> 'm cpu \<Rightarrow> 'm cpu res" where
  "InstrStoreImm sk addr s =
     rbind (FetchNextInstrByte sk s) (\<lambda>(v, s).
     rbind (WriteBus sk (get16 s addr) v s) (\<lambda>s.
     Inr (set_wait 12 s)))"

definition InstrStoreH :: "'m socket \<Rightarrow> reg8 \<Rightarrow> 'm cpu \<Rightarrow> 'm cpu res" where
  "InstrStoreH sk r s =
     rbind (FetchNextInstrByte sk s) (\<lambda>(v, s).
     rbind (WriteBus sk (ucast v + 0xFF00) (get8 s r) s) (\<lambda>s.
     Inr (set_wait 12 s)))"

definition InstrLoadH :: "'m socket \<Rightarrow> reg8 \<Rightarrow> 'm cpu \<Rightarrow> 'm cpu res" where
  "InstrLoadH sk r s =
     rbind (FetchNextInstrByte sk s) (\<lambda>(imm, s).
     let addr = ucast imm + 0xFF00 in
     rbind (ReadBus sk addr kGbReadData s) (\<lambda>(v, s).
     let s = put8 r v s in
     if addr \<ge> 0xFF00 then Inr (set_wait 12 s) else Inl AssertFailed))"

definition InstrLoadHlSpRel :: "'m socket \<Rightarrow> 'm cpu \<Rightarrow> 'm cpu res" where
  "InstrLoadHlSpRel sk s =
     rbind (FetchNextInstrByte sk s) (\<lambda>(byte, s).
     let imm = sint byte;
         reg = uint (get16 s rSP);
         result = reg + imm;
         s = put16 rHL (word_of_int result) s;
         s = SetFlagC ((reg XOR imm XOR (result AND 0xFFFF)) AND 0x100 = 0x100) s;
         s = SetFlagH ((reg XOR imm XOR (result AND 0xFFFF)) AND 0x10 = 0x10) s;
         s = SetFlagN False s;
         s = SetFlagZ False s in
     Inr (set_wait 12 s))"

definition InstrLoadSpHl :: "'m cpu \<Rightarrow> 'm cpu" where
  "InstrLoadSpHl s = set_wait 8 (put16 rSP (get16 s rHL) s)"

section \<open>Increment, decrement and the rotations of A\<close>

definition InstrInc8 :: "reg8 \<Rightarrow> 'm cpu \<Rightarrow> 'm cpu" where
  "InstrInc8 r s =
     (let s = put8 r (get8 s r + 1) s;
          s = SetFlagZ (get8 s r = 0) s;
          s = SetFlagN False s;
          s = SetFlagH (get8 s r AND 0x0F = 0) s in
      set_wait 4 s)"

definition InstrInc16 :: "reg16 \<Rightarrow> 'm cpu \<Rightarrow> 'm cpu" where
  "InstrInc16 q s = set_wait 8 (put16 q (get16 s q + 1) s)"

definition InstrIncAddr :: "'m socket \<Rightarrow> reg16 \<Rightarrow> 'm cpu \<Rightarrow> 'm cpu res" where
  "InstrIncAddr sk addr s =
     rbind (ReadBus sk (get16 s addr) kGbReadData s) (\<lambda>(val, s).
     let val = val + 1 in
     rbind (WriteBus sk (get16 s addr) val s) (\<lambda>s.
     let s = SetFlagZ (val = 0) s;
         s = SetFlagN False s;
         s = SetFlagH (val AND 0x0F = 0) s in
     Inr (set_wait 12 s)))"

definition InstrDecAddr :: "'m socket \<Rightarrow> reg16 \<Rightarrow> 'm cpu \<Rightarrow> 'm cpu res" where
  "InstrDecAddr sk addr s =
     rbind (ReadBus sk (get16 s addr) kGbReadData s) (\<lambda>(val, s).
     let val = val - 1 in
     rbind (WriteBus sk (get16 s addr) val s) (\<lambda>s.
     let s = SetFlagH (val AND 0x0F = 0x0F) s;
         s = SetFlagN True s;
         s = SetFlagZ (val = 0) s in
     Inr (set_wait 12 s)))"

definition InstrRlca :: "'m cpu \<Rightarrow> 'm cpu" where
  "InstrRlca s =
     (let s = put8 rA (push_bit 1 (get8 s rA) OR drop_bit 7 (get8 s rA)) s;
          s = SetFlagH False s;
          s = SetFlagZ False s;
          s = SetFlagN False s;
          s = SetFlagC (get8 s rA AND 0x01 \<noteq> 0) s in
      set_wait 4 s)"

definition InstrRrca :: "'m cpu \<Rightarrow> 'm cpu" where
  "InstrRrca s =
     (let carry_flag = get8 s rA AND kMaskBit0;
          s = put8 rA (drop_bit 1 (get8 s rA) OR push_bit 7 carry_flag) s;
          s = SetFlagC (carry_flag \<noteq> 0) s;
          s = SetFlagH False s;
          s = SetFlagN False s;
          s = SetFlagZ False s in
      set_wait 4 s)"

definition InstrRra :: "'m cpu \<Rightarrow> 'm cpu" where
  "InstrRra s =
     (let carry_flag = get8 s rA AND kMaskBit0;
          old_carry_flag = (of_bool (GetFlagC s) :: u8);
          s = put8 rA (drop_bit 1 (get8 s rA) OR push_bit 7 old_carry_flag) s;
          s = SetFlagC (carry_flag \<noteq> 0) s;
          s = SetFlagH False s;
          s = SetFlagN False s;
          s = SetFlagZ False s in
      set_wait 4 s)"

definition InstrRlc8 :: "reg8 \<Rightarrow> 'm cpu \<Rightarrow> 'm cpu" where
  "InstrRlc8 r s =
     (let s = put8 r (push_bit 1 (get8 s r) OR drop_bit 7 (get8 s r)) s;
          s = SetFlagH False s;
          s = SetFlagZ (get8 s r = 0) s;
          s = SetFlagN False s;
          s = SetFlagC (get8 s r AND 0x01 \<noteq> 0) s in
      set_wait 8 s)"

definition InstrRlc16 :: "'m socket \<Rightarrow> reg16 \<Rightarrow> 'm cpu \<Rightarrow> 'm cpu res" where
  "InstrRlc16 sk addr_reg s =
     rbind (ReadBus sk (get16 s addr_reg) kGbReadData s) (\<lambda>(dat, s).
     let dat = push_bit 1 dat OR drop_bit 7 dat in
     rbind (WriteBus sk (get16 s addr_reg) dat s) (\<lambda>s.
     let s = SetFlagH False s;
         s = SetFlagZ (dat = 0) s;
         s = SetFlagN False s;
         s = SetFlagC (dat AND 0x01 \<noteq> 0) s in
     Inr (set_wait 16 s)))"

definition InstrRrc8 :: "reg8 \<Rightarrow> 'm cpu \<Rightarrow> 'm cpu" where
  "InstrRrc8 r s =
     (let s = put8 r (drop_bit 1 (get8 s r) OR push_bit 7 (get8 s r)) s;
          s = SetFlagH False s;
          s = SetFlagZ (get8 s r = 0) s;
          s = SetFlagN False s;
          s = SetFlagC (get8 s r AND 0x80 \<noteq> 0) s in
      set_wait 8 s)"

definition InstrRrc16 :: "'m socket \<Rightarrow> reg16 \<Rightarrow> 'm cpu \<Rightarrow> 'm cpu res" where
  "InstrRrc16 sk addr_reg s =
     rbind (ReadBus sk (get16 s addr_reg) kGbReadData s) (\<lambda>(dat, s).
     let dat = drop_bit 1 dat OR push_bit 7 dat in
     rbind (WriteBus sk (get16 s addr_reg) dat s) (\<lambda>s.
     let s = SetFlagH False s;
         s = SetFlagZ (dat = 0) s;
         s = SetFlagN False s;
         s = SetFlagC (dat AND 0x80 \<noteq> 0) s in
     Inr (set_wait 16 s)))"

definition InstrStoreSp :: "'m socket \<Rightarrow> 'm cpu \<Rightarrow> 'm cpu res" where
  "InstrStoreSp sk s =
     rbind (FetchNext2InstrBytes sk s) (\<lambda>(addr, s).
     rbind (WriteBus sk addr (get8 s rSPlsb) s) (\<lambda>s.
     rbind (WriteBus sk (addr + 1) (get8 s rSPmsb) s) (\<lambda>s.
     Inr (set_wait 20 s))))"

section \<open>Addition\<close>

definition InstrAddHl :: "reg16 \<Rightarrow> 'm cpu \<Rightarrow> 'm cpu" where
  "InstrAddHl q s =
     (let s = SetFlagH (uint (get16 s rHL AND 0x0FFF) + uint (get16 s q AND 0x0FFF) > 0x0FFF) s;
          old_val = get16 s rHL;
          s = put16 rHL (get16 s rHL + get16 s q) s;
          s = SetFlagN False s;
          s = SetFlagC (get16 s rHL < old_val) s in
      set_wait 8 s)"

definition InstrAddSp :: "'m socket \<Rightarrow> 'm cpu \<Rightarrow> 'm cpu res" where
  "InstrAddSp sk s =
     rbind (FetchNextInstrByte sk s) (\<lambda>(byte, s).
     let data = sint byte;
         reg = uint (get16 s rSP);
         result = reg + data;
         s = put16 rSP (word_of_int result) s;
         s = SetFlagH ((reg XOR data XOR (result AND 0xFFFF)) AND 0x10 = 0x10) s;
         s = SetFlagN False s;
         s = SetFlagC ((reg XOR data XOR (result AND 0xFFFF)) AND 0x100 = 0x100) s;
         s = SetFlagZ False s in
     Inr (set_wait 16 s))"

definition InstrAddA8 :: "reg8 \<Rightarrow> 'm cpu \<Rightarrow> 'm cpu" where
  "InstrAddA8 r s =
     (let s = SetFlagH (uint (get8 s rA AND 0x0F) + uint (get8 s r AND 0x0F) > 0x0F) s;
          old_val = get8 s r;
          s = put8 rA (get8 s rA + get8 s r) s;
          s = SetFlagN False s;
          s = SetFlagC (get8 s rA < old_val) s;
          s = SetFlagZ (get8 s rA = 0) s in
      set_wait 4 s)"

definition InstrAddA16 :: "'m socket \<Rightarrow> reg16 \<Rightarrow> 'm cpu \<Rightarrow> 'm cpu res" where
  "InstrAddA16 sk addr_reg s =
     rbind (ReadBus sk (get16 s addr_reg) kGbReadData s) (\<lambda>(reg, s).
     let s = SetFlagH (uint (get8 s rA AND 0x0F) + uint (reg AND 0x0F) > 0x0F) s;
         s = put8 rA (get8 s rA + reg) s;
         s = SetFlagN False s;
         s = SetFlagC (get8 s rA < reg) s;
         s = SetFlagZ (get8 s rA = 0) s in
     Inr (set_wait 8 s))"

definition InstrAddAImm :: "'m socket \<Rightarrow> 'm cpu \<Rightarrow> 'm cpu res" where
  "InstrAddAImm sk s =
     rbind (FetchNextInstrByte sk s) (\<lambda>(imm, s).
     let s = SetFlagH (uint (get8 s rA AND 0x0F) + uint (imm AND 0x0F) > 0x0F) s;
         s = put8 rA (get8 s rA + imm) s;
         s = SetFlagN False s;
         s = SetFlagC (get8 s rA < imm) s;
         s = SetFlagZ (get8 s rA = 0) s in
     Inr (set_wait 8 s))"

definition InstrAddACarry8 :: "reg8 \<Rightarrow> 'm cpu \<Rightarrow> 'm cpu" where
  "InstrAddACarry8 r s =
     (let carry_add = (if GetFlagC s then 1 else 0 :: u8);
          old_val = get8 s rA;
          s = SetFlagH (uint (get8 s rA AND 0x0F) + uint (get8 s r AND 0x0F) + uint carry_add
                          > 0x0F) s;
          s = put8 rA (get8 s rA + (get8 s r + carry_add)) s;
          s = SetFlagN False s;
          s = SetFlagC (get8 s rA < old_val \<or> (get8 s rA = old_val \<and> carry_add = 1)) s;
          s = SetFlagZ (get8 s rA = 0) s in
      set_wait 4 s)"

definition InstrAddACarry16 :: "'m socket \<Rightarrow> reg16 \<Rightarrow> 'm cpu \<Rightarrow> 'm cpu res" where
  "InstrAddACarry16 sk addr_reg s =
     rbind (ReadBus sk (get16 s addr_reg) kGbReadData s) (\<lambda>(reg, s).
     let carry_add = (if GetFlagC s then 1 else 0 :: u8);
         old_val = get8 s rA;
         s = SetFlagH (uint (get8 s rA AND 0x0F) + uint (reg AND 0x0F) + uint carry_add > 0x0F) s;
         s = put8 rA (get8 s rA + (reg + carry_add)) s;
         s = SetFlagN False s;
         s = SetFlagC (get8 s rA < old_val \<or> (get8 s rA = old_val \<and> carry_add = 1)) s;
         s = SetFlagZ (get8 s rA = 0) s in
     Inr (set_wait 8 s))"

definition InstrAddACarryImm :: "'m socket \<Rightarrow> 'm cpu \<Rightarrow> 'm cpu res" where
  "InstrAddACarryImm sk s =
     rbind (FetchNextInstrByte sk s) (\<lambda>(reg, s).
     let old_val = get8 s rA;
         carry_add = (if GetFlagC s then 1 else 0 :: u8);
         s = SetFlagH (uint (get8 s rA AND 0x0F) + uint (reg AND 0x0F) + uint carry_add > 0x0F) s;
         s = put8 rA (get8 s rA + (reg + carry_add)) s;
         s = SetFlagN False s;
         s = SetFlagC (get8 s rA < old_val \<or> (get8 s rA = old_val \<and> carry_add = 1)) s;
         s = SetFlagZ (get8 s rA = 0) s in
     Inr (set_wait 8 s))"

section \<open>Subtraction and comparison\<close>

text \<open>
  \<^verbatim>\<open>InstrSubImm\<close> keeps its immediate in an \<^verbatim>\<open>int8_t\<close>; subtracting it from a byte and masking its
  low nibble give the same bits as the unsigned byte does, so the byte stands for both.
\<close>

definition InstrSubImm :: "'m socket \<Rightarrow> 'm cpu \<Rightarrow> 'm cpu res" where
  "InstrSubImm sk s =
     (let pre_val = get8 s rA in
      rbind (FetchNextInstrByte sk s) (\<lambda>(imm, s).
      let s = put8 rA (get8 s rA - imm) s;
          s = SetFlagC (get8 s rA > pre_val) s;
          s = SetFlagH (uint (pre_val AND 0xF) - uint (imm AND 0xF) < 0) s;
          s = SetFlagZ (get8 s rA = 0) s;
          s = SetFlagN True s in
      Inr (set_wait 8 s)))"

definition InstrSub8 :: "reg8 \<Rightarrow> 'm cpu \<Rightarrow> 'm cpu" where
  "InstrSub8 r s =
     (let pre_val = get8 s rA;
          old_reg_val = get8 s r;
          s = put8 rA (get8 s rA - get8 s r) s;
          s = SetFlagC (get8 s rA > pre_val) s;
          s = SetFlagH (uint (pre_val AND 0xF) - uint (old_reg_val AND 0xF) < 0) s;
          s = SetFlagZ (get8 s rA = 0) s;
          s = SetFlagN True s in
      set_wait 4 s)"

definition InstrSub16 :: "'m socket \<Rightarrow> reg16 \<Rightarrow> 'm cpu \<Rightarrow> 'm cpu res" where
  "InstrSub16 sk addr_reg s =
     rbind (ReadBus sk (get16 s addr_reg) kGbReadData s) (\<lambda>(reg, s).
     let pre_val = get8 s rA;
         s = put8 rA (get8 s rA - reg) s;
         s = SetFlagC (get8 s rA > pre_val) s;
         s = SetFlagH (uint (pre_val AND 0xF) - uint (reg AND 0xF) < 0) s;
         s = SetFlagZ (get8 s rA = 0) s;
         s = SetFlagN True s in
     Inr (set_wait 8 s))"

definition InstrSubCarry8 :: "reg8 \<Rightarrow> 'm cpu \<Rightarrow> 'm cpu" where
  "InstrSubCarry8 r s =
     (let carry_sub = (if GetFlagC s then 1 else 0 :: u8);
          old_val = get8 s rA;
          s = put8 rA (get8 s rA - (get8 s r + carry_sub)) s;
          s = SetFlagC (get8 s rA > old_val \<or> (get8 s rA = old_val \<and> carry_sub = 1)) s;
          s = SetFlagH (uint (old_val AND 0xF) - uint (get8 s r AND 0xF) - uint carry_sub < 0) s;
          s = SetFlagZ (get8 s rA = 0) s;
          s = SetFlagN True s in
      set_wait 4 s)"

definition InstrSubCarry16 :: "'m socket \<Rightarrow> reg16 \<Rightarrow> 'm cpu \<Rightarrow> 'm cpu res" where
  "InstrSubCarry16 sk addr_reg s =
     rbind (ReadBus sk (get16 s addr_reg) kGbReadData s) (\<lambda>(reg, s).
     let carry_sub = (if GetFlagC s then 1 else 0 :: u8);
         old_val = get8 s rA;
         s = put8 rA (get8 s rA - (reg + carry_sub)) s;
         s = SetFlagC (get8 s rA > old_val \<or> (get8 s rA = old_val \<and> carry_sub = 1)) s;
         s = SetFlagH (uint (old_val AND 0xF) - uint (reg AND 0xF) - uint carry_sub < 0) s;
         s = SetFlagZ (get8 s rA = 0) s;
         s = SetFlagN True s in
     Inr (set_wait 8 s))"

definition InstrSubCarryImm :: "'m socket \<Rightarrow> 'm cpu \<Rightarrow> 'm cpu res" where
  "InstrSubCarryImm sk s =
     rbind (FetchNextInstrByte sk s) (\<lambda>(dat, s).
     let carry_sub = (if GetFlagC s then 1 else 0 :: u8);
         old_val = get8 s rA;
         s = put8 rA (get8 s rA - (dat + carry_sub)) s;
         s = SetFlagC (get8 s rA > old_val \<or> (get8 s rA = old_val \<and> carry_sub = 1)) s;
         s = SetFlagH (uint (old_val AND 0xF) - uint (dat AND 0xF) - uint carry_sub < 0) s;
         s = SetFlagZ (get8 s rA = 0) s;
         s = SetFlagN True s in
     Inr (set_wait 8 s))"

definition InstrComp8 :: "reg8 \<Rightarrow> 'm cpu \<Rightarrow> 'm cpu" where
  "InstrComp8 r s =
     (let pre_val = get8 s rA;
          result = get8 s rA - get8 s r;
          s = SetFlagC (result > pre_val) s;
          s = SetFlagH (uint (pre_val AND 0xF) - uint (get8 s r AND 0xF) < 0) s;
          s = SetFlagZ (result = 0) s;
          s = SetFlagN True s in
      set_wait 4 s)"

definition InstrComp16 :: "'m socket \<Rightarrow> reg16 \<Rightarrow> 'm cpu \<Rightarrow> 'm cpu res" where
  "InstrComp16 sk q s =
     (let pre_val = get8 s rA in
      rbind (ReadBus sk (get16 s q) kGbReadData s) (\<lambda>(read_reg, s).
      let result = get8 s rA - read_reg;
          s = SetFlagC (result > pre_val) s;
          s = SetFlagH (uint (pre_val AND 0xF) - uint (read_reg AND 0xF) < 0) s;
          s = SetFlagZ (result = 0) s;
          s = SetFlagN True s in
      Inr (set_wait 8 s)))"

definition InstrCompImm :: "'m socket \<Rightarrow> 'm cpu \<Rightarrow> 'm cpu res" where
  "InstrCompImm sk s =
     rbind (FetchNextInstrByte sk s) (\<lambda>(imm, s).
     let pre_val = get8 s rA;
         result = get8 s rA - imm;
         s = SetFlagC (result > pre_val) s;
         s = SetFlagH (uint (pre_val AND 0xF) - uint (imm AND 0xF) < 0) s;
         s = SetFlagZ (result = 0) s;
         s = SetFlagN True s in
     Inr (set_wait 8 s))"

definition InstrDec16 :: "reg16 \<Rightarrow> 'm cpu \<Rightarrow> 'm cpu" where
  "InstrDec16 q s = set_wait 8 (put16 q (get16 s q - 1) s)"

definition InstrDec8 :: "reg8 \<Rightarrow> 'm cpu \<Rightarrow> 'm cpu" where
  "InstrDec8 r s =
     (let s = put8 r (get8 s r - 1) s;
          s = SetFlagH (get8 s r AND 0x0F = 0x0F) s;
          s = SetFlagN True s;
          s = SetFlagZ (get8 s r = 0) s in
      set_wait 4 s)"

section \<open>Bitwise operations on A\<close>

text \<open>The nine methods share their flag assignments; \<open>logic_flags\<close> names them, with the value of H as its
  argument.\<close>

definition logic_flags :: "bool \<Rightarrow> 'm cpu \<Rightarrow> 'm cpu" where
  "logic_flags h s =
     (let s = SetFlagC False s;
          s = SetFlagH h s;
          s = SetFlagN False s in
      SetFlagZ (get8 s rA = 0) s)"

definition InstrXor8 :: "reg8 \<Rightarrow> 'm cpu \<Rightarrow> 'm cpu" where
  "InstrXor8 r s =
     (let s = put8 rA (get8 s rA XOR get8 s r) s in set_wait 4 (logic_flags False s))"

definition InstrXor16 :: "'m socket \<Rightarrow> reg16 \<Rightarrow> 'm cpu \<Rightarrow> 'm cpu res" where
  "InstrXor16 sk addr_reg s =
     rbind (ReadBus sk (get16 s addr_reg) kGbReadData s) (\<lambda>(v, s).
     let s = put8 rA (get8 s rA XOR v) s in Inr (set_wait 8 (logic_flags False s)))"

definition InstrXorImm :: "'m socket \<Rightarrow> 'm cpu \<Rightarrow> 'm cpu res" where
  "InstrXorImm sk s =
     rbind (FetchNextInstrByte sk s) (\<lambda>(v, s).
     let s = put8 rA (get8 s rA XOR v) s in Inr (set_wait 8 (logic_flags False s)))"

definition InstrAnd8 :: "reg8 \<Rightarrow> 'm cpu \<Rightarrow> 'm cpu" where
  "InstrAnd8 r s =
     (let s = put8 rA (get8 s rA AND get8 s r) s in set_wait 4 (logic_flags True s))"

definition InstrAnd16 :: "'m socket \<Rightarrow> reg16 \<Rightarrow> 'm cpu \<Rightarrow> 'm cpu res" where
  "InstrAnd16 sk addr_reg s =
     rbind (ReadBus sk (get16 s addr_reg) kGbReadData s) (\<lambda>(v, s).
     let s = put8 rA (get8 s rA AND v) s in Inr (set_wait 8 (logic_flags True s)))"

definition InstrAndImm :: "'m socket \<Rightarrow> 'm cpu \<Rightarrow> 'm cpu res" where
  "InstrAndImm sk s =
     rbind (FetchNextInstrByte sk s) (\<lambda>(v, s).
     let s = put8 rA (get8 s rA AND v) s in Inr (set_wait 8 (logic_flags True s)))"

definition InstrOr8 :: "reg8 \<Rightarrow> 'm cpu \<Rightarrow> 'm cpu" where
  "InstrOr8 r s =
     (let s = put8 rA (get8 s rA OR get8 s r) s in set_wait 4 (logic_flags False s))"

definition InstrOr16 :: "'m socket \<Rightarrow> reg16 \<Rightarrow> 'm cpu \<Rightarrow> 'm cpu res" where
  "InstrOr16 sk addr_reg s =
     rbind (ReadBus sk (get16 s addr_reg) kGbReadData s) (\<lambda>(v, s).
     let s = put8 rA (get8 s rA OR v) s in Inr (set_wait 8 (logic_flags False s)))"

definition InstrOrImm :: "'m socket \<Rightarrow> 'm cpu \<Rightarrow> 'm cpu res" where
  "InstrOrImm sk s =
     rbind (FetchNextInstrByte sk s) (\<lambda>(v, s).
     let s = put8 rA (get8 s rA OR v) s in Inr (set_wait 8 (logic_flags False s)))"

section \<open>Jumps, bit tests, calls and the stack\<close>

definition InstrJump :: "'m socket \<Rightarrow> 'm cpu \<Rightarrow> 'm cpu res" where
  "InstrJump sk s =
     (let tmp_pc = uint (get16 s rPC) in
      rbind (FetchNextInstrByte sk s) (\<lambda>(byte, s).
      let tmp_instr = sint byte in
      Inr (set_wait 12 (put16 rPC (word_of_int (tmp_pc + 1 + tmp_instr)) s))))"

definition InstrJump16 :: "reg16 \<Rightarrow> 'm cpu \<Rightarrow> 'm cpu" where
  "InstrJump16 addr_reg s = set_wait 4 (put16 rPC (get16 s addr_reg) s)"

definition InstrJumpAddr :: "'m socket \<Rightarrow> 'm cpu \<Rightarrow> 'm cpu res" where
  "InstrJumpAddr sk s =
     rbind (FetchNext2InstrBytes sk s) (\<lambda>(addr, s).
     Inr (set_wait 16 (put16 rPC addr s)))"

definition InstrJumpIf :: "'m socket \<Rightarrow> bool \<Rightarrow> 'm cpu \<Rightarrow> 'm cpu res" where
  "InstrJumpIf sk cond s =
     (if cond then
        (let tmp_pc = uint (get16 s rPC) in
         rbind (FetchNextInstrByte sk s) (\<lambda>(byte, s).
         let tmp_instr = sint byte in
         Inr (set_wait 12 (put16 rPC (word_of_int (tmp_pc + tmp_instr + 1)) s))))
      else
        rbind (FetchNextInstrByte sk s) (\<lambda>(_, s). Inr (set_wait 8 s)))"

definition InstrJumpAddrIf :: "'m socket \<Rightarrow> bool \<Rightarrow> 'm cpu \<Rightarrow> 'm cpu res" where
  "InstrJumpAddrIf sk cond s =
     rbind (FetchNext2InstrBytes sk s) (\<lambda>(jmp_addr, s).
     if cond then Inr (set_wait 16 (put16 rPC jmp_addr s)) else Inr (set_wait 12 s))"

definition InstrBitN8 :: "nat \<Rightarrow> reg8 \<Rightarrow> 'm cpu \<Rightarrow> 'm cpu" where
  "InstrBitN8 bit_index r s =
     (let s = SetFlagH True s;
          s = SetFlagN False s;
          s = SetFlagZ (\<not> IsBitSet (get8 s r) bit_index) s in
      set_wait 8 s)"

definition InstrBitN16 :: "'m socket \<Rightarrow> nat \<Rightarrow> reg16 \<Rightarrow> 'm cpu \<Rightarrow> 'm cpu res" where
  "InstrBitN16 sk bit_index addr s =
     (let s = SetFlagH True s;
          s = SetFlagN False s in
      rbind (ReadBus sk (get16 s addr) kGbReadData s) (\<lambda>(v, s).
      let s = SetFlagZ (\<not> IsBitSet v bit_index) s in
      Inr (set_wait 12 s)))"

definition InstrSetBitN8 :: "nat \<Rightarrow> reg8 \<Rightarrow> 'm cpu \<Rightarrow> 'm cpu" where
  "InstrSetBitN8 bit_index r s = set_wait 8 (put8 r (SetBit (get8 s r) True bit_index) s)"

definition InstrSetBitN16 :: "'m socket \<Rightarrow> nat \<Rightarrow> reg16 \<Rightarrow> 'm cpu \<Rightarrow> 'm cpu res" where
  "InstrSetBitN16 sk bit_index addr_reg s =
     rbind (ReadBus sk (get16 s addr_reg) kGbReadData s) (\<lambda>(tmp, s).
     let tmp = SetBit tmp True bit_index in
     rbind (WriteBus sk (get16 s addr_reg) tmp s) (\<lambda>s.
     Inr (set_wait 16 s)))"

definition InstrCall :: "'m socket \<Rightarrow> 'm cpu \<Rightarrow> 'm cpu res" where
  "InstrCall sk s =
     rbind (FetchNext2InstrBytes sk s) (\<lambda>(jmp_addr, s).
     let s = put16 rSP (get16 s rSP - 1) s in
     rbind (WriteBus sk (get16 s rSP) (get8 s rPCmsb) s) (\<lambda>s.
     let s = put16 rSP (get16 s rSP - 1) s in
     rbind (WriteBus sk (get16 s rSP) (get8 s rPClsb) s) (\<lambda>s.
     Inr (set_wait 24 (put16 rPC jmp_addr s)))))"

definition InstrCallIf :: "'m socket \<Rightarrow> bool \<Rightarrow> 'm cpu \<Rightarrow> 'm cpu res" where
  "InstrCallIf sk cond s =
     rbind (FetchNext2InstrBytes sk s) (\<lambda>(jmp_addr, s).
     if cond then
       (let s = put16 rSP (get16 s rSP - 1) s in
        rbind (WriteBus sk (get16 s rSP) (get8 s rPCmsb) s) (\<lambda>s.
        let s = put16 rSP (get16 s rSP - 1) s in
        rbind (WriteBus sk (get16 s rSP) (get8 s rPClsb) s) (\<lambda>s.
        Inr (set_wait 24 (put16 rPC jmp_addr s)))))
     else Inr (set_wait 12 s))"

definition InstrRet :: "'m socket \<Rightarrow> 'm cpu \<Rightarrow> 'm cpu res" where
  "InstrRet sk s =
     rbind (ReadBus sk (get16 s rSP) kGbReadData s) (\<lambda>(lsb, s).
     let s = put16 rSP (get16 s rSP + 1) s in
     rbind (ReadBus sk (get16 s rSP) kGbReadData s) (\<lambda>(msb, s).
     let s = put16 rSP (get16 s rSP + 1) s in
     Inr (set_wait 16 (put16 rPC (make16 msb lsb) s))))"

definition InstrRetI :: "'m socket \<Rightarrow> 'm cpu \<Rightarrow> 'm cpu res" where
  "InstrRetI sk s =
     rbind (ReadBus sk (get16 s rSP) kGbReadData s) (\<lambda>(lsb, s).
     let s = put16 rSP (get16 s rSP + 1) s in
     rbind (ReadBus sk (get16 s rSP) kGbReadData s) (\<lambda>(msb, s).
     let s = put16 rSP (get16 s rSP + 1) s;
         s = put16 rPC (make16 msb lsb) s in
     Inr (set_wait 16 (s\<lparr>intr_master_enable := True\<rparr>))))"

definition InstrPush :: "'m socket \<Rightarrow> reg16 \<Rightarrow> 'm cpu \<Rightarrow> 'm cpu res" where
  "InstrPush sk q s =
     (let s = put16 rSP (get16 s rSP - 1) s in
      rbind (WriteBus sk (get16 s rSP) (ucast (drop_bit 8 (get16 s q))) s) (\<lambda>s.
      let s = put16 rSP (get16 s rSP - 1) s in
      rbind (WriteBus sk (get16 s rSP) (ucast (get16 s q AND 0x00FF)) s) (\<lambda>s.
      Inr (set_wait 16 s))))"

definition InstrPop :: "'m socket \<Rightarrow> reg16 \<Rightarrow> 'm cpu \<Rightarrow> 'm cpu res" where
  "InstrPop sk q s =
     (let f_tmp = get8 s rF AND 0x0F in
      rbind (ReadBus sk (get16 s rSP) kGbReadData s) (\<lambda>(lsb, s).
      let s = put16 rSP (get16 s rSP + 1) s in
      rbind (ReadBus sk (get16 s rSP) kGbReadData s) (\<lambda>(msb, s).
      let s = put16 rSP (get16 s rSP + 1) s;
          s = put16 q (make16 msb lsb) s;
          s = put8 rF ((get8 s rF AND 0xF0) OR f_tmp) s in
      Inr (set_wait 12 s))))"

definition InstrMov :: "reg8 \<Rightarrow> reg8 \<Rightarrow> 'm cpu \<Rightarrow> 'm cpu" where
  "InstrMov reg_to reg_from s = set_wait 4 (put8 reg_to (get8 s reg_from) s)"

section \<open>Rotations and shifts\<close>

definition InstrRotLeft8 :: "reg8 \<Rightarrow> 'm cpu \<Rightarrow> 'm cpu" where
  "InstrRotLeft8 r s =
     (let old_carry = GetFlagC s;
          s = SetFlagC (get8 s r AND 0x80 \<noteq> 0) s;
          s = put8 r (push_bit 1 (get8 s r)) s;
          s = put8 r (get8 s r OR (if old_carry then 1 else 0)) s;
          s = SetFlagZ (get8 s r = 0) s;
          s = SetFlagN False s;
          s = SetFlagH False s in
      set_wait 8 s)"

definition InstrRotLeft16 :: "'m socket \<Rightarrow> reg16 \<Rightarrow> 'm cpu \<Rightarrow> 'm cpu res" where
  "InstrRotLeft16 sk addr_reg s =
     rbind (ReadBus sk (get16 s addr_reg) kGbReadData s) (\<lambda>(dat, s).
     let old_carry = GetFlagC s;
         s = SetFlagC (dat AND 0x80 \<noteq> 0) s;
         dat = push_bit 1 dat;
         dat = dat OR (if old_carry then 1 else 0) in
     rbind (WriteBus sk (get16 s addr_reg) dat s) (\<lambda>s.
     let s = SetFlagZ (dat = 0) s;
         s = SetFlagN False s;
         s = SetFlagH False s in
     Inr (set_wait 16 s)))"

definition InstrRotRight8 :: "reg8 \<Rightarrow> 'm cpu \<Rightarrow> 'm cpu" where
  "InstrRotRight8 r s =
     (let old_carry = GetFlagC s;
          s = SetFlagC (get8 s r AND 1 \<noteq> 0) s;
          s = put8 r (drop_bit 1 (get8 s r)) s;
          s = put8 r (get8 s r OR (if old_carry then 0x80 else 0)) s;
          s = SetFlagZ (get8 s r = 0) s;
          s = SetFlagN False s;
          s = SetFlagH False s in
      set_wait 8 s)"

definition InstrRotRight16 :: "'m socket \<Rightarrow> reg16 \<Rightarrow> 'm cpu \<Rightarrow> 'm cpu res" where
  "InstrRotRight16 sk addr_reg s =
     rbind (ReadBus sk (get16 s addr_reg) kGbReadData s) (\<lambda>(dat, s).
     let old_carry = GetFlagC s;
         s = SetFlagC (dat AND 1 \<noteq> 0) s;
         dat = drop_bit 1 dat;
         dat = dat OR (if old_carry then 0x80 else 0) in
     rbind (WriteBus sk (get16 s addr_reg) dat s) (\<lambda>s.
     let s = SetFlagZ (dat = 0) s;
         s = SetFlagN False s;
         s = SetFlagH False s in
     Inr (set_wait 16 s)))"

definition InstrRotLeftA :: "'m cpu \<Rightarrow> 'm cpu" where
  "InstrRotLeftA s =
     (let old_carry = GetFlagC s;
          s = SetFlagC (get8 s rA AND 0x80 \<noteq> 0) s;
          s = put8 rA (push_bit 1 (get8 s rA)) s;
          s = put8 rA (get8 s rA OR (if old_carry then 1 else 0)) s;
          s = SetFlagZ False s;
          s = SetFlagN False s;
          s = SetFlagH False s in
      set_wait 4 s)"

definition InstrShiftRight8 :: "reg8 \<Rightarrow> 'm cpu \<Rightarrow> 'm cpu" where
  "InstrShiftRight8 r s =
     (let tmp = get8 s r;
          s = put8 r (drop_bit 1 (get8 s r)) s;
          s = SetFlagC (tmp AND kMaskBit0 \<noteq> 0) s;
          s = SetFlagZ (get8 s r = 0) s;
          s = SetFlagN False s;
          s = SetFlagH False s in
      set_wait 8 s)"

definition InstrShiftRight16 :: "'m socket \<Rightarrow> reg16 \<Rightarrow> 'm cpu \<Rightarrow> 'm cpu res" where
  "InstrShiftRight16 sk addr_reg s =
     rbind (ReadBus sk (get16 s addr_reg) kGbReadData s) (\<lambda>(dat, s).
     let tmp = dat;
         dat = drop_bit 1 dat in
     rbind (WriteBus sk (get16 s addr_reg) dat s) (\<lambda>s.
     let s = SetFlagC (tmp AND kMaskBit0 \<noteq> 0) s;
         s = SetFlagZ (dat = 0) s;
         s = SetFlagN False s;
         s = SetFlagH False s in
     Inr (set_wait 16 s)))"

definition InstrDI :: "'m cpu \<Rightarrow> 'm cpu" where
  "InstrDI s = set_wait 4 (s\<lparr>intr_master_enable := False\<rparr>)"

definition InstrEI :: "'m cpu \<Rightarrow> 'm cpu" where
  "InstrEI s = set_wait 4 (s\<lparr>intr_master_enable := True\<rparr>)"

definition InstrRetIf :: "'m socket \<Rightarrow> bool \<Rightarrow> 'm cpu \<Rightarrow> 'm cpu res" where
  "InstrRetIf sk cond s =
     (if cond then
        rbind (ReadBus sk (get16 s rSP) kGbReadData s) (\<lambda>(lsb, s).
        let s = put16 rSP (get16 s rSP + 1) s in
        rbind (ReadBus sk (get16 s rSP) kGbReadData s) (\<lambda>(msb, s).
        let s = put16 rSP (get16 s rSP + 1) s in
        Inr (set_wait 20 (put16 rPC (make16 msb lsb) s))))
      else Inr (set_wait 8 s))"

definition InstrSwap8 :: "reg8 \<Rightarrow> 'm cpu \<Rightarrow> 'm cpu" where
  "InstrSwap8 r s =
     (let old_upper_nib = drop_bit 4 (get8 s r);
          old_lower_nib = push_bit 4 (get8 s r);
          s = put8 r (old_lower_nib OR old_upper_nib) s;
          s = SetFlagC False s;
          s = SetFlagZ (get8 s r = 0) s;
          s = SetFlagN False s;
          s = SetFlagH False s in
      set_wait 8 s)"

definition InstrSwap16 :: "'m socket \<Rightarrow> reg16 \<Rightarrow> 'm cpu \<Rightarrow> 'm cpu res" where
  "InstrSwap16 sk addr_reg s =
     rbind (ReadBus sk (get16 s addr_reg) kGbReadData s) (\<lambda>(dat, s).
     let old_upper_nib = drop_bit 4 dat;
         old_lower_nib = push_bit 4 dat;
         dat = old_lower_nib OR old_upper_nib in
     rbind (WriteBus sk (get16 s addr_reg) dat s) (\<lambda>s.
     let s = SetFlagC False s;
         s = SetFlagZ (dat = 0) s;
         s = SetFlagN False s;
         s = SetFlagH False s in
     Inr (set_wait 16 s)))"

definition InstrRST :: "'m socket \<Rightarrow> u8 \<Rightarrow> 'm cpu \<Rightarrow> 'm cpu res" where
  "InstrRST sk addr s =
     (let s = put16 rSP (get16 s rSP - 1) s in
      rbind (WriteBus sk (get16 s rSP) (get8 s rPCmsb) s) (\<lambda>s.
      let s = put16 rSP (get16 s rSP - 1) s in
      rbind (WriteBus sk (get16 s rSP) (get8 s rPClsb) s) (\<lambda>s.
      Inr (set_wait 16 (put16 rPC (ucast addr) s)))))"

definition InstrResetBit8 :: "nat \<Rightarrow> reg8 \<Rightarrow> 'm cpu \<Rightarrow> 'm cpu" where
  "InstrResetBit8 bit_index r s =
     set_wait 8 (put8 r (get8 s r AND NOT (push_bit bit_index 1)) s)"

definition InstrResetBit16 :: "'m socket \<Rightarrow> nat \<Rightarrow> reg16 \<Rightarrow> 'm cpu \<Rightarrow> 'm cpu res" where
  "InstrResetBit16 sk bit_index addr_reg s =
     rbind (ReadBus sk (get16 s addr_reg) kGbReadData s) (\<lambda>(res, s).
     let res = res AND NOT (push_bit bit_index 1) in
     rbind (WriteBus sk (get16 s addr_reg) res s) (\<lambda>s.
     Inr (set_wait 16 s)))"

definition InstrComplement :: "'m cpu \<Rightarrow> 'm cpu" where
  "InstrComplement s =
     (let s = put8 rA (NOT (get8 s rA)) s;
          s = SetFlagH True s;
          s = SetFlagN True s in
      set_wait 4 s)"

definition InstrSLA8 :: "reg8 \<Rightarrow> 'm cpu \<Rightarrow> 'm cpu" where
  "InstrSLA8 r s =
     (let carry_bit = get8 s r AND kMaskBit7;
          s = put8 r (push_bit 1 (get8 s r)) s;
          s = SetFlagC (carry_bit \<noteq> 0) s;
          s = SetFlagH False s;
          s = SetFlagN False s;
          s = SetFlagZ (get8 s r = 0) s in
      set_wait 8 s)"

definition InstrSLA16 :: "'m socket \<Rightarrow> reg16 \<Rightarrow> 'm cpu \<Rightarrow> 'm cpu res" where
  "InstrSLA16 sk addr_reg s =
     rbind (ReadBus sk (get16 s addr_reg) kGbReadData s) (\<lambda>(dat, s).
     let carry_bit = dat AND kMaskBit7;
         dat = push_bit 1 dat in
     rbind (WriteBus sk (get16 s addr_reg) dat s) (\<lambda>s.
     let s = SetFlagC (carry_bit \<noteq> 0) s;
         s = SetFlagH False s;
         s = SetFlagN False s;
         s = SetFlagZ (dat = 0) s in
     Inr (set_wait 16 s)))"

section \<open>Semihosting, DAA and the carry flag\<close>

definition InstrEmu :: "'m cpu \<Rightarrow> 'm cpu" where
  "InstrEmu s =
     (if get8 s rB = 0 then s\<lparr>cpu_state := kTestPassed\<rparr>
      else if get8 s rB = 1 then s\<lparr>cpu_state := kTestFailed\<rparr>
      else if get8 s rB = 2 then s\<lparr>sim_stopped := True\<rparr>
      else s)"

definition InstrDAA :: "'m cpu \<Rightarrow> 'm cpu" where
  "InstrDAA s =
     (let reg = get8 s rA;
          correction = (if GetFlagC s then 0x60 else 0x00);
          correction = (if GetFlagH s \<or> (\<not> GetFlagN s \<and> reg AND 0x0F > 9)
                        then correction OR 0x06 else correction);
          correction = (if GetFlagC s \<or> (\<not> GetFlagN s \<and> reg > 0x99)
                        then correction OR 0x60 else correction);
          reg = (if GetFlagN s then reg - correction else reg + correction);
          s = (if push_bit 2 (uint correction) AND 0x100 \<noteq> 0 then SetFlagC True s else s);
          s = SetFlagH False s;
          s = SetFlagZ (reg = 0) s;
          s = put8 rA reg s in
      set_wait 4 s)"

definition InstrSCF :: "'m cpu \<Rightarrow> 'm cpu" where
  "InstrSCF s =
     (let s = SetFlagC True s;
          s = SetFlagH False s;
          s = SetFlagN False s in
      set_wait 4 s)"

definition InstrCCF :: "'m cpu \<Rightarrow> 'm cpu" where
  "InstrCCF s =
     (let s = SetFlagC (\<not> GetFlagC s) s;
          s = SetFlagH False s;
          s = SetFlagN False s in
      set_wait 4 s)"

definition InstrSRA8 :: "reg8 \<Rightarrow> 'm cpu \<Rightarrow> 'm cpu" where
  "InstrSRA8 r s =
     (let carry_bit = get8 s r AND 1;
          top_bit = get8 s r AND kMaskBit7;
          s = put8 r (drop_bit 1 (get8 s r) OR top_bit) s;
          s = SetFlagC (carry_bit \<noteq> 0) s;
          s = SetFlagH False s;
          s = SetFlagN False s;
          s = SetFlagZ (get8 s r = 0) s in
      set_wait 8 s)"

definition InstrSRA16 :: "'m socket \<Rightarrow> reg16 \<Rightarrow> 'm cpu \<Rightarrow> 'm cpu res" where
  "InstrSRA16 sk addr_reg s =
     rbind (ReadBus sk (get16 s addr_reg) kGbReadData s) (\<lambda>(dat, s).
     let carry_bit = dat AND 1;
         top_bit = dat AND kMaskBit7;
         result = drop_bit 1 dat OR top_bit in
     rbind (WriteBus sk (get16 s addr_reg) result s) (\<lambda>s.
     let s = SetFlagC (carry_bit \<noteq> 0) s;
         s = SetFlagH False s;
         s = SetFlagN False s;
         s = SetFlagZ (result = 0) s in
     Inr (set_wait 16 s)))"

definition InstrLoadC :: "'m socket \<Rightarrow> 'm cpu \<Rightarrow> 'm cpu res" where
  "InstrLoadC sk s =
     rbind (ReadBus sk (0xFF00 + ucast (get8 s rC)) kGbReadData s) (\<lambda>(v, s).
     Inr (set_wait 8 (put8 rA v s)))"

end
