(* ===== verification/Cpu_Interrupts.thy ===== *)
theory Cpu_Interrupts
  imports Cpu_Ops
begin

text \<open>
  \<^verbatim>\<open>Cpu::HandleInterrupts\<close> of \<^verbatim>\<open>src/cpu.cpp\<close>: it compares the enable and the pending register,
  pushes the program counter and enters the service routine of the first request in priority order.
\<close>

section \<open>The dispatcher\<close>

text \<open>\<open>acknowledge mask\<close> is the assignment \<^verbatim>\<open>*reg_intr_pending_dmi &= ~mask\<close>.\<close>

definition acknowledge :: "'m socket \<Rightarrow> u8 \<Rightarrow> 'm cpu \<Rightarrow> 'm cpu" where
  "acknowledge sk m s =
     s\<lparr>sys := sk_set_intr_pending sk (sk_intr_pending sk (sys s) AND NOT m) (sys s)\<rparr>"

definition HandleInterrupts :: "'m socket \<Rightarrow> 'm cpu \<Rightarrow> 'm cpu res" where
  "HandleInterrupts sk s =
     (if \<not> intr_master_enable s then Inr s
      else
        (let intr = sk_intr_enable sk (sys s) AND sk_intr_pending sk (sys s) in
         if intr \<noteq> 0 then
           rbind (InstrPush sk rPC (s\<lparr>intr_master_enable := False\<rparr>)) (\<lambda>s.
           if intr AND kVBlankIf \<noteq> 0 then Inr (acknowledge sk kVBlankIf (put16 rPC 0x40 s))
           else if intr AND kLCDCIf \<noteq> 0 then Inr (acknowledge sk kLCDCIf (put16 rPC 0x48 s))
           else if intr AND kTimerOfIf \<noteq> 0 then Inr (acknowledge sk kTimerOfIf (put16 rPC 0x50 s))
           else if intr AND kSerialIOIf \<noteq> 0 then Inr (acknowledge sk kSerialIOIf (put16 rPC 0x58 s))
           else if intr AND kJoypadIf \<noteq> 0 then Inr (acknowledge sk kJoypadIf (put16 rPC 0x60 s))
           else Inr s)
         else Inr s))"

section \<open>Priorities\<close>

text \<open>The request with the lowest number wins; the service routines are eight bytes apart.\<close>

definition interrupt_table :: "(u8 \<times> u16) list" where
  "interrupt_table =
     [(kVBlankIf, 0x40), (kLCDCIf, 0x48), (kTimerOfIf, 0x50), (kSerialIOIf, 0x58),
      (kJoypadIf, 0x60)]"

definition lowest_request :: "u8 \<Rightarrow> nat \<Rightarrow> bool" where
  "lowest_request intr i \<longleftrightarrow> bit intr i \<and> (\<forall>j < i. \<not> bit intr j)"

lemmas intr_mask_defs = kVBlankIf_def kLCDCIf_def kTimerOfIf_def kSerialIOIf_def kJoypadIf_def

lemma HandleInterrupts_table:
  assumes "intr_master_enable s"
    and "sk_intr_enable sk (sys s) AND sk_intr_pending sk (sys s) \<noteq> 0"
    and "InstrPush sk rPC (s\<lparr>intr_master_enable := False\<rparr>) = Inr t"
  shows "HandleInterrupts sk s =
    Inr (case find (\<lambda>(msk, _).
               sk_intr_enable sk (sys s) AND sk_intr_pending sk (sys s) AND msk \<noteq> 0)
             interrupt_table of
           None \<Rightarrow> t
         | Some (msk, vec) \<Rightarrow> acknowledge sk msk (put16 rPC vec t))"
  using assms by (simp add: HandleInterrupts_def Let_def interrupt_table_def and.assoc)

lemma and_mask_bits:
  "(intr :: u8) AND kVBlankIf \<noteq> 0 \<longleftrightarrow> bit intr 0" "intr AND kLCDCIf \<noteq> 0 \<longleftrightarrow> bit intr 1"
  "intr AND kTimerOfIf \<noteq> 0 \<longleftrightarrow> bit intr 2" "intr AND kSerialIOIf \<noteq> 0 \<longleftrightarrow> bit intr 3"
  "intr AND kJoypadIf \<noteq> 0 \<longleftrightarrow> bit intr 4"
  by (simp_all add: intr_mask_defs u8_eq_iff_bits bit_simps)

lemma less_5_cases: "i < 5 \<longleftrightarrow> i \<in> {0, 1, 2, 3, 4::nat}"
  by auto

lemma HandleInterrupts_lowest:
  assumes "intr_master_enable s" and "i < 5"
    and low: "lowest_request (sk_intr_enable sk (sys s) AND sk_intr_pending sk (sys s)) i"
    and push: "InstrPush sk rPC (s\<lparr>intr_master_enable := False\<rparr>) = Inr t"
  shows "HandleInterrupts sk s =
    Inr (acknowledge sk (push_bit i 1) (put16 rPC (0x40 + 8 * of_nat i) t))"
proof -
  define intr where "intr = sk_intr_enable sk (sys s) AND sk_intr_pending sk (sys s)"
  have nonzero: "intr \<noteq> 0"
    using low by (auto simp: lowest_request_def intr_def)
  have masks: "kVBlankIf = push_bit 0 1" "kLCDCIf = push_bit 1 1" "kTimerOfIf = push_bit 2 1"
    "kSerialIOIf = push_bit 3 1" "kJoypadIf = push_bit 4 1"
    by (simp_all add: intr_mask_defs)
  have low: "bit intr i" "\<forall>j < i. \<not> bit intr j"
    using low by (simp_all add: intr_def lowest_request_def)
  have step: "HandleInterrupts sk s = Inr (
      if bit intr 0 then acknowledge sk (push_bit 0 1) (put16 rPC 0x40 t)
      else if bit intr 1 then acknowledge sk (push_bit 1 1) (put16 rPC 0x48 t)
      else if bit intr 2 then acknowledge sk (push_bit 2 1) (put16 rPC 0x50 t)
      else if bit intr 3 then acknowledge sk (push_bit 3 1) (put16 rPC 0x58 t)
      else if bit intr 4 then acknowledge sk (push_bit 4 1) (put16 rPC 0x60 t)
      else t)"
    using assms(1) push nonzero
    by (simp only: HandleInterrupts_def Let_def intr_def [symmetric] and_mask_bits [unfolded masks] masks
        rbind_simps if_True not_True_eq_False if_False not_False_eq_True simp_thms if_distrib [of Inr])
  consider "i = 0" | "i = 1" | "i = 2" | "i = 3" | "i = 4"
    using \<open>i < 5\<close> by (auto simp: less_5_cases)
  then show ?thesis
    using low unfolding step by cases simp_all
qed

text \<open>With requests on the unused bits only, the program counter is pushed and no routine entered.\<close>

lemma HandleInterrupts_spurious:
  assumes "intr_master_enable s"
    and intr: "sk_intr_enable sk (sys s) AND sk_intr_pending sk (sys s) = intr" "intr \<noteq> 0"
      "intr AND 0x1F = 0"
    and push: "InstrPush sk rPC (s\<lparr>intr_master_enable := False\<rparr>) = Inr t"
  shows "HandleInterrupts sk s = Inr t"
proof -
  have "\<not> bit intr 0" "\<not> bit intr 1" "\<not> bit intr 2" "\<not> bit intr 3" "\<not> bit intr 4"
    using intr(3) by (simp_all add: u8_eq_iff_bits bit_simps)
  then show ?thesis
    using assms by (simp add: HandleInterrupts_def Let_def and_mask_bits)
qed

lemma SetBit_False: "SetBit w False i = w AND NOT (push_bit i 1)"
  by (simp add: SetBit_def)

section \<open>HALT\<close>

text \<open>The loop of HALT ends with the first poll that finds an enabled request.\<close>

definition halt_step :: "'m socket \<Rightarrow> 'm \<Rightarrow> 'm" where
  "halt_step sk = sk_wait sk (4 * kNsPerClkCycle)"

definition requests :: "'m socket \<Rightarrow> 'm \<Rightarrow> u8" where
  "requests sk m = sk_intr_enable sk m AND sk_intr_pending sk m"

lemma halt_loop_returns:
  assumes "k < n" and "requests sk ((halt_step sk ^^ Suc k) (sys s)) \<noteq> 0"
    and "\<forall>j < k. requests sk ((halt_step sk ^^ Suc j) (sys s)) = 0"
  shows "halt_loop n sk s = Inr (s\<lparr>sys := (halt_step sk ^^ Suc k) (sys s)\<rparr>)"
  using assms
proof (induction n arbitrary: k s)
  case (Suc n)
  show ?case
  proof (cases k)
    case 0
    with Suc.prems show ?thesis by (simp add: requests_def halt_step_def Let_def)
  next
    case (Suc k')
    let ?s = "s\<lparr>sys := halt_step sk (sys s)\<rparr>"
    have "requests sk (sys ?s) = 0"
      using Suc.prems(3) Suc by force
    moreover have "halt_loop n sk ?s = Inr (?s\<lparr>sys := (halt_step sk ^^ Suc k') (sys ?s)\<rparr>)"
    proof (rule Suc.IH)
      show "k' < n" using Suc.prems(1) Suc by simp
      show "requests sk ((halt_step sk ^^ Suc k') (sys ?s)) \<noteq> 0"
        using Suc.prems(2) Suc by (simp add: funpow_swap1)
      show "\<forall>j < k'. requests sk ((halt_step sk ^^ Suc j) (sys ?s)) = 0"
        using Suc.prems(3) Suc by (auto simp: funpow_swap1 dest: spec [of _ "Suc _"])
    qed
    ultimately show ?thesis
      using Suc by (simp add: requests_def halt_step_def Let_def funpow_swap1)
  qed
qed simp

end
