(* ===== verification/Cpu_Jumptable.thy ===== *)
theory Cpu_Jumptable
  imports Cpu_Interrupts
begin

text \<open>
  \<^verbatim>\<open>Cpu::DoMachineCycle\<close> of \<^verbatim>\<open>src/cpu_jumptable.cpp\<close>: the two opcode switches as tables of
  sixteen rows with sixteen handlers each (entry \<open>j\<close> of row \<open>i\<close> is the case of opcode
  \<open>16 * i + j\<close>), and the body of the loop around them.
\<close>

type_synonym 'm handler = "'m cpu \<Rightarrow> 'm cpu res"

definition ok :: "('m cpu \<Rightarrow> 'm cpu) \<Rightarrow> 'm handler" where
  "ok f s = Inr (f s)"

text \<open>The default case prints a message and exits.\<close>

definition unknown_instruction :: "u8 \<Rightarrow> 'm handler" where
  "unknown_instruction op s = Inl (UnknownInstruction op)"

section \<open>The opcodes after the prefix 0xCB\<close>

definition cb_row_0x0 :: "'m socket \<Rightarrow> 'm handler list" where
  "cb_row_0x0 sk =
     [ok (InstrRlc8 rB), ok (InstrRlc8 rC), ok (InstrRlc8 rD), ok (InstrRlc8 rE),
      ok (InstrRlc8 rH), ok (InstrRlc8 rL), InstrRlc16 sk rHL, ok (InstrRlc8 rA),
      ok (InstrRrc8 rB), ok (InstrRrc8 rC), ok (InstrRrc8 rD), ok (InstrRrc8 rE),
      ok (InstrRrc8 rH), ok (InstrRrc8 rL), InstrRrc16 sk rHL, ok (InstrRrc8 rA)]"

definition cb_row_0x1 :: "'m socket \<Rightarrow> 'm handler list" where
  "cb_row_0x1 sk =
     [ok (InstrRotLeft8 rB), ok (InstrRotLeft8 rC), ok (InstrRotLeft8 rD),
      ok (InstrRotLeft8 rE), ok (InstrRotLeft8 rH), ok (InstrRotLeft8 rL),
      InstrRotLeft16 sk rHL, ok (InstrRotLeft8 rA), ok (InstrRotRight8 rB),
      ok (InstrRotRight8 rC), ok (InstrRotRight8 rD), ok (InstrRotRight8 rE),
      ok (InstrRotRight8 rH), ok (InstrRotRight8 rL), InstrRotRight16 sk rHL,
      ok (InstrRotRight8 rA)]"

definition cb_row_0x2 :: "'m socket \<Rightarrow> 'm handler list" where
  "cb_row_0x2 sk =
     [ok (InstrSLA8 rB), ok (InstrSLA8 rC), ok (InstrSLA8 rD), ok (InstrSLA8 rE),
      ok (InstrSLA8 rH), ok (InstrSLA8 rL), InstrSLA16 sk rHL, ok (InstrSLA8 rA),
      ok (InstrSRA8 rB), ok (InstrSRA8 rC), ok (InstrSRA8 rD), ok (InstrSRA8 rE),
      ok (InstrSRA8 rH), ok (InstrSRA8 rL), InstrSRA16 sk rHL, ok (InstrSRA8 rA)]"

definition cb_row_0x3 :: "'m socket \<Rightarrow> 'm handler list" where
  "cb_row_0x3 sk =
     [ok (InstrSwap8 rB), ok (InstrSwap8 rC), ok (InstrSwap8 rD), ok (InstrSwap8 rE),
      ok (InstrSwap8 rH), ok (InstrSwap8 rL), InstrSwap16 sk rHL, ok (InstrSwap8 rA),
      ok (InstrShiftRight8 rB), ok (InstrShiftRight8 rC), ok (InstrShiftRight8 rD),
      ok (InstrShiftRight8 rE), ok (InstrShiftRight8 rH), ok (InstrShiftRight8 rL),
      InstrShiftRight16 sk rHL, ok (InstrShiftRight8 rA)]"

definition cb_row_0x4 :: "'m socket \<Rightarrow> 'm handler list" where
  "cb_row_0x4 sk =
     [ok (InstrBitN8 0 rB), ok (InstrBitN8 0 rC), ok (InstrBitN8 0 rD),
      ok (InstrBitN8 0 rE), ok (InstrBitN8 0 rH), ok (InstrBitN8 0 rL),
      InstrBitN16 sk 0 rHL, ok (InstrBitN8 0 rA), ok (InstrBitN8 1 rB),
      ok (InstrBitN8 1 rC), ok (InstrBitN8 1 rD), ok (InstrBitN8 1 rE),
      ok (InstrBitN8 1 rH), ok (InstrBitN8 1 rL), InstrBitN16 sk 1 rHL,
      ok (InstrBitN8 1 rA)]"

definition cb_row_0x5 :: "'m socket \<Rightarrow> 'm handler list" where
  "cb_row_0x5 sk =
     [ok (InstrBitN8 2 rB), ok (InstrBitN8 2 rC), ok (InstrBitN8 2 rD),
      ok (InstrBitN8 2 rE), ok (InstrBitN8 2 rH), ok (InstrBitN8 2 rL),
      InstrBitN16 sk 2 rHL, ok (InstrBitN8 2 rA), ok (InstrBitN8 3 rB),
      ok (InstrBitN8 3 rC), ok (InstrBitN8 3 rD), ok (InstrBitN8 3 rE),
      ok (InstrBitN8 3 rH), ok (InstrBitN8 3 rL), InstrBitN16 sk 3 rHL,
      ok (InstrBitN8 3 rA)]"

definition cb_row_0x6 :: "'m socket \<Rightarrow> 'm handler list" where
  "cb_row_0x6 sk =
     [ok (InstrBitN8 4 rB), ok (InstrBitN8 4 rC), ok (InstrBitN8 4 rD),
      ok (InstrBitN8 4 rE), ok (InstrBitN8 4 rH), ok (InstrBitN8 4 rL),
      InstrBitN16 sk 4 rHL, ok (InstrBitN8 4 rA), ok (InstrBitN8 5 rB),
      ok (InstrBitN8 5 rC), ok (InstrBitN8 5 rD), ok (InstrBitN8 5 rE),
      ok (InstrBitN8 5 rH), ok (InstrBitN8 5 rL), InstrBitN16 sk 5 rHL,
      ok (InstrBitN8 5 rA)]"

definition cb_row_0x7 :: "'m socket \<Rightarrow> 'm handler list" where
  "cb_row_0x7 sk =
     [ok (InstrBitN8 6 rB), ok (InstrBitN8 6 rC), ok (InstrBitN8 6 rD),
      ok (InstrBitN8 6 rE), ok (InstrBitN8 6 rH), ok (InstrBitN8 6 rL),
      InstrBitN16 sk 6 rHL, ok (InstrBitN8 6 rA), ok (InstrBitN8 7 rB),
      ok (InstrBitN8 7 rC), ok (InstrBitN8 7 rD), ok (InstrBitN8 7 rE),
      ok (InstrBitN8 7 rH), ok (InstrBitN8 7 rL), InstrBitN16 sk 7 rHL,
      ok (InstrBitN8 7 rA)]"

definition cb_row_0x8 :: "'m socket \<Rightarrow> 'm handler list" where
  "cb_row_0x8 sk =
     [ok (InstrResetBit8 0 rB), ok (InstrResetBit8 0 rC), ok (InstrResetBit8 0 rD),
      ok (InstrResetBit8 0 rE), ok (InstrResetBit8 0 rH), ok (InstrResetBit8 0 rL),
      InstrResetBit16 sk 0 rHL, ok (InstrResetBit8 0 rA), ok (InstrResetBit8 1 rB),
      ok (InstrResetBit8 1 rC), ok (InstrResetBit8 1 rD), ok (InstrResetBit8 1 rE),
      ok (InstrResetBit8 1 rH), ok (InstrResetBit8 1 rL), InstrResetBit16 sk 1 rHL,
      ok (InstrResetBit8 1 rA)]"

definition cb_row_0x9 :: "'m socket \<Rightarrow> 'm handler list" where
  "cb_row_0x9 sk =
     [ok (InstrResetBit8 2 rB), ok (InstrResetBit8 2 rC), ok (InstrResetBit8 2 rD),
      ok (InstrResetBit8 2 rE), ok (InstrResetBit8 2 rH), ok (InstrResetBit8 2 rL),
      InstrResetBit16 sk 2 rHL, ok (InstrResetBit8 2 rA), ok (InstrResetBit8 3 rB),
      ok (InstrResetBit8 3 rC), ok (InstrResetBit8 3 rD), ok (InstrResetBit8 3 rE),
      ok (InstrResetBit8 3 rH), ok (InstrResetBit8 3 rL), InstrResetBit16 sk 3 rHL,
      ok (InstrResetBit8 3 rA)]"

definition cb_row_0xA :: "'m socket \<Rightarrow> 'm handler list" where
  "cb_row_0xA sk =
     [ok (InstrResetBit8 4 rB), ok (InstrResetBit8 4 rC), ok (InstrResetBit8 4 rD),
      ok (InstrResetBit8 4 rE), ok (InstrResetBit8 4 rH), ok (InstrResetBit8 4 rL),
      InstrResetBit16 sk 4 rHL, ok (InstrResetBit8 4 rA), ok (InstrResetBit8 5 rB),
      ok (InstrResetBit8 5 rC), ok (InstrResetBit8 5 rD), ok (InstrResetBit8 5 rE),
      ok (InstrResetBit8 5 rH), ok (InstrResetBit8 5 rL), InstrResetBit16 sk 5 rHL,
      ok (InstrResetBit8 5 rA)]"

definition cb_row_0xB :: "'m socket \<Rightarrow> 'm handler list" where
  "cb_row_0xB sk =
     [ok (InstrResetBit8 6 rB), ok (InstrResetBit8 6 rC), ok (InstrResetBit8 6 rD),
      ok (InstrResetBit8 6 rE), ok (InstrResetBit8 6 rH), ok (InstrResetBit8 6 rL),
      InstrResetBit16 sk 6 rHL, ok (InstrResetBit8 6 rA), ok (InstrResetBit8 7 rB),
      ok (InstrResetBit8 7 rC), ok (InstrResetBit8 7 rD), ok (InstrResetBit8 7 rE),
      ok (InstrResetBit8 7 rH), ok (InstrResetBit8 7 rL), InstrResetBit16 sk 7 rHL,
      ok (InstrResetBit8 7 rA)]"

definition cb_row_0xC :: "'m socket \<Rightarrow> 'm handler list" where
  "cb_row_0xC sk =
     [ok (InstrSetBitN8 0 rB), ok (InstrSetBitN8 0 rC), ok (InstrSetBitN8 0 rD),
      ok (InstrSetBitN8 0 rE), ok (InstrSetBitN8 0 rH), ok (InstrSetBitN8 0 rL),
      InstrSetBitN16 sk 0 rHL, ok (InstrSetBitN8 0 rA), ok (InstrSetBitN8 1 rB),
      ok (InstrSetBitN8 1 rC), ok (InstrSetBitN8 1 rD), ok (InstrSetBitN8 1 rE),
      ok (InstrSetBitN8 1 rH), ok (InstrSetBitN8 1 rL), InstrSetBitN16 sk 1 rHL,
      ok (InstrSetBitN8 1 rA)]"

definition cb_row_0xD :: "'m socket \<Rightarrow> 'm handler list" where
  "cb_row_0xD sk =
     [ok (InstrSetBitN8 2 rB), ok (InstrSetBitN8 2 rC), ok (InstrSetBitN8 2 rD),
      ok (InstrSetBitN8 2 rE), ok (InstrSetBitN8 2 rH), ok (InstrSetBitN8 2 rL),
      InstrSetBitN16 sk 2 rHL, ok (InstrSetBitN8 2 rA), ok (InstrSetBitN8 3 rB),
      ok (InstrSetBitN8 3 rC), ok (InstrSetBitN8 3 rD), ok (InstrSetBitN8 3 rE),
      ok (InstrSetBitN8 3 rH), ok (InstrSetBitN8 3 rL), InstrSetBitN16 sk 3 rHL,
      ok (InstrSetBitN8 3 rA)]"

definition cb_row_0xE :: "'m socket \<Rightarrow> 'm handler list" where
  "cb_row_0xE sk =
     [ok (InstrSetBitN8 4 rB), ok (InstrSetBitN8 4 rC), ok (InstrSetBitN8 4 rD),
      ok (InstrSetBitN8 4 rE), ok (InstrSetBitN8 4 rH), ok (InstrSetBitN8 4 rL),
      InstrSetBitN16 sk 4 rHL, ok (InstrSetBitN8 4 rA), ok (InstrSetBitN8 5 rB),
      ok (InstrSetBitN8 5 rC), ok (InstrSetBitN8 5 rD), ok (InstrSetBitN8 5 rE),
      ok (InstrSetBitN8 5 rH), ok (InstrSetBitN8 5 rL), InstrSetBitN16 sk 5 rHL,
      ok (InstrSetBitN8 5 rA)]"

definition cb_row_0xF :: "'m socket \<Rightarrow> 'm handler list" where
  "cb_row_0xF sk =
     [ok (InstrSetBitN8 6 rB), ok (InstrSetBitN8 6 rC), ok (InstrSetBitN8 6 rD),
      ok (InstrSetBitN8 6 rE), ok (InstrSetBitN8 6 rH), ok (InstrSetBitN8 6 rL),
      InstrSetBitN16 sk 6 rHL, ok (InstrSetBitN8 6 rA), ok (InstrSetBitN8 7 rB),
      ok (InstrSetBitN8 7 rC), ok (InstrSetBitN8 7 rD), ok (InstrSetBitN8 7 rE),
      ok (InstrSetBitN8 7 rH), ok (InstrSetBitN8 7 rL), InstrSetBitN16 sk 7 rHL,
      ok (InstrSetBitN8 7 rA)]"

definition cb_rows :: "'m socket \<Rightarrow> 'm handler list list" where
  "cb_rows sk =
     [cb_row_0x0 sk, cb_row_0x1 sk, cb_row_0x2 sk, cb_row_0x3 sk, cb_row_0x4 sk,
      cb_row_0x5 sk, cb_row_0x6 sk, cb_row_0x7 sk, cb_row_0x8 sk, cb_row_0x9 sk,
      cb_row_0xA sk, cb_row_0xB sk, cb_row_0xC sk, cb_row_0xD sk, cb_row_0xE sk,
      cb_row_0xF sk]"

definition lookup_handler :: "'m handler list list \<Rightarrow> u8 \<Rightarrow> 'm handler" where
  "lookup_handler rows op = (rows ! (unat op div 16)) ! (unat op mod 16)"

definition prefix_cb :: "'m socket \<Rightarrow> 'm handler" where
  "prefix_cb sk s =
     rbind (FetchNextInstrByte sk s) (\<lambda>(instr_byte, s).
     lookup_handler (cb_rows sk) instr_byte s)"

section \<open>The one-byte opcodes\<close>

definition row_0x0 :: "'m socket \<Rightarrow> 'm handler list" where
  "row_0x0 sk =
     [ok InstrNop, InstrLoadImm16 sk rBC, InstrStore16 sk rBC rA, ok (InstrInc16 rBC),
      ok (InstrInc8 rB), ok (InstrDec8 rB), InstrLoadImm8 sk rB, ok InstrRlca,
      InstrStoreSp sk, ok (InstrAddHl rBC), InstrLoad16 sk rA rBC, ok (InstrDec16 rBC),
      ok (InstrInc8 rC), ok (InstrDec8 rC), InstrLoadImm8 sk rC, ok InstrRrca]"

definition row_0x1 :: "'m socket \<Rightarrow> 'm handler list" where
  "row_0x1 sk =
     [(\<lambda>s. Inl (NotImplemented 0x10)), InstrLoadImm16 sk rDE,
      InstrStore16 sk rDE rA, ok (InstrInc16 rDE), ok (InstrInc8 rD), ok (InstrDec8 rD),
      InstrLoadImm8 sk rD, ok InstrRotLeftA, InstrJump sk, ok (InstrAddHl rDE),
      InstrLoad16 sk rA rDE, ok (InstrDec16 rDE), ok (InstrInc8 rE), ok (InstrDec8 rE),
      InstrLoadImm8 sk rE, ok InstrRra]"

definition row_0x2 :: "'m socket \<Rightarrow> 'm handler list" where
  "row_0x2 sk =
     [(\<lambda>s. InstrJumpIf sk (\<not> GetFlagZ s) s), InstrLoadImm16 sk rHL,
      (\<lambda>s. InstrStoreInc sk rHL (get8 s rA) s), ok (InstrInc16 rHL),
      ok (InstrInc8 rH), ok (InstrDec8 rH), InstrLoadImm8 sk rH, ok InstrDAA,
      (\<lambda>s. InstrJumpIf sk (GetFlagZ s) s), ok (InstrAddHl rHL),
      InstrLoadInc sk rA rHL, ok (InstrDec16 rHL), ok (InstrInc8 rL), ok (InstrDec8 rL),
      InstrLoadImm8 sk rL, ok InstrComplement]"

definition row_0x3 :: "'m socket \<Rightarrow> 'm handler list" where
  "row_0x3 sk =
     [(\<lambda>s. InstrJumpIf sk (\<not> GetFlagC s) s), InstrLoadImm16 sk rSP,
      (\<lambda>s. InstrStoreDec sk rHL (get8 s rA) s), ok (InstrInc16 rSP),
      InstrIncAddr sk rHL, InstrDecAddr sk rHL, InstrStoreImm sk rHL, ok InstrSCF,
      (\<lambda>s. InstrJumpIf sk (GetFlagC s) s), ok (InstrAddHl rSP),
      InstrLoadDec sk rHL rA, ok (InstrDec16 rSP), ok (InstrInc8 rA), ok (InstrDec8 rA),
      InstrLoadImm8 sk rA, ok InstrCCF]"

definition row_0x4 :: "'m socket \<Rightarrow> 'm handler list" where
  "row_0x4 sk =
     [ok (InstrMov rB rB), ok (InstrMov rB rC), ok (InstrMov rB rD), ok (InstrMov rB rE),
      ok (InstrMov rB rH), ok (InstrMov rB rL), InstrLoad16 sk rB rHL, ok (InstrMov rB rA),
      ok (InstrMov rC rB), ok (InstrMov rC rC), ok (InstrMov rC rD), ok (InstrMov rC rE),
      ok (InstrMov rC rH), ok (InstrMov rC rL), InstrLoad16 sk rC rHL, ok (InstrMov rC rA)]"

definition row_0x5 :: "'m socket \<Rightarrow> 'm handler list" where
  "row_0x5 sk =
     [ok (InstrMov rD rB), ok (InstrMov rD rC), ok (InstrMov rD rD), ok (InstrMov rD rE),
      ok (InstrMov rD rH), ok (InstrMov rD rL), InstrLoad16 sk rD rHL, ok (InstrMov rD rA),
      ok (InstrMov rE rB), ok (InstrMov rE rC), ok (InstrMov rE rD), ok (InstrMov rE rE),
      ok (InstrMov rE rH), ok (InstrMov rE rL), InstrLoad16 sk rE rHL, ok (InstrMov rE rA)]"

definition row_0x6 :: "'m socket \<Rightarrow> 'm handler list" where
  "row_0x6 sk =
     [ok (InstrMov rH rB), ok (InstrMov rH rC), ok (InstrMov rH rD), ok (InstrMov rH rE),
      ok (InstrMov rH rH), ok (InstrMov rH rL), InstrLoad16 sk rH rHL, ok (InstrMov rH rA),
      ok (InstrMov rL rB), ok (InstrMov rL rC), ok (InstrMov rL rD), ok (InstrMov rL rE),
      ok (InstrMov rL rH), ok (InstrMov rL rL), InstrLoad16 sk rL rHL, ok (InstrMov rL rA)]"

definition row_0x7 :: "'m socket \<Rightarrow> 'm handler list" where
  "row_0x7 sk =
     [InstrStore16 sk rHL rB, InstrStore16 sk rHL rC, InstrStore16 sk rHL rD,
      InstrStore16 sk rHL rE, InstrStore16 sk rHL rH, InstrStore16 sk rHL rL, InstrHalt sk,
      InstrStore16 sk rHL rA, ok (InstrMov rA rB), ok (InstrMov rA rC),
      ok (InstrMov rA rD), ok (InstrMov rA rE), ok (InstrMov rA rH), ok (InstrMov rA rL),
      InstrLoad16 sk rA rHL, ok (InstrMov rA rA)]"

definition row_0x8 :: "'m socket \<Rightarrow> 'm handler list" where
  "row_0x8 sk =
     [ok (InstrAddA8 rB), ok (InstrAddA8 rC), ok (InstrAddA8 rD), ok (InstrAddA8 rE),
      ok (InstrAddA8 rH), ok (InstrAddA8 rL), InstrAddA16 sk rHL, ok (InstrAddA8 rA),
      ok (InstrAddACarry8 rB), ok (InstrAddACarry8 rC), ok (InstrAddACarry8 rD),
      ok (InstrAddACarry8 rE), ok (InstrAddACarry8 rH), ok (InstrAddACarry8 rL),
      InstrAddACarry16 sk rHL, ok (InstrAddACarry8 rA)]"

definition row_0x9 :: "'m socket \<Rightarrow> 'm handler list" where
  "row_0x9 sk =
     [ok (InstrSub8 rB), ok (InstrSub8 rC), ok (InstrSub8 rD), ok (InstrSub8 rE),
      ok (InstrSub8 rH), ok (InstrSub8 rL), InstrSub16 sk rHL, ok (InstrSub8 rA),
      ok (InstrSubCarry8 rB), ok (InstrSubCarry8 rC), ok (InstrSubCarry8 rD),
      ok (InstrSubCarry8 rE), ok (InstrSubCarry8 rH), ok (InstrSubCarry8 rL),
      InstrSubCarry16 sk rHL, ok (InstrSubCarry8 rA)]"

definition row_0xA :: "'m socket \<Rightarrow> 'm handler list" where
  "row_0xA sk =
     [ok (InstrAnd8 rB), ok (InstrAnd8 rC), ok (InstrAnd8 rD), ok (InstrAnd8 rE),
      ok (InstrAnd8 rH), ok (InstrAnd8 rL), InstrAnd16 sk rHL, ok (InstrAnd8 rA),
      ok (InstrXor8 rB), ok (InstrXor8 rC), ok (InstrXor8 rD), ok (InstrXor8 rE),
      ok (InstrXor8 rH), ok (InstrXor8 rL), InstrXor16 sk rHL, ok (InstrXor8 rA)]"

definition row_0xB :: "'m socket \<Rightarrow> 'm handler list" where
  "row_0xB sk =
     [ok (InstrOr8 rB), ok (InstrOr8 rC), ok (InstrOr8 rD), ok (InstrOr8 rE),
      ok (InstrOr8 rH), ok (InstrOr8 rL), InstrOr16 sk rHL, ok (InstrOr8 rA),
      ok (InstrComp8 rB), ok (InstrComp8 rC), ok (InstrComp8 rD), ok (InstrComp8 rE),
      ok (InstrComp8 rH), ok (InstrComp8 rL), InstrComp16 sk rHL, ok (InstrComp8 rA)]"

definition row_0xC :: "'m socket \<Rightarrow> 'm handler list" where
  "row_0xC sk =
     [(\<lambda>s. InstrRetIf sk (\<not> GetFlagZ s) s), InstrPop sk rBC,
      (\<lambda>s. InstrJumpAddrIf sk (\<not> GetFlagZ s) s), InstrJumpAddr sk,
      (\<lambda>s. InstrCallIf sk (\<not> GetFlagZ s) s), InstrPush sk rBC,
      InstrAddAImm sk, InstrRST sk 0x00, (\<lambda>s. InstrRetIf sk (GetFlagZ s) s),
      InstrRet sk, (\<lambda>s. InstrJumpAddrIf sk (GetFlagZ s) s), prefix_cb sk,
      (\<lambda>s. InstrCallIf sk (GetFlagZ s) s), InstrCall sk, InstrAddACarryImm sk,
      InstrRST sk 0x08]"

definition row_0xD :: "'m socket \<Rightarrow> 'm handler list" where
  "row_0xD sk =
     [(\<lambda>s. InstrRetIf sk (\<not> GetFlagC s) s), InstrPop sk rDE,
      (\<lambda>s. InstrJumpAddrIf sk (\<not> GetFlagC s) s), ok InstrEmu,
      (\<lambda>s. InstrCallIf sk (\<not> GetFlagC s) s), InstrPush sk rDE, InstrSubImm sk,
      InstrRST sk 0x10, (\<lambda>s. InstrRetIf sk (GetFlagC s) s), InstrRetI sk,
      (\<lambda>s. InstrJumpAddrIf sk (GetFlagC s) s), unknown_instruction 0xDB,
      (\<lambda>s. InstrCallIf sk (GetFlagC s) s), unknown_instruction 0xDD,
      InstrSubCarryImm sk, InstrRST sk 0x18]"

definition row_0xE :: "'m socket \<Rightarrow> 'm handler list" where
  "row_0xE sk =
     [InstrStoreH sk rA, InstrPop sk rHL, (\<lambda>s. InstrStore_u8 sk (get8 s rC) rA s),
      unknown_instruction 0xE3, unknown_instruction 0xE4, InstrPush sk rHL, InstrAndImm sk,
      InstrRST sk 0x20, InstrAddSp sk, ok (InstrJump16 rHL), InstrStore8 sk rA,
      unknown_instruction 0xEB, unknown_instruction 0xEC, unknown_instruction 0xED,
      InstrXorImm sk, InstrRST sk 0x28]"

definition row_0xF :: "'m socket \<Rightarrow> 'm handler list" where
  "row_0xF sk =
     [InstrLoadH sk rA, InstrPop sk rAF, InstrLoadC sk, ok InstrDI,
      unknown_instruction 0xF4, InstrPush sk rAF, InstrOrImm sk, InstrRST sk 0x30,
      InstrLoadHlSpRel sk, ok InstrLoadSpHl,
      (\<lambda>s. rbind (FetchNext2InstrBytes sk s) (\<lambda>(addr, s). InstrLoad_addr sk rA addr s)),
      ok InstrEI, unknown_instruction 0xFC, unknown_instruction 0xFD, InstrCompImm sk,
      InstrRST sk 0x38]"

definition main_rows :: "'m socket \<Rightarrow> 'm handler list list" where
  "main_rows sk =
     [row_0x0 sk, row_0x1 sk, row_0x2 sk, row_0x3 sk, row_0x4 sk, row_0x5 sk,
      row_0x6 sk, row_0x7 sk, row_0x8 sk, row_0x9 sk, row_0xA sk, row_0xB sk,
      row_0xC sk, row_0xD sk, row_0xE sk, row_0xF sk]"

definition execute :: "'m socket \<Rightarrow> u8 \<Rightarrow> 'm handler" where
  "execute sk op = lookup_handler (main_rows sk) op"

section \<open>The loop body\<close>

text \<open>
  Time keeping: the instruction's time is added to the local offset, and the thread synchronises with
  the kernel when another thread is due, when nothing else is scheduled, or in single-step mode.
\<close>

definition sync_time :: "'m socket \<Rightarrow> 'm cpu \<Rightarrow> 'm cpu" where
  "sync_time sk s =
     (let s = s\<lparr>local_time_delta := local_time_delta s + wait_ns s\<rparr>;
          due = (case sk_pending sk (sys s) of None \<Rightarrow> True
                 | Some time_limit \<Rightarrow> time_limit \<le> local_time_delta s) in
      if due \<or> single_step s
      then s\<lparr>sys := sk_wait sk (local_time_delta s) (sys s), local_time_delta := 0\<rparr>
      else s)"

definition machine_cycle :: "'m socket \<Rightarrow> 'm cpu \<Rightarrow> 'm cpu res" where
  "machine_cycle sk s =
     (let s = s\<lparr>wait_ns := 0\<rparr> in
      rbind (HandleInterrupts sk s) (\<lambda>s.
      rbind (FetchNextInstrByte sk s) (\<lambda>(instr_byte, s).
      rbind (execute sk instr_byte s) (\<lambda>s.
      Inr (sync_time sk s)))))"

fun run_cycles :: "nat \<Rightarrow> 'm socket \<Rightarrow> 'm cpu \<Rightarrow> 'm cpu res" where
  "run_cycles 0 sk s = Inr s"
| "run_cycles (Suc n) sk s = rbind (machine_cycle sk s) (run_cycles n sk)"

end
