(* ===== verification/Cpu_Invariant.thy ===== *)
theory Cpu_Invariant
  imports Cpu_Jumptable
begin

text \<open>
  What every instruction leaves alone, proved handler by handler and then for the two tables, one
  machine cycle and any number of them. An effect is a relation between the states before and after
  a handler that returns.
\<close>

section \<open>Effects\<close>

definition effect :: "('m cpu \<Rightarrow> 'm cpu \<Rightarrow> bool) \<Rightarrow> 'm handler \<Rightarrow> bool" where
  "effect R h \<longleftrightarrow> (\<forall>s. returns_with (R s) (h s))"

lemma effectD: "effect R h \<Longrightarrow> h s = Inr t \<Longrightarrow> R s t"
  unfolding effect_def by (metis returns_with_simps(2))

lemma effect_cond: "(\<And>b. effect R (h b)) \<Longrightarrow> effect R (\<lambda>s. h (c s) s)"
  by (simp add: effect_def)

named_theorems effects \<open>the effects of the handlers\<close>

text \<open>Going through a handler: the bus accesses keep the core, the rest is evaluated.\<close>

lemma returns_ReadBus:
  "(\<And>v t. same_core s t \<Longrightarrow> returns_with P (f (v, t))) \<Longrightarrow>
   returns_with P (rbind (ReadBus sk a c s) f)"
  by (cases "ReadBus sk a c s") (auto dest: ReadBus_same_core)

lemma returns_WriteBus:
  "(\<And>t. same_core s t \<Longrightarrow> returns_with P (f t)) \<Longrightarrow>
   returns_with P (rbind (WriteBus sk a d s) f)"
  by (cases "WriteBus sk a d s") (auto dest: WriteBus_same_core)

lemma returns_Fetch:
  "(\<And>v t pc. same_core s t \<Longrightarrow> returns_with P (f (v, put16 rPC pc t))) \<Longrightarrow>
   returns_with P (rbind (FetchNextInstrByte sk s) f)"
  by (cases "FetchNextInstrByte sk s")
    (auto simp: FetchNextInstrByte_Inr, metis ReadBus_same_core)

lemma same_core_put16: "same_core s t \<Longrightarrow> same_core (put16 q v s) (put16 q v t)"
  by (simp add: same_core_def put16_def)

lemma put16_pc_cancel: "put16 rPC v t = put16 rPC v (put16 rPC w t)"
  by simp

lemma returns_Fetch2:
  assumes "\<And>v t pc. same_core s t \<Longrightarrow> returns_with P (f (v, put16 rPC pc t))"
  shows "returns_with P (rbind (FetchNext2InstrBytes sk s) f)"
proof (rule returns_withI)
  fix u
  assume "rbind (FetchNext2InstrBytes sk s) f = Inr u"
  then obtain l t h t' pc where
    1: "ReadBus sk (get16 s rPC) kGbReadInst (s\<lparr>gbcmd := kGbReadInst\<rparr>) = Inr (l, t)" and
    2: "ReadBus sk pc kGbReadInst (put16 rPC (get16 t rPC + 1) t) = Inr (h, t')" and
    3: "f (make16 h l, put16 rPC (get16 t' rPC + 1) t') = Inr u"
    by (auto simp: FetchNext2InstrBytes_def Let_def rbind_Inr_iff)
  define t'' where "t'' = put16 rPC (get16 s rPC) t'"
  have "same_core s t"
    using ReadBus_same_core [OF 1] by (simp add: same_core_def)
  moreover have "same_core (put16 rPC (get16 t rPC + 1) t) t'"
    using ReadBus_same_core [OF 2] .
  ultimately have "same_core s t''"
    by (simp add: t''_def same_core_def put16_def get16_def set16_set16_same set16_val16)
  moreover have "put16 rPC (get16 t' rPC + 1) t' = put16 rPC (get16 t' rPC + 1) t''"
    by (simp add: t''_def)
  ultimately show "P u"
    using assms [of t''] 3 by (metis returns_with_simps(2))
qed

section \<open>The frame\<close>

text \<open>
  The low nibble of F, which real hardware ties to 0, the flags of the debugger and the local time:
  no instruction changes them.
\<close>

definition f_low :: "'m cpu \<Rightarrow> u8" where
  "f_low s = get8 s rF AND 0x0F"

definition frame :: "'m cpu \<Rightarrow> 'm cpu \<Rightarrow> bool" where
  "frame s t \<longleftrightarrow> f_low t = f_low s \<and> halted t = halted s \<and> single_step t = single_step s \<and>
     local_time_delta t = local_time_delta s"

lemma SetBit_low: "4 \<le> i \<Longrightarrow> i < 8 \<Longrightarrow> SetBit w v i AND 0x0F = w AND 0x0F"
proof -
  assume "4 \<le> i" "i < 8"
  then have "i \<in> {4, 5, 6, 7}" by auto
  then show ?thesis by (auto simp: u8_eq_iff_bits bit_simps bit_SetBit)
qed

lemma f_low_simps:
  "r \<noteq> rF \<Longrightarrow> f_low (put8 r v s) = f_low s"
  "q \<noteq> rAF \<Longrightarrow> f_low (put16 q w s) = f_low s"
  "f_low (SetFlagC b s) = f_low s" "f_low (SetFlagH b s) = f_low s"
  "f_low (SetFlagN b s) = f_low s" "f_low (SetFlagZ b s) = f_low s"
  "f_low (set_wait n s) = f_low s"
  by (simp_all add: f_low_def get8_put8 get8_put16 set_flag_defs flag_index_defs SetBit_low)

lemma f_low_merge: "f_low (put8 rF ((w AND 0xF0) OR (get8 s rF AND 0x0F)) t) = f_low s"
  by (simp add: f_low_def get8_put8 u8_eq_iff_bits bit_simps)

lemma frame_refl [simp]: "frame s s"
  by (simp add: frame_def)

lemma frame_trans: "frame s t \<Longrightarrow> frame t u \<Longrightarrow> frame s u"
  by (simp add: frame_def)

lemma frame_simps [simp]:
  "r \<noteq> rF \<Longrightarrow> frame s (put8 r v t) = frame s t"
  "q \<noteq> rAF \<Longrightarrow> frame s (put16 q w t) = frame s t"
  "frame s (SetFlagC b t) = frame s t" "frame s (SetFlagH b t) = frame s t"
  "frame s (SetFlagN b t) = frame s t" "frame s (SetFlagZ b t) = frame s t"
  "frame s (set_wait n t) = frame s t"
  "frame s (t\<lparr>intr_master_enable := b\<rparr>) = frame s t" "frame s (t\<lparr>sys := m\<rparr>) = frame s t"
  "frame s (t\<lparr>cpu_state := cs\<rparr>) = frame s t" "frame s (t\<lparr>sim_stopped := b\<rparr>) = frame s t"
  "frame s (t\<lparr>wait_ns := n\<rparr>) = frame s t"
  by (simp_all add: frame_def f_low_simps) (simp_all add: set_flag_defs f_low_def)

lemma frame_same_core: "same_core s t \<Longrightarrow> frame u s \<Longrightarrow> frame u t"
  by (simp add: same_core_def frame_def f_low_def get8_def)

lemmas instr_op_defs [instr_defs] =
  InstrNop_def InstrLoad_addr_def InstrLoad16_def InstrLoadImm16_def InstrLoadImm8_def
  InstrLoadInc_def InstrLoadDec_def InstrStoreInc_def InstrStoreDec_def InstrStore16_def
  InstrStore_u8_def InstrStore8_def InstrStoreImm_def InstrStoreH_def InstrLoadH_def
  InstrLoadHlSpRel_def InstrLoadSpHl_def InstrInc8_def InstrInc16_def InstrIncAddr_def
  InstrDecAddr_def InstrRlca_def InstrRrca_def InstrRra_def InstrRlc8_def InstrRlc16_def
  InstrRrc8_def InstrRrc16_def InstrStoreSp_def InstrAddHl_def InstrAddSp_def InstrAddA8_def
  InstrAddA16_def InstrAddAImm_def InstrAddACarry8_def InstrAddACarry16_def InstrAddACarryImm_def
  InstrSubImm_def InstrSub8_def InstrSub16_def InstrSubCarry8_def InstrSubCarry16_def
  InstrSubCarryImm_def InstrComp8_def InstrComp16_def InstrCompImm_def InstrDec16_def
  InstrDec8_def InstrXor8_def InstrXor16_def InstrXorImm_def InstrAnd8_def InstrAnd16_def
  InstrAndImm_def InstrOr8_def InstrOr16_def InstrOrImm_def InstrJump_def InstrJump16_def
  InstrJumpAddr_def InstrJumpIf_def InstrJumpAddrIf_def InstrBitN8_def InstrBitN16_def
  InstrSetBitN8_def InstrSetBitN16_def InstrCall_def InstrCallIf_def InstrRet_def InstrRetI_def
  InstrPush_def InstrPop_def InstrMov_def InstrRotLeft8_def InstrRotLeft16_def InstrRotRight8_def
  InstrRotRight16_def InstrRotLeftA_def InstrShiftRight8_def InstrShiftRight16_def InstrDI_def
  InstrEI_def InstrRetIf_def InstrSwap8_def InstrSwap16_def InstrRST_def InstrResetBit8_def
  InstrResetBit16_def InstrComplement_def InstrSLA8_def InstrSLA16_def InstrEmu_def InstrDAA_def
  InstrSCF_def InstrCCF_def InstrSRA8_def InstrSRA16_def InstrLoadC_def logic_flags_def

lemmas effect_rules = returns_ReadBus returns_WriteBus returns_Fetch returns_Fetch2

lemma frame_loads [effects]:
  "effect frame (ok InstrNop)"
  "r \<noteq> rF \<Longrightarrow> effect frame (InstrLoad_addr sk r a)"
  "r \<noteq> rF \<Longrightarrow> effect frame (InstrLoad16 sk r q)"
  "q \<noteq> rAF \<Longrightarrow> effect frame (InstrLoadImm16 sk q)"
  "r \<noteq> rF \<Longrightarrow> effect frame (InstrLoadImm8 sk r)"
  "r \<noteq> rF \<Longrightarrow> q \<noteq> rAF \<Longrightarrow> effect frame (InstrLoadInc sk r q)"
  "r \<noteq> rF \<Longrightarrow> q \<noteq> rAF \<Longrightarrow> effect frame (InstrLoadDec sk q r)"
  "q \<noteq> rAF \<Longrightarrow> effect frame (InstrStoreInc sk q v)"
  "q \<noteq> rAF \<Longrightarrow> effect frame (InstrStoreDec sk q v)"
  "effect frame (InstrStore16 sk q r)"
  "effect frame (InstrStore_u8 sk v r)"
  "effect frame (InstrStore8 sk r)"
  "effect frame (InstrStoreImm sk q)"
  "effect frame (InstrStoreH sk r)"
  "r \<noteq> rF \<Longrightarrow> effect frame (InstrLoadH sk r)"
  "effect frame (InstrLoadHlSpRel sk)"
  "effect frame (ok InstrLoadSpHl)"
  by (auto simp: effect_def ok_def instr_defs Let_def intro!: effect_rules elim!: frame_same_core)

lemma frame_add [effects]:
  "r \<noteq> rF \<Longrightarrow> effect frame (ok (InstrInc8 r))"
  "q \<noteq> rAF \<Longrightarrow> effect frame (ok (InstrInc16 q))"
  "effect frame (InstrIncAddr sk q)"
  "effect frame (InstrDecAddr sk q)"
  "effect frame (ok InstrRlca)"
  "effect frame (ok InstrRrca)"
  "effect frame (ok InstrRra)"
  "r \<noteq> rF \<Longrightarrow> effect frame (ok (InstrRlc8 r))"
  "effect frame (InstrRlc16 sk q)"
  "r \<noteq> rF \<Longrightarrow> effect frame (ok (InstrRrc8 r))"
  "effect frame (InstrRrc16 sk q)"
  "effect frame (InstrStoreSp sk)"
  "effect frame (ok (InstrAddHl q))"
  "effect frame (InstrAddSp sk)"
  "effect frame (ok (InstrAddA8 r))"
  "effect frame (InstrAddA16 sk q)"
  "effect frame (InstrAddAImm sk)"
  "effect frame (ok (InstrAddACarry8 r))"
  "effect frame (InstrAddACarry16 sk q)"
  "effect frame (InstrAddACarryImm sk)"
  "effect frame (InstrSubImm sk)"
  "effect frame (ok (InstrSub8 r))"
  "effect frame (InstrSub16 sk q)"
  by (auto simp: effect_def ok_def instr_defs Let_def intro!: effect_rules elim!: frame_same_core)

lemma frame_sub [effects]:
  "effect frame (ok (InstrSubCarry8 r))"
  "effect frame (InstrSubCarry16 sk q)"
  "effect frame (InstrSubCarryImm sk)"
  "effect frame (ok (InstrComp8 r))"
  "effect frame (InstrComp16 sk q)"
  "effect frame (InstrCompImm sk)"
  "q \<noteq> rAF \<Longrightarrow> effect frame (ok (InstrDec16 q))"
  "r \<noteq> rF \<Longrightarrow> effect frame (ok (InstrDec8 r))"
  "effect frame (ok (InstrXor8 r))"
  "effect frame (InstrXor16 sk q)"
  "effect frame (InstrXorImm sk)"
  "effect frame (ok (InstrAnd8 r))"
  "effect frame (InstrAnd16 sk q)"
  "effect frame (InstrAndImm sk)"
  "effect frame (ok (InstrOr8 r))"
  "effect frame (InstrOr16 sk q)"
  "effect frame (InstrOrImm sk)"
  by (auto simp: effect_def ok_def instr_defs Let_def intro!: effect_rules elim!: frame_same_core)

lemma frame_jumps [effects]:
  "effect frame (InstrJump sk)"
  "effect frame (ok (InstrJump16 q))"
  "effect frame (InstrJumpAddr sk)"
  "effect frame (InstrJumpIf sk b)"
  "effect frame (InstrJumpAddrIf sk b)"
  "effect frame (ok (InstrBitN8 i r))"
  "effect frame (InstrBitN16 sk i q)"
  "r \<noteq> rF \<Longrightarrow> effect frame (ok (InstrSetBitN8 i r))"
  "effect frame (InstrSetBitN16 sk i q)"
  "effect frame (InstrCall sk)"
  "effect frame (InstrCallIf sk b)"
  "effect frame (InstrRet sk)"
  "effect frame (InstrRetI sk)"
  "effect frame (InstrPush sk q)"
  "r \<noteq> rF \<Longrightarrow> effect frame (ok (InstrMov r r'))"
  "r \<noteq> rF \<Longrightarrow> effect frame (ok (InstrRotLeft8 r))"
  "effect frame (InstrRotLeft16 sk q)"
  by (auto simp: effect_def ok_def instr_defs Let_def intro!: effect_rules elim!: frame_same_core)

lemma frame_shifts [effects]:
  "r \<noteq> rF \<Longrightarrow> effect frame (ok (InstrRotRight8 r))"
  "effect frame (InstrRotRight16 sk q)"
  "effect frame (ok InstrRotLeftA)"
  "r \<noteq> rF \<Longrightarrow> effect frame (ok (InstrShiftRight8 r))"
  "effect frame (InstrShiftRight16 sk q)"
  "effect frame (ok InstrDI)"
  "effect frame (ok InstrEI)"
  "effect frame (InstrRetIf sk b)"
  "r \<noteq> rF \<Longrightarrow> effect frame (ok (InstrSwap8 r))"
  "effect frame (InstrSwap16 sk q)"
  "effect frame (InstrRST sk v)"
  "r \<noteq> rF \<Longrightarrow> effect frame (ok (InstrResetBit8 i r))"
  "effect frame (InstrResetBit16 sk i q)"
  "effect frame (ok InstrComplement)"
  "r \<noteq> rF \<Longrightarrow> effect frame (ok (InstrSLA8 r))"
  "effect frame (InstrSLA16 sk q)"
  "effect frame (ok InstrEmu)"
  "effect frame (ok InstrDAA)"
  "effect frame (ok InstrSCF)"
  "effect frame (ok InstrCCF)"
  "r \<noteq> rF \<Longrightarrow> effect frame (ok (InstrSRA8 r))"
  "effect frame (InstrSRA16 sk q)"
  "effect frame (InstrLoadC sk)"
  by (auto simp: effect_def ok_def instr_defs Let_def intro!: effect_rules elim!: frame_same_core)

lemma frame_merge:
  "frame s (put8 rF ((w AND 0xF0) OR (get8 s rF AND 0x0F)) t) \<longleftrightarrow>
     halted t = halted s \<and> single_step t = single_step s \<and>
     local_time_delta t = local_time_delta s"
  by (simp add: frame_def f_low_merge)

lemma frame_InstrPop [effects]: "effect frame (InstrPop sk q)"
  by (auto simp: effect_def InstrPop_def Let_def frame_merge same_core_def intro!: effect_rules)

lemma effect_then: "effect frame h \<Longrightarrow> frame u s \<Longrightarrow> returns_with (frame u) (h s)"
  unfolding effect_def by (metis frame_trans returns_with_mono)

lemma frame_halt_loop: "effect frame (halt_loop n sk)"
proof (induction n)
  case (Suc n)
  show ?case unfolding effect_def
    by (simp add: Let_def effect_then [OF Suc])
qed (simp add: effect_def)

lemma frame_rest [effects]:
  "effect frame (InstrHalt sk)" "effect frame (unknown_instruction op)"
  "effect frame (\<lambda>s. Inl e)"
  by (simp_all add: effect_def InstrHalt_def unknown_instruction_def
      frame_halt_loop [unfolded effect_def])

section \<open>The tables\<close>

lemmas cb_row_defs =
  cb_row_0x0_def cb_row_0x1_def cb_row_0x2_def cb_row_0x3_def cb_row_0x4_def cb_row_0x5_def
  cb_row_0x6_def cb_row_0x7_def cb_row_0x8_def cb_row_0x9_def cb_row_0xA_def cb_row_0xB_def
  cb_row_0xC_def cb_row_0xD_def cb_row_0xE_def cb_row_0xF_def

lemmas row_defs =
  row_0x0_def row_0x1_def row_0x2_def row_0x3_def row_0x4_def row_0x5_def row_0x6_def row_0x7_def
  row_0x8_def row_0x9_def row_0xA_def row_0xB_def row_0xC_def row_0xD_def row_0xE_def row_0xF_def

lemma unat_u8_div_16: "unat (op :: u8) div 16 < 16"
  using unat_u8_less [of op] by (simp add: less_mult_imp_div_less)

lemma cb_rows_size: "length (cb_rows sk) = 16" "list_all (\<lambda>r. length r = 16) (cb_rows sk)"
  by (simp_all add: cb_rows_def cb_row_defs)

lemma main_rows_size: "length (main_rows sk) = 16" "list_all (\<lambda>r. length r = 16) (main_rows sk)"
  by (simp_all add: main_rows_def row_defs)

text \<open>Every opcode has an entry: what holds of all entries holds of the one that is looked up.\<close>

lemma lookup_handler_all:
  assumes "list_all (list_all P) rows" and "length rows = 16"
    and "list_all (\<lambda>r. length r = 16) rows"
  shows "P (lookup_handler rows op)"
  using assms unat_u8_div_16 [of op] by (simp add: lookup_handler_def list_all_length)

lemma frame_cb_rows: "list_all (list_all (effect frame)) (cb_rows sk)"
  by (simp add: cb_rows_def cb_row_defs effects)

lemma frame_prefix_cb [effects]: "effect frame (prefix_cb sk)"
proof -
  have "effect frame (lookup_handler (cb_rows sk) op)" for op
    using frame_cb_rows cb_rows_size by (rule lookup_handler_all)
  then show ?thesis
    by (auto simp: effect_def [of _ "prefix_cb sk"] prefix_cb_def
        intro!: effect_rules effect_then elim!: frame_same_core)
qed

lemma frame_load_imm_addr [effects]:
  "effect frame (\<lambda>s. rbind (FetchNext2InstrBytes sk s)
     (\<lambda>(addr, s). InstrLoad_addr sk rA addr s))"
  by (auto simp: effect_def InstrLoad_addr_def Let_def intro!: effect_rules elim!: frame_same_core)

lemma frame_conditional [effects]:
  "effect frame (\<lambda>s. InstrJumpIf sk (c s) s)" "effect frame (\<lambda>s. InstrJumpAddrIf sk (c s) s)"
  "effect frame (\<lambda>s. InstrCallIf sk (c s) s)" "effect frame (\<lambda>s. InstrRetIf sk (c s) s)"
  "q \<noteq> rAF \<Longrightarrow> effect frame (\<lambda>s. InstrStoreInc sk q (w s) s)"
  "q \<noteq> rAF \<Longrightarrow> effect frame (\<lambda>s. InstrStoreDec sk q (w s) s)"
  "effect frame (\<lambda>s. InstrStore_u8 sk (w s) r s)"
  using effect_cond [where h = "InstrJumpIf sk" and c = c and R = frame]
    effect_cond [where h = "InstrJumpAddrIf sk" and c = c and R = frame]
    effect_cond [where h = "InstrCallIf sk" and c = c and R = frame]
    effect_cond [where h = "InstrRetIf sk" and c = c and R = frame]
    effect_cond [where h = "InstrStoreInc sk q" and c = w and R = frame]
    effect_cond [where h = "InstrStoreDec sk q" and c = w and R = frame]
    effect_cond [where h = "\<lambda>v. InstrStore_u8 sk v r" and c = w and R = frame]
  by (simp_all add: effects)

lemma frame_main_rows: "list_all (list_all (effect frame)) (main_rows sk)"
  by (simp add: main_rows_def row_defs effects)

lemma frame_execute: "effect frame (execute sk op)"
  unfolding execute_def [abs_def] using frame_main_rows main_rows_size by (rule lookup_handler_all)

section \<open>Machine cycles\<close>

lemma frame_HandleInterrupts: "effect frame (HandleInterrupts sk)"
proof -
  have ack: "frame s (acknowledge sk m t) = frame s t" for s t m
    by (simp add: acknowledge_def)
  have "returns_with (frame s) (HandleInterrupts sk s)" for s
  proof -
    let ?s = "s\<lparr>intr_master_enable := False\<rparr>"
    have push: "frame s t" if "InstrPush sk rPC ?s = Inr t" for t
      using effectD [of frame "InstrPush sk rPC", OF _ that]
      by (simp add: effects frame_def f_low_def)
    show ?thesis
      by (cases "InstrPush sk rPC ?s") (simp_all add: HandleInterrupts_def Let_def ack push)
  qed
  then show ?thesis by (simp add: effect_def)
qed

text \<open>Over a cycle the local time changes, the rest of the frame does not.\<close>

definition cycle_frame :: "'m cpu \<Rightarrow> 'm cpu \<Rightarrow> bool" where
  "cycle_frame s t \<longleftrightarrow> f_low t = f_low s \<and> halted t = halted s \<and> single_step t = single_step s"

lemma cycle_frame_sync: "cycle_frame s t \<Longrightarrow> cycle_frame s (sync_time sk t)"
  by (simp add: cycle_frame_def sync_time_def Let_def f_low_def)

lemma cycle_frame_trans: "cycle_frame s t \<Longrightarrow> cycle_frame t u \<Longrightarrow> cycle_frame s u"
  by (simp add: cycle_frame_def)

lemma machine_cycle_cycle_frame: "effect cycle_frame (machine_cycle sk)"
proof -
  have "cycle_frame s w" if cycle: "machine_cycle sk s = Inr w" for s w
  proof -
    obtain t op u v where
      t: "HandleInterrupts sk (s\<lparr>wait_ns := 0\<rparr>) = Inr t" and
      u: "FetchNextInstrByte sk t = Inr (op, u)" and v: "execute sk op u = Inr v" and
      w: "w = sync_time sk v"
      using cycle by (auto simp: machine_cycle_def Let_def rbind_Inr_iff)
    have "frame (s\<lparr>wait_ns := 0\<rparr>) t"
      using frame_HandleInterrupts t by (rule effectD)
    moreover have "frame t u"
    proof -
      obtain t' where t': "ReadBus sk (get16 t rPC) kGbReadInst t = Inr (op, t')"
        and u: "u = put16 rPC (get16 t rPC + 1) t'"
        using u by (auto simp: FetchNextInstrByte_Inr)
      show ?thesis
        using frame_same_core [OF ReadBus_same_core [OF t'] frame_refl] by (simp add: u)
    qed
    moreover have "frame u v"
      using frame_execute v by (rule effectD)
    ultimately have "cycle_frame s v"
      by (simp add: frame_def cycle_frame_def f_low_def)
    then show ?thesis unfolding w by (rule cycle_frame_sync)
  qed
  then show ?thesis by (simp add: effect_def returns_withI)
qed

lemma run_cycles_cycle_frame:
  fixes sk :: "'m socket"
  shows "effect cycle_frame (run_cycles n sk)"
proof (induction n)
  case (Suc n)
  have "returns_with (cycle_frame s) (run_cycles (Suc n) sk s)" for s :: "'m cpu"
  proof (rule returns_withI)
    fix u assume "run_cycles (Suc n) sk s = Inr u"
    then obtain t where "machine_cycle sk s = Inr t" "run_cycles n sk t = Inr u"
      by (auto simp: rbind_Inr_iff)
    with Suc show "cycle_frame s u"
      by (blast intro: cycle_frame_trans effectD [OF machine_cycle_cycle_frame] effectD)
  qed
  then show ?case by (simp add: effect_def)
qed (simp add: effect_def cycle_frame_def)

end
