(* ===== verification/Cpu_Decode.thy ===== *)
theory Cpu_Decode
  imports Cpu_Invariant
begin

text \<open>
  The two opcode switches against the algorithmic decoding of the SM83: an opcode is split into the
  fields \<open>x\<close> (bits 7-6), \<open>y\<close> (bits 5-3) and \<open>z\<close> (bits 2-0), \<open>y\<close> further into \<open>p\<close> and
  \<open>q\<close>, and each combination of fields names an operation with its operands. The switches list the
  512 cases one by one; the theorems say that no case is off.
\<close>

section \<open>Fields\<close>

text \<open>Operand 6 is the byte at the address in HL.\<close>

definition reg_code :: "nat \<Rightarrow> reg8 option" where
  "reg_code i = [Some rB, Some rC, Some rD, Some rE, Some rH, Some rL, None, Some rA] ! i"

definition rp_code :: "nat \<Rightarrow> reg16" where
  "rp_code p = [rBC, rDE, rHL, rSP] ! p"

definition rp2_code :: "nat \<Rightarrow> reg16" where
  "rp2_code p = [rBC, rDE, rHL, rAF] ! p"

definition cc_code :: "nat \<Rightarrow> 'm cpu \<Rightarrow> bool" where
  "cc_code i = [\<lambda>s. \<not> GetFlagZ s, GetFlagZ, \<lambda>s. \<not> GetFlagC s, GetFlagC] ! i"

definition operand :: "(reg8 \<Rightarrow> 'm handler) \<Rightarrow> 'm handler \<Rightarrow> nat \<Rightarrow> 'm handler" where
  "operand on_reg on_mem i = (case reg_code i of Some r \<Rightarrow> on_reg r | None \<Rightarrow> on_mem)"

section \<open>Prefix 0xCB\<close>

definition rot_reg :: "nat \<Rightarrow> reg8 \<Rightarrow> 'm cpu \<Rightarrow> 'm cpu" where
  "rot_reg y = [InstrRlc8, InstrRrc8, InstrRotLeft8, InstrRotRight8, InstrSLA8, InstrSRA8,
     InstrSwap8, InstrShiftRight8] ! y"

definition rot_mem :: "nat \<Rightarrow> 'm socket \<Rightarrow> reg16 \<Rightarrow> 'm handler" where
  "rot_mem y = [InstrRlc16, InstrRrc16, InstrRotLeft16, InstrRotRight16, InstrSLA16, InstrSRA16,
     InstrSwap16, InstrShiftRight16] ! y"

definition cb_decode :: "'m socket \<Rightarrow> nat \<Rightarrow> 'm handler" where
  "cb_decode sk op =
     (let x = op div 64; y = op div 8 mod 8; z = op mod 8 in
      if x = 0 then operand (\<lambda>r. ok (rot_reg y r)) (rot_mem y sk rHL) z
      else if x = 1 then operand (\<lambda>r. ok (InstrBitN8 y r)) (InstrBitN16 sk y rHL) z
      else if x = 2 then operand (\<lambda>r. ok (InstrResetBit8 y r)) (InstrResetBit16 sk y rHL) z
      else operand (\<lambda>r. ok (InstrSetBitN8 y r)) (InstrSetBitN16 sk y rHL) z)"

section \<open>One-byte opcodes\<close>

definition alu_reg :: "nat \<Rightarrow> reg8 \<Rightarrow> 'm cpu \<Rightarrow> 'm cpu" where
  "alu_reg y = [InstrAddA8, InstrAddACarry8, InstrSub8, InstrSubCarry8, InstrAnd8, InstrXor8,
     InstrOr8, InstrComp8] ! y"

definition alu_mem :: "nat \<Rightarrow> 'm socket \<Rightarrow> reg16 \<Rightarrow> 'm handler" where
  "alu_mem y = [InstrAddA16, InstrAddACarry16, InstrSub16, InstrSubCarry16, InstrAnd16, InstrXor16,
     InstrOr16, InstrComp16] ! y"

definition alu_imm :: "nat \<Rightarrow> 'm socket \<Rightarrow> 'm handler" where
  "alu_imm y = [InstrAddAImm, InstrAddACarryImm, InstrSubImm, InstrSubCarryImm, InstrAndImm,
     InstrXorImm, InstrOrImm, InstrCompImm] ! y"

definition decode_x0 :: "'m socket \<Rightarrow> nat \<Rightarrow> nat \<Rightarrow> 'm handler" where
  "decode_x0 sk y z =
     (let p = y div 2; q = y mod 2 in
      if z = 0 then
        (if y = 0 then ok InstrNop
         else if y = 1 then InstrStoreSp sk
         else if y = 2 then (\<lambda>s. Inl (NotImplemented 0x10))
         else if y = 3 then InstrJump sk
         else (\<lambda>s. InstrJumpIf sk (cc_code (y - 4) s) s))
      else if z = 1 then
        (if q = 0 then InstrLoadImm16 sk (rp_code p) else ok (InstrAddHl (rp_code p)))
      else if z = 2 then
        (if q = 0 then
           [InstrStore16 sk rBC rA, InstrStore16 sk rDE rA,
            (\<lambda>s. InstrStoreInc sk rHL (get8 s rA) s), (\<lambda>s. InstrStoreDec sk rHL (get8 s rA) s)] ! p
         else
           [InstrLoad16 sk rA rBC, InstrLoad16 sk rA rDE, InstrLoadInc sk rA rHL,
            InstrLoadDec sk rHL rA] ! p)
      else if z = 3 then
        (if q = 0 then ok (InstrInc16 (rp_code p)) else ok (InstrDec16 (rp_code p)))
      else if z = 4 then operand (\<lambda>r. ok (InstrInc8 r)) (InstrIncAddr sk rHL) y
      else if z = 5 then operand (\<lambda>r. ok (InstrDec8 r)) (InstrDecAddr sk rHL) y
      else if z = 6 then operand (InstrLoadImm8 sk) (InstrStoreImm sk rHL) y
      else ok ([InstrRlca, InstrRrca, InstrRotLeftA, InstrRra, InstrDAA, InstrComplement, InstrSCF,
                InstrCCF] ! y))"

definition decode_x1 :: "'m socket \<Rightarrow> nat \<Rightarrow> nat \<Rightarrow> 'm handler" where
  "decode_x1 sk y z =
     operand (\<lambda>r. operand (\<lambda>r'. ok (InstrMov r r')) (InstrLoad16 sk r rHL) z)
       (operand (InstrStore16 sk rHL) (InstrHalt sk) z) y"

definition decode_x2 :: "'m socket \<Rightarrow> nat \<Rightarrow> nat \<Rightarrow> 'm handler" where
  "decode_x2 sk y z = operand (\<lambda>r. ok (alu_reg y r)) (alu_mem y sk rHL) z"

definition decode_x3 :: "'m socket \<Rightarrow> nat \<Rightarrow> nat \<Rightarrow> 'm handler" where
  "decode_x3 sk y z =
     (let p = y div 2; q = y mod 2; undefined_op = unknown_instruction (of_nat (192 + 8 * y + z)) in
      if z = 0 then
        (if y < 4 then (\<lambda>s. InstrRetIf sk (cc_code y s) s)
         else [InstrStoreH sk rA, InstrAddSp sk, InstrLoadH sk rA, InstrLoadHlSpRel sk] ! (y - 4))
      else if z = 1 then
        (if q = 0 then InstrPop sk (rp2_code p)
         else [InstrRet sk, InstrRetI sk, ok (InstrJump16 rHL), ok InstrLoadSpHl] ! p)
      else if z = 2 then
        (if y < 4 then (\<lambda>s. InstrJumpAddrIf sk (cc_code y s) s)
         else [(\<lambda>s. InstrStore_u8 sk (get8 s rC) rA s), InstrStore8 sk rA, InstrLoadC sk,
               (\<lambda>s. rbind (FetchNext2InstrBytes sk s)
                  (\<lambda>(addr, s). InstrLoad_addr sk rA addr s))] ! (y - 4))
      else if z = 3 then
        [InstrJumpAddr sk, prefix_cb sk, ok InstrEmu, undefined_op, undefined_op, undefined_op,
         ok InstrDI, ok InstrEI] ! y
      else if z = 4 then
        (if y < 4 then (\<lambda>s. InstrCallIf sk (cc_code y s) s) else undefined_op)
      else if z = 5 then
        (if q = 0 then InstrPush sk (rp2_code p) else if p = 0 then InstrCall sk else undefined_op)
      else if z = 6 then alu_imm y sk
      else InstrRST sk (of_nat (8 * y)))"

definition decode :: "'m socket \<Rightarrow> nat \<Rightarrow> 'm handler" where
  "decode sk op =
     ([decode_x0, decode_x1, decode_x2, decode_x3] ! (op div 64)) sk (op div 8 mod 8) (op mod 8)"

section \<open>The tables agree with the decoding\<close>

definition decoded_row :: "(nat \<Rightarrow> 'm handler) \<Rightarrow> nat \<Rightarrow> 'm handler list" where
  "decoded_row f i = map (\<lambda>j. f (16 * i + j)) [0, 1, 2, 3, 4, 5, 6, 7, 8, 9, 10, 11, 12, 13, 14, 15]"

lemmas field_simps_dec = decoded_row_def operand_def reg_code_def rp_code_def rp2_code_def
  cc_code_def Let_def

lemma cb_rows_decoded:
  "cb_row_0x0 sk = decoded_row (cb_decode sk) 0" "cb_row_0x1 sk = decoded_row (cb_decode sk) 1"
  "cb_row_0x2 sk = decoded_row (cb_decode sk) 2" "cb_row_0x3 sk = decoded_row (cb_decode sk) 3"
  "cb_row_0x4 sk = decoded_row (cb_decode sk) 4" "cb_row_0x5 sk = decoded_row (cb_decode sk) 5"
  "cb_row_0x6 sk = decoded_row (cb_decode sk) 6" "cb_row_0x7 sk = decoded_row (cb_decode sk) 7"
  "cb_row_0x8 sk = decoded_row (cb_decode sk) 8" "cb_row_0x9 sk = decoded_row (cb_decode sk) 9"
  "cb_row_0xA sk = decoded_row (cb_decode sk) 10" "cb_row_0xB sk = decoded_row (cb_decode sk) 11"
  "cb_row_0xC sk = decoded_row (cb_decode sk) 12" "cb_row_0xD sk = decoded_row (cb_decode sk) 13"
  "cb_row_0xE sk = decoded_row (cb_decode sk) 14" "cb_row_0xF sk = decoded_row (cb_decode sk) 15"
  by (simp_all add: cb_row_defs field_simps_dec cb_decode_def rot_reg_def rot_mem_def)

lemma main_rows_decoded:
  "row_0x0 sk = decoded_row (decode sk) 0" "row_0x1 sk = decoded_row (decode sk) 1"
  "row_0x2 sk = decoded_row (decode sk) 2" "row_0x3 sk = decoded_row (decode sk) 3"
  "row_0x4 sk = decoded_row (decode sk) 4" "row_0x5 sk = decoded_row (decode sk) 5"
  "row_0x6 sk = decoded_row (decode sk) 6" "row_0x7 sk = decoded_row (decode sk) 7"
  "row_0x8 sk = decoded_row (decode sk) 8" "row_0x9 sk = decoded_row (decode sk) 9"
  "row_0xA sk = decoded_row (decode sk) 10" "row_0xB sk = decoded_row (decode sk) 11"
  "row_0xC sk = decoded_row (decode sk) 12" "row_0xD sk = decoded_row (decode sk) 13"
  "row_0xE sk = decoded_row (decode sk) 14" "row_0xF sk = decoded_row (decode sk) 15"
  by (simp_all add: row_defs field_simps_dec decode_def decode_x0_def decode_x1_def decode_x2_def
      decode_x3_def alu_reg_def alu_mem_def alu_imm_def)

lemma nth_decoded_row: "j < 16 \<Longrightarrow> decoded_row f i ! j = f (16 * i + j)"
proof -
  have "[0, 1, 2, 3, 4, 5, 6, 7, 8, 9, 10, 11, 12, 13, 14, 15] = [0..<16]"
    by (simp add: upt_rec)
  then show "j < 16 \<Longrightarrow> ?thesis" by (simp add: decoded_row_def)
qed

definition decoded_rows :: "(nat \<Rightarrow> 'm handler) \<Rightarrow> 'm handler list list" where
  "decoded_rows f =
     map (decoded_row f) [0, 1, 2, 3, 4, 5, 6, 7, 8, 9, 10, 11, 12, 13, 14, 15]"

lemma lookup_decoded_rows: "lookup_handler (decoded_rows f) op = f (unat op)"
proof -
  have "[0, 1, 2, 3, 4, 5, 6, 7, 8, 9, 10, 11, 12, 13, 14, 15] = [0..<16]"
    by (simp add: upt_rec)
  then show ?thesis
    using unat_u8_div_16 [of op]
    by (simp add: lookup_handler_def decoded_rows_def nth_decoded_row)
qed

lemma cb_rows_eq: "cb_rows sk = decoded_rows (cb_decode sk)"
  by (simp add: cb_rows_def decoded_rows_def cb_rows_decoded)

lemma main_rows_eq: "main_rows sk = decoded_rows (decode sk)"
  by (simp add: main_rows_def decoded_rows_def main_rows_decoded)

lemma lookup_cb_decode: "lookup_handler (cb_rows sk) op = cb_decode sk (unat op)"
  by (simp add: cb_rows_eq lookup_decoded_rows)

lemma execute_eq_decode: "execute sk op = decode sk (unat op)"
  by (rule ext) (simp add: execute_def main_rows_eq lookup_decoded_rows)

section \<open>Statements about every opcode\<close>

definition opcodes :: "nat \<Rightarrow> u8 list" where
  "opcodes i = map (\<lambda>j. of_nat (16 * i + j)) [0, 1, 2, 3, 4, 5, 6, 7, 8, 9, 10, 11, 12, 13, 14, 15]"

lemma nth_opcodes: "j < 16 \<Longrightarrow> opcodes i ! j = of_nat (16 * i + j)"
proof -
  have "[0, 1, 2, 3, 4, 5, 6, 7, 8, 9, 10, 11, 12, 13, 14, 15] = [0..<16]"
    by (simp add: upt_rec)
  then show "j < 16 \<Longrightarrow> ?thesis" by (simp add: opcodes_def)
qed

text \<open>Row by row: a relation between opcodes and entries holds of the entry that is looked up.\<close>

lemma lookup_indexed:
  assumes "\<And>i. i < 16 \<Longrightarrow> list_all2 P (opcodes i) (rows ! i)"
  shows "P op (lookup_handler rows op)"
proof -
  define i where "i = unat op div 16"
  define j where "j = unat op mod 16"
  have ij: "i < 16" "j < 16"
    using unat_u8_div_16 [of op] by (simp_all add: i_def j_def)
  have "length (opcodes i) = 16"
    by (simp add: opcodes_def)
  then have "P (opcodes i ! j) (rows ! i ! j)"
    using assms [OF ij(1)] ij(2) by (simp add: list_all2_conv_all_nth)
  moreover have "opcodes i ! j = op"
  proof -
    have "16 * i + j = unat op" by (simp add: i_def j_def)
    then show ?thesis using ij by (simp only: nth_opcodes) simp
  qed
  ultimately show ?thesis by (simp add: lookup_handler_def i_def j_def)
qed

lemma less_16_cases:
  "i < 16 \<longleftrightarrow> i \<in> {0, 1, 2, 3, 4, 5, 6, 7, 8, 9, 10, 11, 12, 13, 14, 15::nat}"
  by (simp, presburger)

end
