(* ===== verification/Cpu_Connect.thy ===== *)
theory Cpu_Connect
  imports Cpu_State Bus
begin

text \<open>
  How the CPU is bound to a bus: \<^verbatim>\<open>InterruptModule::start_of_simulation\<close> and
  \<^verbatim>\<open>Cpu::start_of_simulation\<close> ask the bus for direct access to the two interrupt registers and to the
  lower ROM bank. The second part is the test bench of \<^verbatim>\<open>tests/test_cpu.cpp\<close>, a CPU on one memory of
  64 KiB.
\<close>

section \<open>Start of simulation\<close>

text \<open>What the CPU uses of the SystemC kernel; see \<open>socket\<close>.\<close>

record 'm kernel =
  kn_wait :: "nat \<Rightarrow> 'm \<Rightarrow> 'm"
  kn_pending :: "'m \<Rightarrow> nat option"
  kn_indeterminate :: "'m \<Rightarrow> u8"
  kn_halt_polls :: nat

definition interrupt_module_start ::
  "'m BusSlave list \<Rightarrow> 'm \<Rightarrow> ('m dmi \<times> 'm dmi) res" where
  "interrupt_module_start slaves m =
     rbind (bus_get_direct_mem_ptr slaves (MakeSharedPayloadPtr TLM_READ_COMMAND 0xFFFF 0) m)
       (\<lambda>enable.
     case enable of
       None \<Rightarrow> Inl DmiUnavailable
     | Some e \<Rightarrow>
         rbind (bus_get_direct_mem_ptr slaves (MakeSharedPayloadPtr TLM_READ_COMMAND 0xFF0F 0) m)
           (\<lambda>pending.
         case pending of
           None \<Rightarrow> Inl DmiUnavailable
         | Some p \<Rightarrow> Inr (e, p)))"

definition cpu_start_of_simulation :: "'m kernel \<Rightarrow> 'm BusSlave list \<Rightarrow> 'm \<Rightarrow> 'm socket res" where
  "cpu_start_of_simulation kn slaves m =
     rbind (interrupt_module_start slaves m) (\<lambda>(e, p).
     rbind (bus_get_direct_mem_ptr slaves (MakeSharedPayloadPtr TLM_READ_COMMAND 0x0 0) m) (\<lambda>rom.
     if (case rom of None \<Rightarrow> True | Some d \<Rightarrow> dmi_start d = 0 \<and> 0x3FFF \<le> dmi_end d)
     then Inr \<lparr>sk_b_transport = bus_b_transport slaves,
               sk_transport_dbg = bus_transport_dbg slaves,
               sk_intr_enable = (\<lambda>m. dmi_load e m 0),
               sk_intr_pending = (\<lambda>m. dmi_load p m 0),
               sk_set_intr_pending = dmi_store p 0,
               sk_rom_bank_0 = (\<lambda>m. map_option (\<lambda>d. dmi_load d m) rom),
               sk_wait = kn_wait kn,
               sk_pending = kn_pending kn,
               sk_indeterminate = kn_indeterminate kn,
               sk_halt_polls = kn_halt_polls kn\<rparr>
     else Inl AssertFailed))"

section \<open>The test bench\<close>

definition testbench_slaves :: "GenericMemory BusSlave list" where
  "testbench_slaves = AddBusSlave (memory_slave id (\<lambda>c _. c) 0x0000 0xFFFF) []"

definition testbench_memory :: GenericMemory where
  "testbench_memory = new_memory 65536"

text \<open>The test bench has no other threads: waiting changes nothing, and nothing is pending.\<close>

definition testbench_kernel :: "GenericMemory kernel" where
  "testbench_kernel =
     \<lparr>kn_wait = (\<lambda>_ m. m), kn_pending = (\<lambda>_. None), kn_indeterminate = (\<lambda>_. 0),
      kn_halt_polls = 1\<rparr>"

definition testbench_socket :: "GenericMemory socket" where
  "testbench_socket =
     \<lparr>sk_b_transport = bus_b_transport testbench_slaves,
      sk_transport_dbg = bus_transport_dbg testbench_slaves,
      sk_intr_enable = (\<lambda>m. mem_data m 0xFFFF),
      sk_intr_pending = (\<lambda>m. mem_data m 0xFF0F),
      sk_set_intr_pending = (\<lambda>v m. m\<lparr>mem_data := (mem_data m)(0xFF0F := v)\<rparr>),
      sk_rom_bank_0 = (\<lambda>m. Some (mem_data m)),
      sk_wait = (\<lambda>_ m. m),
      sk_pending = (\<lambda>_. None),
      sk_indeterminate = (\<lambda>_. 0),
      sk_halt_polls = 1\<rparr>"

lemma testbench_start:
  "cpu_start_of_simulation testbench_kernel testbench_slaves testbench_memory = Inr testbench_socket"
  by (simp add: cpu_start_of_simulation_def interrupt_module_start_def testbench_slaves_def
      AddBusSlave_def memory_slave_def testbench_memory_def new_memory_def testbench_socket_def
      testbench_kernel_def mem_get_direct_mem_ptr_def MakeSharedPayloadPtr_def dmi_on_part_def
      fun_eq_iff)

lemma testbench_b_transport:
  "sk_b_transport testbench_socket = on_part id (\<lambda>c _. c) mem_b_transport"
proof (rule ext)+
  fix pl :: payload and m :: GenericMemory
  have "(65535 :: u16) = - 1" by simp
  then have "address pl \<le> 65535"
    by (metis word_n1_ge)
  then show "sk_b_transport testbench_socket pl m = on_part id (\<lambda>c _. c) mem_b_transport pl m"
    by (simp add: testbench_socket_def testbench_slaves_def AddBusSlave_def memory_slave_def)
qed

lemma testbench_socket_simps [simp]:
  "sk_rom_bank_0 testbench_socket m = Some (mem_data m)"
  "sk_intr_enable testbench_socket m = mem_data m 0xFFFF"
  "sk_intr_pending testbench_socket m = mem_data m 0xFF0F"
  "sk_set_intr_pending testbench_socket v m = m\<lparr>mem_data := (mem_data m)(0xFF0F := v)\<rparr>"
  "sk_wait testbench_socket n m = m" "sk_pending testbench_socket m = None"
  "sk_halt_polls testbench_socket = 1"
  by (simp_all add: testbench_socket_def)

end
