(* ===== verification/Cpu_Stack.thy ===== *)
theory Cpu_Stack
  imports Cpu_Interrupts Cpu_Connect
begin

text \<open>
  The stack: what a CPU needs of the memory its stack pointer points into, stated as the locale
  \<open>ram_socket\<close>, and what the instructions that use the stack then do. The test bench and, in a later
  theory, the memory map of the Game Boy interpret it.
\<close>

section \<open>The interface\<close>

text \<open>
  On the addresses \<open>ram\<close> the socket behaves like memory while the rest of the system is in a state
  that satisfies \<open>good\<close>: \<open>peek\<close> is what a read returns, \<open>poke\<close> what a write does.
\<close>

definition observed :: "(payload \<times> 'm) res \<Rightarrow> (tlm_response_status \<times> u8 \<times> 'm) res" where
  "observed = map_sum id (\<lambda>(pl, m). (response_status pl, data_byte pl, m))"

locale ram_socket =
  fixes sk :: "'m socket" and good :: "'m \<Rightarrow> bool" and ram :: "u16 \<Rightarrow> bool"
    and peek :: "'m \<Rightarrow> u16 \<Rightarrow> u8" and poke :: "u16 \<Rightarrow> u8 \<Rightarrow> 'm \<Rightarrow> 'm"
  assumes read_ram: "good m \<Longrightarrow> ram (address pl) \<Longrightarrow> command pl = TLM_READ_COMMAND \<Longrightarrow>
      observed (sk_b_transport sk pl m) = Inr (TLM_OK_RESPONSE, peek m (address pl), m)"
    and write_ram: "good m \<Longrightarrow> ram (address pl) \<Longrightarrow> command pl = TLM_WRITE_COMMAND \<Longrightarrow>
      observed (sk_b_transport sk pl m) =
        Inr (TLM_OK_RESPONSE, data_byte pl, poke (address pl) (data_byte pl) m)"
    and good_poke: "good m \<Longrightarrow> ram a \<Longrightarrow> good (poke a d m)"
    and peek_poke: "good m \<Longrightarrow> ram a \<Longrightarrow> ram b \<Longrightarrow>
      peek (poke a d m) b = (if a = b then d else peek m b)"
    and ram_above_rom: "ram a \<Longrightarrow> 0x3FFF < a"
begin

lemma WriteBus_ram:
  assumes "good (sys s)" and "ram a"
  shows "WriteBus sk a d s = Inr (s\<lparr>sys := poke a d (sys s), payload_status := TLM_OK_RESPONSE\<rparr>)"
proof -
  let ?pl = "\<lparr>command = TLM_WRITE_COMMAND, address = a, data_byte = d,
    response_status = payload_status s, extension = Some (gbcmd s)\<rparr>"
  have "observed (sk_b_transport sk ?pl (sys s)) = Inr (TLM_OK_RESPONSE, d, poke a d (sys s))"
    using write_ram [of "sys s" ?pl] assms by simp
  then obtain pl' where "sk_b_transport sk ?pl (sys s) = Inr (pl', poke a d (sys s))"
    and "response_status pl' = TLM_OK_RESPONSE"
    by (auto simp: observed_def map_sum_def split: sum.splits)
  then show ?thesis by (simp add: WriteBus_def Let_def)
qed

lemma ReadBus_ram:
  assumes "good (sys s)" and "ram a"
  shows "ReadBus sk a c s =
    Inr (peek (sys s) a, s\<lparr>gbcmd := c, payload_status := TLM_OK_RESPONSE\<rparr>)"
proof -
  let ?pl = "\<lparr>command = TLM_READ_COMMAND, address = a, data_byte = sk_indeterminate sk (sys s),
    response_status = payload_status s, extension = Some c\<rparr>"
  have "observed (sk_b_transport sk ?pl (sys s)) = Inr (TLM_OK_RESPONSE, peek (sys s) a, sys s)"
    using read_ram [of "sys s" ?pl] assms by simp
  then obtain pl' where "sk_b_transport sk ?pl (sys s) = Inr (pl', sys s)"
    and "response_status pl' = TLM_OK_RESPONSE" "data_byte pl' = peek (sys s) a"
    by (auto simp: observed_def map_sum_def split: sum.splits)
  then show ?thesis
    using ram_above_rom [OF assms(2)]
    by (simp add: ReadBus_def Let_def is_response_error_def flip: not_less)
qed

end

section \<open>Pushing and popping\<close>

text \<open>The four registers that the opcodes push and pop, and the program counter.\<close>

definition stack_reg :: "reg16 \<Rightarrow> bool" where
  "stack_reg q \<longleftrightarrow> q \<noteq> rSP"

definition push16 :: "(u16 \<Rightarrow> u8 \<Rightarrow> 'm \<Rightarrow> 'm) \<Rightarrow> u16 \<Rightarrow> u16 \<Rightarrow> 'm \<Rightarrow> 'm" where
  "push16 poke sp v m = poke (sp - 2) (lo8 v) (poke (sp - 1) (hi8 v) m)"

lemma ucast_and_255: "ucast (w AND 0x00FF :: u16) = lo8 w"
proof -
  have "ucast (w AND mask 8) = lo8 w"
    by (rule bit_word_eqI) (simp add: lo8_def bit_simps)
  then show ?thesis by (simp add: mask_eq_exp_minus_1)
qed

lemma ucast_drop_bit_8: "ucast (drop_bit 8 w :: u16) = hi8 w"
  by (simp add: hi8_def)

context ram_socket
begin

lemma InstrPush_ram:
  assumes "good (sys s)" and "ram (get16 s rSP - 1)" and "ram (get16 s rSP - 2)" and "q \<noteq> rSP"
  shows "InstrPush sk q s =
    Inr (set_wait 16 (put16 rSP (get16 s rSP - 2) s
      \<lparr>sys := push16 poke (get16 s rSP) (get16 s q) (sys s),
       payload_status := TLM_OK_RESPONSE\<rparr>))"
proof -
  define sp where "sp = get16 s rSP"
  have get: "get16 (put16 rSP v s) q = get16 s q" for v
    using assms(4) by (simp add: flag_simps)
  show ?thesis
    using assms good_poke [OF assms(1,2)]
    by (simp add: InstrPush_def Let_def WriteBus_ram get16_put16 get sp_def
        ucast_and_255 ucast_drop_bit_8 push16_def)
qed

lemma two_plus: "2 + sp = (sp + 2 :: u16)"
  by (rule add.commute)

text \<open>What a return reads: the two bytes at the stack pointer.\<close>

definition top16 :: "(u16 \<Rightarrow> u8) \<Rightarrow> u16 \<Rightarrow> u16" where
  "top16 pk sp = make16 (pk (sp + 1)) (pk sp)"

lemma top16_push16:
  assumes "good m" and "ram (sp - 1)" and "ram (sp - 2)"
  shows "top16 (peek (push16 poke sp v m)) (sp - 2) = v"
proof -
  have [simp]: "sp - 2 + 1 = sp - 1" "sp - 2 \<noteq> sp - 1" "sp - 1 \<noteq> sp - 2"
    by simp_all
  show ?thesis
    using assms good_poke [OF assms(1,2)] by (simp add: top16_def push16_def peek_poke)
qed

lemma good_push16:
  "good m \<Longrightarrow> ram (sp - 1) \<Longrightarrow> ram (sp - 2) \<Longrightarrow> good (push16 poke sp v m)"
  by (simp add: push16_def good_poke)

lemma InstrPop_ram:
  assumes "good (sys s)" and "ram (get16 s rSP)" and "ram (get16 s rSP + 1)" and "q \<noteq> rSP"
  shows "InstrPop sk q s =
    (let s1 = put16 q (top16 (peek (sys s)) (get16 s rSP)) (put16 rSP (get16 s rSP + 2) s) in
     Inr (set_wait 12 (put8 rF ((get8 s1 rF AND 0xF0) OR (get8 s rF AND 0x0F)) s1
       \<lparr>gbcmd := kGbReadData, payload_status := TLM_OK_RESPONSE\<rparr>)))"
  using assms by (simp add: InstrPop_def Let_def ReadBus_ram get16_put16 top16_def two_plus)

lemma InstrRet_ram:
  assumes "good (sys s)" and "ram (get16 s rSP)" and "ram (get16 s rSP + 1)"
  shows "InstrRet sk s =
     Inr (set_wait 16 (put16 rPC (top16 (peek (sys s)) (get16 s rSP))
       (put16 rSP (get16 s rSP + 2) s)
       \<lparr>gbcmd := kGbReadData, payload_status := TLM_OK_RESPONSE\<rparr>))"
  using assms by (simp add: InstrRet_def Let_def ReadBus_ram get16_put16 top16_def two_plus)

lemma InstrRetI_ram:
  assumes "good (sys s)" and "ram (get16 s rSP)" and "ram (get16 s rSP + 1)"
  shows "InstrRetI sk s =
     Inr (set_wait 16 (put16 rPC (top16 (peek (sys s)) (get16 s rSP))
       (put16 rSP (get16 s rSP + 2) s)
       \<lparr>gbcmd := kGbReadData, payload_status := TLM_OK_RESPONSE,
        intr_master_enable := True\<rparr>))"
  using assms by (simp add: InstrRetI_def Let_def ReadBus_ram get16_put16 top16_def two_plus)

text \<open>A call pushes the program counter byte by byte.\<close>

lemma push_pc_ram:
  assumes "good (sys s)" and "ram (get16 s rSP - 1)" and "ram (get16 s rSP - 2)"
  shows "(let s = put16 rSP (get16 s rSP - 1) s in
      rbind (WriteBus sk (get16 s rSP) (get8 s rPCmsb) s) (\<lambda>s.
      let s = put16 rSP (get16 s rSP - 1) s in
      rbind (WriteBus sk (get16 s rSP) (get8 s rPClsb) s) f)) =
    f (put16 rSP (get16 s rSP - 2) s
      \<lparr>sys := push16 poke (get16 s rSP) (get16 s rPC) (sys s),
       payload_status := TLM_OK_RESPONSE\<rparr>)"
proof -
  have "get8 s rPCmsb = hi8 (get16 s rPC)" "get8 s rPClsb = lo8 (get16 s rPC)"
    by (simp_all add: get16_eq_make16)
  then show ?thesis
    using assms good_poke [OF assms(1,2)]
    by (simp add: Let_def WriteBus_ram get16_put16 get8_put16 push16_def)
qed

lemma InstrCall_ram:
  assumes "FetchNext2InstrBytes sk s = Inr (addr, t)"
    and "good (sys t)" and "ram (get16 t rSP - 1)" and "ram (get16 t rSP - 2)"
  shows "InstrCall sk s =
    Inr (set_wait 24 (put16 rPC addr (put16 rSP (get16 t rSP - 2) t
      \<lparr>sys := push16 poke (get16 t rSP) (get16 t rPC) (sys t),
       payload_status := TLM_OK_RESPONSE\<rparr>)))"
  using push_pc_ram [OF assms(2-4), of "\<lambda>s. Inr (set_wait 24 (put16 rPC addr s))"]
  by (simp add: InstrCall_def assms(1))

lemma InstrRST_ram:
  assumes "good (sys s)" and "ram (get16 s rSP - 1)" and "ram (get16 s rSP - 2)"
  shows "InstrRST sk addr s =
    Inr (set_wait 16 (put16 rPC (ucast addr) (put16 rSP (get16 s rSP - 2) s
      \<lparr>sys := push16 poke (get16 s rSP) (get16 s rPC) (sys s),
       payload_status := TLM_OK_RESPONSE\<rparr>)))"
  using push_pc_ram [OF assms, of "\<lambda>s. Inr (set_wait 16 (put16 rPC (ucast addr) s))"]
  by (simp add: InstrRST_def)

subsection \<open>Round trips\<close>

lemma push_pop:
  assumes "good (sys s)" and "ram (get16 s rSP - 1)" and "ram (get16 s rSP - 2)"
    and "p \<noteq> rSP" and "q \<noteq> rSP" and "q \<noteq> rAF"
  shows "\<exists>t u. InstrPush sk p s = Inr t \<and> InstrPop sk q t = Inr u \<and>
    get16 u q = get16 s p \<and> get16 u rSP = get16 s rSP \<and>
    (\<forall>r. r \<noteq> q \<longrightarrow> get16 u r = get16 s r)"
proof -
  let ?t = "set_wait 16 (put16 rSP (get16 s rSP - 2) s
      \<lparr>sys := push16 poke (get16 s rSP) (get16 s p) (sys s),
       payload_status := TLM_OK_RESPONSE\<rparr>)"
  have push: "InstrPush sk p s = Inr ?t"
    using assms by (simp add: InstrPush_ram)
  have [simp]: "lsb_of q \<noteq> rF" "get16 s rSP - 2 + 1 = get16 s rSP - 1"
    using assms(6) by (cases q; simp)+
  have F: "get8 (put16 q v (put16 rSP w s)) rF = get8 s rF" for v w
    using assms(6) by (simp add: get8_put16)
  have "InstrPop sk q ?t = Inr (set_wait 12 (put16 q (get16 s p) (put16 rSP (get16 s rSP) ?t)
      \<lparr>gbcmd := kGbReadData, payload_status := TLM_OK_RESPONSE\<rparr>))"
    using assms top16_push16 [OF assms(1-3), of "get16 s p"]
    by (simp add: InstrPop_ram Let_def good_push16 get16_put16 get8_put16 u8_split_nibbles put8_same)
  then show ?thesis using push assms by (simp add: get16_put16)
qed

lemma push_pop_AF:
  assumes "good (sys s)" and "ram (get16 s rSP - 1)" and "ram (get16 s rSP - 2)" and "p \<noteq> rSP"
  shows "\<exists>t u. InstrPush sk p s = Inr t \<and> InstrPop sk rAF t = Inr u \<and>
    get8 u rA = hi8 (get16 s p) \<and>
    get8 u rF = (lo8 (get16 s p) AND 0xF0) OR (get8 s rF AND 0x0F) \<and>
    (\<forall>r. r \<noteq> rAF \<longrightarrow> get16 u r = get16 s r)"
proof -
  let ?t = "set_wait 16 (put16 rSP (get16 s rSP - 2) s
      \<lparr>sys := push16 poke (get16 s rSP) (get16 s p) (sys s),
       payload_status := TLM_OK_RESPONSE\<rparr>)"
  have push: "InstrPush sk p s = Inr ?t"
    using assms by (simp add: InstrPush_ram)
  have [simp]: "get16 s rSP - 2 + 1 = get16 s rSP - 1"
    by simp
  have pop: "InstrPop sk rAF ?t =
    Inr (set_wait 12 (put8 rF ((lo8 (get16 s p) AND 0xF0) OR (get8 s rF AND 0x0F))
      (put16 rAF (get16 s p) (put16 rSP (get16 s rSP) ?t))
      \<lparr>gbcmd := kGbReadData, payload_status := TLM_OK_RESPONSE\<rparr>))"
    using assms top16_push16 [OF assms(1-3), of "get16 s p"]
    by (simp add: InstrPop_ram Let_def good_push16 get16_put16 get8_put16)
  have "get16 (put8 rF v (put16 rAF w (put16 rSP x ?t))) r =
      (if r = rSP then x else get16 s r)" if "r \<noteq> rAF" for v w x r
    using that by (cases r) (simp_all add: get16_put8 get16_put16)
  with push pop show ?thesis by (simp add: get8_put8 get8_put16)
qed

text \<open>A call and the return from it, whatever the routine at its target is.\<close>

lemma call_ret:
  assumes "FetchNext2InstrBytes sk s = Inr (addr, s')"
    and "good (sys s')" and "ram (get16 s' rSP - 1)" and "ram (get16 s' rSP - 2)"
  shows "\<exists>t u. InstrCall sk s = Inr t \<and> get16 t rPC = addr \<and> get16 t rSP = get16 s' rSP - 2 \<and>
    InstrRet sk t = Inr u \<and> (\<forall>r. get16 u r = get16 s' r)"
proof -
  have "get16 s' rSP - 2 + 1 = get16 s' rSP - 1" by simp
  then show ?thesis
    using InstrCall_ram [OF assms] assms
    by (simp add: InstrRet_ram get16_put16 top16_push16 good_push16)
qed

lemma rst_ret:
  assumes "good (sys s)" and "ram (get16 s rSP - 1)" and "ram (get16 s rSP - 2)"
  shows "\<exists>t u. InstrRST sk addr s = Inr t \<and> get16 t rPC = ucast addr \<and>
    InstrRet sk t = Inr u \<and> (\<forall>r. get16 u r = get16 s r)"
proof -
  have "get16 s rSP - 2 + 1 = get16 s rSP - 1" by simp
  then show ?thesis
    using InstrRST_ram [OF assms] assms
    by (simp add: InstrRet_ram get16_put16 top16_push16 good_push16)
qed

end

section \<open>The interrupt registers\<close>

text \<open>A socket whose interrupt registers are apart from the stack.\<close>

locale interrupt_socket = ram_socket +
  assumes pending_set: "good m \<Longrightarrow> sk_intr_pending sk (sk_set_intr_pending sk v m) = v"
    and enable_set: "good m \<Longrightarrow>
      sk_intr_enable sk (sk_set_intr_pending sk v m) = sk_intr_enable sk m"
    and good_set: "good m \<Longrightarrow> good (sk_set_intr_pending sk v m)"
    and peek_set: "good m \<Longrightarrow> ram a \<Longrightarrow> peek (sk_set_intr_pending sk v m) a = peek m a"
    and pending_poke: "good m \<Longrightarrow> ram a \<Longrightarrow> sk_intr_pending sk (poke a d m) = sk_intr_pending sk m"
begin

lemma pending_push16:
  "good m \<Longrightarrow> ram (sp - 1) \<Longrightarrow> ram (sp - 2) \<Longrightarrow>
   sk_intr_pending sk (push16 poke sp v m) = sk_intr_pending sk m"
  by (simp add: push16_def pending_poke good_poke)

lemma top16_set:
  "good m \<Longrightarrow> ram sp \<Longrightarrow> ram (sp + 1) \<Longrightarrow>
   top16 (peek (sk_set_intr_pending sk v m)) sp = top16 (peek m) sp"
  by (simp add: top16_def peek_set)

text \<open>An interrupt is taken and its service routine returns at once.\<close>

lemma interrupt_reti:
  assumes "good (sys s)" and "ram (get16 s rSP - 1)" and "ram (get16 s rSP - 2)"
    and "intr_master_enable s" and "i < 5"
    and "lowest_request (sk_intr_enable sk (sys s) AND sk_intr_pending sk (sys s)) i"
  shows "\<exists>t u. HandleInterrupts sk s = Inr t \<and> get16 t rPC = 0x40 + 8 * of_nat i \<and>
    \<not> intr_master_enable t \<and>
    sk_intr_pending sk (sys t) = SetBit (sk_intr_pending sk (sys s)) False i \<and>
    InstrRetI sk t = Inr u \<and> intr_master_enable u \<and> (\<forall>r. get16 u r = get16 s r)"
proof -
  let ?s = "s\<lparr>intr_master_enable := False\<rparr>"
  let ?t = "set_wait 16 (put16 rSP (get16 ?s rSP - 2) ?s
      \<lparr>sys := push16 poke (get16 ?s rSP) (get16 ?s rPC) (sys ?s),
       payload_status := TLM_OK_RESPONSE\<rparr>)"
  let ?u = "acknowledge sk (push_bit i 1) (put16 rPC (0x40 + 8 * of_nat i) ?t)"
  have push: "InstrPush sk rPC ?s = Inr ?t"
    using assms(1-3) by (simp add: InstrPush_ram)
  have handle: "HandleInterrupts sk s = Inr ?u"
    using HandleInterrupts_lowest [OF assms(4-6) push] .
  have sp [simp]: "get16 s rSP - 2 + 1 = get16 s rSP - 1" by simp
  have "sk_intr_pending sk (sys ?u) = SetBit (sk_intr_pending sk (sys s)) False i"
    using assms(1-3) by (simp add: acknowledge_def pending_set good_push16 pending_push16 SetBit_False)
  moreover have "\<exists>u. InstrRetI sk ?u = Inr u \<and> intr_master_enable u \<and>
      (\<forall>r. get16 u r = get16 s r)"
    using assms(1-3) by (simp add: InstrRetI_ram acknowledge_def good_set good_push16 get16_put16
        top16_set top16_push16)
  moreover have "get16 ?u rPC = 0x40 + 8 * of_nat i" "\<not> intr_master_enable ?u"
    by (simp_all add: acknowledge_def get16_put16)
  ultimately show ?thesis using handle by blast
qed

end

section \<open>The test bench as such a socket\<close>

definition tb_good :: "GenericMemory \<Rightarrow> bool" where
  "tb_good m \<longleftrightarrow> memory_size m = 65536"

definition tb_ram :: "u16 \<Rightarrow> bool" where
  "tb_ram a \<longleftrightarrow> 0x3FFF < a \<and> a \<noteq> 0xFF0F \<and> a \<noteq> 0xFFFF"

definition tb_peek :: "GenericMemory \<Rightarrow> u16 \<Rightarrow> u8" where
  "tb_peek m a = mem_data m (unat a)"

definition tb_poke :: "u16 \<Rightarrow> u8 \<Rightarrow> GenericMemory \<Rightarrow> GenericMemory" where
  "tb_poke a d m = m\<lparr>mem_data := (mem_data m)(unat a := d)\<rparr>"

interpretation tb: interrupt_socket testbench_socket tb_good tb_ram tb_peek tb_poke
proof
  fix m :: GenericMemory and pl :: payload and a b :: u16 and d v :: u8
  assume good: "tb_good m"
  have bound: "unat (address pl) < memory_size m"
    using unat_u16_less good by (simp add: tb_good_def)
  show "observed (sk_b_transport testbench_socket pl m) =
      Inr (TLM_OK_RESPONSE, tb_peek m (address pl), m)"
    if "tb_ram (address pl)" "command pl = TLM_READ_COMMAND"
    using that bound
    by (simp add: testbench_b_transport on_part_def mem_read observed_def tb_peek_def)
  show "observed (sk_b_transport testbench_socket pl m) =
      Inr (TLM_OK_RESPONSE, data_byte pl, tb_poke (address pl) (data_byte pl) m)"
    if "tb_ram (address pl)" "command pl = TLM_WRITE_COMMAND"
    using that bound
    by (simp add: testbench_b_transport on_part_def mem_write observed_def tb_poke_def)
  show "tb_good (tb_poke a d m)" "tb_good (sk_set_intr_pending testbench_socket v m)"
    using good by (simp_all add: tb_good_def tb_poke_def)
  show "tb_peek (tb_poke a d m) b = (if a = b then d else tb_peek m b)"
    by (simp add: tb_peek_def tb_poke_def word_unat_eq_iff)
  show "sk_intr_pending testbench_socket (sk_set_intr_pending testbench_socket v m) = v"
    "sk_intr_enable testbench_socket (sk_set_intr_pending testbench_socket v m) =
      sk_intr_enable testbench_socket m"
    by simp_all
  have neq: "unat a \<noteq> 0xFF0F" if "tb_ram a"
    using that by (auto simp: tb_ram_def word_unat_eq_iff)
  show "tb_peek (sk_set_intr_pending testbench_socket v m) a = tb_peek m a" if "tb_ram a"
    using neq [OF that] by (simp add: tb_peek_def)
  show "sk_intr_pending testbench_socket (tb_poke a d m) = sk_intr_pending testbench_socket m"
    if "tb_ram a"
    using neq [OF that] by (simp add: tb_poke_def)
qed (simp add: tb_ram_def)

end
