(* ===== verification/Cpu_Errors.thy ===== *)
theory Cpu_Errors
  imports Cpu_Decode Cpu_Stack
begin

text \<open>
  How a CPU can fail on a system that keeps an invariant: the locale \<open>safe_socket\<close> is what the CPU
  needs of the modules behind its socket, and its lemmas say that every instruction keeps the
  invariant and fails only with an error of the bus, with the exception of \<^verbatim>\<open>ReadBus\<close>, by waiting
  in HALT for longer than the polling bound, or as one of the opcodes that the jump table rejects.
\<close>

section \<open>Judgements\<close>

definition safe_res :: "('m \<Rightarrow> bool) \<Rightarrow> sim_error set \<Rightarrow> 'm cpu res \<Rightarrow> bool" where
  "safe_res I E r = (case r of Inl e \<Rightarrow> e \<in> E | Inr t \<Rightarrow> I (sys t))"

definition safe :: "('m \<Rightarrow> bool) \<Rightarrow> sim_error set \<Rightarrow> 'm handler \<Rightarrow> bool" where
  "safe I E h \<longleftrightarrow> (\<forall>s. I (sys s) \<longrightarrow> safe_res I E (h s))"

definition cpu_errors :: "sim_error set \<Rightarrow> sim_error set" where
  "cpu_errors E = E \<union> {e. \<exists>a d. e = BusError a d} \<union> {HaltUnresolved}"

lemma safe_res_simps [simp]:
  "safe_res I E (Inl e) \<longleftrightarrow> e \<in> E" "safe_res I E (Inr t) \<longleftrightarrow> I (sys t)"
  by (simp_all add: safe_res_def)

lemma safe_res_rbind:
  "safe_res I E r \<Longrightarrow> (\<And>t. r = Inr t \<Longrightarrow> I (sys t) \<Longrightarrow> safe_res I F (f t)) \<Longrightarrow> E \<subseteq> F \<Longrightarrow>
   safe_res I F (rbind r f)"
  by (cases r) auto

lemma safe_res_mono: "safe_res I E r \<Longrightarrow> E \<subseteq> F \<Longrightarrow> safe_res I F r"
  by (cases r) auto

named_theorems failures \<open>the failures of the handlers\<close>

text \<open>The assertion of \<^verbatim>\<open>InstrLoadH\<close> holds: the address is in the last page.\<close>

lemma last_page: "0xFF00 \<le> ucast (v :: u8) + (0xFF00 :: u16)"
proof -
  have "unat (ucast v :: u16) = unat v"
    by (simp add: unsigned_ucast_eq take_bit_nat_eq_self unat_u8_less [THEN order_less_trans])
  then show ?thesis
    using unat_u8_less [of v] by (simp add: word_le_nat_alt unat_word_ariths)
qed

section \<open>The interface\<close>

locale safe_socket =
  fixes sk :: "'m socket" and I :: "'m \<Rightarrow> bool" and E :: "sim_error set"
  assumes transport_keeps: "I m \<Longrightarrow> keeps I E (sk_b_transport sk pl m)"
    and wait_keeps: "I m \<Longrightarrow> I (sk_wait sk n m)"
    and pending_keeps: "I m \<Longrightarrow> I (sk_set_intr_pending sk v m)"
begin

lemma transport_cases:
  assumes "I m"
  shows "(\<exists>e \<in> E. sk_b_transport sk pl m = Inl e) \<or>
    (\<exists>pl' m'. sk_b_transport sk pl m = Inr (pl', m') \<and> I m')"
  using transport_keeps [OF assms, of pl] by (auto simp: keeps_def split: sum.splits)

lemma safe_ReadBus:
  assumes "I (sys s)" and "\<And>v t. I (sys t) \<Longrightarrow> safe_res I (cpu_errors E) (f (v, t))"
  shows "safe_res I (cpu_errors E) (rbind (ReadBus sk a c s) f)"
proof -
  let ?pl = "\<lparr>command = TLM_READ_COMMAND, address = a, data_byte = sk_indeterminate sk (sys s),
    response_status = payload_status s, extension = Some c\<rparr>"
  show ?thesis
    using assms transport_cases [OF assms(1), of ?pl]
    by (auto simp: ReadBus_def Let_def cpu_errors_def)
qed

lemma safe_WriteBus:
  assumes "I (sys s)" and "\<And>t. I (sys t) \<Longrightarrow> safe_res I (cpu_errors E) (f t)"
  shows "safe_res I (cpu_errors E) (rbind (WriteBus sk a d s) f)"
proof -
  let ?pl = "\<lparr>command = TLM_WRITE_COMMAND, address = a, data_byte = d,
    response_status = payload_status s, extension = Some (gbcmd s)\<rparr>"
  show ?thesis
    using assms transport_cases [OF assms(1), of ?pl]
    by (auto simp: WriteBus_def Let_def cpu_errors_def)
qed

lemma safe_Fetch:
  assumes "I (sys s)" and "\<And>v t. I (sys t) \<Longrightarrow> safe_res I (cpu_errors E) (f (v, t))"
  shows "safe_res I (cpu_errors E) (rbind (FetchNextInstrByte sk s) f)"
  using assms by (auto simp: FetchNextInstrByte_def rbind_assoc intro!: safe_ReadBus)

lemma safe_Fetch2:
  assumes "I (sys s)" and "\<And>v t. I (sys t) \<Longrightarrow> safe_res I (cpu_errors E) (f (v, t))"
  shows "safe_res I (cpu_errors E) (rbind (FetchNext2InstrBytes sk s) f)"
  using assms by (auto simp: FetchNext2InstrBytes_def Let_def rbind_assoc intro!: safe_ReadBus)

lemmas safe_rules = safe_ReadBus safe_WriteBus safe_Fetch safe_Fetch2

lemma safe_instructions_1 [failures]:
  "safe I (cpu_errors E) (ok InstrNop)"
  "safe I (cpu_errors E) (InstrLoad_addr sk r a)"
  "safe I (cpu_errors E) (InstrLoad16 sk r q)"
  "safe I (cpu_errors E) (InstrLoadImm16 sk q)"
  "safe I (cpu_errors E) (InstrLoadImm8 sk r)"
  "safe I (cpu_errors E) (InstrLoadInc sk r q)"
  "safe I (cpu_errors E) (InstrLoadDec sk q r)"
  "safe I (cpu_errors E) (InstrStoreInc sk q v)"
  "safe I (cpu_errors E) (InstrStoreDec sk q v)"
  "safe I (cpu_errors E) (InstrStore16 sk q r)"
  "safe I (cpu_errors E) (InstrStore_u8 sk v r)"
  "safe I (cpu_errors E) (InstrStore8 sk r)"
  "safe I (cpu_errors E) (InstrStoreImm sk q)"
  "safe I (cpu_errors E) (InstrStoreH sk r)"
  "safe I (cpu_errors E) (InstrLoadHlSpRel sk)"
  "safe I (cpu_errors E) (ok InstrLoadSpHl)"
  "safe I (cpu_errors E) (ok (InstrInc8 r))"
  "safe I (cpu_errors E) (ok (InstrInc16 q))"
  "safe I (cpu_errors E) (InstrIncAddr sk q)"
  "safe I (cpu_errors E) (InstrDecAddr sk q)"
  by (auto simp: safe_def ok_def instr_defs Let_def intro!: safe_rules)

lemma safe_instructions_2 [failures]:
  "safe I (cpu_errors E) (ok InstrRlca)"
  "safe I (cpu_errors E) (ok InstrRrca)"
  "safe I (cpu_errors E) (ok InstrRra)"
  "safe I (cpu_errors E) (ok (InstrRlc8 r))"
  "safe I (cpu_errors E) (InstrRlc16 sk q)"
  "safe I (cpu_errors E) (ok (InstrRrc8 r))"
  "safe I (cpu_errors E) (InstrRrc16 sk q)"
  "safe I (cpu_errors E) (InstrStoreSp sk)"
  "safe I (cpu_errors E) (ok (InstrAddHl q))"
  "safe I (cpu_errors E) (InstrAddSp sk)"
  "safe I (cpu_errors E) (ok (InstrAddA8 r))"
  "safe I (cpu_errors E) (InstrAddA16 sk q)"
  "safe I (cpu_errors E) (InstrAddAImm sk)"
  "safe I (cpu_errors E) (ok (InstrAddACarry8 r))"
  "safe I (cpu_errors E) (InstrAddACarry16 sk q)"
  "safe I (cpu_errors E) (InstrAddACarryImm sk)"
  "safe I (cpu_errors E) (InstrSubImm sk)"
  "safe I (cpu_errors E) (ok (InstrSub8 r))"
  "safe I (cpu_errors E) (InstrSub16 sk q)"
  "safe I (cpu_errors E) (ok (InstrSubCarry8 r))"
  by (auto simp: safe_def ok_def instr_defs Let_def intro!: safe_rules)

lemma safe_instructions_3 [failures]:
  "safe I (cpu_errors E) (InstrSubCarry16 sk q)"
  "safe I (cpu_errors E) (InstrSubCarryImm sk)"
  "safe I (cpu_errors E) (ok (InstrComp8 r))"
  "safe I (cpu_errors E) (InstrComp16 sk q)"
  "safe I (cpu_errors E) (InstrCompImm sk)"
  "safe I (cpu_errors E) (ok (InstrDec16 q))"
  "safe I (cpu_errors E) (ok (InstrDec8 r))"
  "safe I (cpu_errors E) (ok (InstrXor8 r))"
  "safe I (cpu_errors E) (InstrXor16 sk q)"
  "safe I (cpu_errors E) (InstrXorImm sk)"
  "safe I (cpu_errors E) (ok (InstrAnd8 r))"
  "safe I (cpu_errors E) (InstrAnd16 sk q)"
  "safe I (cpu_errors E) (InstrAndImm sk)"
  "safe I (cpu_errors E) (ok (InstrOr8 r))"
  "safe I (cpu_errors E) (InstrOr16 sk q)"
  "safe I (cpu_errors E) (InstrOrImm sk)"
  "safe I (cpu_errors E) (InstrJump sk)"
  "safe I (cpu_errors E) (ok (InstrJump16 q))"
  "safe I (cpu_errors E) (InstrJumpAddr sk)"
  "safe I (cpu_errors E) (InstrJumpIf sk b)"
  by (auto simp: safe_def ok_def instr_defs Let_def intro!: safe_rules)

lemma safe_instructions_4 [failures]:
  "safe I (cpu_errors E) (InstrJumpAddrIf sk b)"
  "safe I (cpu_errors E) (ok (InstrBitN8 i r))"
  "safe I (cpu_errors E) (InstrBitN16 sk i q)"
  "safe I (cpu_errors E) (ok (InstrSetBitN8 i r))"
  "safe I (cpu_errors E) (InstrSetBitN16 sk i q)"
  "safe I (cpu_errors E) (InstrCall sk)"
  "safe I (cpu_errors E) (InstrCallIf sk b)"
  "safe I (cpu_errors E) (InstrRet sk)"
  "safe I (cpu_errors E) (InstrRetI sk)"
  "safe I (cpu_errors E) (InstrPush sk q)"
  "safe I (cpu_errors E) (InstrPop sk q)"
  "safe I (cpu_errors E) (ok (InstrMov r r'))"
  "safe I (cpu_errors E) (ok (InstrRotLeft8 r))"
  "safe I (cpu_errors E) (InstrRotLeft16 sk q)"
  "safe I (cpu_errors E) (ok (InstrRotRight8 r))"
  "safe I (cpu_errors E) (InstrRotRight16 sk q)"
  "safe I (cpu_errors E) (ok InstrRotLeftA)"
  "safe I (cpu_errors E) (ok (InstrShiftRight8 r))"
  "safe I (cpu_errors E) (InstrShiftRight16 sk q)"
  "safe I (cpu_errors E) (ok InstrDI)"
  by (auto simp: safe_def ok_def instr_defs Let_def intro!: safe_rules)

lemma safe_instructions_5 [failures]:
  "safe I (cpu_errors E) (ok InstrEI)"
  "safe I (cpu_errors E) (InstrRetIf sk b)"
  "safe I (cpu_errors E) (ok (InstrSwap8 r))"
  "safe I (cpu_errors E) (InstrSwap16 sk q)"
  "safe I (cpu_errors E) (InstrRST sk v)"
  "safe I (cpu_errors E) (ok (InstrResetBit8 i r))"
  "safe I (cpu_errors E) (InstrResetBit16 sk i q)"
  "safe I (cpu_errors E) (ok InstrComplement)"
  "safe I (cpu_errors E) (ok (InstrSLA8 r))"
  "safe I (cpu_errors E) (InstrSLA16 sk q)"
  "safe I (cpu_errors E) (ok InstrEmu)"
  "safe I (cpu_errors E) (ok InstrDAA)"
  "safe I (cpu_errors E) (ok InstrSCF)"
  "safe I (cpu_errors E) (ok InstrCCF)"
  "safe I (cpu_errors E) (ok (InstrSRA8 r))"
  "safe I (cpu_errors E) (InstrSRA16 sk q)"
  "safe I (cpu_errors E) (InstrLoadC sk)"
  by (auto simp: safe_def ok_def instr_defs Let_def intro!: safe_rules)

lemma safe_LoadH [failures]: "safe I (cpu_errors E) (InstrLoadH sk r)"
  by (auto simp: safe_def InstrLoadH_def Let_def last_page intro!: safe_rules)

lemma safe_halt [failures]: "safe I (cpu_errors E) (InstrHalt sk)"
proof -
  have "I (sys s) \<Longrightarrow> safe_res I (cpu_errors E) (halt_loop n sk s)" for n s
    by (induction n arbitrary: s) (simp_all add: Let_def cpu_errors_def wait_keeps)
  then show ?thesis by (simp add: safe_def InstrHalt_def)
qed

lemma safe_conditional [failures]:
  "safe I (cpu_errors E) (\<lambda>s. InstrJumpIf sk (c s) s)"
  "safe I (cpu_errors E) (\<lambda>s. InstrJumpAddrIf sk (c s) s)"
  "safe I (cpu_errors E) (\<lambda>s. InstrCallIf sk (c s) s)"
  "safe I (cpu_errors E) (\<lambda>s. InstrRetIf sk (c s) s)"
  "safe I (cpu_errors E) (\<lambda>s. InstrStoreInc sk q (w s) s)"
  "safe I (cpu_errors E) (\<lambda>s. InstrStoreDec sk q (w s) s)"
  "safe I (cpu_errors E) (\<lambda>s. InstrStore_u8 sk (w s) r s)"
  "safe I (cpu_errors E) (\<lambda>s. rbind (FetchNext2InstrBytes sk s)
     (\<lambda>(addr, s). InstrLoad_addr sk rA addr s))"
  by (auto simp: safe_def instr_defs Let_def intro!: safe_rules)

lemma safe_cb_rows: "list_all (list_all (safe I (cpu_errors E))) (cb_rows sk)"
  by (simp add: cb_rows_def cb_row_defs failures)

lemma safe_prefix_cb [failures]: "safe I (cpu_errors E) (prefix_cb sk)"
proof -
  have "safe I (cpu_errors E) (lookup_handler (cb_rows sk) op)" for op
    using safe_cb_rows cb_rows_size by (rule lookup_handler_all)
  then show ?thesis
    by (auto simp: safe_def prefix_cb_def intro!: safe_rules)
qed

end

section \<open>Opcodes that end the simulation\<close>

text \<open>
  The opcodes the hardware does not define, less 0xD3, which the emulator uses for semihosting. STOP,
  opcode 0x10, is not implemented.
\<close>

definition undefined_opcodes :: "u8 list" where
  "undefined_opcodes = [0xDB, 0xDD, 0xE3, 0xE4, 0xEB, 0xEC, 0xED, 0xF4, 0xFC, 0xFD]"

definition entry_safe :: "('m \<Rightarrow> bool) \<Rightarrow> sim_error set \<Rightarrow> u8 \<Rightarrow> 'm handler \<Rightarrow> bool" where
  "entry_safe I E op h \<longleftrightarrow>
     (if op \<in> set undefined_opcodes then (\<forall>s. h s = Inl (UnknownInstruction op))
      else if op = 0x10 then (\<forall>s. h s = Inl (NotImplemented op))
      else safe I E h)"

definition opcode_errors :: "sim_error set" where
  "opcode_errors = insert (NotImplemented 0x10) (UnknownInstruction ` set undefined_opcodes)"

context safe_socket
begin

lemma safe_main_row:
  assumes "i < 16"
  shows "list_all2 (entry_safe I (cpu_errors E)) (opcodes i) (main_rows sk ! i)"
  using assms unfolding less_16_cases
  by (auto simp: main_rows_def row_defs opcodes_def entry_safe_def undefined_opcodes_def
      unknown_instruction_def failures)

lemma execute_entry_safe: "entry_safe I (cpu_errors E) op (execute sk op)"
  unfolding execute_def [abs_def] by (rule lookup_indexed) (rule safe_main_row)

lemma execute_safe: "safe I (cpu_errors E \<union> opcode_errors) (execute sk op)"
  using execute_entry_safe [of op]
  by (auto simp: entry_safe_def safe_def opcode_errors_def split: if_splits
      intro: safe_res_mono)

lemma HandleInterrupts_safe: "safe I (cpu_errors E) (HandleInterrupts sk)"
proof -
  have push: "safe I (cpu_errors E) (InstrPush sk rPC)"
    by (rule failures)
  show ?thesis
    using push by (auto simp: safe_def HandleInterrupts_def Let_def acknowledge_def pending_keeps
        intro!: safe_res_rbind [where E = "cpu_errors E"])
qed

lemma sync_time_keeps: "I (sys s) \<Longrightarrow> I (sys (sync_time sk s))"
  by (simp add: sync_time_def Let_def wait_keeps)

lemma fetch_execute_safe:
  assumes "I (sys s)"
  shows "safe_res I (cpu_errors E \<union> opcode_errors)
    (rbind (FetchNextInstrByte sk s) (\<lambda>(op, u). rbind (execute sk op u) (\<lambda>v. Inr (sync_time sk v))))"
proof (cases "FetchNextInstrByte sk s")
  case (Inl e)
  have "safe_res I (cpu_errors E) (rbind (FetchNextInstrByte sk s) (\<lambda>(v, t). Inr t))"
    using assms by (intro safe_Fetch) simp_all
  with Inl show ?thesis by simp
next
  case (Inr r)
  obtain op t where r: "r = (op, t)" by fastforce
  have "safe_res I (cpu_errors E) (rbind (FetchNextInstrByte sk s) (\<lambda>(v, t). Inr t))"
    using assms by (intro safe_Fetch) simp_all
  with Inr r have "I (sys t)" by simp
  then have "safe_res I (cpu_errors E \<union> opcode_errors)
      (rbind (execute sk op t) (\<lambda>v. Inr (sync_time sk v)))"
    using execute_safe [of op]
    by (intro safe_res_rbind [where E = "cpu_errors E \<union> opcode_errors"])
      (simp_all add: safe_def sync_time_keeps)
  with Inr r show ?thesis by simp
qed

lemma machine_cycle_safe: "safe I (cpu_errors E \<union> opcode_errors) (machine_cycle sk)"
  unfolding safe_def machine_cycle_def Let_def
  using HandleInterrupts_safe
  by (auto simp: safe_def intro!: fetch_execute_safe safe_res_rbind [where E = "cpu_errors E"])

lemma run_cycles_safe: "safe I (cpu_errors E \<union> opcode_errors) (run_cycles n sk)"
proof -
  have "I (sys s) \<Longrightarrow> safe_res I (cpu_errors E \<union> opcode_errors) (run_cycles n sk s)" for s
  proof (induction n arbitrary: s)
    case (Suc n)
    then show ?case
      using machine_cycle_safe
      by (auto simp: safe_def intro!: safe_res_rbind [where E = "cpu_errors E \<union> opcode_errors"])
  qed simp
  then show ?thesis by (simp add: safe_def)
qed

end

section \<open>The test bench\<close>

text \<open>Its memory answers everywhere, so the bus contributes no error.\<close>

interpretation tb_safe: safe_socket testbench_socket tb_good "{}"
proof
  fix m :: GenericMemory and pl :: payload
  assume good: "tb_good m"
  have "unat (address pl) < memory_size m"
    using unat_u16_less good by (simp add: tb_good_def)
  then obtain pl' m' where mem: "mem_b_transport pl m = Inr (pl', m')"
    using mem_b_transport_in_bounds by fast
  then show "keeps tb_good {} (sk_b_transport testbench_socket pl m)"
    using good mem_b_transport_size [OF mem]
    by (simp add: testbench_b_transport on_part_def tb_good_def)
qed (simp_all add: tb_good_def)

end
