(* ===== verification/Cpu_Alu.thy ===== *)
theory Cpu_Alu
  imports Cpu_Ops
begin

text \<open>
  The arithmetic of the 8-bit and 16-bit instructions: the value and the four flags each handler
  leaves, stated on natural numbers and integers, where there is no wrap-around.
\<close>

section \<open>Byte arithmetic\<close>

lemma unat_and_15: "unat ((a :: u8) AND 0x0F) = unat a mod 16"
proof -
  have "unat (a AND 0x0F) = unat a AND 0x0F"
    by (simp add: unsigned_and_eq)
  then show ?thesis
    using take_bit_eq_mask [of 4 "unat a"] by (simp add: mask_eq_exp_minus_1 take_bit_eq_mod)
qed

lemma uint_and_15: "uint ((a :: u8) AND 0x0F) = int (unat a mod 16)"
  by (metis uint_nat unat_and_15)

lemma mod_of_sum: "x < 2 * m \<Longrightarrow> x mod m = (if x < m then x else x - m)" for x m :: nat
  by (simp add: le_mod_geq)

lemma unat_add_u8: "unat (a + b :: u8) = (if unat a + unat b < 256 then unat a + unat b
  else unat a + unat b - 256)"
  using unat_u8_less [of a] unat_u8_less [of b]
  by (simp add: unat_word_ariths mod_of_sum)

lemma unat_sub_u8: "unat (a - b :: u8) = (if unat b \<le> unat a then unat a - unat b
  else unat a + 256 - unat b)"
  using unat_sub_if_size [of a b] by (simp add: word_size)

lemma add_carry_out: "(a + b :: u8) < b \<longleftrightarrow> 256 \<le> unat a + unat b"
  using unat_u8_less [of a] unat_u8_less [of b]
  by (auto simp: word_less_nat_alt unat_add_u8)

lemma sub_borrow_out: "a < (a - b :: u8) \<longleftrightarrow> unat a < unat b"
  using unat_u8_less [of a] unat_u8_less [of b]
  by (auto simp: word_less_nat_alt unat_sub_u8)

lemma of_bool_eq_1_u8 [simp]: "(of_bool c :: u8) = 1 \<longleftrightarrow> c"
  by (cases c) auto

lemma uint_of_bool_u8: "uint (of_bool c :: u8) = of_bool c"
  by (cases c) auto

lemma unat_of_bool_u8: "unat (of_bool c :: u8) = of_bool c"
  by (cases c) auto

text \<open>
  The carry test of ADC and SBC on the result alone: the sum wrapped if it is below the old value, or
  equal to it although a carry came in.
\<close>

lemma adc_value:
  "unat (a + (b + of_bool c) :: u8) = (unat a + unat b + of_bool c) mod 256"
  by (simp add: unat_word_ariths mod_simps add.assoc unat_of_bool_u8)

lemma adc_carry_out:
  "(a + (b + of_bool c) :: u8) < a \<or> a + (b + of_bool c) = a \<and> c \<longleftrightarrow>
   256 \<le> unat a + unat b + of_bool c"
proof -
  define x where "x = unat a + unat b + of_bool c"
  have bounds: "unat a < 256" "unat b < 256" by (rule unat_u8_less)+
  have "unat (a + (b + of_bool c)) = (if x < 256 then x else x - 256)"
    using bounds by (simp only: adc_value x_def) (simp add: mod_of_sum)
  then show ?thesis
    using bounds by (auto simp: word_less_nat_alt word_unat_eq_iff x_def split: if_splits)
qed

lemma sbc_value:
  "unat (a - (b + of_bool c) :: u8) =
     (if unat b + of_bool c \<le> unat a then unat a - (unat b + of_bool c)
      else unat a + 256 - (unat b + of_bool c))"
proof -
  have "unat (b + of_bool c) = (if unat b + of_bool c < 256 then unat b + of_bool c else 0)"
    using unat_u8_less [of b] by (simp add: unat_add_u8 unat_of_bool_u8)
  then show ?thesis
    using unat_u8_less [of a] unat_u8_less [of b] by (cases c) (auto simp: unat_sub_u8)
qed

lemma sbc_borrow_out:
  "a < (a - (b + of_bool c) :: u8) \<or> a - (b + of_bool c) = a \<and> c \<longleftrightarrow>
   unat a < unat b + of_bool c"
  using unat_u8_less [of a] unat_u8_less [of b]
  by (auto simp: word_less_nat_alt word_unat_eq_iff sbc_value split: if_splits)

lemma carry_as_of_bool: "(if c then 1 else 0 :: u8) = of_bool c"
  by simp

section \<open>What an 8-bit operation promises\<close>

text \<open>
  The specification of the accumulator operations: the new value of A with the flags Z, N, H and C,
  from the operands and the carry as natural numbers.
\<close>

definition add_spec :: "nat \<Rightarrow> nat \<Rightarrow> nat \<Rightarrow> u8 \<times> bool \<times> bool \<times> bool \<times> bool" where
  "add_spec a b c =
     (of_nat (a + b + c), (a + b + c) mod 256 = 0, False,
      16 \<le> a mod 16 + b mod 16 + c, 256 \<le> a + b + c)"

definition sub_spec :: "nat \<Rightarrow> nat \<Rightarrow> nat \<Rightarrow> u8 \<times> bool \<times> bool \<times> bool \<times> bool" where
  "sub_spec a b c =
     (of_int (int a - int b - int c), a = b + c \<or> a + 256 = b + c, True,
      a mod 16 < b mod 16 + c, a < b + c)"

definition alu_out :: "'m cpu \<Rightarrow> u8 \<times> bool \<times> bool \<times> bool \<times> bool" where
  "alu_out s = (get8 s rA, GetFlagZ s, GetFlagN s, GetFlagH s, GetFlagC s)"

definition carry_in :: "'m cpu \<Rightarrow> nat" where
  "carry_in s = of_bool (GetFlagC s)"

lemma u8_eq_0_iff: "(w :: u8) = 0 \<longleftrightarrow> unat w = 0"
  by (simp add: unat_eq_0)

lemma add_carry_zero:
  "(a + (b + of_bool c) :: u8) = 0 \<longleftrightarrow> (unat a + unat b + of_bool c) mod 256 = 0"
  by (simp only: u8_eq_0_iff adc_value)

lemma sub_carry_zero:
  "(a - (b + of_bool c) :: u8) = 0 \<longleftrightarrow>
   unat a = unat b + of_bool c \<or> unat a + 256 = unat b + of_bool c"
  using unat_u8_less [of a] unat_u8_less [of b]
  by (auto simp: u8_eq_0_iff sbc_value split: if_splits)

lemma of_nat_unat_sum: "(of_nat (unat a + unat b + of_bool c) :: u8) = a + (b + of_bool c)"
  by (simp add: add.assoc)

lemma of_int_unat_diff:
  "(of_int (int (unat a) - int (unat b) - int (of_bool c)) :: u8) = a - (b + of_bool c)"
  by (cases c) (simp_all add: algebra_simps)

text \<open>The two core computations, as functions of the old accumulator, the operand and the carry.\<close>

lemma add_spec_words:
  "add_spec (unat a) (unat b) (of_bool c) =
     (a + (b + of_bool c), a + (b + of_bool c) = 0, False,
      uint (a AND 0x0F) + uint (b AND 0x0F) + of_bool c > 0x0F,
      a + (b + of_bool c) < a \<or> (a + (b + of_bool c) = a \<and> c))"
  unfolding add_spec_def of_nat_unat_sum add_carry_zero adc_carry_out uint_and_15
  by (cases c) auto

lemma sub_spec_words:
  "sub_spec (unat a) (unat b) (of_bool c) =
     (a - (b + of_bool c), a - (b + of_bool c) = 0, True,
      uint (a AND 0x0F) - uint (b AND 0x0F) - of_bool c < 0,
      a - (b + of_bool c) > a \<or> (a - (b + of_bool c) = a \<and> c))"
  unfolding sub_spec_def of_int_unat_diff sub_carry_zero sbc_borrow_out uint_and_15
  by (cases c) auto

section \<open>The accumulator instructions\<close>

lemmas alu_simps = Let_def flag_simps alu_out_def carry_in_def carry_as_of_bool uint_of_bool_u8

lemma add_spec_words_no_carry:
  "add_spec (unat a) (unat b) 0 =
     (a + b, a + b = 0, False, uint (a AND 0x0F) + uint (b AND 0x0F) > 0x0F, a + b < b)"
proof -
  have "a + b < a \<longleftrightarrow> a + b < b"
    using add_carry_out [of a b] add_carry_out [of b a] by (simp add: add.commute)
  then show ?thesis
    using add_spec_words [of a b False] by simp
qed

lemma sub_spec_words_no_borrow:
  "sub_spec (unat a) (unat b) 0 =
     (a - b, a - b = 0, True, uint (a AND 0x0F) - uint (b AND 0x0F) < 0, a < a - b)"
  using sub_spec_words [of a b False] by simp

lemma alu_AddA8:
  "r \<noteq> rF \<Longrightarrow> alu_out (InstrAddA8 r s) = add_spec (unat (get8 s rA)) (unat (get8 s r)) 0"
  by (cases "r = rA") (simp_all add: InstrAddA8_def alu_simps add_spec_words_no_carry)

lemma alu_AddACarry8:
  "r \<noteq> rF \<Longrightarrow>
   alu_out (InstrAddACarry8 r s) = add_spec (unat (get8 s rA)) (unat (get8 s r)) (carry_in s)"
  by (simp add: InstrAddACarry8_def alu_simps add_spec_words)

lemma alu_Sub8:
  "r \<noteq> rF \<Longrightarrow> alu_out (InstrSub8 r s) = sub_spec (unat (get8 s rA)) (unat (get8 s r)) 0"
  by (simp add: InstrSub8_def alu_simps sub_spec_words_no_borrow)

text \<open>
  SBC A,A reads its operand for the half-carry flag after A has changed; the flag is right all the
  same, because the new A is 0 or 0xFF.
\<close>

lemma uint_and_15_less: "uint ((a :: u8) AND 0x0F) < 16"
  by (simp add: uint_and_15)

lemma alu_SubCarry8:
  "r \<noteq> rF \<Longrightarrow>
   alu_out (InstrSubCarry8 r s) = sub_spec (unat (get8 s rA)) (unat (get8 s r)) (carry_in s)"
  by (cases "r = rA")
    (simp_all add: InstrSubCarry8_def alu_simps sub_spec_words uint_and_15_less)

lemma alu_Comp8:
  "r \<noteq> rF \<Longrightarrow>
   alu_out (InstrComp8 r s) =
     (get8 s rA, snd (sub_spec (unat (get8 s rA)) (unat (get8 s r)) 0))"
  by (simp add: InstrComp8_def alu_simps sub_spec_words_no_borrow)

lemma ReadBus_get:
  assumes "ReadBus sk a c s = Inr (v, t)"
  shows "get8 t r = get8 s r" "GetFlagC t = GetFlagC s"
  using same_core_get [OF ReadBus_same_core [OF assms]] by simp_all

lemma alu_memory_forms:
  assumes "ReadBus sk (get16 s q) kGbReadData s = Inr (v, t)"
  shows "map_sum id alu_out (InstrAddA16 sk q s) =
           Inr (add_spec (unat (get8 s rA)) (unat v) 0)"
    and "map_sum id alu_out (InstrAddACarry16 sk q s) =
           Inr (add_spec (unat (get8 s rA)) (unat v) (carry_in s))"
    and "map_sum id alu_out (InstrSub16 sk q s) =
           Inr (sub_spec (unat (get8 s rA)) (unat v) 0)"
    and "map_sum id alu_out (InstrSubCarry16 sk q s) =
           Inr (sub_spec (unat (get8 s rA)) (unat v) (carry_in s))"
    and "map_sum id alu_out (InstrComp16 sk q s) =
           Inr (get8 s rA, snd (sub_spec (unat (get8 s rA)) (unat v) 0))"
  by (simp_all add: InstrAddA16_def InstrAddACarry16_def InstrSub16_def InstrSubCarry16_def
      InstrComp16_def assms alu_simps ReadBus_get [OF assms] add_spec_words_no_carry
      add_spec_words sub_spec_words_no_borrow sub_spec_words)

lemma alu_immediate_forms:
  assumes "FetchNextInstrByte sk s = Inr (v, t)"
  shows "map_sum id alu_out (InstrAddAImm sk s) = Inr (add_spec (unat (get8 s rA)) (unat v) 0)"
    and "map_sum id alu_out (InstrAddACarryImm sk s) =
           Inr (add_spec (unat (get8 s rA)) (unat v) (carry_in s))"
    and "map_sum id alu_out (InstrSubImm sk s) = Inr (sub_spec (unat (get8 s rA)) (unat v) 0)"
    and "map_sum id alu_out (InstrSubCarryImm sk s) =
           Inr (sub_spec (unat (get8 s rA)) (unat v) (carry_in s))"
    and "map_sum id alu_out (InstrCompImm sk s) =
           Inr (get8 s rA, snd (sub_spec (unat (get8 s rA)) (unat v) 0))"
proof -
  have A: "get8 t rA = get8 s rA" and C: "GetFlagC t = GetFlagC s"
    using FetchNextInstrByte_get [OF assms] by simp_all
  show "map_sum id alu_out (InstrAddAImm sk s) = Inr (add_spec (unat (get8 s rA)) (unat v) 0)"
    by (simp add: InstrAddAImm_def assms alu_simps A add_spec_words_no_carry)
  show "map_sum id alu_out (InstrAddACarryImm sk s) =
      Inr (add_spec (unat (get8 s rA)) (unat v) (carry_in s))"
    by (simp add: InstrAddACarryImm_def assms alu_simps A C add_spec_words)
  show "map_sum id alu_out (InstrSubImm sk s) = Inr (sub_spec (unat (get8 s rA)) (unat v) 0)"
    by (simp add: InstrSubImm_def assms alu_simps A sub_spec_words_no_borrow)
  show "map_sum id alu_out (InstrSubCarryImm sk s) =
      Inr (sub_spec (unat (get8 s rA)) (unat v) (carry_in s))"
    by (simp add: InstrSubCarryImm_def assms alu_simps A C sub_spec_words)
  show "map_sum id alu_out (InstrCompImm sk s) =
      Inr (get8 s rA, snd (sub_spec (unat (get8 s rA)) (unat v) 0))"
    by (simp add: InstrCompImm_def assms alu_simps A sub_spec_words_no_borrow)
qed

section \<open>Increment, decrement and the 16-bit additions\<close>

lemma Suc_mod_16: "Suc m mod 16 = 0 \<longleftrightarrow> m mod 16 = 15"
  by (simp add: mod_Suc)

lemma u8_add_1_low_nibble: "(a + 1 :: u8) AND 0x0F = 0 \<longleftrightarrow> unat a mod 16 = 15"
proof -
  have "(a + 1) AND 0x0F = 0 \<longleftrightarrow> unat (a + 1) mod 16 = 0"
    by (simp add: u8_eq_0_iff unat_and_15)
  also have "unat (a + 1) mod 16 = Suc (unat a) mod 16"
    using unat_u8_less [of a] by (cases "unat a = 255") (simp_all add: unat_add_u8)
  finally show ?thesis by (simp only: Suc_mod_16)
qed

lemma u8_sub_1_low_nibble: "(a - 1 :: u8) AND 0x0F = 0x0F \<longleftrightarrow> unat a mod 16 = 0"
proof -
  have "(a - 1) AND 0x0F = 0x0F \<longleftrightarrow> unat (a - 1) mod 16 = 15"
    by (simp add: word_unat_eq_iff unat_and_15)
  also have "\<dots> \<longleftrightarrow> unat a mod 16 = 0"
  proof (cases "unat a")
    case 0
    then show ?thesis by (simp add: unat_sub_u8)
  next
    case (Suc k)
    then show ?thesis by (simp add: unat_sub_u8 Suc_mod_16)
  qed
  finally show ?thesis .
qed

lemma inc_dec_flags:
  assumes "r \<noteq> rF"
  shows "get8 (InstrInc8 r s) r = get8 s r + 1"
    and "GetFlagZ (InstrInc8 r s) \<longleftrightarrow> get8 s r = 255"
    and "GetFlagH (InstrInc8 r s) \<longleftrightarrow> unat (get8 s r) mod 16 = 15"
    and "\<not> GetFlagN (InstrInc8 r s)" "GetFlagC (InstrInc8 r s) = GetFlagC s"
    and "get8 (InstrDec8 r s) r = get8 s r - 1"
    and "GetFlagZ (InstrDec8 r s) \<longleftrightarrow> get8 s r = 1"
    and "GetFlagH (InstrDec8 r s) \<longleftrightarrow> unat (get8 s r) mod 16 = 0"
    and "GetFlagN (InstrDec8 r s)" "GetFlagC (InstrDec8 r s) = GetFlagC s"
proof -
  have wrap: "a + 1 = 0 \<longleftrightarrow> a = 255" for a :: u8
  proof -
    have "(255 :: u8) = - 1" by simp
    then show ?thesis
      by (metis eq_neg_iff_add_eq_0)
  qed
  show "get8 (InstrInc8 r s) r = get8 s r + 1"
    "GetFlagZ (InstrInc8 r s) \<longleftrightarrow> get8 s r = 255"
    "GetFlagH (InstrInc8 r s) \<longleftrightarrow> unat (get8 s r) mod 16 = 15"
    "\<not> GetFlagN (InstrInc8 r s)" "GetFlagC (InstrInc8 r s) = GetFlagC s"
    using assms by (simp_all add: InstrInc8_def alu_simps u8_add_1_low_nibble wrap)
  show "get8 (InstrDec8 r s) r = get8 s r - 1"
    "GetFlagZ (InstrDec8 r s) \<longleftrightarrow> get8 s r = 1"
    "GetFlagH (InstrDec8 r s) \<longleftrightarrow> unat (get8 s r) mod 16 = 0"
    "GetFlagN (InstrDec8 r s)" "GetFlagC (InstrDec8 r s) = GetFlagC s"
    using assms by (simp_all add: InstrDec8_def alu_simps u8_sub_1_low_nibble)
qed

text \<open>ADD HL,rr: the half carry leaves bit 11 and the carry bit 15.\<close>

lemma unat_and_0xFFF: "unat ((a :: u16) AND 0x0FFF) = unat a mod 4096"
proof -
  have "unat (a AND 0x0FFF) = unat a AND 0x0FFF"
    by (simp add: unsigned_and_eq)
  then show ?thesis
    using take_bit_eq_mask [of 12 "unat a"] by (simp add: mask_eq_exp_minus_1 take_bit_eq_mod)
qed

lemma uint_and_0xFFF: "uint ((a :: u16) AND 0x0FFF) = int (unat a mod 4096)"
  by (metis uint_nat unat_and_0xFFF)

lemma u16_carry_out: "(a + b :: u16) < a \<longleftrightarrow> 65536 \<le> unat a + unat b"
  using unat_u16_less [of a] unat_u16_less [of b]
  by (auto simp: word_less_nat_alt unat_word_ariths mod_of_sum)

lemma int_sum_exceeds: "4095 < int x + int y \<longleftrightarrow> 4096 \<le> x + y"
  by linarith

lemma AddHl_flags:
  assumes "q \<noteq> rAF"
  shows "get16 (InstrAddHl q s) rHL = get16 s rHL + get16 s q"
    and "GetFlagH (InstrAddHl q s) \<longleftrightarrow>
           4096 \<le> unat (get16 s rHL) mod 4096 + unat (get16 s q) mod 4096"
    and "GetFlagC (InstrAddHl q s) \<longleftrightarrow> 65536 \<le> unat (get16 s rHL) + unat (get16 s q)"
    and "\<not> GetFlagN (InstrAddHl q s)" "GetFlagZ (InstrAddHl q s) = GetFlagZ s"
  using assms by (simp_all add: InstrAddHl_def alu_simps uint_and_0xFFF int_sum_exceeds u16_carry_out)

text \<open>
  ADD SP,e and LD HL,SP+e take their flags from the exclusive or of the operands and the sum: its bit
  \<open>n\<close> is the carry into position \<open>n\<close> of the sum.
\<close>

lemma bit_add_carry:
  "bit (a + b :: int) n \<longleftrightarrow>
     (bit a n \<noteq> bit b n) \<noteq> (2 ^ n \<le> a mod 2 ^ n + b mod 2 ^ n)"
proof -
  define c where "c = (a mod 2 ^ n + b mod 2 ^ n) div 2 ^ n"
  have bounds: "0 \<le> a mod 2 ^ n" "a mod 2 ^ n < 2 ^ n" "0 \<le> b mod 2 ^ n" "b mod 2 ^ n < 2 ^ n"
    by simp_all
  have c: "c = (if 2 ^ n \<le> a mod 2 ^ n + b mod 2 ^ n then 1 else 0)"
  proof (cases "2 ^ n \<le> a mod 2 ^ n + b mod 2 ^ n")
    case True
    have "(a mod 2 ^ n + b mod 2 ^ n - 2 ^ n) div 2 ^ n = 0"
      using bounds True by (intro div_pos_pos_trivial) linarith+
    with True show ?thesis by (simp add: c_def div_pos_geq)
  next
    case False
    with bounds show ?thesis by (simp add: c_def div_pos_pos_trivial)
  qed
  have "(a + b) div 2 ^ n = a div 2 ^ n + b div 2 ^ n + c"
    unfolding c_def by (rule div_add1_eq)
  then show ?thesis
    by (auto simp: bit_iff_odd c split: if_splits)
qed

lemma and_0x100_eq: "(x AND 0x100 = 0x100) \<longleftrightarrow> bit (x :: int) 8"
  and and_0x10_eq: "(x AND 0x10 = 0x10) \<longleftrightarrow> bit (x :: int) 4"
proof -
  have "x AND 2 ^ n = of_bool (bit x n) * 2 ^ n" for n
    by (rule bit_eqI) (auto simp: bit_simps)
  from this [of 8] this [of 4]
  show "(x AND 0x100 = 0x100) \<longleftrightarrow> bit x 8" "(x AND 0x10 = 0x10) \<longleftrightarrow> bit x 4"
    by simp_all
qed

lemma carry_by_xor:
  assumes "n < 16"
  shows "bit (a XOR b XOR ((a + b) AND 0xFFFF) :: int) n \<longleftrightarrow> 2 ^ n \<le> a mod 2 ^ n + b mod 2 ^ n"
proof -
  have "bit (0xFFFF :: int) n"
    using assms bit_mask_iff [of 16 n, where ?'a = int] by (simp add: mask_eq_exp_minus_1)
  then show ?thesis
    by (auto simp: bit_simps bit_add_carry)
qed


text \<open>The same carries on natural numbers; the signed byte has the residues of the unsigned one.\<close>

lemma uint_mod_pow: "uint w mod 2 ^ n = int (unat w mod 2 ^ n)"
  by (simp only: uint_nat zmod_int of_nat_power of_nat_numeral)

lemma sint_mod_byte: "sint (v :: u8) mod 2 ^ n = int (unat v mod 2 ^ n)" if "n \<le> 8"
proof -
  have "sint v mod 2 ^ 8 = uint v"
    using uint_sint [of v] by (simp add: take_bit_eq_mod)
  then have "sint v mod 2 ^ n = uint v mod 2 ^ n"
    by (metis le_imp_power_dvd mod_mod_cancel that)
  then show ?thesis
    by (simp only: uint_mod_pow)
qed

lemma signed_byte_carry:
  assumes "n \<le> 8"
  shows "2 ^ n \<le> uint (x :: u16) mod 2 ^ n + sint (v :: u8) mod 2 ^ n \<longleftrightarrow>
    2 ^ n \<le> unat x mod 2 ^ n + unat v mod 2 ^ n"
proof -
  have "(2 :: int) ^ n = int (2 ^ n)" by simp
  moreover have "int (2 ^ n) \<le> int (unat x mod 2 ^ n) + int (unat v mod 2 ^ n) \<longleftrightarrow>
      2 ^ n \<le> unat x mod 2 ^ n + unat v mod 2 ^ n"
    by (simp only: of_nat_add [symmetric] of_nat_le_iff)
  ultimately show ?thesis
    unfolding uint_mod_pow sint_mod_byte [OF assms] by presburger
qed

lemma word_of_uint_plus_sint: "word_of_int (uint (x :: u16) + sint (v :: u8)) = x + scast v"
  by (simp only: wi_hom_add [symmetric] word_of_int_uint) simp

lemma AddSp_flags:
  assumes "FetchNextInstrByte sk s = Inr (v, t)" and "InstrAddSp sk s = Inr u"
  shows "get16 u rSP = get16 t rSP + scast v"
    and "GetFlagC u \<longleftrightarrow> 256 \<le> unat (get16 t rSP) mod 256 + unat v"
    and "GetFlagH u \<longleftrightarrow> 16 \<le> unat (get16 t rSP) mod 16 + unat v mod 16"
    and "\<not> GetFlagZ u" "\<not> GetFlagN u"
proof -
  have C: "2 ^ 8 \<le> uint x mod 2 ^ 8 + sint v mod 2 ^ 8 \<longleftrightarrow> 256 \<le> unat x mod 256 + unat v"
    for x :: u16
    using signed_byte_carry [of 8 x v] unat_u8_less [of v] by simp
  have H: "2 ^ 4 \<le> uint x mod 2 ^ 4 + sint v mod 2 ^ 4 \<longleftrightarrow> 16 \<le> unat x mod 16 + unat v mod 16"
    for x :: u16
    using signed_byte_carry [of 4 x v] by simp
  have u: "u = set_wait 16 (SetFlagZ False (SetFlagC (256 \<le> unat (get16 t rSP) mod 256 + unat v)
      (SetFlagN False (SetFlagH (16 \<le> unat (get16 t rSP) mod 16 + unat v mod 16)
        (put16 rSP (get16 t rSP + scast v) t)))))"
    using assms(2)
    unfolding InstrAddSp_def assms(1) rbind_simps prod.case Let_def and_0x100_eq and_0x10_eq
      carry_by_xor [of 8, simplified] carry_by_xor [of 4, simplified] C [simplified] H [simplified]
      word_of_uint_plus_sint
    by simp
  show "get16 u rSP = get16 t rSP + scast v"
    "GetFlagC u \<longleftrightarrow> 256 \<le> unat (get16 t rSP) mod 256 + unat v"
    "GetFlagH u \<longleftrightarrow> 16 \<le> unat (get16 t rSP) mod 16 + unat v mod 16"
    "\<not> GetFlagZ u" "\<not> GetFlagN u"
    by (simp_all add: u flag_simps)
qed

lemma LoadHlSpRel_flags:
  assumes "FetchNextInstrByte sk s = Inr (v, t)" and "InstrLoadHlSpRel sk s = Inr u"
  shows "get16 u rHL = get16 t rSP + scast v" and "get16 u rSP = get16 t rSP"
    and "GetFlagC u \<longleftrightarrow> 256 \<le> unat (get16 t rSP) mod 256 + unat v"
    and "GetFlagH u \<longleftrightarrow> 16 \<le> unat (get16 t rSP) mod 16 + unat v mod 16"
    and "\<not> GetFlagZ u" "\<not> GetFlagN u"
proof -
  have C: "2 ^ 8 \<le> uint x mod 2 ^ 8 + sint v mod 2 ^ 8 \<longleftrightarrow> 256 \<le> unat x mod 256 + unat v"
    for x :: u16
    using signed_byte_carry [of 8 x v] unat_u8_less [of v] by simp
  have H: "2 ^ 4 \<le> uint x mod 2 ^ 4 + sint v mod 2 ^ 4 \<longleftrightarrow> 16 \<le> unat x mod 16 + unat v mod 16"
    for x :: u16
    using signed_byte_carry [of 4 x v] by simp
  have u: "u = set_wait 12 (SetFlagZ False (SetFlagN False
      (SetFlagH (16 \<le> unat (get16 t rSP) mod 16 + unat v mod 16)
      (SetFlagC (256 \<le> unat (get16 t rSP) mod 256 + unat v)
        (put16 rHL (get16 t rSP + scast v) t)))))"
    using assms(2)
    unfolding InstrLoadHlSpRel_def assms(1) rbind_simps prod.case Let_def and_0x100_eq and_0x10_eq
      carry_by_xor [of 8, simplified] carry_by_xor [of 4, simplified] C [simplified] H [simplified]
      word_of_uint_plus_sint
    by simp
  show "get16 u rHL = get16 t rSP + scast v" "get16 u rSP = get16 t rSP"
    "GetFlagC u \<longleftrightarrow> 256 \<le> unat (get16 t rSP) mod 256 + unat v"
    "GetFlagH u \<longleftrightarrow> 16 \<le> unat (get16 t rSP) mod 16 + unat v mod 16"
    "\<not> GetFlagZ u" "\<not> GetFlagN u"
    by (simp_all add: u flag_simps)
qed

end
