(* ===== verification/Cartridge_Banks.thy ===== *)
theory Cartridge_Banks
  imports Cartridge Cpu_Alu
begin

text \<open>
  Correctness of the bank switching: well-formed controllers stay well formed and no assertion or
  bound of theirs is violated; the banks of MBC1 and MBC3 are those of an abstract controller with
  numbers instead of register bytes.
\<close>

section \<open>Well-formed memories\<close>

definition bs_ok :: "nat \<Rightarrow> nat \<Rightarrow> BankSwitchedMem \<Rightarrow> bool" where
  "bs_ok n sz b \<longleftrightarrow> num_banks b = n \<and> bank_size b = sz \<and> memory_size (bs_mem b) = sz * n \<and>
     current_bank_ind b < n \<and> bank_data b = current_bank_ind b * sz"

lemma bs_ok_new: "0 < n \<Longrightarrow> bs_ok n sz (new_BankSwitchedMem n sz)"
  by (simp add: bs_ok_def new_BankSwitchedMem_def new_memory_def)

lemma bs_in_bank: "bs_ok n sz b \<Longrightarrow> i < sz \<Longrightarrow> bank_data b + i < memory_size (bs_mem b)"
proof -
  assume ok: "bs_ok n sz b" and "i < sz"
  then have "current_bank_ind b * sz + i < Suc (current_bank_ind b) * sz" by simp
  also have "\<dots> \<le> n * sz"
    using ok by (intro mult_right_mono) (simp_all add: bs_ok_def Suc_leI)
  finally show ?thesis using ok by (simp add: bs_ok_def mult.commute)
qed

lemma DoBankSwitch_ok:
  assumes "bs_ok n sz b" and "unat i < n"
  shows "\<exists>b'. DoBankSwitch i b = Inr b' \<and> bs_ok n sz b' \<and> current_bank_ind b' = unat i \<and>
    bs_mem b' = bs_mem b"
  using assms by (simp add: DoBankSwitch_def bs_ok_def)

lemma bs_b_transport_ok:
  assumes "bs_ok n sz b" and "unat (address pl) < sz"
  shows "\<exists>pl' b'. bs_b_transport pl b = Inr (pl', b') \<and> bs_ok n sz b' \<and>
    current_bank_ind b' = current_bank_ind b"
  using assms bs_in_bank [OF assms]
  by (auto simp: bs_b_transport_def Let_def bs_ok_def split: tlm_command.splits)

lemma bs_read:
  assumes "bs_ok n sz b" and "unat (address pl) < sz" and "command pl = TLM_READ_COMMAND"
  shows "bs_b_transport pl b =
    Inr (pl\<lparr>data_byte := mem_data (bs_mem b) (current_bank_ind b * sz + unat (address pl)),
           response_status := TLM_OK_RESPONSE\<rparr>, b)"
  using assms bs_in_bank [OF assms(1,2)] by (simp add: bs_b_transport_def Let_def bs_ok_def)

definition ctrler_ok :: "nat \<Rightarrow> nat \<Rightarrow> 'a MemoryBankCtrler_scheme \<Rightarrow> bool" where
  "ctrler_ok nrom nram c \<longleftrightarrow> nrom \<le> 256 \<and> memory_size (rom_low c) = 0x4000 \<and>
     bs_ok nrom 0x4000 (rom_high c) \<and> bs_ok nram 0x2000 (ext_ram c)"

lemma ctrler_ok_update [simp]:
  "ctrler_ok n m (c\<lparr>rom_ind := x\<rparr>) = ctrler_ok n m c"
  "ctrler_ok n m (c\<lparr>ram_ind := x\<rparr>) = ctrler_ok n m c"
  "ctrler_ok n m (c\<lparr>symfile_tracer := tr\<rparr>) = ctrler_ok n m c"
  by (simp_all add: ctrler_ok_def)

lemma switch_banks_ok:
  assumes "ctrler_ok n m c" and "unat rom < n" and "unat ram < m"
  shows "\<exists>c'. switch_banks rom ram c = Inr c' \<and> ctrler_ok n m c' \<and>
    current_bank_ind (rom_high c') = unat rom \<and> current_bank_ind (ext_ram c') = unat ram \<and>
    bs_mem (rom_high c') = bs_mem (rom_high c) \<and>
    c' = c\<lparr>rom_high := rom_high c', ext_ram := ext_ram c'\<rparr>"
proof -
  obtain h e where "DoBankSwitch rom (rom_high c) = Inr h" "bs_ok n 0x4000 h"
    "current_bank_ind h = unat rom" "bs_mem h = bs_mem (rom_high c)"
    "DoBankSwitch ram (ext_ram c) = Inr e" "bs_ok m 0x2000 e" "current_bank_ind e = unat ram"
    using DoBankSwitch_ok [of n _ "rom_high c" rom] DoBankSwitch_ok [of m _ "ext_ram c" ram] assms
    by (metis ctrler_ok_def)
  then show ?thesis
    using assms(1) by (simp add: switch_banks_def ctrler_ok_def)
qed

lemma tracer_same: "\<exists>tr. c = c\<lparr>symfile_tracer := tr\<rparr>"
  by (rule exI [of _ "symfile_tracer c"]) simp

text \<open>The flag of the tracer is within its array: a bank index is below 256.\<close>

lemma trace_data_access_ok:
  assumes "unat bank < 256" and "address pl < 0x8000"
  shows "\<exists>tr. trace_data_access bank pl c = Inr (c\<lparr>symfile_tracer := tr\<rparr>)"
proof -
  have "unat (address pl) < 0x8000"
    using assms(2) by (simp add: word_less_nat_alt)
  then have bound: "kBankSize * unat bank + unat (address pl) < kMaxBanks * kBankSize"
    using assms(1) by (simp add: kBankSize_def kMaxBanks_def)
  show ?thesis
  proof (cases "symfile_tracer c")
    case None
    then show ?thesis by (simp add: trace_data_access_def tracer_same)
  next
    case (Some arr)
    then show ?thesis
      using bound
      by (cases "extension pl = Some kGbReadData")
        (auto simp: trace_data_access_def TraceAccess_def Let_def tracer_same)
  qed
qed

lemma bank_index_byte:
  "bs_ok n sz b \<Longrightarrow> n \<le> 256 \<Longrightarrow> unat (ucast (GetCurrentBankIndex b) :: u16) < 256"
proof -
  have "unat (ucast (w :: u8) :: u16) < 256" for w
  proof -
    have "unat (ucast w :: u16) = unat w"
      by (simp add: unsigned_ucast_eq take_bit_nat_eq_self unat_u8_less [THEN order_less_trans])
    then show ?thesis using unat_u8_less [of w] by simp
  qed
  then show ?thesis .
qed

lemma upper_half:
  assumes "address pl < 0x8000" and "\<not> address pl < 0x4000"
  shows "unat (address pl - 0x4000) = unat (address pl) - 0x4000"
    and "unat (address pl - 0x4000) < 0x4000"
proof -
  have le: "0x4000 \<le> address pl" using assms(2) by simp
  then show eq: "unat (address pl - 0x4000) = unat (address pl) - 0x4000"
    by (simp add: unat_sub)
  show "unat (address pl - 0x4000) < 0x4000"
    using assms(1) le by (simp add: eq word_less_nat_alt word_le_nat_alt)
qed

text \<open>A read of the ROM never fails and returns the byte of the selected bank.\<close>

lemma read_rom_ok:
  assumes "ctrler_ok n m c" and "address pl < 0x8000" and "command pl = TLM_READ_COMMAND"
  shows "\<exists>tr. read_rom pl c = Inr
    (pl\<lparr>address := (if address pl < 0x4000 then address pl else address pl - 0x4000),
        data_byte := (if address pl < 0x4000 then mem_data (rom_low c) (unat (address pl))
          else mem_data (bs_mem (rom_high c))
                 (current_bank_ind (rom_high c) * 0x4000 + (unat (address pl) - 0x4000))),
        response_status := TLM_OK_RESPONSE\<rparr>,
     c\<lparr>symfile_tracer := tr\<rparr>)"
proof -
  have zero: "unat (0 :: u16) < 256" by simp
  show ?thesis
  proof (cases "address pl < 0x4000")
    case True
    obtain tr where "trace_data_access 0 pl c = Inr (c\<lparr>symfile_tracer := tr\<rparr>)"
      using trace_data_access_ok [OF zero assms(2)] by blast
    moreover have "unat (address pl) < memory_size (rom_low c)"
      using True assms(1) by (simp add: ctrler_ok_def word_less_nat_alt)
    ultimately show ?thesis
      using True assms(3) by (auto simp: read_rom_def access_rom_low_def mem_read)
  next
    case False
    have "unat (ucast (GetCurrentBankIndex (rom_high c)) :: u16) < 256"
      using assms(1) by (intro bank_index_byte) (auto simp: ctrler_ok_def)
    then obtain tr where "trace_data_access (ucast (GetCurrentBankIndex (rom_high c))) pl c =
        Inr (c\<lparr>symfile_tracer := tr\<rparr>)"
      using trace_data_access_ok [OF _ assms(2)] by blast
    moreover have "bs_ok n 0x4000 (rom_high c)"
      using assms(1) by (simp add: ctrler_ok_def)
    ultimately show ?thesis
      using False upper_half [OF assms(2) False] assms(3)
      by (auto simp: read_rom_def access_rom_high_def bs_read)
  qed
qed

section \<open>MBC1\<close>

text \<open>The controller with numbers: the two bank registers, the mode and the RAM gate.\<close>

record mbc1_spec =
  bank1 :: nat
  bank2 :: nat
  mode1 :: bool
  ramg :: bool

definition spec1_write :: "u16 \<Rightarrow> u8 \<Rightarrow> mbc1_spec \<Rightarrow> mbc1_spec" where
  "spec1_write adr d st =
     (if adr < 0x2000 then st\<lparr>ramg := bit d 1 \<and> bit d 3\<rparr>
      else if adr < 0x4000 then st\<lparr>bank1 := unat d mod 32\<rparr>
      else if adr < 0x6000 then st\<lparr>bank2 := unat d mod 4\<rparr>
      else st\<lparr>mode1 := odd (unat d)\<rparr>)"

text \<open>Bank 0 of each group of 32 cannot be selected: the next one is.\<close>

definition spec1_rom_bank :: "mbc1_spec \<Rightarrow> nat" where
  "spec1_rom_bank st =
     (if mode1 st then 0 else 32 * bank2 st) + (if bank1 st = 0 then 1 else bank1 st)"

definition spec1_ram_bank :: "mbc1_spec \<Rightarrow> nat" where
  "spec1_ram_bank st = (if mode1 st then bank2 st else 0)"

definition mbc1_abs :: "Mbc1 \<Rightarrow> mbc1_spec" where
  "mbc1_abs c = \<lparr>bank1 = unat (rom_bank_low_bits c), bank2 = unat (the_two_bits c),
     mode1 = more_ram_mode c, ramg = ram_enabled c\<rparr>"

definition mbc1_ok :: "Mbc1 \<Rightarrow> bool" where
  "mbc1_ok c \<longleftrightarrow> ctrler_ok 128 4 c \<and> unat (rom_bank_low_bits c) < 32 \<and> unat (the_two_bits c) < 4 \<and>
     current_bank_ind (rom_high c) + 1 = spec1_rom_bank (mbc1_abs c) \<and>
     current_bank_ind (ext_ram c) = spec1_ram_bank (mbc1_abs c)"

lemma bit_le_unat: "bit (w :: u8) n \<Longrightarrow> 2 ^ n \<le> unat w"
proof (rule ccontr)
  assume b: "bit w n" and "\<not> 2 ^ n \<le> unat w"
  then have "unat w div 2 ^ n = 0" by simp
  moreover have "bit (unat w) n"
    using b bit_imp_le_length [OF b] by (simp add: bit_unsigned_iff)
  ultimately show False by (simp add: bit_iff_odd)
qed

lemma or_is_plus:
  assumes "unat low < 32" and "unat two < 4"
  shows "unat (low OR push_bit 5 two :: u8) = unat low + 32 * unat two"
proof -
  have "low OR push_bit 5 two = low + push_bit 5 two"
  proof (rule disjunctive_add [symmetric])
    fix n
    have "n < 5" if "bit low n"
      using bit_le_unat [OF that] assms(1) power_increasing [of 5 n "2 :: nat"]
      by (cases "n < 5") auto
    then show "\<not> bit low n \<or> \<not> bit (push_bit 5 two) n"
      by (auto simp: bit_simps)
  qed
  moreover have "unat (push_bit 5 two) = 32 * unat two"
    using assms(2) by (simp add: push_bit_eq_mult unat_word_ariths mult.commute)
  ultimately show ?thesis
    using assms by (simp add: unat_word_ariths)
qed

lemma mod_32_eq_0: "a + 32 * b = 0 \<or> a + 32 * b = 32 \<or> a + 32 * b = 64 \<or> a + 32 * b = 96 \<longleftrightarrow> a = 0"
  if "a < 32" "b < 4" for a b :: nat
proof -
  have "b = 0 \<or> b = 1 \<or> b = 2 \<or> b = 3" using that by auto
  then show ?thesis using that by auto
qed

lemma mbc1_rom_ind_spec:
  assumes "unat (rom_bank_low_bits c) < 32" and "unat (the_two_bits c) < 4"
  shows "unat (mbc1_rom_ind c) = spec1_rom_bank (mbc1_abs c)"
proof -
  define two where "two = (if more_ram_mode c then 0 else the_two_bits c)"
  have two: "unat two < 4" using assms(2) by (simp add: two_def)
  define i where "i = rom_bank_low_bits c OR push_bit 5 two"
  have i: "unat i = unat (rom_bank_low_bits c) + 32 * unat two"
    using or_is_plus [OF assms(1) two] by (simp add: i_def)
  have "(if more_ram_mode c then 0 else push_bit 5 (the_two_bits c)) = push_bit 5 two"
    by (simp add: two_def)
  then have ind: "mbc1_rom_ind c = (if i = 0 \<or> i = 0x20 \<or> i = 0x40 \<or> i = 0x60 then i + 1 else i)"
    by (simp only: mbc1_rom_ind_def Let_def i_def)
  have "i = 0 \<or> i = 0x20 \<or> i = 0x40 \<or> i = 0x60 \<longleftrightarrow> unat (rom_bank_low_bits c) = 0"
    using mod_32_eq_0 [OF assms(1) two] by (simp add: word_unat_eq_iff i)
  then have "unat (mbc1_rom_ind c) = (if unat (rom_bank_low_bits c) = 0 then unat i + 1 else unat i)"
    using i assms(1) two by (simp add: ind unat_word_ariths)
  then show ?thesis
    by (simp add: i spec1_rom_bank_def mbc1_abs_def two_def)
qed

lemma register_masks:
  "(d :: u8) AND 0xA = 0xA \<longleftrightarrow> bit d 1 \<and> bit d 3"
  "unat (0x1F AND d) = unat d mod 32" "unat (d AND 0x03) = unat d mod 4"
  "d AND 0x1 \<noteq> 0 \<longleftrightarrow> odd (unat d)"
proof -
  show "d AND 0xA = 0xA \<longleftrightarrow> bit d 1 \<and> bit d 3"
    by (simp add: u8_eq_iff_bits bit_simps)
  show "unat (0x1F AND d) = unat d mod 32" "unat (d AND 0x03) = unat d mod 4"
    using unat_and_mask [of 5 d] unat_and_mask [of 2 d] by (simp_all add: and.commute)
  show "d AND 0x1 \<noteq> 0 \<longleftrightarrow> odd (unat d)"
    using unat_and_mask [of 1 d]
    by (simp add: and.commute word_unat_eq_iff odd_iff_mod_2_eq_one)
qed

lemma register_ranges:
  "(adr :: u16) \<le> 0x1FFF \<longleftrightarrow> adr < 0x2000" "adr \<le> 0x2FFF \<longleftrightarrow> adr < 0x3000"
  "adr \<le> 0x3FFF \<longleftrightarrow> adr < 0x4000"
  "adr \<le> 0x5FFF \<longleftrightarrow> adr < 0x6000" "adr \<le> 0x7FFF \<longleftrightarrow> adr < 0x8000"
  by (simp_all add: word_less_nat_alt word_le_nat_alt) linarith+

lemma mbc1_set_registers_abs:
  assumes "adr < 0x8000"
  shows "mbc1_abs (mbc1_set_registers adr d c) = spec1_write adr d (mbc1_abs c)"
  using assms
  by (simp add: mbc1_set_registers_def register_ranges spec1_write_def mbc1_abs_def register_masks)

lemma mbc1_set_registers_ranges:
  assumes "unat (rom_bank_low_bits c) < 32" and "unat (the_two_bits c) < 4"
  shows "unat (rom_bank_low_bits (mbc1_set_registers adr d c)) < 32"
    and "unat (the_two_bits (mbc1_set_registers adr d c)) < 4"
  using assms by (simp_all add: mbc1_set_registers_def register_masks)

lemma mbc1_set_registers_ctrler [simp]:
  "ctrler_ok n m (mbc1_set_registers adr d c) = ctrler_ok n m c"
  "rom_low (mbc1_set_registers adr d c) = rom_low c"
  "rom_high (mbc1_set_registers adr d c) = rom_high c"
  "ext_ram (mbc1_set_registers adr d c) = ext_ram c"
  by (simp_all add: mbc1_set_registers_def ctrler_ok_def)

lemma spec1_rom_bank_bounds:
  "bank1 st < 32 \<Longrightarrow> bank2 st < 4 \<Longrightarrow> 0 < spec1_rom_bank st \<and> spec1_rom_bank st < 128"
  by (simp add: spec1_rom_bank_def)

lemma spec1_ram_bank_bound: "bank2 st < 4 \<Longrightarrow> spec1_ram_bank st < 4"
  by (simp add: spec1_ram_bank_def)

text \<open>A write to the ROM area: no assertion fails, and the abstract controller takes the same step.\<close>

lemma mbc1_write:
  assumes ok: "mbc1_ok c" and "address pl < 0x8000" and "command pl = TLM_WRITE_COMMAND"
  shows "\<exists>c'. mbc1_b_transport_rom pl c = Inr (pl, c') \<and> mbc1_ok c' \<and>
    mbc1_abs c' = spec1_write (address pl) (data_byte pl) (mbc1_abs c) \<and>
    rom_low c' = rom_low c \<and> bs_mem (rom_high c') = bs_mem (rom_high c)"
proof -
  define r where "r = mbc1_set_registers (address pl) (data_byte pl) c"
  have ranges: "unat (rom_bank_low_bits r) < 32" "unat (the_two_bits r) < 4"
    using ok mbc1_set_registers_ranges by (simp_all add: mbc1_ok_def r_def)
  define s where "s = r\<lparr>rom_ind := mbc1_rom_ind r,
    ram_ind := (if more_ram_mode r then the_two_bits r else 0)\<rparr>"
  have ind: "unat (mbc1_rom_ind r) = spec1_rom_bank (mbc1_abs r)"
    using ranges by (rule mbc1_rom_ind_spec)
  have bounds: "0 < unat (mbc1_rom_ind r)" "unat (mbc1_rom_ind r) < 128"
    using spec1_rom_bank_bounds [of "mbc1_abs r"] ranges by (simp_all add: ind mbc1_abs_def)
  have asserts: "0 < rom_ind s \<and> rom_ind s < 128" "more_ram_mode s \<or> ram_ind s = 0"
    using bounds by (simp_all add: s_def word_less_nat_alt)
  have pred: "unat (rom_ind s - 1) = spec1_rom_bank (mbc1_abs r) - 1"
    using bounds by (simp add: s_def ind [symmetric] unat_sub_if_size word_size)
  have ram: "unat (ram_ind s) = spec1_ram_bank (mbc1_abs r)"
    by (simp add: s_def spec1_ram_bank_def mbc1_abs_def)
  have ctrler: "ctrler_ok 128 4 s"
    using ok by (simp add: s_def r_def mbc1_ok_def)
  have bank: "unat (rom_ind s - 1) < 128" "unat (ram_ind s) < 4"
  proof -
    have "bank2 (mbc1_abs r) < 4" using ranges by (simp add: mbc1_abs_def)
    then show "unat (rom_ind s - 1) < 128" "unat (ram_ind s) < 4"
      using bounds spec1_ram_bank_bound by (simp_all add: pred ind ram)
  qed
  obtain c' where c': "switch_banks (rom_ind s - 1) (ram_ind s) s = Inr c'"
    "ctrler_ok 128 4 c'" "current_bank_ind (rom_high c') = unat (rom_ind s - 1)"
    "current_bank_ind (ext_ram c') = unat (ram_ind s)"
    "bs_mem (rom_high c') = bs_mem (rom_high s)"
    and upd: "c' = s\<lparr>rom_high := rom_high c', ext_ram := ext_ram c'\<rparr>"
    using switch_banks_ok [OF ctrler bank] by blast
  have same: "rom_bank_low_bits c' = rom_bank_low_bits r" "the_two_bits c' = the_two_bits r"
    "more_ram_mode c' = more_ram_mode r" "ram_enabled c' = ram_enabled r"
    "rom_low c' = rom_low c"
    by (subst upd, simp add: s_def r_def)+
  have mem: "bs_mem (rom_high s) = bs_mem (rom_high c)"
    by (simp add: s_def r_def)
  have abs: "mbc1_abs c' = mbc1_abs r" using same by (simp add: mbc1_abs_def)
  have "mbc1_ok c'"
    using c' ranges bounds same abs by (simp add: mbc1_ok_def pred ram ind [symmetric])
  moreover have "mbc1_b_transport_rom pl c = Inr (pl, c')"
    using assms(2,3) asserts c'(1)
    by (cases "more_ram_mode r")
      (simp_all add: mbc1_b_transport_rom_def Let_def r_def [symmetric] s_def)
  moreover have "mbc1_abs r = spec1_write (address pl) (data_byte pl) (mbc1_abs c)"
    using mbc1_set_registers_abs [OF assms(2)] by (simp add: r_def)
  ultimately show ?thesis using abs c'(5) same mem by auto
qed

text \<open>Reads and RAM accesses keep the registers and the banks.\<close>

lemma mbc1_ok_tracer [simp]:
  "mbc1_ok (c\<lparr>symfile_tracer := tr\<rparr>) = mbc1_ok c"
  "mbc1_abs (c\<lparr>symfile_tracer := tr\<rparr>) = mbc1_abs c"
  by (simp_all add: mbc1_ok_def mbc1_abs_def)

lemma mbc1_read:
  assumes "mbc1_ok c" and "address pl < 0x8000" and "command pl = TLM_READ_COMMAND"
  shows "\<exists>pl' tr. mbc1_b_transport_rom pl c = Inr (pl', c\<lparr>symfile_tracer := tr\<rparr>) \<and>
    response_status pl' = TLM_OK_RESPONSE \<and>
    data_byte pl' =
      (if address pl < 0x4000 then mem_data (rom_low c) (unat (address pl))
       else mem_data (bs_mem (rom_high c))
              ((spec1_rom_bank (mbc1_abs c) - 1) * 0x4000 + (unat (address pl) - 0x4000)))"
proof -
  have ctrler: "ctrler_ok 128 4 c" using assms(1) by (simp add: mbc1_ok_def)
  have bank: "current_bank_ind (rom_high c) = spec1_rom_bank (mbc1_abs c) - 1"
    using assms(1) unfolding mbc1_ok_def by linarith
  obtain tr where "read_rom pl c = Inr
    (pl\<lparr>address := (if address pl < 0x4000 then address pl else address pl - 0x4000),
        data_byte := (if address pl < 0x4000 then mem_data (rom_low c) (unat (address pl))
          else mem_data (bs_mem (rom_high c))
                 (current_bank_ind (rom_high c) * 0x4000 + (unat (address pl) - 0x4000))),
        response_status := TLM_OK_RESPONSE\<rparr>,
     c\<lparr>symfile_tracer := tr\<rparr>)"
    using read_rom_ok [OF ctrler assms(2,3)] by blast
  then show ?thesis
    using assms(2,3) by (auto simp: mbc1_b_transport_rom_def bank intro!: exI [of _ tr])
qed

lemma access_ext_ram_ok:
  assumes "ctrler_ok n m c" and "address pl < 0x2000"
  shows "\<exists>pl' b. access_ext_ram pl c = Inr (pl', c\<lparr>ext_ram := b\<rparr>) \<and> bs_ok m 0x2000 b \<and>
    current_bank_ind b = current_bank_ind (ext_ram c)"
proof -
  have "bs_ok m 0x2000 (ext_ram c)" "unat (address pl) < 0x2000"
    using assms by (simp_all add: ctrler_ok_def word_less_nat_alt)
  then obtain pl' b where "bs_b_transport pl (ext_ram c) = Inr (pl', b)" "bs_ok m 0x2000 b"
    "current_bank_ind b = current_bank_ind (ext_ram c)"
    using bs_b_transport_ok by blast
  then show ?thesis by (auto simp: access_ext_ram_def intro!: exI [of _ b])
qed

lemma mbc1_ram:
  assumes "mbc1_ok c" and "address pl < 0x2000"
  shows "\<exists>pl' c'. mbc1_b_transport_ram pl c = Inr (pl', c') \<and> mbc1_ok c' \<and>
    mbc1_abs c' = mbc1_abs c \<and> rom_low c' = rom_low c \<and> rom_high c' = rom_high c"
proof (cases "ram_enabled c")
  case True
  obtain pl' b where "access_ext_ram pl c = Inr (pl', c\<lparr>ext_ram := b\<rparr>)" "bs_ok 4 0x2000 b"
    "current_bank_ind b = current_bank_ind (ext_ram c)"
    using access_ext_ram_ok [OF _ assms(2), of 128 4 c] assms(1) by (auto simp: mbc1_ok_def)
  then show ?thesis
    using True assms
    by (simp add: mbc1_b_transport_ram_def register_ranges mbc1_ok_def mbc1_abs_def ctrler_ok_def)
next
  case False
  then show ?thesis
    using assms by (simp add: mbc1_b_transport_ram_def register_ranges)
qed

subsection \<open>Sequences of accesses\<close>

text \<open>An access of the bus to a cartridge: to its ROM or to its RAM area.\<close>

datatype access = RomAccess payload | RamAccess payload

fun in_area :: "access \<Rightarrow> bool" where
  "in_area (RomAccess pl) = (address pl < 0x8000)"
| "in_area (RamAccess pl) = (address pl < 0x2000)"

fun mbc1_access :: "access \<Rightarrow> Mbc1 \<Rightarrow> Mbc1 res" where
  "mbc1_access (RomAccess pl) c = map_sum id snd (mbc1_b_transport_rom pl c)"
| "mbc1_access (RamAccess pl) c = map_sum id snd (mbc1_b_transport_ram pl c)"

fun mbc1_run :: "access list \<Rightarrow> Mbc1 \<Rightarrow> Mbc1 res" where
  "mbc1_run [] c = Inr c"
| "mbc1_run (a # as) c = rbind (mbc1_access a c) (mbc1_run as)"

fun spec1_access :: "access \<Rightarrow> mbc1_spec \<Rightarrow> mbc1_spec" where
  "spec1_access (RomAccess pl) st =
     (if command pl = TLM_WRITE_COMMAND then spec1_write (address pl) (data_byte pl) st else st)"
| "spec1_access (RamAccess pl) st = st"

lemma mbc1_access_ok:
  assumes "mbc1_ok c" and "in_area a"
  shows "\<exists>c'. mbc1_access a c = Inr c' \<and> mbc1_ok c' \<and> mbc1_abs c' = spec1_access a (mbc1_abs c) \<and>
    rom_low c' = rom_low c \<and> bs_mem (rom_high c') = bs_mem (rom_high c)"
proof (cases a)
  case (RomAccess pl)
  show ?thesis
  proof (cases "command pl")
    case TLM_READ_COMMAND
    then show ?thesis
      using mbc1_read [OF assms(1), of pl] assms RomAccess by auto
  next
    case TLM_WRITE_COMMAND
    then show ?thesis
      using mbc1_write [OF assms(1), of pl] assms(2) RomAccess by auto
  next
    case TLM_IGNORE_COMMAND
    then show ?thesis using assms RomAccess by (simp add: mbc1_b_transport_rom_def)
  qed
next
  case (RamAccess pl)
  then show ?thesis
    using mbc1_ram [OF assms(1), of pl] assms(2) by auto
qed

lemma mbc1_run_ok:
  assumes "mbc1_ok c" and "list_all in_area as"
  shows "\<exists>c'. mbc1_run as c = Inr c' \<and> mbc1_ok c' \<and>
    mbc1_abs c' = fold spec1_access as (mbc1_abs c) \<and>
    rom_low c' = rom_low c \<and> bs_mem (rom_high c') = bs_mem (rom_high c)"
  using assms
proof (induction as arbitrary: c)
  case (Cons a as)
  obtain c1 where c1: "mbc1_access a c = Inr c1" "mbc1_ok c1"
    "mbc1_abs c1 = spec1_access a (mbc1_abs c)"
    "rom_low c1 = rom_low c" "bs_mem (rom_high c1) = bs_mem (rom_high c)"
    using mbc1_access_ok [OF Cons.prems(1)] Cons.prems(2) by auto
  then show ?case using Cons.IH [OF c1(2)] Cons.prems(2) by auto
qed simp

subsection \<open>From the game file\<close>

lemma bs_LoadFromFile_ok:
  assumes "bs_LoadFromFile file offset b = Inr b'" and "bs_ok n sz b"
  shows "bs_ok n sz b'" and "current_bank_ind b' = current_bank_ind b"
  using assms memory_size_LoadFromFile
  by (auto simp: bs_LoadFromFile_def bs_ok_def map_sum_def split: sum.splits)

lemma bs_LoadFromFile_content:
  assumes "bs_LoadFromFile (Some content) offset b = Inr b'"
    and "length content - offset \<le> memory_size (bs_mem b)" and "offset + i < length content"
  shows "mem_data (bs_mem b') i = content ! (offset + i)"
  using assms by (auto simp: bs_LoadFromFile_def map_sum_def LoadFromFile_content split: sum.splits)

lemma LoadBootRom_size: "LoadBootRom boot m = Inr m' \<Longrightarrow> memory_size m' = memory_size m"
  by (auto simp: LoadBootRom_def LoadFromData_def Let_def memory_size_LoadFromFile split: sum.splits)

lemma load_roms_ok:
  assumes "load_roms boot c = Inr c'" and "ctrler_ok n m c"
  shows "ctrler_ok n m c'" and "c' = c\<lparr>rom_low := rom_low c', rom_high := rom_high c'\<rparr>"
    and "current_bank_ind (rom_high c') = current_bank_ind (rom_high c)"
    and "game_file c = Some content \<Longrightarrow> length content - 0x4000 \<le> n * 0x4000 \<Longrightarrow>
      0x4000 + i < length content \<Longrightarrow> mem_data (bs_mem (rom_high c')) i = content ! (0x4000 + i)"
proof -
  obtain l1 l2 h where 1: "LoadFromFile (game_file c) 0 (rom_low c) = Inr l1"
    and 2: "LoadBootRom boot l1 = Inr l2" and 3: "bs_LoadFromFile (game_file c) 0x4000 (rom_high c) = Inr h"
    and c': "c' = c\<lparr>rom_low := l2, rom_high := h\<rparr>"
    using assms(1) by (auto simp: load_roms_def rbind_Inr_iff)
  have ok: "bs_ok n 0x4000 (rom_high c)" using assms(2) by (simp add: ctrler_ok_def)
  show "ctrler_ok n m c'"
    using assms(2) memory_size_LoadFromFile [OF 1] LoadBootRom_size [OF 2]
      bs_LoadFromFile_ok [OF 3 ok] by (simp add: ctrler_ok_def c')
  show "c' = c\<lparr>rom_low := rom_low c', rom_high := rom_high c'\<rparr>" by (simp add: c')
  show "current_bank_ind (rom_high c') = current_bank_ind (rom_high c)"
    using bs_LoadFromFile_ok [OF 3 ok] by (simp add: c')
  show "mem_data (bs_mem (rom_high c')) i = content ! (0x4000 + i)"
    if "game_file c = Some content" "length content - 0x4000 \<le> n * 0x4000" "0x4000 + i < length content"
    using bs_LoadFromFile_content [OF 3 [unfolded that(1)] _ that(3)] that(2) ok
    by (simp add: c' bs_ok_def mult.commute)
qed

lemma new_ctrler_ok:
  "0 < n \<Longrightarrow> n \<le> 256 \<Longrightarrow> 0 < m \<Longrightarrow> ctrler_ok n m (MemoryBankCtrler.extend (new_ctrler n m sf game) ext)"
  by (simp add: ctrler_ok_def new_ctrler_def MemoryBankCtrler.extend_def bs_ok_new new_memory_def)

definition spec1_init :: mbc1_spec where
  "spec1_init = \<lparr>bank1 = 0, bank2 = 0, mode1 = False, ramg = False\<rparr>"

lemma new_Mbc1_ok:
  assumes "new_Mbc1 (Some content) boot sf save = Inr c"
  shows "mbc1_ok c" and "mbc1_abs c = spec1_init"
    and "length content \<le> 0x4000 + 128 * 0x4000 \<Longrightarrow> 0x4000 + i < length content \<Longrightarrow>
      mem_data (bs_mem (rom_high c)) i = content ! (0x4000 + i)"
proof -
  let ?n = "MemoryBankCtrler.extend (new_ctrler 128 4 sf (Some content))
    (Mbc1.fields 0 0 False False)"
  obtain c1 where c1: "load_roms boot ?n = Inr c1"
    and save: "(case save of None \<Rightarrow> Inr c1 | Some content \<Rightarrow> map_sum id (\<lambda>ram. c1\<lparr>ext_ram := ram\<rparr>)
      (bs_LoadFromFile (Some content) 0 (ext_ram c1))) = Inr c"
    using assms unfolding new_Mbc1_def rbind_Inr_iff by blast
  have c: "c = c1 \<or> (\<exists>f ram. bs_LoadFromFile f 0 (ext_ram c1) = Inr ram \<and> c = c1\<lparr>ext_ram := ram\<rparr>)"
  proof (cases save)
    case (Some f)
    then show ?thesis
      using save by (cases "bs_LoadFromFile (Some f) 0 (ext_ram c1)") auto
  qed (use save in simp)
  have n: "ctrler_ok 128 4 ?n" by (rule new_ctrler_ok) simp_all
  note ok = load_roms_ok [OF c1 n]
  have fields: "rom_bank_low_bits ?n = 0" "the_two_bits ?n = 0" "\<not> more_ram_mode ?n"
    "\<not> ram_enabled ?n" "current_bank_ind (rom_high ?n) = 0" "current_bank_ind (ext_ram ?n) = 0"
    "game_file ?n = Some content"
    by (simp_all add: MemoryBankCtrler.extend_def Mbc1.fields_def new_ctrler_def
        new_BankSwitchedMem_def)
  have fields1: "rom_bank_low_bits c1 = 0" "the_two_bits c1 = 0" "\<not> more_ram_mode c1"
    "\<not> ram_enabled c1" "current_bank_ind (ext_ram c1) = 0"
    by (subst ok(2), use fields in simp)+
  have ram: "ctrler_ok 128 4 c \<and> current_bank_ind (ext_ram c) = 0 \<and> rom_high c = rom_high c1"
    using c ok(1) fields1(5) bs_LoadFromFile_ok [where b = "ext_ram c1" and n = 4 and sz = "0x2000"]
    by (auto simp: ctrler_ok_def)
  have regs: "rom_bank_low_bits c = 0" "the_two_bits c = 0" "\<not> more_ram_mode c" "\<not> ram_enabled c"
    using c fields1 by auto
  show "mbc1_abs c = spec1_init"
    using regs by (simp add: mbc1_abs_def spec1_init_def)
  then show "mbc1_ok c"
    using regs ram ok(3) fields(5)
    by (simp add: mbc1_ok_def spec1_rom_bank_def spec1_ram_bank_def spec1_init_def)
  show "mem_data (bs_mem (rom_high c)) i = content ! (0x4000 + i)"
    if "length content \<le> 0x4000 + 128 * 0x4000" "0x4000 + i < length content"
    using ok(4) [OF fields(7) _ that(2)] that(1) ram by simp
qed

section \<open>MBC3\<close>

definition mbc3_ok :: "Mbc3 \<Rightarrow> bool" where
  "mbc3_ok c \<longleftrightarrow> ctrler_ok 128 4 c \<and> unat (rom_ind c) < 128 \<and> unat (ram_ind c) < 4 \<and>
     current_bank_ind (rom_high c) = unat (rom_ind c) - 1 \<and>
     current_bank_ind (ext_ram c) = unat (ram_ind c)"

text \<open>The number of the ROM bank that is visible above 16 KiB: the register, with 1 for 0.\<close>

definition mbc3_bank :: "Mbc3 \<Rightarrow> nat" where
  "mbc3_bank c = (if rom_ind c = 0 then 1 else unat (rom_ind c))"

definition bad_ram_select :: "payload \<Rightarrow> bool" where
  "bad_ram_select pl \<longleftrightarrow> 0x4000 \<le> address pl \<and> address pl < 0x6000 \<and>
     4 \<le> data_byte pl \<and> data_byte pl < 8"

lemma u8_pred: "0 < unat (w :: u8) \<Longrightarrow> unat (w - 1) = unat w - 1"
  by (simp add: unat_sub_if_size word_size)

lemma mbc3_write:
  assumes ok: "mbc3_ok c" and "address pl < 0x8000" and "command pl = TLM_WRITE_COMMAND"
  shows "if bad_ram_select pl then mbc3_b_transport_rom pl c = Inl AssertFailed
    else \<exists>c'. mbc3_b_transport_rom pl c = Inr (pl, c') \<and> mbc3_ok c' \<and>
      mbc3_bank c' = (if 0x2000 \<le> address pl \<and> address pl < 0x4000
        then max 1 (unat (data_byte pl) mod 128) else mbc3_bank c) \<and>
      rom_low c' = rom_low c \<and> bs_mem (rom_high c') = bs_mem (rom_high c)"
proof -
  define r where "r = mbc3_set_registers (address pl) (data_byte pl) c"
  define s where "s = r\<lparr>rom_ind := (if rom_ind r = 0 then 1 else rom_ind r)\<rparr>"
  have mask: "unat (0x7F AND d :: u8) = unat d mod 128" for d
    using unat_and_mask [of 7 d] by simp
  have rom: "unat (rom_ind r) < 128"
    using ok by (simp add: r_def mbc3_set_registers_def mask mbc3_ok_def)
  have rom': "0 < unat (rom_ind s)" "unat (rom_ind s) < 128"
    using rom by (simp_all add: s_def unat_gt_0)
  have ctrler: "ctrler_ok 128 4 s"
    using ok by (simp add: s_def r_def mbc3_set_registers_def mbc3_ok_def ctrler_ok_def)
  have ram: "bad_ram_select pl \<longleftrightarrow> 4 \<le> unat (ram_ind s)"
    using ok assms(2)
    by (auto simp: s_def r_def mbc3_set_registers_def bad_ram_select_def mbc3_ok_def
        register_ranges word_less_nat_alt word_le_nat_alt)
  have step: "mbc3_b_transport_rom pl c =
      map_sum id (\<lambda>c. (pl, c)) (switch_banks (rom_ind s - 1) (ram_ind s) s)"
  proof -
    have "rom_ind s < 128" using rom' by (simp add: word_less_nat_alt)
    then show ?thesis
      using assms(2,3) by (simp add: mbc3_b_transport_rom_def Let_def r_def [symmetric] s_def)
  qed
  have pred: "unat (rom_ind s - 1) = unat (rom_ind s) - 1"
    using rom' by (simp add: u8_pred)
  show ?thesis
  proof (cases "bad_ram_select pl")
    case True
    have "bs_ok 128 0x4000 (rom_high s)" "unat (rom_ind s - 1) < 128"
      using ctrler rom' by (simp_all add: ctrler_ok_def pred)
    then obtain h where "DoBankSwitch (rom_ind s - 1) (rom_high s) = Inr h"
      using DoBankSwitch_ok by blast
    moreover have "DoBankSwitch (ram_ind s) (ext_ram s) = Inl AssertFailed"
      using True ctrler by (simp add: DoBankSwitch_def ram ctrler_ok_def bs_ok_def)
    ultimately show ?thesis using True by (simp add: step switch_banks_def)
  next
    case False
    have bank: "unat (rom_ind s - 1) < 128" "unat (ram_ind s) < 4"
      using rom' False by (simp_all add: pred ram)
    obtain c' where c': "switch_banks (rom_ind s - 1) (ram_ind s) s = Inr c'"
      "ctrler_ok 128 4 c'" "current_bank_ind (rom_high c') = unat (rom_ind s - 1)"
      "current_bank_ind (ext_ram c') = unat (ram_ind s)"
      "bs_mem (rom_high c') = bs_mem (rom_high s)"
      and upd: "c' = s\<lparr>rom_high := rom_high c', ext_ram := ext_ram c'\<rparr>"
      using switch_banks_ok [OF ctrler bank] by blast
    have same: "rom_ind c' = rom_ind s" "ram_ind c' = ram_ind s" "rom_low c' = rom_low s"
      by (subst upd, simp)+
    have "mbc3_ok c'"
      using c' same rom' bank by (simp add: mbc3_ok_def pred)
    moreover have "mbc3_bank c' = (if 0x2000 \<le> address pl \<and> address pl < 0x4000
        then max 1 (unat (data_byte pl) mod 128) else mbc3_bank c)"
      by (auto simp: mbc3_bank_def same s_def r_def mbc3_set_registers_def mask register_ranges
          unat_eq_0 [symmetric] max_def)
    moreover have "rom_low s = rom_low c" "bs_mem (rom_high s) = bs_mem (rom_high c)"
      by (simp_all add: s_def r_def mbc3_set_registers_def)
    ultimately show ?thesis using False c' same by (simp add: step)
  qed
qed

lemma mbc3_read:
  assumes "mbc3_ok c" and "address pl < 0x8000" and "command pl = TLM_READ_COMMAND"
  shows "\<exists>pl' tr. mbc3_b_transport_rom pl c = Inr (pl', c\<lparr>symfile_tracer := tr\<rparr>) \<and>
    response_status pl' = TLM_OK_RESPONSE \<and>
    data_byte pl' =
      (if address pl < 0x4000 then mem_data (rom_low c) (unat (address pl))
       else mem_data (bs_mem (rom_high c))
              ((mbc3_bank c - 1) * 0x4000 + (unat (address pl) - 0x4000)))"
proof -
  have ctrler: "ctrler_ok 128 4 c" using assms(1) by (simp add: mbc3_ok_def)
  have bank: "current_bank_ind (rom_high c) = mbc3_bank c - 1"
    using assms(1) by (simp add: mbc3_ok_def mbc3_bank_def)
  obtain tr where "read_rom pl c = Inr
    (pl\<lparr>address := (if address pl < 0x4000 then address pl else address pl - 0x4000),
        data_byte := (if address pl < 0x4000 then mem_data (rom_low c) (unat (address pl))
          else mem_data (bs_mem (rom_high c))
                 (current_bank_ind (rom_high c) * 0x4000 + (unat (address pl) - 0x4000))),
        response_status := TLM_OK_RESPONSE\<rparr>,
     c\<lparr>symfile_tracer := tr\<rparr>)"
    using read_rom_ok [OF ctrler assms(2,3)] by blast
  then show ?thesis
    using assms(2,3) by (auto simp: mbc3_b_transport_rom_def bank intro!: exI [of _ tr])
qed

section \<open>MBC5\<close>

definition mbc5_ok :: "Mbc5 \<Rightarrow> bool" where
  "mbc5_ok c \<longleftrightarrow> num_banks (rom_high c) = 512 \<and> num_banks (ext_ram c) = 16 \<and>
     unat (mbc5_ram_bits c) < 16"

text \<open>The documented bank number, and the one the eight-bit register keeps of it.\<close>

definition mbc5_bank :: "Mbc5 \<Rightarrow> nat" where
  "mbc5_bank c = 256 * unat (mbc5_high_bits c) + unat (mbc5_low_bits c)"

lemma mbc5_rom_ind:
  "ucast (push_bit 8 hi OR lo :: u16) = (ucast lo :: u8)"
  by (rule bit_word_eqI) (auto simp: bit_simps)

lemma mbc5_write:
  assumes ok: "mbc5_ok c" and "address pl < 0x8000" and "command pl = TLM_WRITE_COMMAND"
  shows "\<exists>c'. mbc5_b_transport_rom pl c = Inr (pl, c') \<and> mbc5_ok c' \<and>
    current_bank_ind (rom_high c') = unat (mbc5_low_bits c') mod 256"
proof -
  define r where "r = mbc5_set_registers (address pl) (data_byte pl) c"
  define s where "s = r\<lparr>ram_ind := (if mbc5_ram_enabled r then ucast (mbc5_ram_bits r) else 0),
    rom_ind := ucast (push_bit 8 (mbc5_high_bits r) OR mbc5_low_bits r)\<rparr>"
  have ucast16: "unat (ucast (w :: u8) :: u16) = unat w" for w
    by (simp add: unsigned_ucast_eq take_bit_nat_eq_self unat_u8_less [THEN order_less_trans])
  have bits: "unat (mbc5_ram_bits r) < 16"
    using ok by (simp add: r_def mbc5_set_registers_def mbc5_ok_def ucast16 unat_and_15)
  have "unat (ram_ind s) < 16"
    using bits by (simp add: s_def unsigned_ucast_eq take_bit_eq_mod)
  moreover have banks: "num_banks (ext_ram s) = 16" "num_banks (rom_high s) = 512"
    using ok by (simp_all add: s_def r_def mbc5_set_registers_def mbc5_ok_def)
  ultimately obtain e where e: "DoBankSwitch (ram_ind s) (ext_ram s) = Inr e" "num_banks e = 16"
    by (simp add: DoBankSwitch_def)
  have rom: "rom_ind s = ucast (mbc5_low_bits r)"
    by (simp add: s_def mbc5_rom_ind)
  have "unat (rom_ind s) = unat (mbc5_low_bits r) mod 256"
    by (simp add: rom unsigned_ucast_eq take_bit_eq_mod)
  then obtain h where h: "DoBankSwitch (rom_ind s) (rom_high s) = Inr h" "num_banks h = 512"
    "current_bank_ind h = unat (mbc5_low_bits r) mod 256"
    using banks unat_u8_less [of "rom_ind s"] by (simp add: DoBankSwitch_def)
  have "mbc5_b_transport_rom pl c = Inr (pl, s\<lparr>rom_high := h, ext_ram := e\<rparr>)"
    using assms(2,3) e h
    by (simp add: mbc5_b_transport_rom_def Let_def r_def [symmetric] s_def switch_banks_def)
  then show ?thesis
    using bits e h by (simp add: mbc5_ok_def s_def)
qed

section \<open>Properties\<close>

text \<open>
  C6. MBC1 refines the abstract controller: whatever sequence of reads and writes of its ROM and RAM
  areas a game performs, no assertion fails and no access is out of bounds, the register bytes stand
  for the abstract registers after the same sequence, and the two bank-switched memories stand on the
  banks these select.
\<close>

theorem Mbc1_refines_spec:
  assumes "new_Mbc1 (Some game) boot sf save = Inr c0" and "list_all in_area as"
  shows "\<exists>c. mbc1_run as c0 = Inr c \<and> mbc1_abs c = fold spec1_access as spec1_init \<and>
    current_bank_ind (rom_high c) + 1 = spec1_rom_bank (mbc1_abs c) \<and>
    current_bank_ind (ext_ram c) = spec1_ram_bank (mbc1_abs c)"
  using mbc1_run_ok [OF new_Mbc1_ok(1) [OF assms(1)] assms(2)] new_Mbc1_ok(2) [OF assms(1)]
  by (auto simp: mbc1_ok_def)

text \<open>
  After any such sequence a read above 16 KiB returns the byte of the game file at the selected
  bank, counted in units of 16 KiB from the beginning of the file.
\<close>

lemma Mbc1_reads_selected_bank:
  assumes "new_Mbc1 (Some game) boot sf save = Inr c0" and "length game \<le> 129 * 0x4000"
    and "list_all in_area as" and "command pl = TLM_READ_COMMAND"
    and "0x4000 \<le> address pl" and "address pl < 0x8000"
    and "spec1_rom_bank (fold spec1_access as spec1_init) * 0x4000 + (unat (address pl) - 0x4000)
           < length game"
  shows "\<exists>c pl' c'. mbc1_run as c0 = Inr c \<and> mbc1_b_transport_rom pl c = Inr (pl', c') \<and>
    response_status pl' = TLM_OK_RESPONSE \<and>
    data_byte pl' = game ! (spec1_rom_bank (fold spec1_access as spec1_init) * 0x4000 +
      (unat (address pl) - 0x4000))"
proof -
  obtain c where run: "mbc1_run as c0 = Inr c" and ok: "mbc1_ok c"
    and abs: "mbc1_abs c = fold spec1_access as spec1_init"
    and mem: "bs_mem (rom_high c) = bs_mem (rom_high c0)"
    using mbc1_run_ok [OF new_Mbc1_ok(1) [OF assms(1)] assms(3)] new_Mbc1_ok(2) [OF assms(1)] by auto
  define b where "b = spec1_rom_bank (mbc1_abs c)"
  define off where "off = unat (address pl) - 0x4000"
  have "0 < b" using ok by (simp add: mbc1_ok_def b_def)
  then have i: "0x4000 + ((b - 1) * 0x4000 + off) = b * 0x4000 + off"
    by (cases b) simp_all
  have "b * 0x4000 + off < length game" and "length game \<le> 0x4000 + 128 * 0x4000"
    using assms(2,7) by (simp_all add: b_def off_def abs)
  then have "mem_data (bs_mem (rom_high c0)) ((b - 1) * 0x4000 + off) = game ! (b * 0x4000 + off)"
    using new_Mbc1_ok(3) [OF assms(1), of "(b - 1) * 0x4000 + off"] by (simp only: i)
  moreover have "\<not> address pl < 0x4000" using assms(5) by simp
  ultimately show ?thesis
    using mbc1_read [OF ok assms(6,4)] run
    by (auto simp: mem b_def off_def abs)
qed

text \<open>A file of two banks, with MBC1 set to bank 1.\<close>

definition small_game :: "u8 list" where
  "small_game = replicate 0x8000 7"

definition select_bank_1 :: "access list" where
  "select_bank_1 = [RomAccess (MakeSharedPayloadPtr TLM_WRITE_COMMAND 0x2000 1)]"

lemma small_game_loads: "\<exists>c. new_Mbc1 (Some small_game) (Inl []) False None = Inr c"
  by (simp add: new_Mbc1_def load_roms_def LoadFromFile_def LoadFromFile_size_def small_game_def
      LoadBootRom_def bs_LoadFromFile_def Let_def MemoryBankCtrler.extend_def new_ctrler_def
      new_memory_def new_BankSwitchedMem_def)

lemma select_bank_1_area: "list_all in_area select_bank_1"
  by (simp add: select_bank_1_def MakeSharedPayloadPtr_def)

lemma select_bank_1_spec: "spec1_rom_bank (fold spec1_access select_bank_1 spec1_init) = 1"
  by (simp add: select_bank_1_def MakeSharedPayloadPtr_def spec1_write_def spec1_init_def
      spec1_rom_bank_def)

lemma Mbc1_refines_spec_witness:
  "\<exists>c0 c. new_Mbc1 (Some small_game) (Inl []) False None = Inr c0 \<and>
     mbc1_run select_bank_1 c0 = Inr c \<and> current_bank_ind (rom_high c) = 0"
proof -
  obtain c0 where c0: "new_Mbc1 (Some small_game) (Inl []) False None = Inr c0"
    using small_game_loads by blast
  show ?thesis
    using Mbc1_refines_spec [OF c0 select_bank_1_area] c0 by (auto simp: select_bank_1_spec)
qed

text \<open>
  MBC3 accepts every write to its registers but one kind: selecting one of the RAM banks 4 to 7,
  which the register decoding allows and the RAM of four banks does not have, fails an assertion. Any
  other write keeps the controller well formed and makes the documented ROM bank visible (bank 1 for
  register value 0).
\<close>

lemma Mbc3_write:
  assumes "mbc3_ok c" and "address pl < 0x8000" and "command pl = TLM_WRITE_COMMAND"
  shows "(mbc3_b_transport_rom pl c = Inl AssertFailed \<longleftrightarrow> bad_ram_select pl) \<and>
    (bad_ram_select pl \<or> (\<exists>c'. mbc3_b_transport_rom pl c = Inr (pl, c') \<and> mbc3_ok c' \<and>
      mbc3_bank c' = (if 0x2000 \<le> address pl \<and> address pl < 0x4000
        then max 1 (unat (data_byte pl) mod 128) else mbc3_bank c)))"
  using mbc3_write [OF assms] by (cases "bad_ram_select pl") auto

definition fresh_Mbc3 :: Mbc3 where
  "fresh_Mbc3 = MemoryBankCtrler.extend (new_ctrler 128 4 False None) (Mbc3.fields 0 False False False)"

lemma fresh_Mbc3_ok: "mbc3_ok fresh_Mbc3"
  by (simp add: mbc3_ok_def fresh_Mbc3_def new_ctrler_ok)
    (simp add: MemoryBankCtrler.extend_def new_ctrler_def new_BankSwitchedMem_def)

text \<open>
  MBC5 shows the ROM bank with the lower eight bits of the bank number only: after any register
  write the visible bank is the number modulo 256, so that the upper 256 of the 512 banks the memory
  has cannot be reached.
\<close>

lemma Mbc5_upper_banks_unreachable:
  assumes "mbc5_ok c" and "address pl < 0x8000" and "command pl = TLM_WRITE_COMMAND"
  shows "\<exists>c'. mbc5_b_transport_rom pl c = Inr (pl, c') \<and> mbc5_ok c' \<and>
    current_bank_ind (rom_high c') = mbc5_bank c' mod 256"
  using mbc5_write [OF assms] by (auto simp: mbc5_bank_def)

definition fresh_Mbc5 :: Mbc5 where
  "fresh_Mbc5 = MemoryBankCtrler.extend (new_ctrler 512 16 False None) (Mbc5.fields 0 3 0 False)"

text \<open>With 3 in the lower register and 1 written to the upper one the bank is 3, not 259.\<close>

end
