(* ===== verification/Cartridge_Safety.thy ===== *)
theory Cartridge_Safety
  imports Cartridge_Banks
begin

text \<open>
  Every access of the bus to a cartridge, whatever its controller, stays within the memories of the
  controller: it keeps the invariant \<open>mbc_ok\<close> and can only end in a failed assertion.
\<close>

section \<open>The invariant\<close>

definition mbc5_bounded :: "Mbc5 \<Rightarrow> bool" where
  "mbc5_bounded c \<longleftrightarrow> memory_size (rom_low c) = 0x4000 \<and> bs_ok 512 0x4000 (rom_high c) \<and>
     bs_ok 16 0x2000 (ext_ram c) \<and> unat (mbc5_ram_bits c) < 16"

fun mbc_game_file :: "mbc \<Rightarrow> u8 list option" where
  "mbc_game_file (MbcRom c) = game_file c"
| "mbc_game_file (MbcOne c) = game_file c"
| "mbc_game_file (MbcThree c) = game_file c"
| "mbc_game_file (MbcFive c) = game_file c"

fun mbc_bounded :: "mbc \<Rightarrow> bool" where
  "mbc_bounded (MbcRom c) = ctrler_ok 1 1 c"
| "mbc_bounded (MbcOne c) = mbc1_ok c"
| "mbc_bounded (MbcThree c) = mbc3_ok c"
| "mbc_bounded (MbcFive c) = mbc5_bounded c"

definition mbc_ok :: "mbc \<Rightarrow> bool" where
  "mbc_ok c \<longleftrightarrow> mbc_bounded c \<and> mbc_game_file c \<noteq> None"

section \<open>The boot ROM\<close>

lemma LoadFromFile_0_ok:
  "\<exists>m'. LoadFromFile (Some content) 0 m = Inr m' \<and> memory_size m' = memory_size m"
  by (simp add: LoadFromFile_def LoadFromFile_size_def)

lemma mbc_rom_low_put [simp]: "mbc_rom_low (mbc_put_rom_low m c) = m"
  by (cases c) simp_all

lemma mbc_bounded_put:
  "mbc_bounded c \<Longrightarrow> memory_size m = 0x4000 \<Longrightarrow> mbc_bounded (mbc_put_rom_low m c)"
  by (cases c) (simp_all add: ctrler_ok_def mbc1_ok_def mbc1_abs_def mbc3_ok_def mbc5_bounded_def)

lemma mbc_bounded_rom_low: "mbc_bounded c \<Longrightarrow> memory_size (mbc_rom_low c) = 0x4000"
  by (cases c) (simp_all add: ctrler_ok_def mbc1_ok_def mbc3_ok_def mbc5_bounded_def)

lemma mbc_put_rom_low_fields [simp]:
  "mbc_game_file (mbc_put_rom_low m c) = mbc_game_file c"
  "mbc_tracer (mbc_put_rom_low m c) = mbc_tracer c"
  by (cases c; simp)+

lemma mbc_UnmapBootRom_eq:
  "mbc_UnmapBootRom c =
    map_sum id (\<lambda>m. mbc_put_rom_low m c) (LoadFromFile (mbc_game_file c) 0 (mbc_rom_low c))"
  by (cases c) (simp_all add: UnmapBootRom_def map_sum.compositionality comp_def id_def)

lemma SigHandler_ok:
  assumes "mbc_ok c"
  shows "\<exists>c'. SigHandler c = Inr c' \<and> mbc_ok c' \<and> mbc_tracer c' = mbc_tracer c"
proof -
  obtain content where "mbc_game_file c = Some content"
    using assms by (auto simp: mbc_ok_def)
  then show ?thesis
    using assms LoadFromFile_0_ok [of content "mbc_rom_low c"]
    by (auto simp: SigHandler_def mbc_UnmapBootRom_eq mbc_ok_def mbc_bounded_put mbc_bounded_rom_low)
qed

section \<open>Accesses\<close>

lemma bs_b_transport_keeps:
  assumes "bs_ok n sz b" and "unat (address pl) < sz"
  shows "keeps (bs_ok n sz) E (bs_b_transport pl b)"
  using bs_b_transport_ok [OF assms] by auto

lemma access_rom_low_keeps:
  assumes "ctrler_ok n m c" and "address pl < 0x4000"
  shows "\<exists>pl' l. access_rom_low pl c = Inr (pl', c\<lparr>rom_low := l\<rparr>) \<and> memory_size l = 0x4000"
proof -
  have "unat (address pl) < memory_size (rom_low c)"
    using assms by (simp add: ctrler_ok_def word_less_nat_alt)
  then obtain pl' l where "mem_b_transport pl (rom_low c) = Inr (pl', l)"
    using mem_b_transport_in_bounds by fast
  then show ?thesis
    using mem_b_transport_size assms(1) by (fastforce simp: access_rom_low_def ctrler_ok_def)
qed

lemma access_rom_high_keeps:
  assumes "ctrler_ok n m c" and "address pl < 0x8000" and "\<not> address pl < 0x4000"
  shows "\<exists>pl' b. access_rom_high (pl\<lparr>address := address pl - 0x4000\<rparr>) c =
    Inr (pl', c\<lparr>rom_high := b\<rparr>) \<and> bs_ok n 0x4000 b \<and>
    current_bank_ind b = current_bank_ind (rom_high c)"
proof -
  have "bs_ok n 0x4000 (rom_high c)" using assms(1) by (simp add: ctrler_ok_def)
  then obtain pl' b where "bs_b_transport (pl\<lparr>address := address pl - 0x4000\<rparr>) (rom_high c) =
      Inr (pl', b)" "bs_ok n 0x4000 b" "current_bank_ind b = current_bank_ind (rom_high c)"
    using bs_b_transport_ok [of n "0x4000" "rom_high c" "pl\<lparr>address := address pl - 0x4000\<rparr>"]
      upper_half [OF assms(2,3)] by auto
  then show ?thesis by (auto simp: access_rom_high_def intro!: exI [of _ b])
qed

lemma read_rom_keeps:
  assumes "ctrler_ok n m c" and "address pl < 0x8000"
  shows "\<exists>pl' tr l h. read_rom pl c =
      Inr (pl', c\<lparr>symfile_tracer := tr, rom_low := l, rom_high := h\<rparr>) \<and>
    memory_size l = 0x4000 \<and> bs_ok n 0x4000 h \<and>
    current_bank_ind h = current_bank_ind (rom_high c)"
proof (cases "address pl < 0x4000")
  case True
  have "unat (0 :: u16) < 256" by simp
  then obtain tr where tr: "trace_data_access 0 pl c = Inr (c\<lparr>symfile_tracer := tr\<rparr>)"
    using trace_data_access_ok [OF _ assms(2)] by blast
  have "ctrler_ok n m (c\<lparr>symfile_tracer := tr\<rparr>)" using assms(1) by simp
  then obtain pl' l where "access_rom_low pl (c\<lparr>symfile_tracer := tr\<rparr>) =
      Inr (pl', c\<lparr>symfile_tracer := tr, rom_low := l\<rparr>)" "memory_size l = 0x4000"
    using access_rom_low_keeps [OF _ True, of n m "c\<lparr>symfile_tracer := tr\<rparr>"] by auto
  then show ?thesis
    using True tr assms(1)
    by (auto simp: read_rom_def ctrler_ok_def intro!: exI [of _ tr] exI [of _ l]
        exI [of _ "rom_high c"])
next
  case False
  have "unat (ucast (GetCurrentBankIndex (rom_high c)) :: u16) < 256"
    using assms(1) by (intro bank_index_byte) (auto simp: ctrler_ok_def)
  then obtain tr where tr: "trace_data_access (ucast (GetCurrentBankIndex (rom_high c))) pl c =
      Inr (c\<lparr>symfile_tracer := tr\<rparr>)"
    using trace_data_access_ok [OF _ assms(2)] by blast
  have "ctrler_ok n m (c\<lparr>symfile_tracer := tr\<rparr>)" using assms(1) by simp
  then obtain pl' h where
    "access_rom_high (pl\<lparr>address := address pl - 0x4000\<rparr>) (c\<lparr>symfile_tracer := tr\<rparr>) =
      Inr (pl', c\<lparr>symfile_tracer := tr, rom_high := h\<rparr>)" "bs_ok n 0x4000 h"
    "current_bank_ind h = current_bank_ind (rom_high c)"
    using access_rom_high_keeps [OF _ assms(2) False, of n m "c\<lparr>symfile_tracer := tr\<rparr>"] by auto
  then show ?thesis
    using False tr assms(1)
    by (auto simp: read_rom_def ctrler_ok_def intro!: exI [of _ tr] exI [of _ "rom_low c"]
        exI [of _ h])
qed

subsection \<open>The ROM area\<close>

lemma rom_area_Rom:
  assumes "ctrler_ok 1 1 c" and "address pl < 0x8000"
  shows "keeps (\<lambda>c'. ctrler_ok 1 1 c' \<and> game_file c' = game_file c) E (rom_b_transport_rom pl c)"
proof -
  obtain pl' tr l h where "read_rom pl c =
      Inr (pl', c\<lparr>symfile_tracer := tr, rom_low := l, rom_high := h\<rparr>)"
    "memory_size l = 0x4000" "bs_ok 1 0x4000 h"
    using read_rom_keeps [OF assms] by blast
  then show ?thesis
    using assms by (simp add: rom_b_transport_rom_def ctrler_ok_def)
qed

text \<open>No access changes where the game comes from.\<close>

lemma game_file_access:
  "access_rom_low pl c = Inr (pl', c') \<Longrightarrow> game_file c' = game_file c"
  "access_rom_high pl c = Inr (pl', c') \<Longrightarrow> game_file c' = game_file c"
  "access_ext_ram pl c = Inr (pl', c') \<Longrightarrow> game_file c' = game_file c"
  "trace_data_access bank pl c = Inr c' \<Longrightarrow> game_file c' = game_file c"
  "switch_banks rom ram c = Inr c' \<Longrightarrow> game_file c' = game_file c"
  by (auto simp: access_rom_low_def access_rom_high_def access_ext_ram_def trace_data_access_def
      switch_banks_def map_sum_def rbind_Inr_iff split: sum.splits option.splits if_splits)

lemma game_file_read_rom: "read_rom pl c = Inr (pl', c') \<Longrightarrow> game_file c' = game_file c"
  by (auto simp: read_rom_def rbind_Inr_iff game_file_access split: if_splits)

lemma game_file_registers [simp]:
  "game_file (mbc1_set_registers a d c1) = game_file c1"
  "game_file (mbc3_set_registers a d c3) = game_file c3"
  "game_file (mbc5_set_registers a d c5) = game_file c5"
  by (simp_all add: mbc1_set_registers_def mbc3_set_registers_def mbc5_set_registers_def)

lemma game_file_rom_area:
  "mbc1_b_transport_rom pl c1 = Inr (pl', c1') \<Longrightarrow> game_file c1' = game_file c1"
  "mbc3_b_transport_rom pl c3 = Inr (pl', c3') \<Longrightarrow> game_file c3' = game_file c3"
  "mbc5_b_transport_rom pl c5 = Inr (pl', c5') \<Longrightarrow> game_file c5' = game_file c5"
  by (auto simp: mbc1_b_transport_rom_def mbc3_b_transport_rom_def mbc5_b_transport_rom_def Let_def
      map_sum_def game_file_read_rom game_file_access dest!: game_file_access(5)
      split: sum.splits tlm_command.splits if_splits)

lemma game_file_ram_area:
  "mbc1_b_transport_ram pl c1 = Inr (pl', c1') \<Longrightarrow> game_file c1' = game_file c1"
  "mbc3_b_transport_ram now pl c3 = Inr (pl', c3') \<Longrightarrow> game_file c3' = game_file c3"
  "mbc5_b_transport_ram pl c5 = Inr (pl', c5') \<Longrightarrow> game_file c5' = game_file c5"
  by (auto simp: mbc1_b_transport_ram_def mbc3_b_transport_ram_def mbc5_b_transport_ram_def Let_def
      game_file_access split: if_splits)

text \<open>The invariant after an access to the ROM area, controller by controller.\<close>

lemma rom_area_Mbc1:
  assumes "mbc1_ok c" and "address pl < 0x8000"
  shows "keeps mbc1_ok E (mbc1_b_transport_rom pl c)"
proof (cases "command pl")
  case TLM_READ_COMMAND
  then obtain pl' tr where "mbc1_b_transport_rom pl c = Inr (pl', c\<lparr>symfile_tracer := tr\<rparr>)"
    using mbc1_read [OF assms] by blast
  then show ?thesis using assms(1) by simp
next
  case TLM_WRITE_COMMAND
  then show ?thesis using mbc1_write [OF assms] by auto
next
  case TLM_IGNORE_COMMAND
  then show ?thesis using assms by (simp add: mbc1_b_transport_rom_def)
qed

lemma mbc3_ok_tracer [simp]: "mbc3_ok (c\<lparr>symfile_tracer := tr\<rparr>) = mbc3_ok c"
  by (simp add: mbc3_ok_def)

lemma rom_area_Mbc3:
  assumes "mbc3_ok c" and "address pl < 0x8000"
  shows "keeps mbc3_ok {AssertFailed} (mbc3_b_transport_rom pl c)"
proof (cases "command pl")
  case TLM_READ_COMMAND
  then obtain pl' tr where "mbc3_b_transport_rom pl c = Inr (pl', c\<lparr>symfile_tracer := tr\<rparr>)"
    using mbc3_read [OF assms] by blast
  then show ?thesis using assms(1) by simp
next
  case TLM_WRITE_COMMAND
  then show ?thesis using mbc3_write [OF assms] by (auto split: if_splits)
next
  case TLM_IGNORE_COMMAND
  then show ?thesis using assms by (simp add: mbc3_b_transport_rom_def)
qed

lemma unat_ucast_u8_u16: "unat (ucast (w :: u8) :: u16) = unat w"
  by (simp add: unsigned_ucast_eq take_bit_nat_eq_self unat_u8_less [THEN order_less_trans])

lemma mbc5_bounded_switch:
  assumes "mbc5_bounded c" and "unat ram < 16"
  shows "\<exists>c'. switch_banks rom ram c = Inr c' \<and> mbc5_bounded c'"
proof -
  have ok: "bs_ok 512 0x4000 (rom_high c)" "bs_ok 16 0x2000 (ext_ram c)"
    using assms(1) by (simp_all add: mbc5_bounded_def)
  have "unat rom < 512" using unat_u8_less [of rom] by simp
  then obtain h e where "DoBankSwitch rom (rom_high c) = Inr h" "bs_ok 512 0x4000 h"
    "DoBankSwitch ram (ext_ram c) = Inr e" "bs_ok 16 0x2000 e"
    using DoBankSwitch_ok [OF ok(1)] DoBankSwitch_ok [OF ok(2) assms(2)] by blast
  then show ?thesis
    using assms(1) by (simp add: switch_banks_def mbc5_bounded_def)
qed

lemma rom_area_Mbc5:
  assumes "mbc5_bounded c" and "address pl < 0x8000"
  shows "keeps mbc5_bounded E (mbc5_b_transport_rom pl c)"
proof (cases "command pl")
  case TLM_READ_COMMAND
  show ?thesis
  proof (cases "address pl < 0x4000")
    case True
    then have "unat (address pl) < memory_size (rom_low c)"
      using assms(1) by (simp add: mbc5_bounded_def word_less_nat_alt)
    then show ?thesis
      using TLM_READ_COMMAND True assms
      by (simp add: mbc5_b_transport_rom_def register_ranges access_rom_low_def mem_read
          mbc5_bounded_def)
  next
    case False
    have "bs_ok 512 0x4000 (rom_high c)" using assms(1) by (simp add: mbc5_bounded_def)
    then show ?thesis
      using TLM_READ_COMMAND False assms upper_half [OF assms(2) False]
      by (simp add: mbc5_b_transport_rom_def register_ranges access_rom_high_def bs_read
          mbc5_bounded_def)
  qed
next
  case TLM_WRITE_COMMAND
  define r where "r = mbc5_set_registers (address pl) (data_byte pl) c"
  define s where "s = r\<lparr>ram_ind := (if mbc5_ram_enabled r then ucast (mbc5_ram_bits r) else 0),
    rom_ind := ucast (push_bit 8 (mbc5_high_bits r) OR mbc5_low_bits r)\<rparr>"
  have "unat (mbc5_ram_bits r) < 16"
    using assms(1) by (simp add: r_def mbc5_set_registers_def mbc5_bounded_def unat_ucast_u8_u16
        unat_and_15)
  then have "mbc5_bounded s" "unat (ram_ind s) < 16"
    using assms(1) by (simp_all add: s_def r_def mbc5_bounded_def mbc5_set_registers_def
        unsigned_ucast_eq take_bit_eq_mod)
  then obtain c' where "switch_banks (rom_ind s) (ram_ind s) s = Inr c'" "mbc5_bounded c'"
    using mbc5_bounded_switch by blast
  then show ?thesis
    using TLM_WRITE_COMMAND assms(2)
    by (simp add: mbc5_b_transport_rom_def Let_def r_def [symmetric] s_def)
next
  case TLM_IGNORE_COMMAND
  then show ?thesis using assms by (simp add: mbc5_b_transport_rom_def)
qed

subsection \<open>The RAM area\<close>

lemma ram_area_Mbc1:
  assumes "mbc1_ok c" and "address pl < 0x2000"
  shows "keeps mbc1_ok E (mbc1_b_transport_ram pl c)"
  using mbc1_ram [OF assms] by auto

lemma ram_area_Mbc3:
  assumes "mbc3_ok c" and "address pl < 0x2000"
  shows "keeps mbc3_ok E (mbc3_b_transport_ram now pl c)"
proof -
  obtain pl' b where "access_ext_ram pl c = Inr (pl', c\<lparr>ext_ram := b\<rparr>)" "bs_ok 4 0x2000 b"
    "current_bank_ind b = current_bank_ind (ext_ram c)"
    using access_ext_ram_ok [OF _ assms(2), of 128 4 c] assms(1) by (auto simp: mbc3_ok_def)
  then show ?thesis
    using assms
    by (simp add: mbc3_b_transport_ram_def register_ranges mbc3_ok_def ctrler_ok_def Let_def)
qed

lemma ram_area_Mbc5:
  assumes "mbc5_bounded c" and "address pl < 0x2000"
  shows "keeps mbc5_bounded {AssertFailed} (mbc5_b_transport_ram pl c)"
proof -
  have "bs_ok 16 0x2000 (ext_ram c)" "unat (address pl) < 0x2000"
    using assms by (simp_all add: mbc5_bounded_def word_less_nat_alt)
  then obtain pl' b where "bs_b_transport pl (ext_ram c) = Inr (pl', b)" "bs_ok 16 0x2000 b"
    using bs_b_transport_ok by blast
  then show ?thesis
    using assms
    by (simp add: mbc5_b_transport_ram_def access_ext_ram_def register_ranges mbc5_bounded_def)
qed

section \<open>The cartridge\<close>

lemma keeps_constructor:
  assumes "keeps J {AssertFailed} r"
    and "\<And>pl' c'. r = Inr (pl', c') \<Longrightarrow> J c' \<Longrightarrow> I (K c')"
  shows "keeps I {AssertFailed} (map_sum id (map_prod id K) r)"
  using assms by (auto simp: keeps_def split: sum.splits)

lemma mbc_rom_keeps:
  assumes "mbc_ok c" and "address pl < 0x8000"
  shows "keeps mbc_ok {AssertFailed} (mbc_b_transport_rom pl c)"
proof (cases c)
  case (MbcRom c')
  then show ?thesis
    using assms rom_area_Rom [of c' pl "{AssertFailed}"]
    by (auto simp: mbc_ok_def intro!: keeps_constructor)
next
  case (MbcOne c')
  then show ?thesis
    using assms rom_area_Mbc1 [of c' pl "{AssertFailed}"] game_file_rom_area(1)
    by (auto simp: mbc_ok_def intro!: keeps_constructor)
next
  case (MbcThree c')
  then show ?thesis
    using assms rom_area_Mbc3 [of c' pl] game_file_rom_area(2)
    by (auto simp: mbc_ok_def intro!: keeps_constructor)
next
  case (MbcFive c')
  then show ?thesis
    using assms rom_area_Mbc5 [of c' pl "{AssertFailed}"] game_file_rom_area(3)
    by (auto simp: mbc_ok_def intro!: keeps_constructor)
qed

lemma mbc_ram_keeps:
  assumes "mbc_ok c" and "address pl < 0x2000"
  shows "keeps mbc_ok {AssertFailed} (mbc_b_transport_ram now pl c)"
proof (cases c)
  case (MbcRom c')
  then show ?thesis
    using assms
    by (auto simp: mbc_ok_def rom_b_transport_ram_def Let_def split: tlm_command.splits)
next
  case (MbcOne c')
  then show ?thesis
    using assms ram_area_Mbc1 [of c' pl "{AssertFailed}"] game_file_ram_area(1)
    by (auto simp: mbc_ok_def intro!: keeps_constructor)
next
  case (MbcThree c')
  then show ?thesis
    using assms ram_area_Mbc3 [of c' pl "{AssertFailed}"] game_file_ram_area(2)
    by (auto simp: mbc_ok_def intro!: keeps_constructor)
next
  case (MbcFive c')
  then show ?thesis
    using assms ram_area_Mbc5 [of c' pl] game_file_ram_area(3)
    by (auto simp: mbc_ok_def intro!: keeps_constructor)
qed

subsection \<open>The command of the transaction\<close>

text \<open>No target changes the command of a payload, so the initiator can use it again.\<close>

lemma command_access:
  "access_rom_low pl c = Inr (pl', c') \<Longrightarrow> command pl' = command pl"
  "access_rom_high pl c = Inr (pl', c') \<Longrightarrow> command pl' = command pl"
  "access_ext_ram pl c = Inr (pl', c') \<Longrightarrow> command pl' = command pl"
  by (auto simp: access_rom_low_def access_rom_high_def access_ext_ram_def map_sum_def
      mem_b_transport_def bs_b_transport_def Let_def
      split: sum.splits tlm_command.splits if_splits)

lemma command_read_rom: "read_rom pl c = Inr (pl', c') \<Longrightarrow> command pl' = command pl"
  by (auto simp: read_rom_def rbind_Inr_iff dest!: command_access split: if_splits)

lemma command_mbc_rom: "mbc_b_transport_rom pl c = Inr (pl', c') \<Longrightarrow> command pl' = command pl"
  by (cases c)
    (auto simp: rom_b_transport_rom_def mbc1_b_transport_rom_def mbc3_b_transport_rom_def
      mbc5_b_transport_rom_def Let_def map_sum_def dest!: command_access command_read_rom
      split: sum.splits tlm_command.splits if_splits)

lemma command_mbc_ram: "mbc_b_transport_ram now pl c = Inr (pl', c') \<Longrightarrow> command pl' = command pl"
  by (cases c)
    (auto simp: rom_b_transport_ram_def mbc1_b_transport_ram_def mbc3_b_transport_ram_def
      mbc5_b_transport_ram_def Let_def map_sum_def dest!: command_access
      split: sum.splits tlm_command.splits if_splits)

section \<open>Construction\<close>

lemma load_roms_parts:
  assumes "load_roms boot c = Inr c'"
  shows "\<exists>low high. c' = c\<lparr>rom_low := low, rom_high := high\<rparr> \<and>
    memory_size low = memory_size (rom_low c) \<and> game_file c \<noteq> None \<and>
    current_bank_ind high = current_bank_ind (rom_high c) \<and>
    (\<forall>n sz. bs_ok n sz (rom_high c) \<longrightarrow> bs_ok n sz high)"
proof -
  obtain l1 l2 h where 1: "LoadFromFile (game_file c) 0 (rom_low c) = Inr l1"
    and 2: "LoadBootRom boot l1 = Inr l2"
    and 3: "bs_LoadFromFile (game_file c) 0x4000 (rom_high c) = Inr h"
    and c': "c' = c\<lparr>rom_low := l2, rom_high := h\<rparr>"
    using assms by (auto simp: load_roms_def rbind_Inr_iff)
  have "game_file c \<noteq> None"
    using 1 by (cases "game_file c") (simp_all add: LoadFromFile_def)
  moreover have "memory_size l2 = memory_size (rom_low c)"
    using memory_size_LoadFromFile [OF 1] LoadBootRom_size [OF 2] by simp
  moreover have "current_bank_ind h = current_bank_ind (rom_high c)"
    using 3 by (auto simp: bs_LoadFromFile_def map_sum_def split: sum.splits)
  ultimately show ?thesis
    using c' bs_LoadFromFile_ok(1) [OF 3] by blast
qed

lemma load_save_parts:
  assumes "(case save of None \<Rightarrow> Inr c | Some content \<Rightarrow>
      map_sum id (\<lambda>ram. c\<lparr>ext_ram := ram\<rparr>) (bs_LoadFromFile (Some content) 0 (ext_ram c))) = Inr c'"
  shows "\<exists>ram. c' = c\<lparr>ext_ram := ram\<rparr> \<and> current_bank_ind ram = current_bank_ind (ext_ram c) \<and>
    (\<forall>n sz. bs_ok n sz (ext_ram c) \<longrightarrow> bs_ok n sz ram)"
proof (cases save)
  case None
  then show ?thesis using assms by (intro exI [of _ "ext_ram c"]) simp
next
  case (Some content)
  then obtain ram where ram: "bs_LoadFromFile (Some content) 0 (ext_ram c) = Inr ram"
    and c': "c' = c\<lparr>ext_ram := ram\<rparr>"
    using assms by (auto simp: map_sum_def split: sum.splits)
  have "current_bank_ind ram = current_bank_ind (ext_ram c)"
    using ram by (auto simp: bs_LoadFromFile_def map_sum_def split: sum.splits)
  then show ?thesis using c' bs_LoadFromFile_ok(1) [OF ram] by blast
qed

lemma load_game_file:
  assumes "load_roms boot c = Inr c'"
  shows "game_file c' = game_file c" and "game_file c \<noteq> None"
  using load_roms_parts [OF assms] by auto

lemmas new_controller_simps = MemoryBankCtrler.extend_def Mbc3.fields_def Mbc5.fields_def new_ctrler_def new_BankSwitchedMem_def
  new_memory_def bs_ok_def

lemma new_Rom_bounded:
  assumes "new_Rom game boot sf = Inr c"
  shows "ctrler_ok 1 1 c \<and> game_file c \<noteq> None"
proof -
  have n: "ctrler_ok 1 1 (new_ctrler 1 1 sf game)"
    using new_ctrler_ok [of 1 1 sf game "()"]
    by (simp add: MemoryBankCtrler.extend_def new_ctrler_def)
  show ?thesis
    using load_roms_ok(1) [OF assms [unfolded new_Rom_def] n]
      load_game_file [OF assms [unfolded new_Rom_def]] by simp
qed

lemma new_Mbc1_bounded:
  assumes "new_Mbc1 game boot sf save = Inr c"
  shows "mbc1_ok c \<and> game_file c \<noteq> None"
proof -
  let ?n = "MemoryBankCtrler.extend (new_ctrler 128 4 sf game) (Mbc1.fields 0 0 False False)"
  obtain c1 where c1: "load_roms boot ?n = Inr c1"
    and save: "(case save of None \<Rightarrow> Inr c1 | Some content \<Rightarrow> map_sum id (\<lambda>ram. c1\<lparr>ext_ram := ram\<rparr>)
      (bs_LoadFromFile (Some content) 0 (ext_ram c1))) = Inr c"
    using assms unfolding new_Mbc1_def rbind_Inr_iff by blast
  have n: "game_file ?n = game"
    by (simp add: MemoryBankCtrler.extend_def new_ctrler_def)
  have "game_file c1 = game" and "game \<noteq> None"
    using load_game_file [OF c1] unfolding n by simp_all
  moreover have "game_file c = game_file c1"
    using load_save_parts [OF save] by auto
  ultimately show ?thesis
    using new_Mbc1_ok(1) assms by (cases game) simp_all
qed

lemma new_Mbc3_bounded:
  assumes "new_Mbc3 game boot sf save = Inr c"
  shows "mbc3_ok c \<and> game_file c \<noteq> None"
proof -
  let ?n = "MemoryBankCtrler.extend (new_ctrler 128 4 sf game) (Mbc3.fields 0 False False False)"
  obtain c1 where c1: "load_roms boot ?n = Inr c1"
    and save: "(case save of None \<Rightarrow> Inr c1 | Some content \<Rightarrow> map_sum id (\<lambda>ram. c1\<lparr>ext_ram := ram\<rparr>)
      (bs_LoadFromFile (Some content) 0 (ext_ram c1))) = Inr c"
    using assms unfolding new_Mbc3_def rbind_Inr_iff by blast
  show ?thesis
    using load_roms_parts [OF c1] load_save_parts [OF save]
    by (auto simp: new_controller_simps mbc3_ok_def ctrler_ok_def)
qed

lemma new_Mbc5_bounded:
  assumes "new_Mbc5 game boot sf = Inr c"
  shows "mbc5_bounded c \<and> game_file c \<noteq> None"
  using load_roms_parts [OF assms [unfolded new_Mbc5_def]]
  by (auto simp: new_controller_simps mbc5_bounded_def)

lemma new_Cartridge_cases:
  assumes "new_Cartridge cr_type game boot sf save = Inr c"
  obtains (rom) c' where "new_Rom game boot sf = Inr c'" "c = MbcRom c'"
    | (one) c' where "new_Mbc1 game boot sf save = Inr c'" "c = MbcOne c'"
    | (three) c' where "new_Mbc3 game boot sf save = Inr c'" "c = MbcThree c'"
    | (five) c' where "new_Mbc5 game boot sf = Inr c'" "c = MbcFive c'"
  using assms unfolding new_Cartridge_def map_sum_def
  by (simp split: if_splits sum.splits)

lemma new_Cartridge_ok:
  assumes "new_Cartridge cr_type game boot sf save = Inr c"
  shows "mbc_ok c"
  using assms
proof (cases rule: new_Cartridge_cases)
  case (rom c')
  then show ?thesis using new_Rom_bounded [OF rom(1)] by (simp add: mbc_ok_def)
qed (simp_all add: mbc_ok_def new_Mbc1_bounded new_Mbc3_bounded new_Mbc5_bounded)

text \<open>The game file and the tracer are those of the arguments.\<close>

lemma load_roms_files:
  "load_roms boot c = Inr c' \<Longrightarrow> game_file c' = game_file c \<and> symfile_tracer c' = symfile_tracer c"
  using load_roms_parts [of boot c c'] by auto

lemma load_save_files:
  "(case save of None \<Rightarrow> Inr c | Some content \<Rightarrow>
      map_sum id (\<lambda>ram. c\<lparr>ext_ram := ram\<rparr>) (bs_LoadFromFile (Some content) 0 (ext_ram c))) = Inr c' \<Longrightarrow>
    game_file c' = game_file c \<and> symfile_tracer c' = symfile_tracer c"
  using load_save_parts [of c save c'] by auto

lemma new_Cartridge_files:
  assumes "new_Cartridge cr_type game boot sf save = Inr c"
  shows "mbc_game_file c = game \<and> (mbc_tracer c \<noteq> None \<longleftrightarrow> sf)"
  using assms
proof (cases rule: new_Cartridge_cases)
  case (rom c')
  then show ?thesis
    using load_roms_files [OF rom(1) [unfolded new_Rom_def]] by (simp add: new_ctrler_def)
next
  case (one c')
  then show ?thesis
    unfolding new_Mbc1_def rbind_Inr_iff
    by (elim exE conjE) (drule load_roms_files, drule load_save_files,
        simp add: MemoryBankCtrler.extend_def new_ctrler_def)
next
  case (three c')
  then show ?thesis
    unfolding new_Mbc3_def rbind_Inr_iff
    by (elim exE conjE) (drule load_roms_files, drule load_save_files,
        simp add: MemoryBankCtrler.extend_def new_ctrler_def)
next
  case (five c')
  then show ?thesis
    using load_roms_files [OF five(1) [unfolded new_Mbc5_def]]
    by (simp add: MemoryBankCtrler.extend_def new_ctrler_def)
qed

text \<open>Making a cartridge fails only for files that cannot be read or are too short, and for its type.\<close>

lemma only_errors_map_sum [simp]: "only_errors E (map_sum id f r) = only_errors E r"
  by (cases r) simp_all

lemma load_roms_errors: "only_errors {FileError, AssertFailed} (load_roms boot c)"
  unfolding load_roms_def bs_LoadFromFile_def
  by (intro only_errors_rbind)
    (auto simp: LoadFromFile_def LoadBootRom_def Let_def split: option.split sum.split)

lemma load_save_errors:
  "only_errors {FileError, AssertFailed} (case save of None \<Rightarrow> Inr c
     | Some content \<Rightarrow> map_sum id f (bs_LoadFromFile (Some content) 0 b))"
  by (auto simp: bs_LoadFromFile_def LoadFromFile_def Let_def split: option.split)

lemma new_controller_errors:
  "only_errors {FileError, AssertFailed} (new_Rom game boot sf)"
  "only_errors {FileError, AssertFailed} (new_Mbc1 game boot sf save)"
  "only_errors {FileError, AssertFailed} (new_Mbc3 game boot sf save)"
  "only_errors {FileError, AssertFailed} (new_Mbc5 game boot sf)"
  unfolding new_Rom_def new_Mbc1_def new_Mbc3_def new_Mbc5_def
  by (intro only_errors_rbind load_roms_errors load_save_errors)+

lemma new_Cartridge_errors:
  "only_errors {FileError, AssertFailed, UnknownCartridge} (new_Cartridge cr_type game boot sf save)"
proof -
  have mono: "only_errors {FileError, AssertFailed, UnknownCartridge} (map_sum id f r)"
    if "only_errors {FileError, AssertFailed} r" for f :: "'c \<Rightarrow> mbc" and r :: "'c res"
    using that by (cases r) auto
  have unknown: "only_errors {FileError, AssertFailed, UnknownCartridge} (Inl UnknownCartridge :: mbc res)"
    by simp
  have either: "only_errors E x \<Longrightarrow> only_errors E y \<Longrightarrow> only_errors E (if c then x else y)"
    for E c and x y :: "mbc res"
    by simp
  show ?thesis
    unfolding new_Cartridge_def
    by (intro either mono new_controller_errors unknown)
qed



end
