(* ===== verification/Io_Registers.thy ===== *)
theory Io_Registers
  imports Bus
begin

text \<open>
  The I/O registers of \<^verbatim>\<open>src/io_registers.cpp\<close>: the masks of the sound registers, the signals they
  drive, and the DMA transfer into the object attribute memory. The module is a bus slave and a bus
  master: its transport function works on the state \<open>'m\<close> of the whole system, of which \<open>get\<close>
  and \<open>put\<close> access its own part, and takes the transport function of the bus as an argument.
\<close>

section \<open>Signals\<close>

text \<open>
  A boolean \<^verbatim>\<open>sc_signal\<close>: \<^verbatim>\<open>read\<close> yields the current value, \<^verbatim>\<open>write\<close> sets the next one, the
  update phase of the kernel makes it current and notifies the listeners if it changed.
\<close>

record sc_signal =
  sig_cur :: bool
  sig_next :: bool

definition sig_init :: sc_signal where
  "sig_init = \<lparr>sig_cur = False, sig_next = False\<rparr>"

definition sig_write :: "bool \<Rightarrow> sc_signal \<Rightarrow> sc_signal" where
  "sig_write v s = s\<lparr>sig_next := v\<rparr>"

definition sig_toggle :: "sc_signal \<Rightarrow> sc_signal" where
  "sig_toggle s = sig_write (\<not> sig_cur s) s"

definition sig_update :: "sc_signal \<Rightarrow> bool \<times> sc_signal" where
  "sig_update s = (sig_cur s \<noteq> sig_next s, s\<lparr>sig_cur := sig_next s\<rparr>)"

section \<open>State\<close>

record IoRegisters =
  io_mem :: GenericMemory
  sig_unmap_rom :: sc_signal
  sig_reload_length_square1 :: sc_signal
  sig_reload_length_square2 :: sc_signal
  sig_reload_length_wave :: sc_signal
  sig_reload_length_noise :: sc_signal
  sig_trigger_square1 :: sc_signal
  sig_trigger_square2 :: sc_signal
  sig_trigger_wave :: sc_signal
  sig_trigger_noise :: sc_signal

definition new_IoRegisters :: IoRegisters where
  "new_IoRegisters =
     \<lparr>io_mem = new_memory 0x80, sig_unmap_rom = sig_init,
      sig_reload_length_square1 = sig_init, sig_reload_length_square2 = sig_init,
      sig_reload_length_wave = sig_init, sig_reload_length_noise = sig_init,
      sig_trigger_square1 = sig_init, sig_trigger_square2 = sig_init,
      sig_trigger_wave = sig_init, sig_trigger_noise = sig_init\<rparr>"

definition io_data :: "IoRegisters \<Rightarrow> nat \<Rightarrow> u8" where
  "io_data io = mem_data (io_mem io)"

definition io_set :: "nat \<Rightarrow> u8 \<Rightarrow> IoRegisters \<Rightarrow> IoRegisters" where
  "io_set adr v io = io\<lparr>io_mem := (io_mem io)\<lparr>mem_data := (mem_data (io_mem io))(adr := v)\<rparr>\<rparr>"

section \<open>DMA\<close>

text \<open>
  The loop over the 160 bytes, from index \<open>i\<close> on with \<open>n\<close> left. The two payloads live through the
  whole transfer, so a response status or a byte that a target does not set is that of the access
  before; \<open>read_data\<close> is the byte of the read payload.
\<close>

fun dma_loop ::
  "(payload \<Rightarrow> 'm \<Rightarrow> (payload \<times> 'm) res) \<Rightarrow> u16 \<Rightarrow> nat \<Rightarrow> u16 \<Rightarrow>
   payload \<Rightarrow> payload \<Rightarrow> 'm \<Rightarrow> 'm res" where
  "dma_loop bus start 0 i read_pl write_pl m = Inr m"
| "dma_loop bus start (Suc n) i read_pl write_pl m =
     rbind (bus (read_pl\<lparr>address := start + i\<rparr>) m) (\<lambda>(read_pl, m).
     rbind (bus (write_pl\<lparr>address := 0xFE00 + i, data_byte := data_byte read_pl\<rparr>) m)
       (\<lambda>(write_pl, m).
     dma_loop bus start n (i + 1) read_pl write_pl m))"

definition DmaTransfer ::
  "(payload \<Rightarrow> 'm \<Rightarrow> (payload \<times> 'm) res) \<Rightarrow> u8 \<Rightarrow> u8 \<Rightarrow> 'm \<Rightarrow> 'm res" where
  "DmaTransfer bus indeterminate byte m =
     dma_loop bus (ucast byte * 0x100) 0xA0 0
       (MakeSharedPayloadPtr TLM_READ_COMMAND 0xFFFF indeterminate)
       (MakeSharedPayloadPtr TLM_WRITE_COMMAND 0xFFFF indeterminate) m"

section \<open>Bus access\<close>

text \<open>Reading: a mask of bits that read as 1, by register.\<close>

definition io_read :: "nat \<Rightarrow> IoRegisters \<Rightarrow> u8" where
  "io_read adr io =
     (if adr = 0x00 then 0x80 OR io_data io adr
      else if adr = 0x01 then 0x3F OR io_data io adr
      else if adr = 0x03 then 0xFF
      else if adr = 0x04 then 0xBF OR io_data io adr
      else if adr = 0x05 then 0xFF
      else if adr = 0x06 then 0x3F OR io_data io adr
      else if adr = 0x08 then 0xFF
      else if adr = 0x09 then 0xBF OR io_data io adr
      else if adr = 0x0A then 0x7F OR io_data io adr
      else if adr = 0x0B then 0xFF
      else if adr = 0x0C then 0x9F OR io_data io adr
      else if adr = 0x0D then 0xFF
      else if adr = 0x0E then 0xBF OR io_data io adr
      else if adr = 0x0F then 0xFF
      else if adr = 0x10 then 0xFF
      else if adr = 0x13 then 0xBF OR io_data io adr
      else if adr = 0x16 then 0x70 OR io_data io adr
      else if 0x17 \<le> adr \<and> adr \<le> 0x1F then 0xFF
      else io_data io adr)"

text \<open>
  Writing, but for the DMA register: switching the sound unit off clears its registers; while it is
  off its registers are not written.
\<close>

definition apu_off :: "IoRegisters \<Rightarrow> IoRegisters" where
  "apu_off io =
     (let tmp = io_data io 0xA;
          io = io\<lparr>io_mem := (io_mem io)
            \<lparr>mem_data := (\<lambda>i. if i < 0x20 then 0 else mem_data (io_mem io) i)\<rparr>\<rparr> in
      io_set 0xA tmp io)"

definition io_write :: "nat \<Rightarrow> u8 \<Rightarrow> IoRegisters \<Rightarrow> IoRegisters" where
  "io_write adr d io =
     (let io = (if adr = 0x16 \<and> d AND 0x80 = 0 then apu_off io else io) in
      if adr < 0x20 \<and> adr \<noteq> 0x16 \<and> io_data io 0x16 AND 0x80 = 0 then io
      else if adr = 0x00 then
        (io_set adr d io)\<lparr>sig_reload_length_square1 := sig_toggle (sig_reload_length_square1 io)\<rparr>
      else if adr = 0x04 then
        (let io = io_set adr d io in
         if d AND 0x80 \<noteq> 0 then io\<lparr>sig_trigger_square1 := sig_toggle (sig_trigger_square1 io)\<rparr>
         else io)
      else if adr = 0x06 then
        (io_set adr d io)\<lparr>sig_reload_length_square2 := sig_toggle (sig_reload_length_square2 io)\<rparr>
      else if adr = 0x09 then
        (let io = io_set adr d io in
         if d AND 0x80 \<noteq> 0 then io\<lparr>sig_trigger_square2 := sig_toggle (sig_trigger_square2 io)\<rparr>
         else io)
      else if adr = 0x0B then
        io_set adr d (io\<lparr>sig_reload_length_wave := sig_write True (sig_reload_length_wave io)\<rparr>)
      else if adr = 0x10 then
        io_set adr d (io\<lparr>sig_reload_length_noise := sig_write True (sig_reload_length_noise io)\<rparr>)
      else if adr = 0x13 then
        (let io = io_set adr d io in
         if d AND 0x80 \<noteq> 0 then io\<lparr>sig_trigger_noise := sig_toggle (sig_trigger_noise io)\<rparr>
         else io)
      else if adr = 0x16 then io_set adr (d AND 0x80) io
      else if adr = 0x31 then io_set adr ((d AND 0x78) OR (io_data io adr AND 0x07)) io
      else if adr = 0x40 then
        (if d = 1 then io\<lparr>sig_unmap_rom := sig_write True (sig_unmap_rom io)\<rparr> else io)
      else if adr = 0x7F then io
      else io_set adr d io)"

definition io_b_transport ::
  "('m \<Rightarrow> IoRegisters) \<Rightarrow> (IoRegisters \<Rightarrow> 'm \<Rightarrow> 'm) \<Rightarrow>
   (payload \<Rightarrow> 'm \<Rightarrow> (payload \<times> 'm) res) \<Rightarrow> u8 \<Rightarrow> payload \<Rightarrow> 'm \<Rightarrow> (payload \<times> 'm) res" where
  "io_b_transport get put bus indeterminate pl m =
     (let adr = unat (address pl) in
      case command pl of
        TLM_READ_COMMAND \<Rightarrow>
          (if adr < memory_size (io_mem (get m))
           then Inr (pl\<lparr>data_byte := io_read adr (get m), response_status := TLM_OK_RESPONSE\<rparr>, m)
           else Inl OutOfBounds)
      | TLM_WRITE_COMMAND \<Rightarrow>
          (let pl = pl\<lparr>response_status := TLM_OK_RESPONSE\<rparr> in
           if adr = 0x36 then
             rbind (DmaTransfer bus indeterminate (data_byte pl) m) (\<lambda>m. Inr (pl, m))
           else if adr < memory_size (io_mem (get m))
           then Inr (pl, put (io_write adr (data_byte pl) (get m)) m)
           else Inl OutOfBounds)
      | TLM_IGNORE_COMMAND \<Rightarrow> Inr (pl\<lparr>response_status := TLM_COMMAND_ERROR_RESPONSE\<rparr>, m))"

section \<open>What a write keeps\<close>

lemma memory_size_io_set [simp]: "memory_size (io_mem (io_set adr v io)) = memory_size (io_mem io)"
  by (simp add: io_set_def)

lemma memory_size_io_write [simp]:
  "memory_size (io_mem (io_write adr d io)) = memory_size (io_mem io)"
  by (simp add: io_write_def apu_off_def Let_def)

text \<open>The byte a write leaves in a register.\<close>

lemma io_data_set: "io_data (io_set adr v io) i = (if i = adr then v else io_data io i)"
  by (simp add: io_data_def io_set_def)

text \<open>The update phase of a signal that is always written with \<open>True\<close> notifies once.\<close>

lemma sig_write_True_once:
  "fst (sig_update (sig_write True s)) = (\<not> sig_cur s)"
  "fst (sig_update (sig_write True (snd (sig_update (sig_write True s))))) = False"
  by (simp_all add: sig_update_def sig_write_def)

lemma sig_toggle_always:
  "fst (sig_update (sig_toggle s)) = True"
  by (simp add: sig_update_def sig_write_def sig_toggle_def)

section \<open>Properties\<close>

text \<open>
  Switching the sound unit off, a write to NR52 with bit 7 clear, sets its registers to 0 but for
  the one at 0xFF1A, keeps the wave RAM and everything above, and makes the other sound registers
  ignore writes.
\<close>

lemma Sound_off:
  assumes "d AND 0x80 = 0" and "memory_size (io_mem io) = 0x80"
  shows "io_data (io_write 0x16 d io) i =
      (if i = 0x0A then io_data io 0x0A else if i < 0x20 then 0 else io_data io i) \<and>
    (a < 0x20 \<and> a \<noteq> 0x16 \<longrightarrow> io_write a v (io_write 0x16 d io) = io_write 0x16 d io)"
  using assms by (auto simp: io_write_def apu_off_def Let_def io_data_set io_data_def io_set_def)

text \<open>
  No write triggers the wave channel, and the length of the wave channel is reloaded by the first
  write to NR31 only: the signal is always written with \<open>True\<close>, so once its value is \<open>True\<close> a further
  write is no event. The square channels, whose signals are toggled, are notified by every write.
\<close>

lemma Wave_channel_signals:
  assumes "io_data io 0x16 AND 0x80 \<noteq> 0"
  shows "sig_trigger_wave (io_write adr d io) = sig_trigger_wave io \<and>
    fst (sig_update (sig_reload_length_wave (io_write 0x0B d io))) =
      (\<not> sig_cur (sig_reload_length_wave io)) \<and>
    sig_cur (snd (sig_update (sig_reload_length_wave (io_write 0x0B d io)))) \<and>
    fst (sig_update (sig_reload_length_square2 (io_write 0x06 d io)))"
  using assms
  by (auto simp: io_write_def apu_off_def Let_def io_set_def sig_update_def sig_write_def
      sig_toggle_def)

end
