(* ===== verification/Joypad.thy ===== *)
theory Joypad
  imports Memory
begin

text \<open>
  The joypad of \<^verbatim>\<open>src/joypad.cpp\<close>: the eight buttons, the register P1 and the loop that handles the
  events of SDL. An SDL event is a parameter of the step; the interrupt flag register, which the
  joypad reaches by direct access, is an argument and a result.
\<close>

section \<open>State\<close>

record JoyPad =
  but_up :: bool
  but_down :: bool
  but_left :: bool
  but_right :: bool
  but_a :: bool
  but_b :: bool
  but_start :: bool
  but_select :: bool
  reg_p1 :: u8

definition new_JoyPad :: JoyPad where
  "new_JoyPad = \<lparr>but_up = False, but_down = False, but_left = False, but_right = False,
     but_a = False, but_b = False, but_start = False, but_select = False, reg_p1 = 0x3F\<rparr>"

text \<open>The key codes the code distinguishes; the names in capitals are those of SDL.\<close>

datatype SDL_Keycode = SDLK_UP | SDLK_DOWN | SDLK_RIGHT | SDLK_LEFT | SDLK_a | SDLK_s | SDLK_o
  | SDLK_p | SDLK_1 | SDLK_2 | SDLK_3 | SDLK_SPACE | SDLK_other

datatype SDL_Event = SDL_KEYDOWN SDL_Keycode bool | SDL_KEYUP SDL_Keycode bool
  | SDL_WINDOWEVENT_CLOSE | SDL_QUIT | SDL_other

text \<open>The user-interface flags of the PPU that the keys change.\<close>

record ui_flags =
  uiRenderBg :: bool
  uiRenderWndw :: bool
  uiRenderSprites :: bool
  uiTurboMode :: bool

section \<open>Operations\<close>

definition SetButton :: "SDL_Keycode \<Rightarrow> bool \<Rightarrow> JoyPad \<Rightarrow> u8 \<Rightarrow> JoyPad \<times> u8" where
  "SetButton key pressed j reg_if =
     (let request = (if pressed then reg_if OR kJoypadIf else reg_if) in
      case key of
        SDLK_UP \<Rightarrow> (j\<lparr>but_up := pressed\<rparr>, request)
      | SDLK_DOWN \<Rightarrow> (j\<lparr>but_down := pressed\<rparr>, request)
      | SDLK_RIGHT \<Rightarrow> (j\<lparr>but_right := pressed\<rparr>, request)
      | SDLK_LEFT \<Rightarrow> (j\<lparr>but_left := pressed\<rparr>, request)
      | SDLK_a \<Rightarrow> (j\<lparr>but_a := pressed\<rparr>, request)
      | SDLK_s \<Rightarrow> (j\<lparr>but_b := pressed\<rparr>, request)
      | SDLK_o \<Rightarrow> (j\<lparr>but_select := pressed\<rparr>, request)
      | SDLK_p \<Rightarrow> (j\<lparr>but_start := pressed\<rparr>, request)
      | _ \<Rightarrow> (j, reg_if))"

text \<open>The body of \<^verbatim>\<open>InputLoop\<close> after an event was polled; \<open>None\<close>: the simulation stops.\<close>

definition InputLoop_step ::
  "SDL_Event \<Rightarrow> JoyPad \<Rightarrow> ui_flags \<Rightarrow> u8 \<Rightarrow> (JoyPad \<times> ui_flags \<times> u8) option" where
  "InputLoop_step event j ui reg_if =
     (case event of
        SDL_KEYDOWN key repeat \<Rightarrow>
          (if repeat then Some (j, ui, reg_if)
           else
             (case key of
                SDLK_1 \<Rightarrow> Some (j, ui\<lparr>uiRenderBg := \<not> uiRenderBg ui\<rparr>, reg_if)
              | SDLK_2 \<Rightarrow> Some (j, ui\<lparr>uiRenderWndw := \<not> uiRenderWndw ui\<rparr>, reg_if)
              | SDLK_3 \<Rightarrow> Some (j, ui\<lparr>uiRenderSprites := \<not> uiRenderSprites ui\<rparr>, reg_if)
              | SDLK_SPACE \<Rightarrow> Some (j, ui\<lparr>uiTurboMode := True\<rparr>, reg_if)
              | _ \<Rightarrow> (let (j, reg_if) = SetButton key True j reg_if in Some (j, ui, reg_if))))
      | SDL_KEYUP key repeat \<Rightarrow>
          (if repeat then Some (j, ui, reg_if)
           else
             (case key of
                SDLK_SPACE \<Rightarrow> Some (j, ui\<lparr>uiTurboMode := False\<rparr>, reg_if)
              | _ \<Rightarrow> (let (j, reg_if) = SetButton key False j reg_if in Some (j, ui, reg_if))))
      | SDL_WINDOWEVENT_CLOSE \<Rightarrow> None
      | SDL_QUIT \<Rightarrow> None
      | SDL_other \<Rightarrow> Some (j, ui, reg_if))"

definition ReadReg :: "JoyPad \<Rightarrow> u8 \<times> JoyPad" where
  "ReadReg j =
     (let r = reg_p1 j;
          r = (if \<not> IsBitSet r 4
               then SetBit (SetBit (SetBit (SetBit r (\<not> but_right j) 0) (\<not> but_left j) 1)
                      (\<not> but_up j) 2) (\<not> but_down j) 3
               else r);
          r = (if \<not> IsBitSet r 5
               then SetBit (SetBit (SetBit (SetBit r (\<not> but_a j) 0) (\<not> but_b j) 1)
                      (\<not> but_select j) 2) (\<not> but_start j) 3
               else r) in
      (r, j\<lparr>reg_p1 := r\<rparr>))"

definition WriteReg :: "u8 \<Rightarrow> JoyPad \<Rightarrow> JoyPad" where
  "WriteReg dat j = j\<lparr>reg_p1 := (reg_p1 j AND 0x0F) OR (dat AND 0x78)\<rparr>"

definition joypad_b_transport :: "payload \<Rightarrow> JoyPad \<Rightarrow> (payload \<times> JoyPad) res" where
  "joypad_b_transport pl j =
     (if address pl \<noteq> 0 then Inl AssertFailed
      else
        (case command pl of
           TLM_READ_COMMAND \<Rightarrow>
             (let (v, j) = ReadReg j in
              Inr (pl\<lparr>data_byte := v, response_status := TLM_OK_RESPONSE\<rparr>, j))
         | TLM_WRITE_COMMAND \<Rightarrow>
             Inr (pl\<lparr>response_status := TLM_OK_RESPONSE\<rparr>, WriteReg (data_byte pl) j)
         | TLM_IGNORE_COMMAND \<Rightarrow>
             Inr (pl\<lparr>response_status := TLM_COMMAND_ERROR_RESPONSE\<rparr>, j)))"

definition joypad_transport_dbg :: "payload \<Rightarrow> JoyPad \<Rightarrow> (payload \<times> JoyPad) res" where
  "joypad_transport_dbg pl j = joypad_b_transport pl j"

section \<open>Reading a column of buttons\<close>

definition direction_row :: "JoyPad \<Rightarrow> nat \<Rightarrow> bool" where
  "direction_row j i = [but_right j, but_left j, but_up j, but_down j] ! i"

definition button_row :: "JoyPad \<Rightarrow> nat \<Rightarrow> bool" where
  "button_row j i = [but_a j, but_b j, but_select j, but_start j] ! i"

lemma bit_SetBit': "i < 8 \<Longrightarrow> bit (SetBit w v i) k \<longleftrightarrow> (if k = i then v else bit w k)"
  by (auto simp: bit_SetBit)

lemma less_4_cases: "i < 4 \<longleftrightarrow> i \<in> {0, 1, 2, 3::nat}"
  by auto

lemma ReadReg_bits:
  fixes j :: JoyPad
  defines "r \<equiv> fst (ReadReg j)"
  shows "4 \<le> k \<Longrightarrow> bit r k = bit (reg_p1 j) k"
    and "k < 4 \<Longrightarrow> bit r k =
      (if \<not> bit (reg_p1 j) 5 then \<not> button_row j k
       else if \<not> bit (reg_p1 j) 4 then \<not> direction_row j k
       else bit (reg_p1 j) k)"
proof -
  show "4 \<le> k \<Longrightarrow> bit r k = bit (reg_p1 j) k"
    by (auto simp: r_def ReadReg_def Let_def IsBitSet_iff_bit bit_SetBit')
  show "k < 4 \<Longrightarrow> bit r k =
      (if \<not> bit (reg_p1 j) 5 then \<not> button_row j k
       else if \<not> bit (reg_p1 j) 4 then \<not> direction_row j k
       else bit (reg_p1 j) k)"
    unfolding less_4_cases
    by (auto simp: r_def ReadReg_def Let_def IsBitSet_iff_bit bit_SetBit' button_row_def
        direction_row_def)
qed

lemma WriteReg_bits:
  "bit (reg_p1 (WriteReg d j)) k \<longleftrightarrow>
    (if k < 3 then bit (reg_p1 j) k else if k = 3 then bit (reg_p1 j) 3 \<or> bit d 3
     else k < 7 \<and> bit d k)"
proof -
  have "bit (0x0F :: u8) k \<longleftrightarrow> k < 4" "bit (0x78 :: u8) k \<longleftrightarrow> 3 \<le> k \<and> k < 7"
    if "k < 8"
    using that by (auto simp: less_eight_cases)
  then show ?thesis
    by (cases "k < 8") (auto simp: WriteReg_def bit_simps dest: bit_imp_le_length)
qed

section \<open>Properties\<close>

text \<open>
  With one of the two columns selected (its select bit written as 0) a read of P1 shows a 0 in bit
  \<open>k\<close> exactly for the buttons of that column that are held: P14 selects right, left, up and down, P15
  selects A, B, select and start. A second read returns the same.
\<close>

lemma Joypad_column:
  assumes "k < 4"
  shows "(\<not> bit d 4 \<and> bit d 5 \<longrightarrow>
      (\<not> bit (fst (ReadReg (WriteReg d j))) k \<longleftrightarrow> direction_row j k)) \<and>
    (\<not> bit d 5 \<and> bit d 4 \<longrightarrow>
      (\<not> bit (fst (ReadReg (WriteReg d j))) k \<longleftrightarrow> button_row j k)) \<and>
    ReadReg (snd (ReadReg j)) = ReadReg j"
proof (intro conjI impI)
  have rows: "direction_row (WriteReg d j) k = direction_row j k"
    "button_row (WriteReg d j) k = button_row j k"
    by (simp_all add: direction_row_def button_row_def WriteReg_def)
  show "\<not> bit (fst (ReadReg (WriteReg d j))) k \<longleftrightarrow> direction_row j k" if "\<not> bit d 4 \<and> bit d 5"
    using that assms by (simp add: ReadReg_bits(2) WriteReg_bits rows)
  show "\<not> bit (fst (ReadReg (WriteReg d j))) k \<longleftrightarrow> button_row j k" if "\<not> bit d 5 \<and> bit d 4"
    using that assms by (simp add: ReadReg_bits(2) WriteReg_bits rows)
  define r where "r = fst (ReadReg j)"
  have snd: "snd (ReadReg j) = j\<lparr>reg_p1 := r\<rparr>"
    by (simp add: r_def ReadReg_def Let_def)
  have "fst (ReadReg (j\<lparr>reg_p1 := r\<rparr>)) = r"
  proof (rule bit_word_eqI)
    fix i
    have "direction_row (j\<lparr>reg_p1 := r\<rparr>) i = direction_row j i"
      "button_row (j\<lparr>reg_p1 := r\<rparr>) i = button_row j i"
      by (simp_all add: direction_row_def button_row_def)
    then show "bit (fst (ReadReg (j\<lparr>reg_p1 := r\<rparr>))) i = bit r i"
      by (cases "i < 4") (simp_all add: ReadReg_bits, simp add: r_def ReadReg_bits)
  qed
  moreover have "snd (ReadReg (j\<lparr>reg_p1 := r\<rparr>)) = j\<lparr>reg_p1 := fst (ReadReg (j\<lparr>reg_p1 := r\<rparr>))\<rparr>"
    by (simp add: ReadReg_def Let_def)
  ultimately show "ReadReg (snd (ReadReg j)) = ReadReg j"
    unfolding snd by (metis prod.collapse r_def snd)
qed

text \<open>
  A write to P1 is not confined to the select bits: it sets bit 3, an input line of the lower
  nibble, when the written byte has it, and it drops bit 7 of the byte.
\<close>

lemma Joypad_write_mask:
  "(bit (reg_p1 (WriteReg d j)) 3 \<longleftrightarrow> bit (reg_p1 j) 3 \<or> bit d 3) \<and>
   \<not> bit (reg_p1 (WriteReg d j)) 7"
  by (simp add: WriteReg_bits)

text \<open>
  Handling a key press sets the button and requests the joypad interrupt; because the loop handles
  the event it holds again when no new one arrived, the same press requests the interrupt again after
  it was acknowledged.
\<close>

lemma Joypad_press_repeats:
  assumes "key \<in> {SDLK_UP, SDLK_DOWN, SDLK_RIGHT, SDLK_LEFT, SDLK_a, SDLK_s, SDLK_o, SDLK_p}"
  shows "\<exists>j'. InputLoop_step (SDL_KEYDOWN key False) j ui reg_if =
      Some (j', ui, reg_if OR kJoypadIf) \<and>
    InputLoop_step (SDL_KEYDOWN key False) j' ui (SetBit reg_if False 4) =
      Some (j', ui, SetBit reg_if False 4 OR kJoypadIf)"
  using assms by (auto simp: InputLoop_step_def SetButton_def)

definition ui_default :: ui_flags where
  "ui_default = \<lparr>uiRenderBg = True, uiRenderWndw = True, uiRenderSprites = True,
     uiTurboMode = False\<rparr>"

end
