(* ===== verification/Ppu.thy ===== *)
theory Ppu
  imports Joypad "HOL-Library.Signed_Division"
begin

text \<open>
  The pixel processing unit of \<^verbatim>\<open>src/ppu.cpp\<close> and \<^verbatim>\<open>src/ppu.h\<close>. The unit reaches its registers and
  memories through pointers that it gets at the start of the simulation; \<open>ppu_mem\<close> is what they
  point to. Its own state is the record \<open>Ppu\<close>.

  The thread \<^verbatim>\<open>RenderLoop\<close> is a step relation: a control point for each of its calls of \<^verbatim>\<open>wait\<close>, and
  \<open>RenderLoop_step\<close> runs the thread from there to the next one.
\<close>

section \<open>State\<close>

text \<open>\<open>video\<close> is the video RAM from 0x8000 on; the two tile data tables and the two tile maps are
  parts of it.\<close>

record ppu_mem =
  reg_lcdc :: u8
  reg_stat :: u8
  reg_scroll_y :: u8
  reg_scroll_x :: u8
  reg_lcdc_y :: u8
  reg_ly_comp :: u8
  reg_bgp :: u8
  reg_obp_0 :: u8
  reg_obp_1 :: u8
  reg_wndw_y :: u8
  reg_wndw_x :: u8
  reg_intr_pending :: u8
  video :: "nat \<Rightarrow> u8"
  oam_table :: "nat \<Rightarrow> u8"

datatype Colors = White | Grey | DarkGrey | Black | Transparent

fun color_code :: "Colors \<Rightarrow> u8" where
  "color_code White = 0"
| "color_code Grey = 1"
| "color_code DarkGrey = 2"
| "color_code Black = 3"
| "color_code Transparent = 4"

text \<open>The control points: after the first wait, and after the waits of line \<open>i\<close> and of the vertical blank.\<close>

datatype render_pc = RenderStart | AfterOamSearch nat | AfterTransfer nat | AfterHBlank nat | AfterVBlank nat

text \<open>
  A window with its texture of \<open>log_width\<close> times \<open>log_height\<close> pixels; everything else of it belongs to
  SDL. \<open>DummyWindow\<close> is the one of the headless mode.
\<close>

datatype window_kind = GameWindow | ExtGameWindow | WindowWindow | DummyWindow

record RenderWindow =
  window_kind :: window_kind
  log_width :: nat
  log_height :: nat
  pixels :: "nat \<Rightarrow> u32"

text \<open>\<open>color_palette\<close>, the four colours of the \<^verbatim>\<open>color_palette\<close> option, is static in the source.\<close>

record Ppu =
  bg_buffer :: "nat \<Rightarrow> nat \<Rightarrow> u8"
  sprite_buffer :: "nat \<Rightarrow> nat \<Rightarrow> u8"
  window_line :: int
  color_palette :: "(u8 \<times> u8 \<times> u8) list"
  game_wndw :: RenderWindow
  ext_game_wndw :: RenderWindow
  window_wndw :: RenderWindow
  render_pc :: render_pc

definition kNumOamEntries :: nat where "kNumOamEntries = 40"
definition kOamEntryBytes :: nat where "kOamEntryBytes = 4"
definition kTileLength :: nat where "kTileLength = 8"
definition kBytesPerTile :: nat where "kBytesPerTile = 16"
definition kGbScreenWidth :: nat where "kGbScreenWidth = 160"
definition kGbScreenHeight :: nat where "kGbScreenHeight = 144"
definition kGbScreenBufferWidth :: nat where "kGbScreenBufferWidth = 256"
definition kGbScreenBufferHeight :: nat where "kGbScreenBufferHeight = 256"

definition kMaskLcdControl :: u8 where "kMaskLcdControl = 0x80"
definition kMaskWndwTileMapSlct :: u8 where "kMaskWndwTileMapSlct = 0x40"
definition kMaskWndwDisp :: u8 where "kMaskWndwDisp = 0x20"
definition kMaskBgWndwTileDataSlct :: u8 where "kMaskBgWndwTileDataSlct = 0x10"
definition kMaskBgTileSlct :: u8 where "kMaskBgTileSlct = 0x08"
definition KMaskObjSpriteSize :: u8 where "KMaskObjSpriteSize = 0x04"
definition kMaskObjSpriteDisp :: u8 where "kMaskObjSpriteDisp = 0x02"
definition kMaskBgWndwDisp :: u8 where "kMaskBgWndwDisp = 0x01"
definition kMaskVBlankIE :: u8 where "kMaskVBlankIE = 0x01"
definition kMaskLcdcStatIf :: u8 where "kMaskLcdcStatIf = 0x02"

lemmas ppu_consts = kNumOamEntries_def kOamEntryBytes_def kTileLength_def kBytesPerTile_def
  kGbScreenWidth_def kGbScreenHeight_def kGbScreenBufferWidth_def kGbScreenBufferHeight_def

text \<open>
  The constructor. It initialises the buffers but not the line counter of the window, which is an
  argument like the contents of a new texture; the colours are those of the parsed option.
\<close>

definition new_window :: "window_kind \<Rightarrow> nat \<Rightarrow> nat \<Rightarrow> (nat \<Rightarrow> u32) \<Rightarrow> RenderWindow" where
  "new_window k w h texture =
     \<lparr>window_kind = k, log_width = w, log_height = h, pixels = texture\<rparr>"

definition new_Ppu ::
  "bool \<Rightarrow> bool \<Rightarrow> bool \<Rightarrow> (u8 \<times> u8 \<times> u8) list \<Rightarrow> int \<Rightarrow> (nat \<Rightarrow> u32) \<Rightarrow> Ppu" where
  "new_Ppu headless show_ext_game_wndw show_window_wndw palette window_line0 texture =
     (let dummy = new_window DummyWindow kGbScreenWidth kGbScreenHeight texture in
      \<lparr>bg_buffer = (\<lambda>y x. color_code White), sprite_buffer = (\<lambda>y x. color_code Transparent),
       window_line = window_line0, color_palette = palette,
       game_wndw = (if headless then dummy
         else new_window GameWindow kGbScreenWidth kGbScreenHeight texture),
       ext_game_wndw = (if \<not> headless \<and> show_ext_game_wndw
         then new_window ExtGameWindow kGbScreenBufferWidth kGbScreenBufferHeight texture else dummy),
       window_wndw = (if \<not> headless \<and> show_window_wndw
         then new_window WindowWindow 128 192 texture else dummy),
       render_pc = RenderStart\<rparr>)"

section \<open>Pixels\<close>

definition InterleaveBits :: "u8 \<Rightarrow> u8 \<Rightarrow> nat \<Rightarrow> u8" where
  "InterleaveBits a b pos =
     (let msk = push_bit pos 1;
          res = of_bool (a AND msk = msk) in
      res OR (if b AND msk = msk then 2 else 0))"

definition MapColors :: "u8 \<Rightarrow> u8 \<Rightarrow> u8" where
  "MapColors val reg = drop_bit (unat val * 2) reg AND 3"

text \<open>Accesses to the arrays behind the pointers and to the buffers, with their bounds.\<close>

definition video_at :: "ppu_mem \<Rightarrow> int \<Rightarrow> u8 res" where
  "video_at v a = (if 0 \<le> a \<and> a < 0x2000 then Inr (video v (nat a)) else Inl OutOfBounds)"

definition set_pixel :: "nat \<Rightarrow> nat \<Rightarrow> 'a \<Rightarrow> (nat \<Rightarrow> nat \<Rightarrow> 'a) \<Rightarrow> nat \<Rightarrow> nat \<Rightarrow> 'a" where
  "set_pixel y x v b = b(y := (b y)(x := v))"

definition put_bg :: "nat \<Rightarrow> nat \<Rightarrow> u8 \<Rightarrow> Ppu \<Rightarrow> Ppu res" where
  "put_bg y x v p =
     (if y < kGbScreenBufferHeight \<and> x < kGbScreenBufferWidth
      then Inr (p\<lparr>bg_buffer := set_pixel y x v (bg_buffer p)\<rparr>) else Inl OutOfBounds)"

definition put_sprite :: "nat \<Rightarrow> nat \<Rightarrow> u8 \<Rightarrow> Ppu \<Rightarrow> Ppu res" where
  "put_sprite y x v p =
     (if y < kGbScreenHeight \<and> x < kGbScreenWidth
      then Inr (p\<lparr>sprite_buffer := set_pixel y x v (sprite_buffer p)\<rparr>) else Inl OutOfBounds)"

text \<open>The offsets in the video RAM that the pointers to the tables stand for.\<close>

definition tile_data_low :: int where "tile_data_low = 0x0000"
definition tile_data_up :: int where "tile_data_up = 0x0800"
definition tile_map_low :: int where "tile_map_low = 0x1800"
definition tile_map_up :: int where "tile_map_up = 0x1C00"

lemmas ppu_tables = tile_data_low_def tile_data_up_def tile_map_low_def tile_map_up_def

section \<open>Background\<close>

definition DrawBgToLine :: "ui_flags \<Rightarrow> ppu_mem \<Rightarrow> nat \<Rightarrow> Ppu \<Rightarrow> Ppu res" where
  "DrawBgToLine ui v line_num p =
     (let tile_data = (if reg_lcdc v AND kMaskBgWndwTileDataSlct \<noteq> 0 then tile_data_low else tile_data_up);
          bg_tile_map = (if reg_lcdc v AND kMaskBgTileSlct \<noteq> 0 then tile_map_up else tile_map_low);
          y_tile_pixel = (uint (reg_scroll_y v) + int line_num) smod 8 in
      if reg_lcdc v AND kMaskBgWndwDisp \<noteq> 0 \<and> uiRenderBg ui then
        for_each [0..<kGbScreenWidth] (\<lambda>i p.
          let bg_tile_ind = 32 * (((int line_num + uint (reg_scroll_y v)) smod 256) sdiv 8) +
                ((uint (reg_scroll_x v) + int i) smod 256) sdiv 8 in
          rbind (video_at v (bg_tile_map + bg_tile_ind)) (\<lambda>tile_ind.
          let tile_ind = tile_ind + (if tile_data = tile_data_up then 128 else 0);
              x_tile_pixel = (uint (reg_scroll_x v) + int i) smod 8;
              pixel_ind = uint tile_ind * int kBytesPerTile + 2 * y_tile_pixel in
          rbind (video_at v (tile_data + pixel_ind)) (\<lambda>lsb.
          rbind (video_at v (tile_data + (pixel_ind + 1))) (\<lambda>msb.
          rbind (put_bg line_num i (MapColors (InterleaveBits lsb msb (nat (7 - x_tile_pixel))) (reg_bgp v)) p)
            (\<lambda>p.
          if bg_tile_ind < 1024 then Inr p else Inl AssertFailed))))) p
      else for_each [0..<kGbScreenWidth] (\<lambda>i p. put_bg line_num i 0 p) p)"

section \<open>Window\<close>

definition DrawWndwToLine :: "ui_flags \<Rightarrow> ppu_mem \<Rightarrow> nat \<Rightarrow> Ppu \<Rightarrow> Ppu res" where
  "DrawWndwToLine ui v line_num p =
     (let x_pos = uint (reg_wndw_x v) - 7;
          y_pos = uint (reg_wndw_y v) in
      if reg_lcdc v AND kMaskWndwDisp = 0 \<or> int kGbScreenHeight \<le> y_pos \<or>
         int kGbScreenWidth \<le> x_pos \<or> int line_num < y_pos
      then Inr p
      else
       (let tile_data = (if reg_lcdc v AND kMaskBgWndwTileDataSlct \<noteq> 0 then tile_data_low else tile_data_up);
            wndw_tile_map = (if reg_lcdc v AND kMaskWndwTileMapSlct \<noteq> 0 then tile_map_up else tile_map_low);
            y_tile_pixel = window_line p smod 8 in
        rbind
         (if reg_lcdc v AND kMaskBgWndwDisp \<noteq> 0 \<and> uiRenderWndw ui then
            for_each [0..<kGbScreenWidth] (\<lambda>i p.
              if int i - x_pos < 0 then Inr p
              else
                (let wndw_tile_ind = 32 * (window_line p sdiv 8) + (int i - x_pos) sdiv 8 in
                 rbind (video_at v (wndw_tile_map + wndw_tile_ind)) (\<lambda>tile_ind.
                 let tile_ind = tile_ind + (if tile_data = tile_data_up then 128 else 0);
                     x_tile_pixel = (int i - x_pos) smod 8;
                     pixel_ind = uint tile_ind * int kBytesPerTile + 2 * y_tile_pixel in
                 rbind (video_at v (tile_data + pixel_ind)) (\<lambda>lsb.
                 rbind (video_at v (tile_data + (pixel_ind + 1))) (\<lambda>msb.
                 rbind (put_bg line_num i
                     (MapColors (InterleaveBits lsb msb (nat (7 - x_tile_pixel))) (reg_bgp v)) p) (\<lambda>p.
                 if wndw_tile_ind < 1024 then Inr p else Inl AssertFailed)))))) p
          else for_each [0..<kGbScreenWidth] (\<lambda>i p. put_bg line_num i 0 p) p)
         (\<lambda>p. Inr (p\<lparr>window_line := window_line p + 1\<rparr>))))"

section \<open>Sprites\<close>

definition sprite_big :: "ppu_mem \<Rightarrow> bool" where
  "sprite_big v \<longleftrightarrow> KMaskObjSpriteSize AND reg_lcdc v \<noteq> 0"

text \<open>The first loop collects the sprites on the line, in the order of their numbers.\<close>

definition on_line :: "ppu_mem \<Rightarrow> nat \<Rightarrow> nat \<Rightarrow> bool" where
  "on_line v line_num i =
     (let pos_y = uint (oam_table v (i * kOamEntryBytes)) - 16;
          pos_x = uint (oam_table v (i * kOamEntryBytes + 1)) - 8;
          sprite_height = (if sprite_big v then 16 else 8) in
      \<not> ((pos_y > int line_num \<or> pos_y + sprite_height \<le> int line_num) \<or>
         (pos_x < - 7 \<or> pos_x \<ge> int kGbScreenWidth)))"

definition line_sprites :: "ppu_mem \<Rightarrow> nat \<Rightarrow> (nat \<times> int) list" where
  "line_sprites v line_num =
     (let sorted_oam = map (\<lambda>i. (i, uint (oam_table v (i * kOamEntryBytes + 1))))
            (filter (on_line v line_num) [0..<kNumOamEntries]);
          sorted_oam = sort_key snd sorted_oam in
      take 10 sorted_oam)"

definition draw_sprite :: "ppu_mem \<Rightarrow> nat \<Rightarrow> nat \<Rightarrow> Ppu \<Rightarrow> Ppu res" where
  "draw_sprite v line_num i p =
     (let pos_y = uint (oam_table v (i * kOamEntryBytes)) - 16;
          pos_x = uint (oam_table v (i * kOamEntryBytes + 1)) - 8;
          sprite_tile_ind = oam_table v (i * kOamEntryBytes + 2);
          sprite_flags = oam_table v (i * kOamEntryBytes + 3);
          palette = IsBitSet sprite_flags 4;
          x_flip = IsBitSet sprite_flags 5;
          y_flip = IsBitSet sprite_flags 6;
          obj_prio = IsBitSet sprite_flags 7;
          sprite_tile_ind = (if sprite_big v then sprite_tile_ind AND 0xFE else sprite_tile_ind);
          y_tile_pixel = (if y_flip then (if sprite_big v then 15 else 7) - (int line_num - pos_y)
            else int line_num - pos_y);
          pixel_ind = uint sprite_tile_ind * 16 + y_tile_pixel * 2 in
      for_each [0..<8] (\<lambda>j p.
        let x_draw = pos_x + int j in
        if x_draw < 0 \<or> x_draw \<ge> int kGbScreenWidth then Inr p
        else
          rbind (video_at v (tile_data_low + pixel_ind)) (\<lambda>lsb.
          rbind (video_at v (tile_data_low + (pixel_ind + 1))) (\<lambda>msb.
          let res = InterleaveBits lsb msb (if x_flip then j else 7 - j);
              color = MapColors res (if palette then reg_obp_1 v else reg_obp_0 v) in
          if res = 0 then Inr p
          else if obj_prio then
            (if bg_buffer p line_num (nat x_draw) = 0 then put_bg line_num (nat x_draw) color p else Inr p)
          else put_sprite line_num (nat x_draw) color p))) p)"

definition DrawSpriteToLine :: "ui_flags \<Rightarrow> ppu_mem \<Rightarrow> nat \<Rightarrow> Ppu \<Rightarrow> Ppu res" where
  "DrawSpriteToLine ui v line_num p =
     (if kMaskObjSpriteDisp AND reg_lcdc v = 0 then Inr p
      else if \<not> uiRenderSprites ui then Inr p
      else for_each (rev (line_sprites v line_num)) (\<lambda>(i, x). draw_sprite v line_num i) p)"

end
