(* ===== verification/Ppu_Screen.thy ===== *)
theory Ppu_Screen
  imports Ppu
begin

text \<open>
  What the windows of \<^verbatim>\<open>src/ppu.cpp\<close> show at the end of a frame: the pixels each of them writes to
  its texture, and the screenshot of the headless mode, a bitmap file. Creating windows, limiting the
  frame rate and handing the texture to the screen are SDL's and the host's.
\<close>

section \<open>Colours\<close>

definition ToTextureColor :: "u8 \<Rightarrow> u8 \<Rightarrow> u8 \<Rightarrow> u32" where
  "ToTextureColor r g b = push_bit 16 (ucast r) OR push_bit 8 (ucast g) OR ucast b"

definition palette_at :: "Ppu \<Rightarrow> u8 \<Rightarrow> (u8 \<times> u8 \<times> u8) res" where
  "palette_at p val =
     (if unat val < length (color_palette p) then Inr (color_palette p ! unat val) else Inl OutOfBounds)"

definition texture_color :: "Ppu \<Rightarrow> u8 \<Rightarrow> u32 res" where
  "texture_color p val = rbind (palette_at p val) (\<lambda>(r, g, b). Inr (ToTextureColor r g b))"

definition put_pixel :: "nat \<Rightarrow> nat \<Rightarrow> u32 \<Rightarrow> RenderWindow \<Rightarrow> RenderWindow res" where
  "put_pixel y x c w =
     (let i = y * log_width w + x in
      if i < log_width w * log_height w then Inr (w\<lparr>pixels := (pixels w)(i := c)\<rparr>) else Inl OutOfBounds)"

section \<open>The game window\<close>

definition game_draw_bg :: "ui_flags \<Rightarrow> Ppu \<Rightarrow> RenderWindow \<Rightarrow> RenderWindow res" where
  "game_draw_bg ui p w =
     (if uiRenderBg ui \<or> uiRenderWndw ui then
        for_each [0..<log_height w] (\<lambda>y. for_each [0..<log_width w] (\<lambda>x w.
          rbind (texture_color p (bg_buffer p y x)) (\<lambda>c. put_pixel y x c w))) w
      else
        for_each [0..<log_height w] (\<lambda>y. for_each [0..<log_width w] (\<lambda>x.
          put_pixel y x (ToTextureColor 242 255 217))) w)"

definition game_draw_sprites :: "ui_flags \<Rightarrow> RenderWindow \<times> Ppu \<Rightarrow> (RenderWindow \<times> Ppu) res" where
  "game_draw_sprites ui = (\<lambda>(w, p).
     if uiRenderSprites ui then
       for_each [0..<log_height w] (\<lambda>y. for_each [0..<log_width w] (\<lambda>x (w, p).
         let val = sprite_buffer p y x in
         if val = color_code Transparent then Inr (w, p)
         else
           rbind (put_sprite y x (color_code Transparent) p) (\<lambda>p.
           rbind (texture_color p val) (\<lambda>c.
           rbind (put_pixel y x c w) (\<lambda>w. Inr (w, p)))))) (w, p)
     else Inr (w, p))"

definition GameWindow_DrawToScreen ::
  "ui_flags \<Rightarrow> ppu_mem \<Rightarrow> RenderWindow \<Rightarrow> Ppu \<Rightarrow> (RenderWindow \<times> Ppu) res" where
  "GameWindow_DrawToScreen ui v w p =
     (if reg_lcdc v AND kMaskLcdControl = 0 then Inr (w, p)
      else rbind (game_draw_bg ui p w) (\<lambda>w. game_draw_sprites ui (w, p)))"

section \<open>The window with the whole background\<close>

definition ext_draw_map :: "ppu_mem \<Rightarrow> Ppu \<Rightarrow> RenderWindow \<Rightarrow> RenderWindow res" where
  "ext_draw_map v p w =
     (let tile_data = (if reg_lcdc v AND kMaskBgWndwTileDataSlct \<noteq> 0 then tile_data_low else tile_data_up);
          bg_tile_map = (if reg_lcdc v AND kMaskBgTileSlct \<noteq> 0 then tile_map_up else tile_map_low) in
      for_each [0..<kGbScreenBufferHeight] (\<lambda>y.
        let y_tile = y div kTileLength;
            y_tile_pixel = y mod kTileLength in
        for_each [0..<kGbScreenBufferWidth] (\<lambda>x w.
          let x_tile = x div kTileLength;
              x_tile_pixel = x mod kTileLength;
              bg_tile_ind = y_tile * 32 + x_tile in
          rbind (video_at v (bg_tile_map + int bg_tile_ind)) (\<lambda>tile_ind.
          let tile_ind = tile_ind + (if tile_data = tile_data_up then 128 else 0);
              pixel_ind = unat tile_ind * kBytesPerTile + 2 * y_tile_pixel in
          rbind (video_at v (tile_data + int pixel_ind)) (\<lambda>lsb.
          rbind (video_at v (tile_data + int (pixel_ind + 1))) (\<lambda>msb.
          rbind (texture_color p (MapColors (InterleaveBits lsb msb (7 - x_tile_pixel)) (reg_bgp v))) (\<lambda>c.
          put_pixel y x c w)))))) w)"

text \<open>The visible part of the map, shown with its window and sprites, and the frame around it.\<close>

definition ext_draw_view :: "ppu_mem \<Rightarrow> Ppu \<Rightarrow> RenderWindow \<Rightarrow> RenderWindow res" where
  "ext_draw_view v p w =
     (let view_x0 = unat (reg_scroll_x v);
          view_y0 = unat (reg_scroll_y v) in
      rbind (for_each [0..<kGbScreenHeight] (\<lambda>y. for_each [0..<kGbScreenWidth] (\<lambda>x w.
          rbind (texture_color p (bg_buffer p y x)) (\<lambda>c.
          put_pixel ((y + view_y0) mod kGbScreenBufferHeight) ((x + view_x0) mod kGbScreenBufferWidth) c w))) w)
        (for_each [0..<kGbScreenHeight] (\<lambda>y. for_each [0..<kGbScreenWidth] (\<lambda>x w.
          let val = sprite_buffer p y x in
          if val = color_code Transparent then Inr w
          else rbind (texture_color p val) (\<lambda>c.
            put_pixel ((y + view_y0) mod kGbScreenBufferHeight) ((x + view_x0) mod kGbScreenBufferWidth) c w)))))"

definition kViewBoxColor :: u32 where "kViewBoxColor = ToTextureColor 255 0 0"

definition ext_draw_box :: "ppu_mem \<Rightarrow> RenderWindow \<Rightarrow> RenderWindow res" where
  "ext_draw_box v w =
     (let view_x0 = unat (reg_scroll_x v);
          view_y0 = unat (reg_scroll_y v) in
      rbind (for_each [0..<kGbScreenWidth] (\<lambda>x w.
          let top_x = (view_x0 + x) mod kGbScreenBufferWidth;
              top_y = view_y0 mod kGbScreenBufferHeight;
              bot_y = (view_y0 + kGbScreenHeight - 1) mod kGbScreenBufferHeight in
          rbind (put_pixel top_y top_x kViewBoxColor w) (put_pixel bot_y top_x kViewBoxColor)) w)
        (for_each [0..<kGbScreenHeight] (\<lambda>y w.
          let left_y = (view_y0 + y) mod kGbScreenBufferHeight;
              left_x = view_x0 mod kGbScreenBufferWidth;
              right_x = (view_x0 + kGbScreenWidth - 1) mod kGbScreenBufferWidth in
          rbind (put_pixel left_y left_x kViewBoxColor w) (put_pixel left_y right_x kViewBoxColor))))"

definition ExtGameWindow_DrawToScreen :: "ppu_mem \<Rightarrow> RenderWindow \<Rightarrow> Ppu \<Rightarrow> RenderWindow res" where
  "ExtGameWindow_DrawToScreen v w p =
     (if reg_lcdc v AND kMaskLcdControl = 0 then Inr w
      else rbind (ext_draw_map v p w) (\<lambda>w. rbind (ext_draw_view v p w) (ext_draw_box v)))"

section \<open>The window with the tile data\<close>

definition WindowWindow_DrawToScreen :: "ppu_mem \<Rightarrow> RenderWindow \<Rightarrow> Ppu \<Rightarrow> RenderWindow res" where
  "WindowWindow_DrawToScreen v w p =
     (let kTilesPerRow = 16 in
      rbind (for_each [0..<kTilesPerRow * 24] (\<lambda>tile_index.
          let tile_row = tile_index div kTilesPerRow;
              tile_col = tile_index mod kTilesPerRow;
              tile_base = tile_index * kBytesPerTile in
          for_each [0..<kTileLength] (\<lambda>pixel_row.
            let row_base = tile_base + 2 * pixel_row in
            for_each [0..<kTileLength] (\<lambda>pixel_col w.
              rbind (video_at v (tile_data_low + int row_base)) (\<lambda>lsb.
              rbind (video_at v (tile_data_low + int (row_base + 1))) (\<lambda>msb.
              rbind (texture_color p (MapColors (InterleaveBits lsb msb (7 - pixel_col)) (reg_bgp v))) (\<lambda>c.
              put_pixel (tile_row * kTileLength + pixel_row) (tile_col * kTileLength + pixel_col) c w)))))) w)
        (for_each [128, 256] (\<lambda>separator_tile w.
          let separator_y = (separator_tile div kTilesPerRow) * kTileLength in
          for_each [0..<log_width w] (\<lambda>x. put_pixel separator_y x (ToTextureColor 255 0 0)) w)))"

section \<open>The virtual function\<close>

definition DrawToScreen ::
  "ui_flags \<Rightarrow> ppu_mem \<Rightarrow> RenderWindow \<Rightarrow> Ppu \<Rightarrow> (RenderWindow \<times> Ppu) res" where
  "DrawToScreen ui v w p =
     (case window_kind w of
        GameWindow \<Rightarrow> GameWindow_DrawToScreen ui v w p
      | ExtGameWindow \<Rightarrow> map_sum id (\<lambda>w. (w, p)) (ExtGameWindow_DrawToScreen v w p)
      | WindowWindow \<Rightarrow> map_sum id (\<lambda>w. (w, p)) (WindowWindow_DrawToScreen v w p)
      | DummyWindow \<Rightarrow> Inr (w, p))"

end
