(* ===== verification/Ppu_Loop.thy ===== *)
theory Ppu_Loop
  imports Ppu_Screen
begin

text \<open>
  The thread of the pixel processing unit: from one wait to the next, with the time it waits.
\<close>

section \<open>The thread\<close>

definition CheckLycInterrupt :: "ppu_mem \<Rightarrow> ppu_mem" where
  "CheckLycInterrupt v =
     (let ly_coinc_interrupt = reg_stat v AND kMaskBit6 \<noteq> 0;
          ly_coinc = reg_ly_comp v = reg_lcdc_y v;
          v = (if ly_coinc_interrupt \<and> ly_coinc
               then v\<lparr>reg_intr_pending := reg_intr_pending v OR kMaskLcdcStatIf\<rparr> else v) in
      v\<lparr>reg_stat := SetBit (reg_stat v) ly_coinc 2\<rparr>)"

definition oam_search_time :: nat where "oam_search_time = 80 * kNsPerClkCycle"
definition lcd_transfer_time :: nat where "lcd_transfer_time = 168 * kNsPerClkCycle"
definition check_lyc_time :: nat where "check_lyc_time = 208 * kNsPerClkCycle"
definition vblank_time :: nat where "vblank_time = 456 * kNsPerClkCycle"

text \<open>What the thread does after each of its waits, up to the next one.\<close>

definition oam_search :: "nat \<Rightarrow> ppu_mem \<times> Ppu \<Rightarrow> nat \<times> ppu_mem \<times> Ppu" where
  "oam_search i = (\<lambda>(v, p).
     (oam_search_time,
      v\<lparr>reg_stat := SetBit (SetBit (reg_stat v) False 0) True 1\<rparr>,
      p\<lparr>render_pc := AfterOamSearch i\<rparr>))"

definition lcd_transfer :: "nat \<Rightarrow> ppu_mem \<times> Ppu \<Rightarrow> nat \<times> ppu_mem \<times> Ppu" where
  "lcd_transfer i = (\<lambda>(v, p).
     (lcd_transfer_time, v\<lparr>reg_stat := SetBit (reg_stat v) True 0\<rparr>,
      p\<lparr>render_pc := AfterTransfer i\<rparr>))"

definition draw_line :: "ui_flags \<Rightarrow> ppu_mem \<Rightarrow> nat \<Rightarrow> Ppu \<Rightarrow> Ppu res" where
  "draw_line ui v i p =
     rbind (DrawBgToLine ui v i p) (\<lambda>p.
     rbind (DrawWndwToLine ui v i p) (\<lambda>p.
     DrawSpriteToLine ui v i p))"

definition h_blank :: "ui_flags \<Rightarrow> nat \<Rightarrow> ppu_mem \<times> Ppu \<Rightarrow> (nat \<times> ppu_mem \<times> Ppu) res" where
  "h_blank ui i = (\<lambda>(v, p).
     let v = v\<lparr>reg_stat := SetBit (SetBit (reg_stat v) False 0) False 1\<rparr> in
     rbind (draw_line ui v i p) (\<lambda>p.
     let v = v\<lparr>reg_lcdc_y := reg_lcdc_y v + 1\<rparr>;
         v = (if reg_stat v AND kMaskBit3 \<noteq> 0
              then v\<lparr>reg_intr_pending := reg_intr_pending v OR kMaskLcdcStatIf\<rparr> else v) in
     Inr (check_lyc_time, CheckLycInterrupt v, p\<lparr>render_pc := AfterHBlank i\<rparr>)))"

definition draw_windows :: "ui_flags \<Rightarrow> ppu_mem \<Rightarrow> Ppu \<Rightarrow> Ppu res" where
  "draw_windows ui v p =
     rbind (DrawToScreen ui v (ext_game_wndw p) p) (\<lambda>(w, p).
     let p = p\<lparr>ext_game_wndw := w\<rparr> in
     rbind (DrawToScreen ui v (game_wndw p) p) (\<lambda>(w, p).
     let p = p\<lparr>game_wndw := w\<rparr> in
     rbind (DrawToScreen ui v (window_wndw p) p) (\<lambda>(w, p).
     Inr (p\<lparr>window_wndw := w\<rparr>))))"

definition v_blank :: "ui_flags \<Rightarrow> ppu_mem \<times> Ppu \<Rightarrow> (nat \<times> ppu_mem \<times> Ppu) res" where
  "v_blank ui = (\<lambda>(v, p).
     let p = p\<lparr>window_line := 0\<rparr>;
         v = v\<lparr>reg_stat := SetBit (reg_stat v) True 0\<rparr> in
     rbind (draw_windows ui v p) (\<lambda>p.
     Inr (vblank_time, v\<lparr>reg_intr_pending := reg_intr_pending v OR kMaskVBlankIE\<rparr>,
          p\<lparr>render_pc := AfterVBlank 0\<rparr>)))"

fun RenderLoop_step :: "ui_flags \<Rightarrow> ppu_mem \<times> Ppu \<Rightarrow> (nat \<times> ppu_mem \<times> Ppu) res" where
  "RenderLoop_step ui (v, p) =
     (case render_pc p of
        RenderStart \<Rightarrow> Inr (oam_search 0 (v, p))
      | AfterOamSearch i \<Rightarrow> Inr (lcd_transfer i (v, p))
      | AfterTransfer i \<Rightarrow> h_blank ui i (v, p)
      | AfterHBlank i \<Rightarrow>
          (if i + 1 < kGbScreenHeight then Inr (oam_search (i + 1) (v, p)) else v_blank ui (v, p))
      | AfterVBlank i \<Rightarrow>
          (let v = CheckLycInterrupt (v\<lparr>reg_lcdc_y := reg_lcdc_y v + 1\<rparr>) in
           if i + 1 < 10 then Inr (vblank_time, v, p\<lparr>render_pc := AfterVBlank (i + 1)\<rparr>)
           else Inr (oam_search 0 (CheckLycInterrupt (v\<lparr>reg_lcdc_y := 0\<rparr>), p))))"

end
