(* ===== verification/Ppu_Connect.thy ===== *)
theory Ppu_Connect
  imports Ppu_Loop Bus
begin

text \<open>
  The start of the simulation in \<^verbatim>\<open>src/ppu.cpp\<close>: the unit asks the bus for direct pointers to its
  registers and memories. \<open>'m\<close> is the state of the system behind the bus.
\<close>

record 'm ppu_link =
  link_io :: "'m dmi"
  link_video :: "'m dmi"
  link_oam :: "'m dmi"
  link_ie :: "'m dmi"
  link_if :: "'m dmi"

definition ppu_start_of_simulation :: "'m BusSlave list \<Rightarrow> 'm \<Rightarrow> ('m ppu_link \<times> 'm) res" where
  "ppu_start_of_simulation slaves m =
     rbind (dmi_at slaves 0xFF40 m) (\<lambda>io.
     require (dmi_start io = 0) (require (0x0B \<le> dmi_end io)
     (let m = dmi_store io (0xFF44 - 0xFF40) 0 m in
     rbind (dmi_at slaves 0x8000 m) (\<lambda>vram.
     require (dmi_start vram = 0) (require (0x1C00 \<le> dmi_end vram)
     (rbind (dmi_at slaves 0xFE00 m) (\<lambda>oam.
     require (dmi_start oam = 0)
     (rbind (dmi_at slaves 0xFFFF m) (\<lambda>ie.
     require (dmi_start ie = 0)
     (rbind (dmi_at slaves 0xFF0F m) (\<lambda>ifl.
     require (dmi_start ifl = 0)
     (Inr (\<lparr>link_io = io, link_video = vram, link_oam = oam, link_ie = ie, link_if = ifl\<rparr>, m)))))))))))))"

text \<open>What the unit reads through the pointers, and the registers that its thread writes.\<close>

definition ppu_view :: "'m ppu_link \<Rightarrow> 'm \<Rightarrow> ppu_mem" where
  "ppu_view l m =
     \<lparr>reg_lcdc = dmi_load (link_io l) m (0xFF40 - 0xFF40),
      reg_stat = dmi_load (link_io l) m (0xFF41 - 0xFF40),
      reg_scroll_y = dmi_load (link_io l) m (0xFF42 - 0xFF40),
      reg_scroll_x = dmi_load (link_io l) m (0xFF43 - 0xFF40),
      reg_lcdc_y = dmi_load (link_io l) m (0xFF44 - 0xFF40),
      reg_ly_comp = dmi_load (link_io l) m (0xFF45 - 0xFF40),
      reg_bgp = dmi_load (link_io l) m (0xFF47 - 0xFF40),
      reg_obp_0 = dmi_load (link_io l) m (0xFF48 - 0xFF40),
      reg_obp_1 = dmi_load (link_io l) m (0xFF49 - 0xFF40),
      reg_wndw_y = dmi_load (link_io l) m (0xFF4A - 0xFF40),
      reg_wndw_x = dmi_load (link_io l) m (0xFF4B - 0xFF40),
      reg_intr_pending = dmi_load (link_if l) m 0,
      video = dmi_load (link_video l) m,
      oam_table = dmi_load (link_oam l) m\<rparr>"

definition ppu_write_back :: "'m ppu_link \<Rightarrow> ppu_mem \<Rightarrow> 'm \<Rightarrow> 'm" where
  "ppu_write_back l v m =
     dmi_store (link_if l) 0 (reg_intr_pending v)
       (dmi_store (link_io l) (0xFF44 - 0xFF40) (reg_lcdc_y v)
         (dmi_store (link_io l) (0xFF41 - 0xFF40) (reg_stat v) m))"

end
