(* ===== verification/Ppu_Lines.thy ===== *)
theory Ppu_Lines
  imports Ppu
begin

text \<open>
  What a line of the picture shows, against a description in the terms of the hardware: the tile
  maps with their signed and unsigned tile numbers, palettes, and which sprite is in front.
\<close>

section \<open>Tiles\<close>

text \<open>A tile is eight rows of two bytes, low and high bits of eight pixels from bit 7 down.\<close>

definition tile_color :: "ppu_mem \<Rightarrow> nat \<Rightarrow> nat \<Rightarrow> nat \<Rightarrow> nat" where
  "tile_color v adr row col =
     of_bool (bit (video v (adr + 2 * row)) (7 - col)) +
     2 * of_bool (bit (video v (adr + 2 * row + 1)) (7 - col))"

definition palette_color :: "u8 \<Rightarrow> nat \<Rightarrow> u8" where
  "palette_color reg c = take_bit 2 (drop_bit (2 * c) reg)"

text \<open>
  Bit 4 of LCDC selects how background tiles are numbered: from 0x8000 on by an unsigned number, or
  around 0x9000 by a signed one.
\<close>

definition bg_tile_address :: "ppu_mem \<Rightarrow> u8 \<Rightarrow> nat" where
  "bg_tile_address v t = (if bit (reg_lcdc v) 4 then 16 * unat t else nat (0x1000 + 16 * sint t))"

text \<open>The pixel of a map of 32 times 32 tiles that starts at an offset of the video RAM.\<close>

definition map_pixel :: "ppu_mem \<Rightarrow> nat \<Rightarrow> nat \<Rightarrow> nat \<Rightarrow> u8" where
  "map_pixel v tmap y x =
     palette_color (reg_bgp v)
       (tile_color v (bg_tile_address v (video v (tmap + 32 * (y div 8) + x div 8))) (y mod 8) (x mod 8))"

definition bg_map :: "ppu_mem \<Rightarrow> nat" where
  "bg_map v = (if bit (reg_lcdc v) 3 then 0x1C00 else 0x1800)"

definition wndw_map :: "ppu_mem \<Rightarrow> nat" where
  "wndw_map v = (if bit (reg_lcdc v) 6 then 0x1C00 else 0x1800)"

lemma tile_color_less: "tile_color v adr row col < 4"
  by (simp add: tile_color_def)

lemma and_mask_bit: "(a :: u8) AND push_bit n 1 = push_bit n 1 \<longleftrightarrow> n < 8 \<longrightarrow> bit a n"
proof -
  have "a AND push_bit n 1 = of_bool (bit a n) * push_bit n 1"
    by (rule bit_word_eqI) (auto simp: bit_simps)
  moreover have "push_bit n (1 :: u8) = 0 \<longleftrightarrow> \<not> n < 8"
    by (simp add: push_bit_eq_mult) (metis exp_eq_zero_iff len_num0 len_bit0 len_num1 mult_numeral_1_right numeral_Bit0 not_le)
  ultimately show ?thesis by auto
qed

lemma InterleaveBits_eq:
  "pos < 8 \<Longrightarrow> InterleaveBits a b pos = of_nat (of_bool (bit a pos) + 2 * of_bool (bit b pos))"
  unfolding InterleaveBits_def Let_def and_mask_bit by (cases "bit a pos"; cases "bit b pos") simp_all

lemma Interleave_tile:
  "col < 8 \<Longrightarrow> InterleaveBits (video v (adr + 2 * row)) (video v (adr + 2 * row + 1)) (7 - col) =
    of_nat (tile_color v adr row col)"
  by (simp add: InterleaveBits_eq tile_color_def)

lemma MapColors_eq: "c < 4 \<Longrightarrow> MapColors (of_nat c) reg = palette_color reg c"
proof -
  assume c: "c < 4"
  then have "unat (of_nat c :: u8) = c" by (simp add: unat_of_nat)
  moreover have "w AND 3 = take_bit 2 w" for w :: u8
    by (simp add: take_bit_eq_mask mask_eq_exp_minus_1)
  ultimately show ?thesis by (simp add: MapColors_def palette_color_def mult.commute)
qed

lemma palette_color_less: "unat (palette_color reg c) < 4"
proof -
  have "unat (palette_color reg c) = take_bit 2 (unat (drop_bit (2 * c) reg))"
    by (simp add: palette_color_def unsigned_take_bit_eq)
  then show ?thesis by (simp add: take_bit_eq_mod)
qed

text \<open>The wrap-around of the tile number is the signed numbering.\<close>

lemma signed_tile: "uint (t + 128 :: u8) = sint t + 128"
proof -
  have "sint t = signed_take_bit 7 (uint t)"
    by (simp add: sint_uint)
  also have "\<dots> = take_bit 8 (uint t + 128) - 128"
    by (simp add: signed_take_bit_eq_take_bit_shift)
  also have "take_bit 8 (uint t + 128) = uint (t + 128)"
    by (simp add: uint_word_ariths take_bit_eq_mod)
  finally show ?thesis by simp
qed

lemma lcdc_masks:
  "reg_lcdc v AND kMaskBgWndwTileDataSlct \<noteq> 0 \<longleftrightarrow> bit (reg_lcdc v) 4"
  "reg_lcdc v AND kMaskBgTileSlct \<noteq> 0 \<longleftrightarrow> bit (reg_lcdc v) 3"
  "reg_lcdc v AND kMaskWndwTileMapSlct \<noteq> 0 \<longleftrightarrow> bit (reg_lcdc v) 6"
  "reg_lcdc v AND kMaskBgWndwDisp \<noteq> 0 \<longleftrightarrow> bit (reg_lcdc v) 0"
  "reg_lcdc v AND kMaskWndwDisp \<noteq> 0 \<longleftrightarrow> bit (reg_lcdc v) 5"
  "reg_lcdc v AND kMaskLcdControl \<noteq> 0 \<longleftrightarrow> bit (reg_lcdc v) 7"
  "KMaskObjSpriteSize AND reg_lcdc v \<noteq> 0 \<longleftrightarrow> bit (reg_lcdc v) 2"
  "kMaskObjSpriteDisp AND reg_lcdc v \<noteq> 0 \<longleftrightarrow> bit (reg_lcdc v) 1"
  by (simp_all add: kMaskBgWndwTileDataSlct_def kMaskBgTileSlct_def kMaskWndwTileMapSlct_def
      kMaskBgWndwDisp_def kMaskWndwDisp_def kMaskLcdControl_def KMaskObjSpriteSize_def
      kMaskObjSpriteDisp_def u8_eq_iff_bits bit_simps)

definition tile_base :: "ppu_mem \<Rightarrow> int" where
  "tile_base v = (if bit (reg_lcdc v) 4 then tile_data_low else tile_data_up)"

definition tile_number :: "ppu_mem \<Rightarrow> u8 \<Rightarrow> u8" where
  "tile_number v t = t + (if bit (reg_lcdc v) 4 then 0 else 128)"

lemma tile_address:
  "tile_base v + (uint (tile_number v t) * 16 + r) = int (bg_tile_address v t) + r"
  "bg_tile_address v t \<le> 0x17F0"
proof -
  have bounds: "- 128 \<le> sint t" "sint t < 128"
    using sint_range_size [of t] by (simp_all add: word_size)
  show "tile_base v + (uint (tile_number v t) * 16 + r) = int (bg_tile_address v t) + r"
  proof (cases "bit (reg_lcdc v) 4")
    case False
    then have "int (bg_tile_address v t) = 0x1000 + 16 * sint t"
      using bounds by (simp add: bg_tile_address_def)
    moreover have "uint (tile_number v t) = sint t + 128"
      using False by (simp only: tile_number_def if_False signed_tile)
    ultimately show ?thesis using False by (simp only: tile_base_def ppu_tables if_False) presburger
  qed (simp add: tile_base_def tile_number_def bg_tile_address_def ppu_tables)
  show "bg_tile_address v t \<le> 0x17F0"
    using bounds(2) unat_u8_less [of t] by (auto simp: bg_tile_address_def)
qed

lemma video_at_nat [simp]: "n < 0x2000 \<Longrightarrow> video_at v (int n) = Inr (video v n)"
  by (simp add: video_at_def)

text \<open>How the code fetches a pixel of a background or window tile.\<close>

lemma fetch_pixel:
  assumes "r < 8" and "c < 8"
  shows "rbind (video_at v (tile_base v + (uint (tile_number v t) * int kBytesPerTile + 2 * int r))) (\<lambda>lsb.
      rbind (video_at v (tile_base v + (uint (tile_number v t) * int kBytesPerTile + 2 * int r + 1)))
        (\<lambda>msb. f (MapColors (InterleaveBits lsb msb (7 - c)) reg))) =
    f (palette_color reg (tile_color v (bg_tile_address v t) r c))"
proof -
  have adr: "tile_base v + (uint (tile_number v t) * int kBytesPerTile + 2 * int r) =
      int (bg_tile_address v t + 2 * r)"
    "tile_base v + (uint (tile_number v t) * int kBytesPerTile + 2 * int r + 1) =
      int (bg_tile_address v t + 2 * r + 1)"
    using tile_address(1) [of v t "2 * int r"] tile_address(1) [of v t "2 * int r + 1"]
    by (simp_all add: kBytesPerTile_def algebra_simps)
  have less: "bg_tile_address v t + 2 * r < 0x2000" "bg_tile_address v t + 2 * r + 1 < 0x2000"
    using assms tile_address(2) [of v t] by simp_all
  show ?thesis
    using assms by (simp only: adr video_at_nat [OF less(1)] video_at_nat [OF less(2)] rbind_simps
        Interleave_tile MapColors_eq tile_color_less)
qed

section \<open>Loops over a line\<close>

lemma put_bg_in [simp]:
  "y < 144 \<Longrightarrow> x < 160 \<Longrightarrow> put_bg y x c p = Inr (p\<lparr>bg_buffer := set_pixel y x c (bg_buffer p)\<rparr>)"
  by (simp add: put_bg_def ppu_consts)

lemma put_sprite_in [simp]:
  "y < 144 \<Longrightarrow> x < 160 \<Longrightarrow>
   put_sprite y x c p = Inr (p\<lparr>sprite_buffer := set_pixel y x c (sprite_buffer p)\<rparr>)"
  by (simp add: put_sprite_def ppu_consts)

lemma set_pixel_apply: "set_pixel y x c b y' x' = (if y' = y \<and> x' = x then c else b y' x')"
  by (simp add: set_pixel_def)

lemma for_each_bg:
  assumes "\<And>i q. i < n \<Longrightarrow> window_line q = window_line p \<Longrightarrow>
    f i q = Inr (if P i then q\<lparr>bg_buffer := set_pixel y i (g i) (bg_buffer q)\<rparr> else q)"
  shows "for_each [0..<n] f p = Inr (p\<lparr>bg_buffer := (\<lambda>y' x.
    if y' = y \<and> x < n \<and> P x then g x else bg_buffer p y' x)\<rparr>)"
  using assms
proof (induction n)
  case (Suc n)
  have "for_each [0..<n] f p = Inr (p\<lparr>bg_buffer := (\<lambda>y' x.
      if y' = y \<and> x < n \<and> P x then g x else bg_buffer p y' x)\<rparr>)"
    using Suc.prems by (intro Suc.IH) simp
  moreover have "set_pixel y n (g n) (\<lambda>y' x. if y' = y \<and> x < n \<and> P x then g x else bg_buffer p y' x) =
      (\<lambda>y' x. if y' = y \<and> x < Suc n \<and> P x then g x else bg_buffer p y' x)" if "P n"
    using that by (auto simp: set_pixel_apply fun_eq_iff less_Suc_eq)
  moreover have "(\<lambda>y' x. if y' = y \<and> x < n \<and> P x then g x else bg_buffer p y' x) =
      (\<lambda>y' x. if y' = y \<and> x < Suc n \<and> P x then g x else bg_buffer p y' x)" if "\<not> P n"
    using that by (auto simp: fun_eq_iff less_Suc_eq)
  ultimately show ?case
    using Suc.prems [of n] by (simp add: for_each_append)
qed simp

section \<open>The background\<close>

definition bg_line :: "ui_flags \<Rightarrow> ppu_mem \<Rightarrow> nat \<Rightarrow> nat \<Rightarrow> u8" where
  "bg_line ui v line x =
     (if bit (reg_lcdc v) 0 \<and> uiRenderBg ui
      then map_pixel v (bg_map v) ((line + unat (reg_scroll_y v)) mod 256) ((x + unat (reg_scroll_x v)) mod 256)
      else 0)"

lemma smod_nat: "int a smod int b = int (a mod b)" and sdiv_nat: "int a sdiv int b = int (a div b)"
proof -
  have "int a sdiv int b = sgn (int a) * sgn (int b) * int (a div b)"
    by (simp only: signed_divide_int_def abs_of_nat zdiv_int)
  also have "\<dots> = int (a div b)"
    by (cases "a = 0"; cases "b = 0") simp_all
  finally show "int a sdiv int b = int (a div b)" .
  have "int a smod int b = sgn (int a) * int (a mod b)"
    by (simp only: signed_modulo_int_def abs_of_nat zmod_int)
  also have "\<dots> = int (a mod b)"
    by (cases "a = 0") simp_all
  finally show "int a smod int b = int (a mod b)" .
qed

lemma smod_numeral: "(int a + int b) smod numeral k = int ((a + b) mod numeral k)"
  "int a smod numeral k = int (a mod numeral k)" "int a sdiv numeral k = int (a div numeral k)"
  using smod_nat [of "a + b" "numeral k"] smod_nat [of a "numeral k"] sdiv_nat [of a "numeral k"]
  unfolding of_nat_numeral of_nat_add .

lemma map_index: "32 * (y div 8) + x div 8 < 1024" if "y < 256" "x < (256 :: nat)"
proof -
  have "y div 8 < 32" "x div 8 < 32" using that by (simp_all add: less_mult_imp_div_less)
  then show ?thesis by simp
qed

text \<open>The body of the loop over a line of the background or of the window.\<close>

definition tile_pixel :: "ppu_mem \<Rightarrow> int \<Rightarrow> nat \<Rightarrow> nat \<Rightarrow> (u8 \<Rightarrow> 'a res) \<Rightarrow> 'a res" where
  "tile_pixel v tmap r c f =
     rbind (video_at v tmap) (\<lambda>tile_ind.
     rbind (video_at v (tile_base v + (uint (tile_number v tile_ind) * int kBytesPerTile + 2 * int r))) (\<lambda>lsb.
     rbind (video_at v (tile_base v + (uint (tile_number v tile_ind) * int kBytesPerTile + 2 * int r + 1)))
       (\<lambda>msb. f (MapColors (InterleaveBits lsb msb (7 - c)) (reg_bgp v)))))"

lemma tile_pixel_eq:
  assumes "tmap < 0x1C01" and "y < 256" and "x < 256"
  shows "tile_pixel v (int tmap + int (32 * (y div 8) + x div 8)) (y mod 8) (x mod 8) f =
    f (map_pixel v tmap y x)"
proof -
  have idx: "int tmap + int (32 * (y div 8) + x div 8) = int (tmap + 32 * (y div 8) + x div 8)"
    by simp
  have less: "tmap + 32 * (y div 8) + x div 8 < 0x2000"
    using assms(1) map_index [OF assms(2,3)] by simp
  have cell: "y mod 8 < 8" "x mod 8 < 8" by simp_all
  show ?thesis
    unfolding tile_pixel_def idx video_at_nat [OF less] rbind_simps fetch_pixel [OF cell] map_pixel_def ..
qed

lemma tables_select:
  "(if bit (reg_lcdc v) 4 then tile_data_low else tile_data_up) = tile_base v"
  "(if bit (reg_lcdc v) 3 then tile_map_up else tile_map_low) = int (bg_map v)"
  "(if bit (reg_lcdc v) 6 then tile_map_up else tile_map_low) = int (wndw_map v)"
  "t + (if tile_base v = tile_data_up then 128 else 0) = tile_number v t"
  by (simp_all add: tile_base_def ppu_tables bg_map_def wndw_map_def tile_number_def)

lemma DrawBgToLine_eq:
  assumes "line < 144"
  shows "DrawBgToLine ui v line p = Inr (p\<lparr>bg_buffer := (\<lambda>y x.
    if y = line \<and> x < 160 then bg_line ui v line x else bg_buffer p y x)\<rparr>)"
proof (cases "bit (reg_lcdc v) 0 \<and> uiRenderBg ui")
  case False
  then show ?thesis
    using for_each_bg [of 160 p "\<lambda>i. put_bg line i 0" "\<lambda>_. True" line "\<lambda>_. 0"] assms
    unfolding DrawBgToLine_def Let_def lcdc_masks if_not_P [OF False] bg_line_def kGbScreenWidth_def
    by simp
next
  case True
  let ?y = "(line + unat (reg_scroll_y v)) mod 256"
  let ?x = "\<lambda>i. (i + unat (reg_scroll_x v)) mod 256"
  have ind: "32 * (((int line + uint (reg_scroll_y v)) smod 256) sdiv 8) +
      ((uint (reg_scroll_x v) + int i) smod 256) sdiv 8 = int (32 * (?y div 8) + ?x i div 8)"
    and row: "(uint (reg_scroll_y v) + int line) smod 8 = int (?y mod 8)"
    and col: "(uint (reg_scroll_x v) + int i) smod 8 = int (?x i mod 8)" for i
    unfolding uint_nat add.commute [of "int (unat (reg_scroll_x v))"]
      add.commute [of "int (unat (reg_scroll_y v))"] smod_numeral
    by (simp_all add: mod_mod_cancel)
  have nat7: "nat (7 - int (c mod 8)) = 7 - c mod 8" for c :: nat
    by simp
  have pixel: "int 32 * 0 = 0" by simp
  have "DrawBgToLine ui v line p = for_each [0..<160] (\<lambda>i p.
      tile_pixel v (int (bg_map v) + int (32 * (?y div 8) + ?x i div 8)) (?y mod 8) (?x i mod 8) (\<lambda>c.
      rbind (put_bg line i c p) (\<lambda>p.
      if int (32 * (?y div 8) + ?x i div 8) < 1024 then Inr p else Inl AssertFailed))) p"
    unfolding DrawBgToLine_def Let_def lcdc_masks if_P [OF True] tables_select ind row col nat7
      kGbScreenWidth_def tile_pixel_def ..
  also have "\<dots> = Inr (p\<lparr>bg_buffer := (\<lambda>y x.
    if y = line \<and> x < 160 \<and> True then map_pixel v (bg_map v) ?y (?x x) else bg_buffer p y x)\<rparr>)"
  proof (rule for_each_bg)
    fix i q
    assume "i < (160 :: nat)"
    moreover have "bg_map v < 0x1C01" by (simp add: bg_map_def)
    moreover have "int (32 * (?y div 8) + ?x i div 8) < 1024"
      using map_index [of ?y "?x i"] by simp
    ultimately show "tile_pixel v (int (bg_map v) + int (32 * (?y div 8) + ?x i div 8)) (?y mod 8)
        (?x i mod 8) (\<lambda>c. rbind (put_bg line i c q) (\<lambda>p.
        if int (32 * (?y div 8) + ?x i div 8) < 1024 then Inr p else Inl AssertFailed)) =
      Inr (if True then q\<lparr>bg_buffer := set_pixel line i (map_pixel v (bg_map v) ?y (?x i)) (bg_buffer q)\<rparr>
        else q)"
      using assms tile_pixel_eq [of "bg_map v" ?y "?x i" v] by simp
  qed
  also have "\<dots> = Inr (p\<lparr>bg_buffer := (\<lambda>y x.
    if y = line \<and> x < 160 then bg_line ui v line x else bg_buffer p y x)\<rparr>)"
    by (simp only: bg_line_def if_P [OF True] HOL.simp_thms)
  finally show ?thesis .
qed

section \<open>The window\<close>

text \<open>
  The window lies over the background from its left edge \<open>WX - 7\<close> on; its lines are counted by
  \<open>window_line\<close>, which advances only on lines that show it.
\<close>

definition wndw_on :: "ppu_mem \<Rightarrow> nat \<Rightarrow> bool" where
  "wndw_on v line \<longleftrightarrow> bit (reg_lcdc v) 5 \<and> unat (reg_wndw_y v) < 144 \<and> unat (reg_wndw_x v) < 167 \<and>
     unat (reg_wndw_y v) \<le> line"

definition wndw_covers :: "ui_flags \<Rightarrow> ppu_mem \<Rightarrow> nat \<Rightarrow> bool" where
  "wndw_covers ui v x \<longleftrightarrow> bit (reg_lcdc v) 0 \<and> uiRenderWndw ui \<longrightarrow> unat (reg_wndw_x v) \<le> x + 7"

definition wndw_pixel :: "ui_flags \<Rightarrow> ppu_mem \<Rightarrow> nat \<Rightarrow> nat \<Rightarrow> u8" where
  "wndw_pixel ui v wline x =
     (if bit (reg_lcdc v) 0 \<and> uiRenderWndw ui
      then map_pixel v (wndw_map v) wline (x + 7 - unat (reg_wndw_x v)) else 0)"

lemma wndw_off_iff:
  "reg_lcdc v AND kMaskWndwDisp = 0 \<or> int kGbScreenHeight \<le> uint (reg_wndw_y v) \<or>
    int kGbScreenWidth \<le> uint (reg_wndw_x v) - 7 \<or> int line < uint (reg_wndw_y v) \<longleftrightarrow>
   \<not> wndw_on v line"
proof -
  have "reg_lcdc v AND kMaskWndwDisp = 0 \<longleftrightarrow> \<not> bit (reg_lcdc v) 5"
    using lcdc_masks(5) by blast
  moreover have "(a \<or> int 144 \<le> int y \<or> int 160 \<le> int x - 7 \<or> int line < int y) =
      (\<not> (\<not> a \<and> y < 144 \<and> x < 167 \<and> y \<le> line))" for a and x y :: nat
    by auto
  ultimately show ?thesis
    unfolding wndw_on_def ppu_consts uint_nat by blast
qed

lemma DrawWndwToLine_off: "\<not> wndw_on v line \<Longrightarrow> DrawWndwToLine ui v line p = Inr p"
  unfolding DrawWndwToLine_def Let_def wndw_off_iff by simp

lemma DrawWndwToLine_on:
  fixes p :: Ppu
  assumes "wndw_on v line" and "line < 144" and "window_line p = int wl" and "wl < 256"
  shows "DrawWndwToLine ui v line p = Inr (p\<lparr>bg_buffer := (\<lambda>y x.
      if y = line \<and> x < 160 \<and> wndw_covers ui v x then wndw_pixel ui v wl x else bg_buffer p y x),
      window_line := int wl + 1\<rparr>)"
proof (cases "bit (reg_lcdc v) 0 \<and> uiRenderWndw ui")
  case False
  have "for_each [0..<160] (\<lambda>i. put_bg line i 0) p = Inr (p\<lparr>bg_buffer := (\<lambda>y x.
      if y = line \<and> x < 160 \<and> True then 0 else bg_buffer p y x)\<rparr>)"
    by (rule for_each_bg) (use assms(2) in simp)
  moreover have "wndw_covers ui v x" "wndw_pixel ui v wl x = 0" for x
    using False by (auto simp: wndw_covers_def wndw_pixel_def)
  ultimately show ?thesis
    unfolding DrawWndwToLine_def Let_def wndw_off_iff lcdc_masks if_not_P [OF False]
    using assms(1,3) by (simp add: kGbScreenWidth_def cong: if_cong)
next
  case True
  let ?x = "\<lambda>i. i + 7 - unat (reg_wndw_x v)"
  have left: "int i - (uint (reg_wndw_x v) - 7) < 0 \<longleftrightarrow> \<not> unat (reg_wndw_x v) \<le> i + 7" for i
    unfolding uint_nat by linarith
  have rel: "int i - (uint (reg_wndw_x v) - 7) = int (?x i)" if "unat (reg_wndw_x v) \<le> i + 7" for i
    unfolding uint_nat using that by linarith
  have covers: "wndw_covers ui v i \<longleftrightarrow> unat (reg_wndw_x v) \<le> i + 7" for i
    using True by (simp add: wndw_covers_def)
  define body where "body = (\<lambda>i p.
    if int i - (uint (reg_wndw_x v) - 7) < 0 then Inr p
    else rbind (video_at v (int (wndw_map v) +
        (32 * (window_line p sdiv 8) + (int i - (uint (reg_wndw_x v) - 7)) sdiv 8))) (\<lambda>tile_ind.
      rbind (video_at v (tile_base v + (uint (tile_number v tile_ind) * int kBytesPerTile +
        2 * (int wl smod 8)))) (\<lambda>lsb.
      rbind (video_at v (tile_base v + (uint (tile_number v tile_ind) * int kBytesPerTile +
        2 * (int wl smod 8) + 1))) (\<lambda>msb.
      rbind (put_bg line i (MapColors (InterleaveBits lsb msb
        (nat (7 - (int i - (uint (reg_wndw_x v) - 7)) smod 8))) (reg_bgp v)) p) (\<lambda>p'.
      if 32 * (window_line p sdiv 8) + (int i - (uint (reg_wndw_x v) - 7)) sdiv 8 < 1024
      then Inr p' else Inl AssertFailed)))))"
  have "for_each [0..<160] body p = Inr (p\<lparr>bg_buffer := (\<lambda>y x.
    if y = line \<and> x < 160 \<and> unat (reg_wndw_x v) \<le> x + 7
    then map_pixel v (wndw_map v) wl (?x x) else bg_buffer p y x)\<rparr>)"
  proof (rule for_each_bg)
    fix i and q :: Ppu
    assume i: "i < (160 :: nat)" and q: "window_line q = window_line p"
    show "body i q = Inr (if unat (reg_wndw_x v) \<le> i + 7
      then q\<lparr>bg_buffer := set_pixel line i (map_pixel v (wndw_map v) wl (?x i)) (bg_buffer q)\<rparr> else q)"
    proof (cases "unat (reg_wndw_x v) \<le> i + 7")
      case covered: True
      have "?x i < 256" using i by simp
      note index = map_index [OF assms(4) this] and less = this
      have wmap: "wndw_map v < 0x1C01" by (simp add: wndw_map_def)
      have wl: "window_line q = int wl" using q assms(3) by simp
      have "body i q = tile_pixel v (int (wndw_map v) + int (32 * (wl div 8) + ?x i div 8)) (wl mod 8)
          (?x i mod 8) (\<lambda>c. rbind (put_bg line i c q) (\<lambda>p.
          if 32 * (int wl sdiv 8) + int (?x i) sdiv 8 < 1024 then Inr p else Inl AssertFailed))"
        using covered unfolding body_def left rel [OF covered] tile_pixel_def wl smod_numeral
        by (simp add: nat_diff_distrib')
      also have "\<dots> = Inr (q\<lparr>bg_buffer := set_pixel line i (map_pixel v (wndw_map v) wl (?x i)) (bg_buffer q)\<rparr>)"
        unfolding tile_pixel_eq [OF wmap assms(4) less]
        using i assms(2) index wl by (simp add: smod_numeral)
      finally show ?thesis using covered by simp
    next
      case False
      then show ?thesis unfolding body_def left by simp
    qed
  qed
  moreover have "DrawWndwToLine ui v line p =
      rbind (for_each [0..<160] body p) (\<lambda>p. Inr (p\<lparr>window_line := window_line p + 1\<rparr>))"
    using assms(1) unfolding DrawWndwToLine_def Let_def wndw_off_iff lcdc_masks if_P [OF True]
      tables_select body_def assms(3)
    by (simp add: kGbScreenWidth_def)
  ultimately show ?thesis
    using True assms(3) by (simp add: covers wndw_pixel_def cong: if_cong)
qed

text \<open>
  The constructor leaves the line counter of the window uninitialised; if it happens to be large, the
  first line of the window reads beyond the video RAM.
\<close>

lemma DrawWndwToLine_uninitialised:
  assumes "wndw_on v line" and "bit (reg_lcdc v) 0" and "uiRenderWndw ui" and "reg_wndw_x v = 7"
    and "window_line p = 0x10000"
  shows "DrawWndwToLine ui v line p = Inl OutOfBounds"
proof -
  have loop: "[0..<kGbScreenWidth] = 0 # [1..<160]"
    by (simp add: kGbScreenWidth_def upt_conv_Cons)
  have row: "(0x10000 :: int) sdiv 8 = 0x2000" by simp
  have far: "video_at v (int (wndw_map v) + (32 * 0x2000 + 0)) = Inl OutOfBounds"
    by (simp add: video_at_def wndw_map_def)
  have on: "bit (reg_lcdc v) 0 \<and> uiRenderWndw ui" using assms by simp
  have zero: "int 0 - (uint (reg_wndw_x v) - 7) = 0" using assms(4) by simp
  have "\<not> (0 :: int) < 0" "(0 :: int) sdiv 8 = 0" by simp_all
  then show ?thesis
    using assms(1)
    unfolding DrawWndwToLine_def Let_def wndw_off_iff lcdc_masks if_P [OF on] tables_select assms(5)
    by (simp only: loop for_each.simps zero assms(5) row far if_False rbind_simps not_not if_not_P)
qed

end
