(* ===== verification/Ppu_Sprites.thy ===== *)
theory Ppu_Sprites
  imports Ppu_Lines
begin

text \<open>
  The sprites of a line: which ones are drawn, in which order of priority, and what each pixel shows.
\<close>

section \<open>One sprite\<close>

definition sprite_x :: "ppu_mem \<Rightarrow> nat \<Rightarrow> int" where
  "sprite_x v i = uint (oam_table v (i * 4 + 1)) - 8"

definition sprite_y :: "ppu_mem \<Rightarrow> nat \<Rightarrow> int" where
  "sprite_y v i = uint (oam_table v (i * 4)) - 16"

definition sprite_height :: "ppu_mem \<Rightarrow> int" where
  "sprite_height v = (if bit (reg_lcdc v) 2 then 16 else 8)"

definition sprite_flags :: "ppu_mem \<Rightarrow> nat \<Rightarrow> u8" where
  "sprite_flags v i = oam_table v (i * 4 + 3)"

text \<open>A sprite of 16 lines consists of an even tile and the next one.\<close>

definition sprite_address :: "ppu_mem \<Rightarrow> nat \<Rightarrow> nat" where
  "sprite_address v i =
     16 * unat (if bit (reg_lcdc v) 2 then oam_table v (i * 4 + 2) AND 0xFE else oam_table v (i * 4 + 2))"

definition sprite_row :: "ppu_mem \<Rightarrow> nat \<Rightarrow> nat \<Rightarrow> nat" where
  "sprite_row v line i =
     nat (if bit (sprite_flags v i) 6 then sprite_height v - 1 - (int line - sprite_y v i)
          else int line - sprite_y v i)"

text \<open>The colour number at column \<open>x\<close> of the screen, 0 where the sprite is transparent or is not.\<close>

definition sprite_color :: "ppu_mem \<Rightarrow> nat \<Rightarrow> nat \<Rightarrow> nat \<Rightarrow> nat" where
  "sprite_color v line i x =
     (if sprite_x v i \<le> int x \<and> int x < sprite_x v i + 8
      then (let c = nat (int x - sprite_x v i) in
            tile_color v (sprite_address v i) (sprite_row v line i)
              (if bit (sprite_flags v i) 5 then 7 - c else c))
      else 0)"

definition sprite_behind :: "ppu_mem \<Rightarrow> nat \<Rightarrow> bool" where
  "sprite_behind v i \<longleftrightarrow> bit (sprite_flags v i) 7"

definition sprite_shade :: "ppu_mem \<Rightarrow> nat \<Rightarrow> nat \<Rightarrow> nat \<Rightarrow> u8" where
  "sprite_shade v line i x =
     palette_color (if bit (sprite_flags v i) 4 then reg_obp_1 v else reg_obp_0 v) (sprite_color v line i x)"

lemma sprite_big_iff: "sprite_big v \<longleftrightarrow> bit (reg_lcdc v) 2"
  unfolding sprite_big_def lcdc_masks ..

lemma on_line_iff:
  "on_line v line i \<longleftrightarrow> sprite_y v i \<le> int line \<and> int line < sprite_y v i + sprite_height v \<and>
    - 8 < sprite_x v i \<and> sprite_x v i < 160"
proof -
  have "\<not> ((py > int line \<or> py + h \<le> int line) \<or> (px < - 7 \<or> int 160 \<le> px)) \<longleftrightarrow>
      py \<le> int line \<and> int line < py + h \<and> - 8 < px \<and> px < 160" for py px h
    by auto
  then show ?thesis
    unfolding on_line_def Let_def sprite_big_iff kOamEntryBytes_def kGbScreenWidth_def
      sprite_y_def sprite_x_def sprite_height_def .
qed

lemma sprite_row_less:
  assumes "on_line v line i"
  shows "sprite_address v i + 2 * sprite_row v line i + 1 < 0x1000" and "sprite_row v line i < 16"
    and "int (sprite_row v line i) = (if bit (sprite_flags v i) 6
      then sprite_height v - 1 - (int line - sprite_y v i) else int line - sprite_y v i)"
proof -
  have d: "0 \<le> int line - sprite_y v i" "int line - sprite_y v i < sprite_height v"
    using assms by (simp_all add: on_line_iff)
  then show row: "int (sprite_row v line i) = (if bit (sprite_flags v i) 6
      then sprite_height v - 1 - (int line - sprite_y v i) else int line - sprite_y v i)"
    by (simp add: sprite_row_def)
  with d have less: "int (sprite_row v line i) < sprite_height v" by simp
  then show "sprite_row v line i < 16"
    by (simp add: sprite_height_def split: if_splits)
  have "unat (t AND 0xFE :: u8) \<le> 254" for t
  proof -
    have "t AND 0xFE \<le> 0xFE" by (rule word_and_le1)
    then show ?thesis by (simp add: word_le_nat_alt)
  qed
  then show "sprite_address v i + 2 * sprite_row v line i + 1 < 0x1000"
  proof (cases "bit (reg_lcdc v) 2")
    case True
    then show ?thesis
      using less \<open>\<And>t. unat (t AND 0xFE :: u8) \<le> 254\<close> [of "oam_table v (i * 4 + 2)"]
      by (simp add: sprite_address_def sprite_height_def)
  next
    case False
    then show ?thesis
      using less unat_u8_less [of "oam_table v (i * 4 + 2)"]
      by (simp add: sprite_address_def sprite_height_def)
  qed
qed

text \<open>The opaque ones of the first \<open>n\<close> columns, and what they leave in the two buffers.\<close>

definition sprite_cols :: "ppu_mem \<Rightarrow> nat \<Rightarrow> nat \<Rightarrow> nat \<Rightarrow> nat \<Rightarrow> bool" where
  "sprite_cols v line i n x \<longleftrightarrow>
     x < 160 \<and> int x < sprite_x v i + int n \<and> sprite_color v line i x \<noteq> 0"

definition sprite_drawn :: "ppu_mem \<Rightarrow> nat \<Rightarrow> nat \<Rightarrow> nat \<Rightarrow> Ppu \<Rightarrow> Ppu" where
  "sprite_drawn v line i n p =
     p\<lparr>bg_buffer := (\<lambda>y x.
         if y = line \<and> sprite_cols v line i n x \<and> sprite_behind v i \<and> bg_buffer p y x = 0
         then sprite_shade v line i x else bg_buffer p y x),
       sprite_buffer := (\<lambda>y x.
         if y = line \<and> sprite_cols v line i n x \<and> \<not> sprite_behind v i
         then sprite_shade v line i x else sprite_buffer p y x)\<rparr>"

text \<open>The body of the loop over the columns.\<close>

definition sprite_column :: "ppu_mem \<Rightarrow> nat \<Rightarrow> nat \<Rightarrow> nat \<Rightarrow> Ppu \<Rightarrow> Ppu res" where
  "sprite_column v line i j p =
     (let x_draw = sprite_x v i + int j in
      if x_draw < 0 \<or> 160 \<le> x_draw then Inr p
      else
        (let x = nat x_draw in
         if sprite_color v line i x = 0 then Inr p
         else if sprite_behind v i
         then (if bg_buffer p line x = 0 then put_bg line x (sprite_shade v line i x) p else Inr p)
         else put_sprite line x (sprite_shade v line i x) p))"

lemma sprite_column_color:
  assumes "\<not> sprite_x v i + int j < 0" and "j < 8"
  shows "sprite_color v line i (nat (sprite_x v i + int j)) =
    tile_color v (sprite_address v i) (sprite_row v line i)
      (if bit (sprite_flags v i) 5 then 7 - j else j)"
  using assms by (simp add: sprite_color_def Let_def)

lemma column_bits:
  "j < 8 \<Longrightarrow> (if flip then j else 7 - j) = 7 - (if flip then 7 - j else (j :: nat))"
  by auto

lemma of_nat_color_0: "c < 4 \<Longrightarrow> (of_nat c :: u8) = 0 \<longleftrightarrow> c = 0"
  by (simp add: word_unat_eq_iff unat_of_nat)

lemma draw_sprite_columns:
  assumes "on_line v line i"
  shows "draw_sprite v line i p = for_each [0..<8] (sprite_column v line i) p"
proof -
  let ?lo = "video v (sprite_address v i + 2 * sprite_row v line i)"
  let ?hi = "video v (sprite_address v i + 2 * sprite_row v line i + 1)"
  let ?flip = "bit (sprite_flags v i) 5"
  note row = sprite_row_less [OF assms]
  have ind: "uint (if bit (reg_lcdc v) 2 then oam_table v (i * 4 + 2) AND 0xFE else oam_table v (i * 4 + 2))
      * 16 + (if bit (sprite_flags v i) 6 then (if bit (reg_lcdc v) 2 then 15 else 7) -
        (int line - sprite_y v i) else int line - sprite_y v i) * 2 =
    int (sprite_address v i + 2 * sprite_row v line i)"
    using row(3) by (simp add: sprite_address_def sprite_height_def)
  have adr: "tile_data_low + n = n" for n by (simp add: ppu_tables)
  have nat_1: "int n + 1 = int (n + 1)" for n by simp
  have fetch: "video_at v (int (sprite_address v i + 2 * sprite_row v line i)) = Inr ?lo"
    "video_at v (int (sprite_address v i + 2 * sprite_row v line i + 1)) = Inr ?hi"
    using row(1) by (intro video_at_nat; simp)+
  have color: "InterleaveBits ?lo ?hi (if ?flip then j else 7 - j) =
      of_nat (sprite_color v line i (nat (sprite_x v i + int j)))"
    if "\<not> (sprite_x v i + int j < 0 \<or> 160 \<le> sprite_x v i + int j)" "j < 8" for j
  proof -
    have col: "(if ?flip then 7 - j else j) < 8" using that(2) by auto
    have left: "\<not> sprite_x v i + int j < 0" using that(1) by blast
    show ?thesis
      unfolding column_bits [OF that(2)] sprite_column_color [OF left that(2)]
      by (rule Interleave_tile [OF col])
  qed
  show ?thesis
    unfolding draw_sprite_def Let_def sprite_big_iff kOamEntryBytes_def kGbScreenWidth_def
      IsBitSet_iff_bit sprite_flags_def [symmetric] sprite_x_def [symmetric] sprite_y_def [symmetric]
      ind adr nat_1 fetch rbind_simps
  proof (rule for_each_cong)
    fix j q
    assume "j \<in> set [0..<8]"
    then have j: "j < 8" by simp
    let ?x = "nat (sprite_x v i + int j)"
    show "(if sprite_x v i + int j < 0 \<or> int 160 \<le> sprite_x v i + int j then Inr q
      else if InterleaveBits ?lo ?hi (if ?flip then j else 7 - j) = 0 then Inr q
      else if bit (sprite_flags v i) 7
      then if bg_buffer q line ?x = 0
        then put_bg line ?x (MapColors (InterleaveBits ?lo ?hi (if ?flip then j else 7 - j))
          (if bit (sprite_flags v i) 4 then reg_obp_1 v else reg_obp_0 v)) q
        else Inr q
      else put_sprite line ?x (MapColors (InterleaveBits ?lo ?hi (if ?flip then j else 7 - j))
        (if bit (sprite_flags v i) 4 then reg_obp_1 v else reg_obp_0 v)) q) =
      sprite_column v line i j q"
    proof (cases "sprite_x v i + int j < 0 \<or> 160 \<le> sprite_x v i + int j")
      case False
      have less: "sprite_color v line i ?x < 4"
        using False j sprite_column_color [of v i j line] tile_color_less by simp
      show ?thesis
        using False unfolding color [OF False j] MapColors_eq [OF less] of_nat_color_0 [OF less]
          sprite_column_def Let_def sprite_behind_def sprite_shade_def by simp
    qed (simp add: sprite_column_def)
  qed
qed

lemma sprite_column_step:
  assumes "line < 144"
  shows "sprite_column v line i n (sprite_drawn v line i n p) = Inr (sprite_drawn v line i (Suc n) p)"
proof (cases "sprite_x v i + int n < 0 \<or> 160 \<le> sprite_x v i + int n")
  case True
  then have "sprite_cols v line i n = sprite_cols v line i (Suc n)"
    by (auto simp: sprite_cols_def fun_eq_iff)
  then show ?thesis using True by (simp add: sprite_column_def sprite_drawn_def)
next
  case False
  define x where "x = nat (sprite_x v i + int n)"
  have x: "x < 160" "int x = sprite_x v i + int n" using False by (auto simp: x_def)
  have step: "sprite_cols v line i (Suc n) x' \<longleftrightarrow>
      sprite_cols v line i n x' \<or> x' = x \<and> sprite_color v line i x \<noteq> 0" for x'
  proof -
    have "int x' < sprite_x v i + int (Suc n) \<longleftrightarrow> int x' < sprite_x v i + int n \<or> x' = x"
      using x(2) by auto
    then show ?thesis unfolding sprite_cols_def using x(1) by blast
  qed
  have new: "\<not> sprite_cols v line i n x" using x(2) by (simp add: sprite_cols_def)
  let ?d = "sprite_drawn v line i n p" and ?d' = "sprite_drawn v line i (Suc n) p"
  have old: "bg_buffer ?d line x = bg_buffer p line x"
    using new by (simp add: sprite_drawn_def)
  have bg: "bg_buffer ?d' = (if sprite_color v line i x \<noteq> 0 \<and> sprite_behind v i \<and> bg_buffer p line x = 0
      then set_pixel line x (sprite_shade v line i x) (bg_buffer ?d) else bg_buffer ?d)"
    using new by (auto simp: sprite_drawn_def step fun_eq_iff set_pixel_apply)
  have sprites: "sprite_buffer ?d' = (if sprite_color v line i x \<noteq> 0 \<and> \<not> sprite_behind v i
      then set_pixel line x (sprite_shade v line i x) (sprite_buffer ?d) else sprite_buffer ?d)"
    using new by (auto simp: sprite_drawn_def step fun_eq_iff set_pixel_apply)
  have "?d' = ?d\<lparr>bg_buffer := bg_buffer ?d', sprite_buffer := sprite_buffer ?d'\<rparr>"
    by (simp add: sprite_drawn_def)
  then have d': "?d' = ?d\<lparr>bg_buffer := (if sprite_color v line i x \<noteq> 0 \<and> sprite_behind v i \<and>
        bg_buffer p line x = 0 then set_pixel line x (sprite_shade v line i x) (bg_buffer ?d)
        else bg_buffer ?d),
      sprite_buffer := (if sprite_color v line i x \<noteq> 0 \<and> \<not> sprite_behind v i
        then set_pixel line x (sprite_shade v line i x) (sprite_buffer ?d) else sprite_buffer ?d)\<rparr>"
    unfolding bg sprites .
  show ?thesis
    unfolding sprite_column_def Let_def x_def [symmetric] if_not_P [OF False] old d'
    using assms x(1) by simp
qed

lemma draw_sprite_eq:
  assumes "on_line v line i" and "line < 144"
  shows "draw_sprite v line i p = Inr (sprite_drawn v line i 8 p)"
proof -
  have "for_each [0..<n] (sprite_column v line i) p = Inr (sprite_drawn v line i n p)" for n
  proof (induction n)
    case 0
    have "\<not> sprite_cols v line i 0 x" for x
      by (simp add: sprite_cols_def sprite_color_def)
    then have "sprite_drawn v line i 0 p = p"
      by (simp add: sprite_drawn_def)
    then show ?case by simp
  next
    case (Suc n)
    then show ?case using sprite_column_step [OF assms(2)] by (simp add: for_each_append)
  qed
  then show ?thesis using draw_sprite_columns [OF assms(1)] by metis
qed

section \<open>The sprites of a line\<close>

text \<open>The order of priority: from left to right, and by number at the same position.\<close>

definition before_sprite :: "ppu_mem \<Rightarrow> nat \<Rightarrow> nat \<Rightarrow> bool" where
  "before_sprite v i j \<longleftrightarrow> sprite_x v i < sprite_x v j \<or> sprite_x v i = sprite_x v j \<and> i < j"

definition lex_less :: "nat \<times> int \<Rightarrow> nat \<times> int \<Rightarrow> bool" where
  "lex_less a b \<longleftrightarrow> snd a < snd b \<or> snd a = snd b \<and> fst a < fst b"

lemma insort_key_lex:
  assumes "sorted_wrt lex_less xs" and "\<forall>b \<in> set xs. fst a < fst b"
  shows "sorted_wrt lex_less (insort_key snd a xs)"
  using assms by (induction xs) (auto simp: lex_less_def set_insort_key)

text \<open>A stable sort by position keeps the order of the numbers.\<close>

lemma sort_key_lex:
  "sorted_wrt (<) (map fst xs) \<Longrightarrow> sorted_wrt lex_less (sort_key snd xs)"
  by (induction xs) (auto intro!: insort_key_lex)

definition sprite_list :: "ppu_mem \<Rightarrow> nat \<Rightarrow> nat list" where
  "sprite_list v line = map fst (line_sprites v line)"

definition all_sprites :: "ppu_mem \<Rightarrow> nat \<Rightarrow> (nat \<times> int) list" where
  "all_sprites v line = sort_key snd (map (\<lambda>i. (i, uint (oam_table v (i * 4 + 1))))
     (filter (on_line v line) [0..<40]))"

lemma line_sprites_eq: "line_sprites v line = take 10 (all_sprites v line)"
  by (simp add: line_sprites_def Let_def all_sprites_def kOamEntryBytes_def kNumOamEntries_def)

lemma set_all_sprites:
  "set (all_sprites v line) = (\<lambda>i. (i, uint (oam_table v (i * 4 + 1)))) ` {i. i < 40 \<and> on_line v line i}"
  by (auto simp: all_sprites_def)

lemma all_sprites_sorted: "sorted_wrt lex_less (all_sprites v line)"
proof -
  have "sorted_wrt (<) (filter (on_line v line) [0..<40])"
    by (intro sorted_wrt_filter sorted_wrt_upt)
  then show ?thesis
    unfolding all_sprites_def by (intro sort_key_lex) (simp add: comp_def)
qed

lemma lex_less_before:
  assumes "(i, x) \<in> set (all_sprites v line)" and "(j, y) \<in> set (all_sprites v line)"
  shows "lex_less (i, x) (j, y) \<longleftrightarrow> before_sprite v i j"
  using assms by (auto simp: set_all_sprites lex_less_def before_sprite_def sprite_x_def)

lemma sprite_list_sorted: "sorted_wrt (before_sprite v) (sprite_list v line)"
proof -
  have "sorted_wrt lex_less (line_sprites v line)"
    by (simp add: line_sprites_eq sorted_wrt_take all_sprites_sorted)
  then have "sorted_wrt (\<lambda>a b. before_sprite v (fst a) (fst b)) (line_sprites v line)"
    by (rule sorted_wrt_mono_rel [rotated])
      (metis lex_less_before in_set_takeD line_sprites_eq prod.collapse)
  then show ?thesis by (simp add: sprite_list_def sorted_wrt_map)
qed

lemma in_sprite_list:
  "i \<in> set (sprite_list v line) \<Longrightarrow> i < 40 \<and> on_line v line i"
  by (auto simp: sprite_list_def line_sprites_eq set_all_sprites dest!: in_set_takeD)

text \<open>Only when ten sprites come before it, a sprite of the line is left out.\<close>

lemma left_out:
  assumes "j < 40" and "on_line v line j" and "j \<notin> set (sprite_list v line)"
  shows "length (sprite_list v line) = 10 \<and> (\<forall>i \<in> set (sprite_list v line). before_sprite v i j)"
proof -
  let ?y = "uint (oam_table v (j * 4 + 1))"
  have all: "(j, ?y) \<in> set (all_sprites v line)" using assms(1,2) by (simp add: set_all_sprites)
  moreover have "(j, ?y) \<notin> set (take 10 (all_sprites v line))"
    using assms(3) by (force simp: sprite_list_def line_sprites_eq)
  ultimately have drop: "(j, ?y) \<in> set (drop 10 (all_sprites v line))"
    by (metis Un_iff append_take_drop_id set_append)
  have "sorted_wrt lex_less (take 10 (all_sprites v line) @ drop 10 (all_sprites v line))"
    unfolding append_take_drop_id by (rule all_sprites_sorted)
  then have "\<forall>a \<in> set (take 10 (all_sprites v line)). lex_less a (j, ?y)"
    unfolding sorted_wrt_append using drop by blast
  then have "\<forall>i \<in> set (sprite_list v line). before_sprite v i j"
    using lex_less_before [OF in_set_takeD all]
    by (auto simp: sprite_list_def line_sprites_eq)
  moreover have "10 < length (all_sprites v line)"
    using drop by (cases "10 < length (all_sprites v line)") simp_all
  ultimately show ?thesis by (simp add: sprite_list_def line_sprites_eq)
qed

section \<open>Drawing them\<close>

definition front_at :: "ppu_mem \<Rightarrow> nat \<Rightarrow> nat \<Rightarrow> nat \<Rightarrow> bool" where
  "front_at v line x i \<longleftrightarrow> sprite_color v line i x \<noteq> 0 \<and> \<not> sprite_behind v i"

definition behind_at :: "ppu_mem \<Rightarrow> nat \<Rightarrow> nat \<Rightarrow> nat \<Rightarrow> bool" where
  "behind_at v line x i \<longleftrightarrow>
     sprite_color v line i x \<noteq> 0 \<and> sprite_behind v i \<and> sprite_shade v line i x \<noteq> 0"

definition sprites_drawn :: "ppu_mem \<Rightarrow> nat \<Rightarrow> nat list \<Rightarrow> Ppu \<Rightarrow> Ppu" where
  "sprites_drawn v line is p =
     p\<lparr>bg_buffer := (\<lambda>y x.
         if y = line \<and> x < 160 \<and> bg_buffer p y x = 0
         then (case find (behind_at v line x) (rev is) of
                 Some i \<Rightarrow> sprite_shade v line i x | None \<Rightarrow> 0)
         else bg_buffer p y x),
       sprite_buffer := (\<lambda>y x.
         if y = line \<and> x < 160
         then (case find (front_at v line x) is of
                 Some i \<Rightarrow> sprite_shade v line i x | None \<Rightarrow> sprite_buffer p y x)
         else sprite_buffer p y x)\<rparr>"

lemma find_append: "find P (xs @ ys) = (case find P xs of Some x \<Rightarrow> Some x | None \<Rightarrow> find P ys)"
  by (induction xs) simp_all

lemma sprite_cols_8: "sprite_cols v line i 8 x \<longleftrightarrow> x < 160 \<and> sprite_color v line i x \<noteq> 0"
  by (auto simp: sprite_cols_def sprite_color_def)

lemma sprites_drawn_Cons:
  "sprite_drawn v line i 8 (sprites_drawn v line is p) = sprites_drawn v line (i # is) p"
proof (rule Ppu.equality)
  have "bg_buffer (sprite_drawn v line i 8 (sprites_drawn v line is p)) y x =
      bg_buffer (sprites_drawn v line (i # is) p) y x" for y x
  proof -
    have B: "behind_at v line x i \<longleftrightarrow> sprite_color v line i x \<noteq> 0 \<and> sprite_behind v i \<and>
        sprite_shade v line i x \<noteq> 0"
      by (simp add: behind_at_def)
    have "sprite_shade v line j x \<noteq> 0" if "find (behind_at v line x) (rev is) = Some j" for j
      using that by (auto simp: find_Some_iff behind_at_def)
    then show ?thesis
      by (cases "find (behind_at v line x) (rev is)")
        (auto simp: sprite_drawn_def sprites_drawn_def sprite_cols_8 find_append B)
  qed
  then show "bg_buffer (sprite_drawn v line i 8 (sprites_drawn v line is p)) =
      bg_buffer (sprites_drawn v line (i # is) p)"
    by (intro ext)
  show "sprite_buffer (sprite_drawn v line i 8 (sprites_drawn v line is p)) =
      sprite_buffer (sprites_drawn v line (i # is) p)"
    by (auto simp: sprite_drawn_def sprites_drawn_def sprite_cols_8 fun_eq_iff front_at_def)
qed (simp_all add: sprite_drawn_def sprites_drawn_def)

lemma DrawSpriteToLine_eq:
  assumes "line < 144"
  shows "DrawSpriteToLine ui v line p =
    Inr (if bit (reg_lcdc v) 1 \<and> uiRenderSprites ui then sprites_drawn v line (sprite_list v line) p else p)"
proof -
  have off: "kMaskObjSpriteDisp AND reg_lcdc v = 0 \<longleftrightarrow> \<not> bit (reg_lcdc v) 1"
    using lcdc_masks(8) by blast
  have "for_each (rev xs) (\<lambda>(i, x). draw_sprite v line i) p = Inr (sprites_drawn v line (map fst xs) p)"
    if "set (map fst xs) \<subseteq> {i. on_line v line i}" for xs :: "(nat \<times> int) list"
    using that
  proof (induction xs)
    case Nil
    then show ?case
      by (simp add: sprites_drawn_def) (simp add: Ppu.equality fun_eq_iff)
  next
    case (Cons a xs)
    then show ?case
      using assms by (cases a) (simp add: for_each_append draw_sprite_eq sprites_drawn_Cons)
  qed
  moreover have "set (map fst (line_sprites v line)) \<subseteq> {i. on_line v line i}"
    using in_sprite_list unfolding sprite_list_def by blast
  ultimately show ?thesis
    unfolding DrawSpriteToLine_def off sprite_list_def by simp
qed

end
