(* ===== verification/Ppu_Safety.thy ===== *)
theory Ppu_Safety
  imports Ppu_Loop Ppu_Sprites
begin

text \<open>
  The invariant of the pixel processing unit: pixel values fit the palette, the window's line counter
  does not run ahead of the lines, the windows have the size of their kind. Every step of the thread
  keeps it, whatever the registers and memories hold at that moment, and no access of the thread is
  out of bounds.
\<close>

section \<open>The invariant\<close>

definition buffers_ok :: "Ppu \<Rightarrow> bool" where
  "buffers_ok p \<longleftrightarrow> (\<forall>y x. unat (bg_buffer p y x) < 4) \<and> (\<forall>y x. unat (sprite_buffer p y x) \<le> 4) \<and>
     length (color_palette p) = 4"

definition window_ok :: "RenderWindow \<Rightarrow> bool" where
  "window_ok w \<longleftrightarrow>
     (case window_kind w of
        GameWindow \<Rightarrow> log_width w = 160 \<and> log_height w = 144
      | ExtGameWindow \<Rightarrow> log_width w = 256 \<and> log_height w = 256
      | WindowWindow \<Rightarrow> log_width w = 128 \<and> log_height w = 192
      | DummyWindow \<Rightarrow> log_width w = 160 \<and> log_height w = 144)"

definition lines_ok :: "Ppu \<Rightarrow> bool" where
  "lines_ok p \<longleftrightarrow> 0 \<le> window_line p \<and>
     (case render_pc p of
        RenderStart \<Rightarrow> window_line p = 0
      | AfterOamSearch i \<Rightarrow> i < 144 \<and> window_line p \<le> int i
      | AfterTransfer i \<Rightarrow> i < 144 \<and> window_line p \<le> int i
      | AfterHBlank i \<Rightarrow> i < 144 \<and> window_line p \<le> int i + 1
      | AfterVBlank i \<Rightarrow> i < 10 \<and> window_line p = 0)"

definition ppu_ok :: "Ppu \<Rightarrow> bool" where
  "ppu_ok p \<longleftrightarrow> buffers_ok p \<and> lines_ok p \<and> window_ok (game_wndw p) \<and> window_ok (ext_game_wndw p) \<and>
     window_ok (window_wndw p)"

lemma new_Ppu_ok:
  "length palette = 4 \<Longrightarrow> ppu_ok (new_Ppu headless ext wndw palette 0 texture)"
  by (simp add: ppu_ok_def buffers_ok_def lines_ok_def window_ok_def new_Ppu_def new_window_def Let_def
      ppu_consts)

section \<open>Lines\<close>

lemma map_pixel_less: "unat (map_pixel v tmap y x) < 4"
  by (simp add: map_pixel_def palette_color_less)

lemma sprite_shade_less: "unat (sprite_shade v line i x) < 4"
  by (simp add: sprite_shade_def palette_color_less)

lemma DrawBgToLine_ok:
  assumes "buffers_ok p" and "line < 144"
  shows "\<exists>p'. DrawBgToLine ui v line p = Inr p' \<and> buffers_ok p' \<and>
    p' = p\<lparr>bg_buffer := bg_buffer p'\<rparr>"
  using assms by (simp add: DrawBgToLine_eq buffers_ok_def bg_line_def map_pixel_less)

lemma DrawWndwToLine_ok:
  assumes "buffers_ok p" and "line < 144" and "0 \<le> window_line p" and "window_line p \<le> int line"
  shows "\<exists>p'. DrawWndwToLine ui v line p = Inr p' \<and> buffers_ok p' \<and> 0 \<le> window_line p' \<and>
    window_line p' \<le> int line + 1 \<and>
    p' = p\<lparr>bg_buffer := bg_buffer p', window_line := window_line p'\<rparr>"
proof (cases "wndw_on v line")
  case True
  have wl: "window_line p = int (nat (window_line p))" "nat (window_line p) < 256"
    using assms(2-4) by linarith+
  show ?thesis
    using assms DrawWndwToLine_on [OF True assms(2) wl]
    by (simp add: buffers_ok_def wndw_pixel_def map_pixel_less)
next
  case False
  then show ?thesis using assms by (simp add: DrawWndwToLine_off)
qed

lemma DrawSpriteToLine_ok:
  assumes "buffers_ok p" and "line < 144"
  shows "\<exists>p'. DrawSpriteToLine ui v line p = Inr p' \<and> buffers_ok p' \<and>
    p' = p\<lparr>bg_buffer := bg_buffer p', sprite_buffer := sprite_buffer p'\<rparr>"
proof -
  have "unat (sprite_shade v line i x) \<le> 4" for i x
    using sprite_shade_less [of v line i x] by simp
  then have "buffers_ok (sprites_drawn v line is p)" for "is"
    using assms(1) by (auto simp: buffers_ok_def sprites_drawn_def sprite_shade_less split: option.split)
  then show ?thesis
    using assms by (simp add: DrawSpriteToLine_eq) (simp add: sprites_drawn_def)
qed

lemma draw_line_ok:
  assumes "buffers_ok p" and "line < 144" and "0 \<le> window_line p" and "window_line p \<le> int line"
  shows "\<exists>p'. draw_line ui v line p = Inr p' \<and> buffers_ok p' \<and> 0 \<le> window_line p' \<and>
    window_line p' \<le> int line + 1 \<and>
    p' = p\<lparr>bg_buffer := bg_buffer p', sprite_buffer := sprite_buffer p', window_line := window_line p'\<rparr>"
proof -
  obtain p1 where 1: "DrawBgToLine ui v line p = Inr p1" "buffers_ok p1"
    "p1 = p\<lparr>bg_buffer := bg_buffer p1\<rparr>"
    using DrawBgToLine_ok [OF assms(1,2)] by blast
  have wl1: "window_line p1 = window_line p" by (subst 1(3)) simp
  obtain p2 where 2: "DrawWndwToLine ui v line p1 = Inr p2" "buffers_ok p2" "0 \<le> window_line p2"
    "window_line p2 \<le> int line + 1"
    "p2 = p1\<lparr>bg_buffer := bg_buffer p2, window_line := window_line p2\<rparr>"
    using DrawWndwToLine_ok [OF 1(2) assms(2)] assms(3,4) unfolding wl1 by blast
  obtain p3 where 3: "DrawSpriteToLine ui v line p2 = Inr p3" "buffers_ok p3"
    "p3 = p2\<lparr>bg_buffer := bg_buffer p3, sprite_buffer := sprite_buffer p3\<rparr>"
    using DrawSpriteToLine_ok [OF 2(2) assms(2)] by blast
  have wl3: "window_line p3 = window_line p2" by (subst 3(3)) simp
  have "p3 = p\<lparr>bg_buffer := bg_buffer p3, sprite_buffer := sprite_buffer p3,
      window_line := window_line p3\<rparr>"
    unfolding wl3 by (subst 3(3), subst 2(5), subst 1(3)) simp
  then show ?thesis
    using 1 2 3 wl3 by (simp add: draw_line_def)
qed

section \<open>Windows\<close>

lemma put_pixel_in:
  assumes "y < log_height w" and "x < log_width w"
  shows "put_pixel y x c w = Inr (w\<lparr>pixels := (pixels w)(y * log_width w + x := c)\<rparr>)"
proof -
  have "y * log_width w + x < Suc y * log_width w" using assms(2) by simp
  also have "\<dots> \<le> log_height w * log_width w" using assms(1) by (intro mult_le_mono1) simp
  finally show ?thesis by (simp add: put_pixel_def mult.commute)
qed

lemma row_index: "x < W \<Longrightarrow> i = y * W + x \<longleftrightarrow> i div W = y \<and> i mod W = (x :: nat)"
  by (metis add.commute div_mult_mod_eq div_mult_self1 div_less mod_less mod_mult_self1 add_0
      less_nat_zero_code mult.commute)

definition shade :: "Ppu \<Rightarrow> u8 \<Rightarrow> u32" where
  "shade p val = (case color_palette p ! unat val of (r, g, b) \<Rightarrow> ToTextureColor r g b)"

lemma texture_color_ok:
  "length (color_palette p) = 4 \<Longrightarrow> unat val < 4 \<Longrightarrow> texture_color p val = Inr (shade p val)"
  by (simp add: texture_color_def palette_at_def shade_def split: prod.split)

lemma for_each_row:
  assumes "y < log_height w" and "n \<le> log_width w"
  shows "for_each [0..<n] (\<lambda>x. put_pixel y x (g x)) w = Inr (w\<lparr>pixels := (\<lambda>i.
    if i div log_width w = y \<and> i mod log_width w < n then g (i mod log_width w) else pixels w i)\<rparr>)"
  using assms(2)
proof (induction n)
  case (Suc n)
  have "(\<lambda>i. if i div log_width w = y \<and> i mod log_width w < n then g (i mod log_width w) else pixels w i)
      (y * log_width w + n := g n) =
    (\<lambda>i. if i div log_width w = y \<and> i mod log_width w < Suc n then g (i mod log_width w) else pixels w i)"
    using Suc.prems row_index [of n "log_width w" _ y] by (auto simp: fun_eq_iff less_Suc_eq)
  then show ?case
    using Suc assms(1) by (simp add: for_each_append put_pixel_in)
qed simp

lemma for_each_grid:
  assumes "n \<le> log_height w"
  shows "for_each [0..<n] (\<lambda>y. for_each [0..<log_width w] (\<lambda>x. put_pixel y x (g y x))) w =
    Inr (w\<lparr>pixels := (\<lambda>i. if i div log_width w < n \<and> 0 < log_width w
      then g (i div log_width w) (i mod log_width w) else pixels w i)\<rparr>)"
  using assms
proof (induction n)
  case (Suc n)
  have "(\<lambda>i. if i div log_width w = n \<and> i mod log_width w < log_width w then g n (i mod log_width w)
      else if i div log_width w < n \<and> 0 < log_width w
      then g (i div log_width w) (i mod log_width w) else pixels w i) =
    (\<lambda>i. if i div log_width w < Suc n \<and> 0 < log_width w
      then g (i div log_width w) (i mod log_width w) else pixels w i)"
    by (auto simp: fun_eq_iff less_Suc_eq)
  then show ?case
    using Suc for_each_row [of n "w\<lparr>pixels := _\<rparr>" "log_width w" "g n"]
    by (simp add: for_each_append cong: if_cong)
qed simp

lemma game_draw_bg_eq:
  assumes "buffers_ok p"
  shows "game_draw_bg ui p w = Inr (w\<lparr>pixels := (\<lambda>i.
    if i div log_width w < log_height w \<and> 0 < log_width w
    then (if uiRenderBg ui \<or> uiRenderWndw ui
          then shade p (bg_buffer p (i div log_width w) (i mod log_width w))
          else ToTextureColor 242 255 217)
    else pixels w i)\<rparr>)"
proof -
  have "rbind (texture_color p (bg_buffer p y x)) (\<lambda>c. put_pixel y x c w) =
      put_pixel y x (shade p (bg_buffer p y x)) w" for y x and w
    using assms by (simp add: texture_color_ok buffers_ok_def)
  then show ?thesis
    using for_each_grid [of "log_height w" w "\<lambda>y x. shade p (bg_buffer p y x)"]
      for_each_grid [of "log_height w" w "\<lambda>y x. ToTextureColor 242 255 217"]
    by (cases "uiRenderBg ui \<or> uiRenderWndw ui") (simp_all add: game_draw_bg_def cong: if_cong)
qed

text \<open>The sprites over it: the pass over the sprite buffer shows its pixels and clears them.\<close>

definition sprite_cell :: "nat \<Rightarrow> nat \<Rightarrow> RenderWindow \<times> Ppu \<Rightarrow> (RenderWindow \<times> Ppu) res" where
  "sprite_cell y x = (\<lambda>(w, p).
     let val = sprite_buffer p y x in
     if val = color_code Transparent then Inr (w, p)
     else
       rbind (put_sprite y x (color_code Transparent) p) (\<lambda>p.
       rbind (texture_color p val) (\<lambda>c.
       rbind (put_pixel y x c w) (\<lambda>w. Inr (w, p)))))"

text \<open>What the pass over a set of cells leaves.\<close>

definition sprites_shown :: "(nat \<Rightarrow> nat \<Rightarrow> bool) \<Rightarrow> RenderWindow \<times> Ppu \<Rightarrow> RenderWindow \<times> Ppu" where
  "sprites_shown R = (\<lambda>(w, p).
     (w\<lparr>pixels := (\<lambda>i. if R (i div log_width w) (i mod log_width w) \<and>
          sprite_buffer p (i div log_width w) (i mod log_width w) \<noteq> 4
        then shade p (sprite_buffer p (i div log_width w) (i mod log_width w)) else pixels w i)\<rparr>,
      p\<lparr>sprite_buffer := (\<lambda>y x. if R y x then 4 else sprite_buffer p y x)\<rparr>))"

lemma sprites_shown_cong:
  assumes "\<And>y x. sprite_buffer p y x \<noteq> 4 \<Longrightarrow> R y x = R' y x"
  shows "sprites_shown R (w, p) = sprites_shown R' (w, p)"
proof -
  have "(R y x \<and> sprite_buffer p y x \<noteq> 4) = (R' y x \<and> sprite_buffer p y x \<noteq> 4)" for y x
    using assms by blast
  moreover have "(\<lambda>y x. if R y x then 4 else sprite_buffer p y x) =
      (\<lambda>y x. if R' y x then 4 else sprite_buffer p y x)"
    using assms by (auto simp: fun_eq_iff)
  ultimately show ?thesis by (simp only: sprites_shown_def prod.case)
qed

lemma sprite_cell_step:
  assumes "buffers_ok p" and "log_width w = 160" and "log_height w = 144" and "y < 144" and "x < 160"
    and "\<not> R y x"
  shows "sprite_cell y x (sprites_shown R (w, p)) =
    Inr (sprites_shown (\<lambda>y' x'. R y' x' \<or> y' = y \<and> x' = x) (w, p))"
proof -
  let ?R = "\<lambda>y' x'. R y' x' \<or> y' = y \<and> x' = x"
  let ?w = "fst (sprites_shown R (w, p))" and ?p = "snd (sprites_shown R (w, p))"
  have val: "sprite_buffer ?p y x = sprite_buffer p y x" using assms(6) by (simp add: sprites_shown_def)
  have dims: "log_width ?w = 160" "log_height ?w = 144"
    using assms(2,3) by (simp_all add: sprites_shown_def)
  have clear: "?p\<lparr>sprite_buffer := set_pixel y x 4 (sprite_buffer ?p)\<rparr> = snd (sprites_shown ?R (w, p))"
    by (auto simp: sprites_shown_def set_pixel_apply fun_eq_iff)
  show ?thesis
  proof (cases "sprite_buffer p y x = 4")
    case True
    have "sprites_shown R (w, p) = sprites_shown ?R (w, p)"
      using True by (intro sprites_shown_cong) auto
    moreover have "sprite_cell y x (sprites_shown R (w, p)) = Inr (sprites_shown R (w, p))"
      using True val by (cases "sprites_shown R (w, p)") (simp add: sprite_cell_def)
    ultimately show ?thesis by simp
  next
    case False
    have "unat (sprite_buffer p y x) \<noteq> 4" using False by (simp add: word_unat_eq_iff)
    moreover have "unat (sprite_buffer p y x) \<le> 4" using assms(1) by (simp add: buffers_ok_def)
    ultimately have less: "unat (sprite_buffer p y x) < 4" by simp
    have color: "texture_color (snd (sprites_shown ?R (w, p))) (sprite_buffer p y x) =
        Inr (shade p (sprite_buffer p y x))"
      using assms(1) less texture_color_ok [of "snd (sprites_shown ?R (w, p))" "sprite_buffer p y x"]
      by (simp add: sprites_shown_def buffers_ok_def shade_def)
    have pixel: "?w\<lparr>pixels := (pixels ?w)(y * 160 + x := shade p (sprite_buffer p y x))\<rparr> =
        fst (sprites_shown ?R (w, p))"
    proof -
      have "(pixels ?w)(y * 160 + x := shade p (sprite_buffer p y x)) =
          pixels (fst (sprites_shown ?R (w, p)))"
        using False assms(2,5) row_index [of x 160 _ y]
        by (auto simp: sprites_shown_def fun_eq_iff cong: if_cong)
      then show ?thesis by (simp add: sprites_shown_def)
    qed
    have "sprite_cell y x (?w, ?p) =
        Inr (fst (sprites_shown ?R (w, p)), snd (sprites_shown ?R (w, p)))"
      unfolding sprite_cell_def prod.case Let_def val
      using False assms(4,5) dims
      by (simp add: clear color put_pixel_in pixel)
    then show ?thesis by simp
  qed
qed

lemma sprites_row:
  assumes "buffers_ok p" and "log_width w = 160" and "log_height w = 144" and "y < 144" and "n \<le> 160"
    and "\<And>x. \<not> R y x"
  shows "for_each [0..<n] (sprite_cell y) (sprites_shown R (w, p)) =
    Inr (sprites_shown (\<lambda>y' x'. R y' x' \<or> y' = y \<and> x' < n) (w, p))"
  using assms(5)
proof (induction n)
  case (Suc n)
  have "(\<lambda>y' x'. (R y' x' \<or> y' = y \<and> x' < n) \<or> y' = y \<and> x' = n) =
      (\<lambda>y' x'. R y' x' \<or> y' = y \<and> x' < Suc n)"
    by (auto simp: fun_eq_iff less_Suc_eq)
  then show ?case
    using Suc sprite_cell_step [OF assms(1-4), of n "\<lambda>y' x'. R y' x' \<or> y' = y \<and> x' < n"] assms(6)
    by (simp add: for_each_append)
qed simp

lemma sprites_grid:
  assumes "buffers_ok p" and "log_width w = 160" and "log_height w = 144" and "n \<le> 144"
  shows "for_each [0..<n] (\<lambda>y. for_each [0..<160] (sprite_cell y)) (w, p) =
    Inr (sprites_shown (\<lambda>y x. y < n \<and> x < 160) (w, p))"
  using assms(4)
proof (induction n)
  case 0
  have "sprites_shown (\<lambda>y x. False) (w, p) = (w, p)" by (simp add: sprites_shown_def)
  then show ?case by simp
next
  case (Suc n)
  have "(\<lambda>y' x'. y' < n \<and> x' < 160 \<or> y' = n \<and> x' < 160) =
      (\<lambda>y' x'. y' < Suc n \<and> x' < (160 :: nat))"
    by (auto simp: fun_eq_iff less_Suc_eq)
  then show ?case
    using Suc sprites_row [OF assms(1-3), of n 160 "\<lambda>y x. y < n \<and> x < 160"]
    by (simp add: for_each_append)
qed

lemma game_draw_sprites_eq:
  assumes "buffers_ok p" and "log_width w = 160" and "log_height w = 144"
  shows "game_draw_sprites ui (w, p) = Inr (if uiRenderSprites ui
    then sprites_shown (\<lambda>y x. y < 144 \<and> x < 160) (w, p) else (w, p))"
  using sprites_grid [OF assms, of 144] assms(2,3)
  by (simp add: game_draw_sprites_def sprite_cell_def [abs_def])

text \<open>The picture of a frame: sprites over background and window.\<close>

definition frame_pixel :: "ui_flags \<Rightarrow> Ppu \<Rightarrow> nat \<Rightarrow> nat \<Rightarrow> u32" where
  "frame_pixel ui p y x =
     (if uiRenderSprites ui \<and> sprite_buffer p y x \<noteq> color_code Transparent
      then shade p (sprite_buffer p y x)
      else if uiRenderBg ui \<or> uiRenderWndw ui then shade p (bg_buffer p y x)
      else ToTextureColor 242 255 217)"

lemma GameWindow_shows:
  assumes "buffers_ok p" and "log_width w = 160" and "log_height w = 144" and "bit (reg_lcdc v) 7"
  shows "\<exists>w'. GameWindow_DrawToScreen ui v w p =
      Inr (w', p\<lparr>sprite_buffer := (\<lambda>y x. if uiRenderSprites ui \<and> y < 144 \<and> x < 160
        then color_code Transparent else sprite_buffer p y x)\<rparr>) \<and>
    w' = w\<lparr>pixels := pixels w'\<rparr> \<and>
    (\<forall>y < 144. \<forall>x < 160. pixels w' (y * 160 + x) = frame_pixel ui p y x)"
proof -
  have on: "\<not> reg_lcdc v AND kMaskLcdControl = 0" using assms(4) lcdc_masks(6) by blast
  define w1 where "w1 = w\<lparr>pixels := (\<lambda>i.
    if i div 160 < 144
    then (if uiRenderBg ui \<or> uiRenderWndw ui then shade p (bg_buffer p (i div 160) (i mod 160))
          else ToTextureColor 242 255 217)
    else pixels w i)\<rparr>"
  have bg: "game_draw_bg ui p w = Inr w1"
    unfolding game_draw_bg_eq [OF assms(1)] w1_def assms(2,3) by simp
  have w1: "log_width w1 = 160" "log_height w1 = 144" "w1 = w\<lparr>pixels := pixels w1\<rparr>"
    "\<And>y x. y < 144 \<Longrightarrow> x < 160 \<Longrightarrow> pixels w1 (y * 160 + x) =
      (if uiRenderBg ui \<or> uiRenderWndw ui then shade p (bg_buffer p y x) else ToTextureColor 242 255 217)"
    using assms(2,3) by (simp_all add: w1_def)
  have draw: "GameWindow_DrawToScreen ui v w p =
      Inr (if uiRenderSprites ui then sprites_shown (\<lambda>y x. y < 144 \<and> x < 160) (w1, p) else (w1, p))"
    using on bg game_draw_sprites_eq [OF assms(1) w1(1,2)]
    by (simp add: GameWindow_DrawToScreen_def)
  show ?thesis
  proof (cases "uiRenderSprites ui")
    case True
    define w2 where "w2 = fst (sprites_shown (\<lambda>y x. y < 144 \<and> x < 160) (w1, p))"
    have "w2 = w\<lparr>pixels := pixels w2\<rparr>"
      by (simp add: w2_def sprites_shown_def) (subst w1(3), simp)
    moreover have "pixels w2 (y * 160 + x) = frame_pixel ui p y x" if "y < 144" "x < 160" for y x
      using that True w1 by (simp add: w2_def sprites_shown_def frame_pixel_def)
    ultimately show ?thesis
      using True draw by (auto simp: w2_def sprites_shown_def cong: if_cong)
  next
    case False
    have "pixels w1 (y * 160 + x) = frame_pixel ui p y x" if "y < 144" "x < 160" for y x
      using that False w1(4) by (simp add: frame_pixel_def)
    then show ?thesis using False draw w1(3) by auto
  qed
qed

text \<open>The other windows: their loops stay within the memories and the texture.\<close>

lemma for_each_grid_ok:
  assumes "\<And>y x w. y \<in> set ys \<Longrightarrow> x \<in> set xs \<Longrightarrow> I w \<Longrightarrow> \<exists>w'. f y x w = Inr w' \<and> I w'" and "I w"
  shows "\<exists>w'. for_each ys (\<lambda>y. for_each xs (f y)) w = Inr w' \<and> I w'"
  using assms by (intro for_each_invariant) blast+

definition texture_of :: "RenderWindow \<Rightarrow> RenderWindow \<Rightarrow> bool" where
  "texture_of w0 w \<longleftrightarrow> w = w0\<lparr>pixels := pixels w\<rparr>"

lemma texture_of_refl [simp]: "texture_of w w"
  by (simp add: texture_of_def)

lemma texture_of_dims:
  assumes "texture_of w0 w"
  shows "log_width w = log_width w0" and "log_height w = log_height w0" and "window_kind w = window_kind w0"
  by (subst assms [unfolded texture_of_def], simp)+

lemma texture_of_update: "texture_of w0 w \<Longrightarrow> w\<lparr>pixels := f\<rparr> = w0\<lparr>pixels := f\<rparr>"
  unfolding texture_of_def by (metis RenderWindow.update_convs(4) RenderWindow.surjective)

lemma put_pixel_ok:
  assumes "texture_of w0 w" and "y < log_height w0" and "x < log_width w0"
  shows "\<exists>w'. put_pixel y x c w = Inr w' \<and> texture_of w0 w'"
  using assms(2,3) put_pixel_in [of y w x c] texture_of_dims [OF assms(1)] texture_of_update [OF assms(1)]
  by (simp add: texture_of_def)

lemma texture_color_MapColors:
  assumes "buffers_ok p" and "pos < 8"
  shows "\<exists>c. texture_color p (MapColors (InterleaveBits lsb msb pos) reg) = Inr c"
proof -
  have "of_bool (bit lsb pos) + 2 * of_bool (bit msb pos) < (4 :: nat)" by simp
  then show ?thesis
    using assms palette_color_less texture_color_ok
    by (simp only: InterleaveBits_eq MapColors_eq buffers_ok_def) blast
qed

lemma video_at_ok: "n < 0x2000 \<Longrightarrow> \<exists>b. video_at v (int n) = Inr b"
  by simp

lemma ext_draw_map_ok:
  assumes "buffers_ok p" and "texture_of w0 w" and "log_width w0 = 256" and "log_height w0 = 256"
  shows "\<exists>w'. ext_draw_map v p w = Inr w' \<and> texture_of w0 w'"
  unfolding ext_draw_map_def Let_def lcdc_masks tables_select kTileLength_def
proof (rule for_each_grid_ok)
  fix y x and w :: RenderWindow
  assume "y \<in> set [0..<kGbScreenBufferHeight]" "x \<in> set [0..<kGbScreenBufferWidth]"
    and w: "texture_of w0 w"
  then have yx: "y < 256" "x < 256" by (simp_all add: ppu_consts)
  then have map: "bg_map v + (y div 8 * 32 + x div 8) < 0x2000"
    using map_index [of y x] by (simp add: bg_map_def mult.commute)
  let ?t = "video v (bg_map v + (y div 8 * 32 + x div 8))"
  have cell: "y mod 8 < 8" "x mod 8 < 8" by simp_all
  have body: "rbind (video_at v (tile_base v + int (unat (tile_number v ?t) * kBytesPerTile + 2 * (y mod 8)))) (\<lambda>lsb.
      rbind (video_at v (tile_base v + int (unat (tile_number v ?t) * kBytesPerTile + 2 * (y mod 8) + 1))) (\<lambda>msb.
      rbind (texture_color p (MapColors (InterleaveBits lsb msb (7 - x mod 8)) (reg_bgp v))) (\<lambda>c.
      put_pixel y x c w))) =
    rbind (texture_color p (palette_color (reg_bgp v)
      (tile_color v (bg_tile_address v ?t) (y mod 8) (x mod 8)))) (\<lambda>c. put_pixel y x c w)"
  proof -
    have nat: "int (unat t * k + 2 * r) = uint t * int k + 2 * int r"
      "int (unat t * k + 2 * r + 1) = uint t * int k + 2 * int r + 1" for t :: u8 and k r
      by simp_all
    show ?thesis unfolding nat by (rule fetch_pixel [OF cell])
  qed
  show "\<exists>w'. rbind (video_at v (int (bg_map v) + int (y div 8 * 32 + x div 8))) (\<lambda>tile_ind.
      rbind (video_at v (tile_base v + int (unat (tile_number v tile_ind) * kBytesPerTile + 2 * (y mod 8)))) (\<lambda>lsb.
      rbind (video_at v (tile_base v + int (unat (tile_number v tile_ind) * kBytesPerTile + 2 * (y mod 8) + 1))) (\<lambda>msb.
      rbind (texture_color p (MapColors (InterleaveBits lsb msb (7 - x mod 8)) (reg_bgp v))) (\<lambda>c.
      put_pixel y x c w)))) = Inr w' \<and> texture_of w0 w'"
    unfolding of_nat_add [symmetric] video_at_nat [OF map] rbind_simps body [unfolded of_nat_add [symmetric]]
    using assms(1,3,4) yx put_pixel_ok [OF w, of y x]
    by (simp add: texture_color_ok buffers_ok_def palette_color_less)
qed (use assms in simp)

lemma ext_draw_view_ok:
  assumes "buffers_ok p" and "texture_of w0 w" and "log_width w0 = 256" and "log_height w0 = 256"
  shows "\<exists>w'. ext_draw_view v p w = Inr w' \<and> texture_of w0 w'"
proof -
  let ?y = "\<lambda>y. (y + unat (reg_scroll_y v)) mod kGbScreenBufferHeight"
  let ?x = "\<lambda>x. (x + unat (reg_scroll_x v)) mod kGbScreenBufferWidth"
  have put: "\<exists>w'. put_pixel (?y y) (?x x) c w = Inr w' \<and> texture_of w0 w'" if "texture_of w0 w" for y x c w
    using put_pixel_ok [OF that] assms(3,4) by (simp add: ppu_consts)
  have "unat (sprite_buffer p y x) < 4" if "sprite_buffer p y x \<noteq> color_code Transparent" for y x
    using that assms(1) by (auto simp: buffers_ok_def word_unat_eq_iff le_less)
  then have cell: "\<exists>w'. (if sprite_buffer p y x = color_code Transparent then Inr w
      else rbind (texture_color p (sprite_buffer p y x)) (\<lambda>c. put_pixel (?y y) (?x x) c w)) = Inr w' \<and>
      texture_of w0 w'" if "texture_of w0 w" for y x w
    using put [OF that] that assms(1) by (simp add: texture_color_ok buffers_ok_def)
  have bg: "\<exists>w'. rbind (texture_color p (bg_buffer p y x)) (\<lambda>c. put_pixel (?y y) (?x x) c w) = Inr w' \<and>
      texture_of w0 w'" if "texture_of w0 w" for y x w
    using put [OF that] assms(1) by (simp add: texture_color_ok buffers_ok_def)
  have "\<exists>w1. for_each [0..<kGbScreenHeight] (\<lambda>y. for_each [0..<kGbScreenWidth] (\<lambda>x w.
      rbind (texture_color p (bg_buffer p y x)) (\<lambda>c. put_pixel (?y y) (?x x) c w))) w = Inr w1 \<and>
      texture_of w0 w1"
    by (rule for_each_grid_ok) (use bg assms(2) in simp_all)
  then obtain w1 where 1: "for_each [0..<kGbScreenHeight] (\<lambda>y. for_each [0..<kGbScreenWidth] (\<lambda>x w.
      rbind (texture_color p (bg_buffer p y x)) (\<lambda>c. put_pixel (?y y) (?x x) c w))) w = Inr w1"
    "texture_of w0 w1"
    by blast
  show ?thesis
    unfolding ext_draw_view_def Let_def 1(1) rbind_simps
    by (rule for_each_grid_ok) (use cell 1(2) in simp_all)
qed

lemma rbind_put_pixels:
  assumes "texture_of w0 w" and "y < log_height w0" "x < log_width w0" "y' < log_height w0" "x' < log_width w0"
  shows "\<exists>w'. rbind (put_pixel y x c w) (put_pixel y' x' c) = Inr w' \<and> texture_of w0 w'"
  using put_pixel_ok [OF assms(1-3), of c] put_pixel_ok [of w0 _ y' x' c] assms(4,5) by fastforce

lemma ext_draw_box_ok:
  assumes "texture_of w0 w" and "log_width w0 = 256" and "log_height w0 = 256"
  shows "\<exists>w'. ext_draw_box v w = Inr w' \<and> texture_of w0 w'"
proof -
  have less: "a mod kGbScreenBufferHeight < log_height w0" "a mod kGbScreenBufferWidth < log_width w0" for a
    using assms(2,3) by (simp_all add: ppu_consts)
  have "\<exists>w1. for_each [0..<kGbScreenWidth] (\<lambda>x w.
      rbind (put_pixel (unat (reg_scroll_y v) mod kGbScreenBufferHeight)
          ((unat (reg_scroll_x v) + x) mod kGbScreenBufferWidth) kViewBoxColor w)
        (put_pixel ((unat (reg_scroll_y v) + kGbScreenHeight - 1) mod kGbScreenBufferHeight)
          ((unat (reg_scroll_x v) + x) mod kGbScreenBufferWidth) kViewBoxColor)) w = Inr w1 \<and> texture_of w0 w1"
    by (rule for_each_invariant) (use assms(1) in \<open>auto intro!: rbind_put_pixels less\<close>)
  then obtain w1 where 1: "for_each [0..<kGbScreenWidth] (\<lambda>x w.
      rbind (put_pixel (unat (reg_scroll_y v) mod kGbScreenBufferHeight)
          ((unat (reg_scroll_x v) + x) mod kGbScreenBufferWidth) kViewBoxColor w)
        (put_pixel ((unat (reg_scroll_y v) + kGbScreenHeight - 1) mod kGbScreenBufferHeight)
          ((unat (reg_scroll_x v) + x) mod kGbScreenBufferWidth) kViewBoxColor)) w = Inr w1" "texture_of w0 w1"
    by blast
  show ?thesis
    unfolding ext_draw_box_def Let_def 1(1) rbind_simps
    by (rule for_each_invariant) (use 1(2) in \<open>auto intro!: rbind_put_pixels less\<close>)
qed

lemma tile_window_cell:
  assumes "tile < 16 * 24" and "row < 8" and "col < (8 :: nat)"
  shows "tile * 16 + 2 * row + 1 < 0x2000" and "tile div 16 * 8 + row < 192" and "tile mod 16 * 8 + col < 128"
proof -
  have "tile div 16 < 24" "tile mod 16 < 16" using assms(1) by (simp_all add: less_mult_imp_div_less)
  then show "tile * 16 + 2 * row + 1 < 0x2000" "tile div 16 * 8 + row < 192" "tile mod 16 * 8 + col < 128"
    using assms by simp_all
qed

lemma WindowWindow_ok:
  assumes "buffers_ok p" and "texture_of w0 w" and "log_width w0 = 128" and "log_height w0 = 192"
  shows "\<exists>w'. WindowWindow_DrawToScreen v w p = Inr w' \<and> texture_of w0 w'"
proof -
  define cell where "cell tile row col = (\<lambda>w.
    rbind (video_at v (tile_data_low + int (tile * 16 + 2 * row))) (\<lambda>lsb.
    rbind (video_at v (tile_data_low + int (tile * 16 + 2 * row + 1))) (\<lambda>msb.
    rbind (texture_color p (MapColors (InterleaveBits lsb msb (7 - col)) (reg_bgp v))) (\<lambda>c.
    put_pixel (tile div 16 * 8 + row) (tile mod 16 * 8 + col) c w))))" for tile row col
  have cell: "\<exists>w'. cell tile row col w = Inr w' \<and> texture_of w0 w'"
    if "tile < 16 * 24" "row < 8" "col < 8" "texture_of w0 w" for tile row col w
  proof -
    note less = tile_window_cell [OF that(1-3)]
    have pos: "7 - col < 8" by linarith
    obtain c where "texture_color p (MapColors (InterleaveBits (video v (tile * 16 + 2 * row))
        (video v (tile * 16 + 2 * row + 1)) (7 - col)) (reg_bgp v)) = Inr c"
      using texture_color_MapColors [OF assms(1) pos] by blast
    then show ?thesis
      using less assms(3,4) put_pixel_ok [OF that(4), of "tile div 16 * 8 + row" "tile mod 16 * 8 + col" c]
      unfolding cell_def tile_data_low_def add_0
      by (simp del: of_nat_add of_nat_mult of_nat_Suc add: video_at_nat)
  qed
  have "\<exists>w1. for_each [0..<16 * 24] (\<lambda>tile. for_each [0..<8] (\<lambda>row. for_each [0..<8] (cell tile row))) w =
      Inr w1 \<and> texture_of w0 w1"
  proof (rule for_each_invariant)
    fix tile w
    assume "tile \<in> set [0..<16 * 24]" "texture_of w0 w"
    then show "\<exists>w'. for_each [0..<8] (\<lambda>row. for_each [0..<8] (cell tile row)) w = Inr w' \<and> texture_of w0 w'"
      by (intro for_each_grid_ok cell) simp_all
  qed (rule assms(2))
  then obtain w1 where 1: "for_each [0..<16 * 24] (\<lambda>tile. for_each [0..<8] (\<lambda>row. for_each [0..<8] (cell tile row))) w =
      Inr w1" "texture_of w0 w1" by blast
  have "\<exists>w2. for_each [128, 256] (\<lambda>tile w. for_each [0..<log_width w]
      (\<lambda>x. put_pixel (tile div 16 * 8) x (ToTextureColor 255 0 0)) w) w1 = Inr w2 \<and> texture_of w0 w2"
  proof (rule for_each_invariant)
    fix tile :: nat and w :: RenderWindow
    assume "tile \<in> set [128, 256]" "texture_of w0 w"
    then show "\<exists>w'. for_each [0..<log_width w] (\<lambda>x. put_pixel (tile div 16 * 8) x (ToTextureColor 255 0 0)) w =
        Inr w' \<and> texture_of w0 w'"
      using assms(3,4)
      by (intro for_each_invariant put_pixel_ok) (auto simp: texture_of_dims)
  qed (rule 1(2))
  then show ?thesis
    unfolding WindowWindow_DrawToScreen_def Let_def kBytesPerTile_def kTileLength_def
      cell_def [symmetric] 1(1) rbind_simps .
qed

lemma DrawToScreen_ok:
  assumes "buffers_ok p" and "window_ok w"
  shows "\<exists>w' p'. DrawToScreen ui v w p = Inr (w', p') \<and> window_ok w' \<and> buffers_ok p' \<and>
    p' = p\<lparr>sprite_buffer := sprite_buffer p'\<rparr>"
proof -
  have keep: "window_ok w'" if "texture_of w w'" for w'
    using assms(2) texture_of_dims [OF that] by (cases "window_kind w") (simp_all add: window_ok_def)
  show ?thesis
  proof (cases "window_kind w")
    case GameWindow
    then have dims: "log_width w = 160" "log_height w = 144"
      using assms(2) by (simp_all add: window_ok_def)
    show ?thesis
    proof (cases "bit (reg_lcdc v) 7")
      case True
      obtain w' where "GameWindow_DrawToScreen ui v w p =
          Inr (w', p\<lparr>sprite_buffer := (\<lambda>y x. if uiRenderSprites ui \<and> y < 144 \<and> x < 160
            then color_code Transparent else sprite_buffer p y x)\<rparr>)" "texture_of w w'"
        using GameWindow_shows [OF assms(1) dims True, of ui] unfolding texture_of_def by blast
      then show ?thesis
        using GameWindow assms(1) keep by (auto simp: DrawToScreen_def buffers_ok_def)
    next
      case False
      then have "reg_lcdc v AND kMaskLcdControl = 0" using lcdc_masks(6) by blast
      then show ?thesis
        using GameWindow assms by (simp add: DrawToScreen_def GameWindow_DrawToScreen_def)
    qed
  next
    case ExtGameWindow
    then have dims: "log_width w = 256" "log_height w = 256"
      using assms(2) by (simp_all add: window_ok_def)
    obtain w' where "ExtGameWindow_DrawToScreen v w p = Inr w'" "texture_of w w'"
    proof -
      obtain w1 where 1: "ext_draw_map v p w = Inr w1" "texture_of w w1"
        using ext_draw_map_ok [OF assms(1) texture_of_refl dims] by blast
      obtain w2 where 2: "ext_draw_view v p w1 = Inr w2" "texture_of w w2"
        using ext_draw_view_ok [OF assms(1) 1(2) dims] by blast
      obtain w3 where 3: "ext_draw_box v w2 = Inr w3" "texture_of w w3"
        using ext_draw_box_ok [OF 2(2) dims] by blast
      show ?thesis
      proof (cases "reg_lcdc v AND kMaskLcdControl = 0")
        case True
        then show ?thesis using that [of w] by (simp add: ExtGameWindow_DrawToScreen_def)
      next
        case False
        then show ?thesis using that [of w3] 1 2 3 by (simp add: ExtGameWindow_DrawToScreen_def)
      qed
    qed
    then show ?thesis using ExtGameWindow assms(1) keep by (simp add: DrawToScreen_def)
  next
    case WindowWindow
    then have "log_width w = 128" "log_height w = 192"
      using assms(2) by (simp_all add: window_ok_def)
    from WindowWindow_ok [OF assms(1) texture_of_refl this, of v]
    obtain w' where "WindowWindow_DrawToScreen v w p = Inr w'" "texture_of w w'" by blast
    then show ?thesis using WindowWindow assms(1) keep by (simp add: DrawToScreen_def)
  next
    case DummyWindow
    then show ?thesis using assms by (simp add: DrawToScreen_def)
  qed
qed

lemma draw_windows_ok:
  assumes "buffers_ok p" and "window_ok (game_wndw p)" and "window_ok (ext_game_wndw p)"
    and "window_ok (window_wndw p)"
  shows "\<exists>p'. draw_windows ui v p = Inr p' \<and> buffers_ok p' \<and> window_ok (game_wndw p') \<and>
    window_ok (ext_game_wndw p') \<and> window_ok (window_wndw p') \<and>
    window_line p' = window_line p \<and> render_pc p' = render_pc p"
proof -
  have upd: "buffers_ok (q\<lparr>game_wndw := w\<rparr>) = buffers_ok q" "buffers_ok (q\<lparr>ext_game_wndw := w\<rparr>) = buffers_ok q"
    "buffers_ok (q\<lparr>window_wndw := w\<rparr>) = buffers_ok q" for q :: Ppu and w
    by (simp_all add: buffers_ok_def)
  obtain w1 p1 where 1: "DrawToScreen ui v (ext_game_wndw p) p = Inr (w1, p1)" "window_ok w1" "buffers_ok p1"
    "p1 = p\<lparr>sprite_buffer := sprite_buffer p1\<rparr>"
    using DrawToScreen_ok [OF assms(1,3)] by blast
  let ?p1 = "p1\<lparr>ext_game_wndw := w1\<rparr>"
  have p1: "game_wndw p1 = game_wndw p" "window_wndw p1 = window_wndw p" "window_line p1 = window_line p"
    "render_pc p1 = render_pc p"
    by (subst 1(4), simp)+
  obtain w2 p2 where 2: "DrawToScreen ui v (game_wndw ?p1) ?p1 = Inr (w2, p2)" "window_ok w2" "buffers_ok p2"
    "p2 = ?p1\<lparr>sprite_buffer := sprite_buffer p2\<rparr>"
    using DrawToScreen_ok [of ?p1 "game_wndw ?p1" ui v] assms(2) 1(3) p1 by (auto simp: upd)
  let ?p2 = "p2\<lparr>game_wndw := w2\<rparr>"
  have p2: "ext_game_wndw p2 = w1" "window_wndw p2 = window_wndw p" "window_line p2 = window_line p"
    "render_pc p2 = render_pc p"
    by (subst 2(4), simp add: p1)+
  obtain w3 p3 where 3: "DrawToScreen ui v (window_wndw ?p2) ?p2 = Inr (w3, p3)" "window_ok w3" "buffers_ok p3"
    "p3 = ?p2\<lparr>sprite_buffer := sprite_buffer p3\<rparr>"
    using DrawToScreen_ok [of ?p2 "window_wndw ?p2" ui v] assms(4) 2(3) p2 by (auto simp: upd)
  have p3: "ext_game_wndw p3 = w1" "game_wndw p3 = w2" "window_line p3 = window_line p"
    "render_pc p3 = render_pc p"
    by (subst 3(4), simp add: p2)+
  have "draw_windows ui v p = Inr (p3\<lparr>window_wndw := w3\<rparr>)"
    using 1(1) 2(1) 3(1) by (simp add: draw_windows_def Let_def)
  then show ?thesis
    using 1(2) 2(2) 3(2,3) p3 by (simp add: upd)
qed

section \<open>The thread\<close>

lemma render_times [simp]:
  "0 < oam_search_time" "0 < lcd_transfer_time" "0 < check_lyc_time" "0 < vblank_time"
  by (simp_all add: oam_search_time_def lcd_transfer_time_def check_lyc_time_def vblank_time_def)

lemma CheckLycInterrupt_memories [simp]:
  "video (CheckLycInterrupt v) = video v" "oam_table (CheckLycInterrupt v) = oam_table v"
  "reg_lcdc_y (CheckLycInterrupt v) = reg_lcdc_y v"
  by (simp_all add: CheckLycInterrupt_def Let_def)

definition step_result :: "ppu_mem \<Rightarrow> (nat \<times> ppu_mem \<times> Ppu) res \<Rightarrow> bool" where
  "step_result v r \<longleftrightarrow> (\<exists>n v' p'. r = Inr (n, v', p') \<and> ppu_ok p' \<and> 0 < n \<and>
     video v' = video v \<and> oam_table v' = oam_table v)"

lemma ppu_ok_pc: "ppu_ok p \<Longrightarrow> lines_ok (p\<lparr>render_pc := c\<rparr>) \<Longrightarrow> ppu_ok (p\<lparr>render_pc := c\<rparr>)"
  by (simp add: ppu_ok_def buffers_ok_def)

lemma h_blank_ok:
  assumes "ppu_ok p" and "render_pc p = AfterTransfer i"
  shows "step_result v (h_blank ui i (v, p))"
proof -
  let ?v = "v\<lparr>reg_stat := SetBit (SetBit (reg_stat v) False 0) False 1\<rparr>"
  have i: "i < 144" "0 \<le> window_line p" "window_line p \<le> int i" "buffers_ok p"
    using assms by (simp_all add: ppu_ok_def lines_ok_def)
  obtain p' where p': "draw_line ui ?v i p = Inr p'" "buffers_ok p'" "0 \<le> window_line p'"
    "window_line p' \<le> int i + 1"
    "p' = p\<lparr>bg_buffer := bg_buffer p', sprite_buffer := sprite_buffer p', window_line := window_line p'\<rparr>"
    using draw_line_ok [OF i(4,1,2,3), of ui ?v] by blast
  have "game_wndw p' = game_wndw p" "ext_game_wndw p' = ext_game_wndw p" "window_wndw p' = window_wndw p"
    by (subst p'(5), simp)+
  then have "ppu_ok (p'\<lparr>render_pc := AfterHBlank i\<rparr>)"
    using assms(1) p'(2-4) i(1) by (simp add: ppu_ok_def lines_ok_def buffers_ok_def)
  then show ?thesis
    using p'(1) by (simp add: step_result_def h_blank_def Let_def)
qed

lemma v_blank_ok:
  assumes "ppu_ok p"
  shows "step_result v (v_blank ui (v, p))"
proof -
  let ?p = "p\<lparr>window_line := 0\<rparr>" and ?v = "v\<lparr>reg_stat := SetBit (reg_stat v) True 0\<rparr>"
  have "buffers_ok ?p" "window_ok (game_wndw ?p)" "window_ok (ext_game_wndw ?p)" "window_ok (window_wndw ?p)"
    using assms by (simp_all add: ppu_ok_def buffers_ok_def)
  from draw_windows_ok [OF this, of ui ?v]
  obtain p' where p': "draw_windows ui ?v ?p = Inr p'" "buffers_ok p'" "window_ok (game_wndw p')"
    "window_ok (ext_game_wndw p')" "window_ok (window_wndw p')" "window_line p' = 0"
    by auto
  then have "ppu_ok (p'\<lparr>render_pc := AfterVBlank 0\<rparr>)"
    by (simp add: ppu_ok_def lines_ok_def buffers_ok_def)
  then show ?thesis
    using p'(1) by (simp add: step_result_def v_blank_def Let_def)
qed

lemma oam_search_ok:
  "ppu_ok p \<Longrightarrow> i < 144 \<Longrightarrow> window_line p \<le> int i \<Longrightarrow> video v = video v0 \<Longrightarrow> oam_table v = oam_table v0 \<Longrightarrow>
    step_result v0 (Inr (oam_search i (v, p)))"
  by (simp add: step_result_def oam_search_def ppu_ok_def lines_ok_def buffers_ok_def)

lemma RenderLoop_step_ok:
  assumes "ppu_ok p"
  shows "step_result v (RenderLoop_step ui (v, p))"
proof (cases "render_pc p")
  case RenderStart
  then show ?thesis using assms by (simp add: oam_search_ok ppu_ok_def lines_ok_def)
next
  case (AfterOamSearch i)
  then show ?thesis
    using assms by (simp add: step_result_def lcd_transfer_def ppu_ok_def lines_ok_def buffers_ok_def)
next
  case (AfterTransfer i)
  then show ?thesis using h_blank_ok [OF assms] by simp
next
  case (AfterHBlank i)
  then have "window_line p \<le> int (i + 1)" using assms by (simp add: ppu_ok_def lines_ok_def)
  then show ?thesis
    using AfterHBlank assms by (simp add: oam_search_ok v_blank_ok kGbScreenHeight_def)
next
  case (AfterVBlank i)
  then have "window_line p = 0" "i < 10" using assms by (simp_all add: ppu_ok_def lines_ok_def)
  then have next_ok: "i + 1 < 10 \<Longrightarrow> ppu_ok (p\<lparr>render_pc := AfterVBlank (i + 1)\<rparr>)"
    using assms by (simp add: ppu_ok_def lines_ok_def buffers_ok_def)
  show ?thesis
    using AfterVBlank assms next_ok \<open>window_line p = 0\<close>
    by (simp add: Let_def oam_search_ok) (simp add: step_result_def)
qed

end
