(* ===== verification/Ppu_Screenshot.thy ===== *)
theory Ppu_Screenshot
  imports Ppu_Safety
begin

text \<open>
  The screenshot of the headless mode, \<^verbatim>\<open>DummyWindow::SaveScreenshot\<close> of \<^verbatim>\<open>src/ppu.cpp\<close>: the bytes of a
  bitmap file. Reading a pixel back from them gives the colour that the frame shows there.
\<close>

section \<open>Writing\<close>

text \<open>The host is little-endian.\<close>

definition write_u16 :: "u16 \<Rightarrow> u8 list \<Rightarrow> u8 list" where
  "write_u16 v ofs = ofs @ [ucast v, ucast (drop_bit 8 v)]"

definition write_u32 :: "u32 \<Rightarrow> u8 list \<Rightarrow> u8 list" where
  "write_u32 v ofs = ofs @ [ucast v, ucast (drop_bit 8 v), ucast (drop_bit 16 v), ucast (drop_bit 24 v)]"

definition bmp_file_header :: "nat \<Rightarrow> u8 list" where
  "bmp_file_header kFileSize =
     (let ofs = [0x42, 0x4D];
          ofs = write_u32 (of_nat kFileSize) ofs;
          ofs = write_u16 0 ofs;
          ofs = write_u16 0 ofs in
      write_u32 122 ofs)"

definition bmp_info_header :: "nat \<Rightarrow> nat \<Rightarrow> nat \<Rightarrow> u8 list \<Rightarrow> u8 list" where
  "bmp_info_header width height kPixelDataSize ofs =
     (let ofs = write_u32 108 ofs;
          ofs = write_u32 (of_nat width) ofs;
          ofs = write_u32 (of_nat height) ofs;
          ofs = write_u16 1 ofs;
          ofs = write_u16 32 ofs;
          ofs = write_u32 3 ofs;
          ofs = write_u32 (of_nat kPixelDataSize) ofs;
          ofs = write_u32 0 ofs;
          ofs = write_u32 0 ofs;
          ofs = write_u32 0 ofs;
          ofs = write_u32 0 ofs;
          ofs = write_u32 0x00FF0000 ofs;
          ofs = write_u32 0x0000FF00 ofs;
          ofs = write_u32 0x000000FF ofs;
          ofs = write_u32 0xFF000000 ofs;
          ofs = write_u32 0x57696E20 ofs;
          ofs = ofs @ replicate 36 0;
          ofs = write_u32 0 ofs;
          ofs = write_u32 0 ofs in
      write_u32 0 ofs)"

text \<open>
  \<open>has_ppu\<close>: the window has a pointer to the unit. Both constructors of the program set it; without it
  the picture is white.
\<close>

definition screenshot_pixel :: "bool \<Rightarrow> Ppu \<Rightarrow> nat \<Rightarrow> nat \<Rightarrow> u32 res" where
  "screenshot_pixel has_ppu p row col =
     (let idx =
        (if has_ppu \<and> sprite_buffer p row col \<noteq> color_code Transparent then sprite_buffer p row col
         else if has_ppu then bg_buffer p row col else 0) in
      rbind (palette_at p idx) (\<lambda>(r, g, b).
      Inr (0xFF000000 OR push_bit 16 (ucast r) OR push_bit 8 (ucast g) OR ucast b)))"

text \<open>The contents of the new file, or \<open>None\<close> when it cannot be opened.\<close>

definition SaveScreenshot :: "bool \<Rightarrow> bool \<Rightarrow> Ppu \<Rightarrow> RenderWindow \<Rightarrow> u8 list option res" where
  "SaveScreenshot opened has_ppu p w =
     (let kPixelDataSize = log_width w * log_height w * 4;
          kFileSize = 14 + 108 + kPixelDataSize in
      if \<not> opened then Inr None
      else
        rbind (for_each (rev [0..<log_height w]) (\<lambda>row. for_each [0..<log_width w] (\<lambda>col ofs.
            rbind (screenshot_pixel has_ppu p row col) (\<lambda>pixel. Inr (write_u32 pixel ofs))))
          (bmp_info_header (log_width w) (log_height w) kPixelDataSize (bmp_file_header kFileSize)))
        (\<lambda>ofs. Inr (Some ofs)))"

section \<open>Reading back\<close>

definition read_u32 :: "nat \<Rightarrow> u8 list \<Rightarrow> u32" where
  "read_u32 i bs = ucast (bs ! i) OR push_bit 8 (ucast (bs ! (i + 1))) OR
     push_bit 16 (ucast (bs ! (i + 2))) OR push_bit 24 (ucast (bs ! (i + 3)))"

definition le32 :: "u32 \<Rightarrow> u8 list" where
  "le32 v = write_u32 v []"

lemma le32_length [simp]: "length (le32 v) = 4"
  by (simp add: le32_def write_u32_def)

lemma write_u32_le32: "write_u32 v ofs = ofs @ le32 v"
  by (simp add: le32_def write_u32_def)

lemma join_bytes:
  "ucast (ucast v :: u8) OR push_bit 8 (ucast (ucast (drop_bit 8 v) :: u8)) OR
   push_bit 16 (ucast (ucast (drop_bit 16 v) :: u8)) OR push_bit 24 (ucast (ucast (drop_bit 24 v) :: u8)) =
   (v :: u32)" (is "?j = v")
proof (rule bit_word_eqI)
  fix n
  assume "n < LENGTH(32)"
  then show "bit ?j n = bit v n"
    by (cases "n < 16"; cases "n < 24") (auto simp: bit_simps not_le not_less)
qed

lemma read_le32: "read_u32 (length xs) (xs @ le32 v @ ys) = v"
  by (simp add: read_u32_def le32_def write_u32_def nth_append join_bytes)

text \<open>Blocks of four bytes.\<close>

lemma length_blocks: "length (concat (map (\<lambda>x. le32 (f x)) xs)) = 4 * length xs"
  by (induction xs) simp_all

lemma read_block:
  assumes "i < length xs"
  shows "read_u32 (length hs + 4 * i) (hs @ concat (map (\<lambda>x. le32 (f x)) xs)) = f (xs ! i)"
proof -
  have "xs = take i xs @ xs ! i # drop (Suc i) xs" using assms by (rule id_take_nth_drop)
  then have "hs @ concat (map (\<lambda>x. le32 (f x)) xs) = (hs @ concat (map (\<lambda>x. le32 (f x)) (take i xs))) @
      le32 (f (xs ! i)) @ concat (map (\<lambda>x. le32 (f x)) (drop (Suc i) xs))"
    by (metis append.assoc concat.simps(2) concat_append list.simps(9) map_append)
  moreover have "length (hs @ concat (map (\<lambda>x. le32 (f x)) (take i xs))) = length hs + 4 * i"
    using assms length_blocks [of f "take i xs"] by simp
  ultimately show ?thesis using read_le32 by metis
qed

lemma for_each_blocks:
  assumes "\<And>x. x \<in> set xs \<Longrightarrow> g x = Inr (f x)"
  shows "for_each xs (\<lambda>x ofs. rbind (g x) (\<lambda>v. Inr (write_u32 v ofs))) ofs =
    Inr (ofs @ concat (map (\<lambda>x. le32 (f x)) xs))"
  using assms by (induction xs arbitrary: ofs) (simp_all add: write_u32_le32)

definition argb :: "u8 \<times> u8 \<times> u8 \<Rightarrow> u32" where
  "argb = (\<lambda>(r, g, b). 0xFF000000 OR push_bit 16 (ucast r) OR push_bit 8 (ucast g) OR ucast b)"

definition shown_index :: "Ppu \<Rightarrow> nat \<Rightarrow> nat \<Rightarrow> nat" where
  "shown_index p row col = unat (if sprite_buffer p row col \<noteq> color_code Transparent
     then sprite_buffer p row col else bg_buffer p row col)"

lemma screenshot_pixel_eq:
  assumes "buffers_ok p"
  shows "screenshot_pixel True p row col = Inr (argb (color_palette p ! shown_index p row col))"
proof -
  have "unat (sprite_buffer p row col) < 4" if "sprite_buffer p row col \<noteq> 4"
  proof -
    have "unat (sprite_buffer p row col) \<noteq> 4" using that by (simp add: word_unat_eq_iff)
    then show ?thesis using assms by (simp add: buffers_ok_def order_less_le)
  qed
  then show ?thesis
    using assms by (auto simp: screenshot_pixel_def Let_def palette_at_def buffers_ok_def argb_def
        shown_index_def split: prod.split)
qed

text \<open>The pixels of the file are its rows from the bottom up.\<close>

definition file_pixels :: "nat \<Rightarrow> nat \<Rightarrow> (nat \<times> nat) list" where
  "file_pixels width height = concat (map (\<lambda>row. map (Pair row) [0..<width]) (rev [0..<height]))"

lemma file_pixels_Suc: "file_pixels width (Suc h) = map (Pair h) [0..<width] @ file_pixels width h"
  by (simp add: file_pixels_def)

lemma file_pixels_length: "length (file_pixels width height) = height * width"
  by (induction height) (simp_all add: file_pixels_Suc, simp add: file_pixels_def)

lemma file_pixels_nth:
  "row < height \<Longrightarrow> col < width \<Longrightarrow>
   file_pixels width height ! ((height - 1 - row) * width + col) = (row, col)"
proof (induction height)
  case (Suc h)
  show ?case
  proof (cases "row = h")
    case False
    then have "(Suc h - 1 - row) * width + col = width + ((h - 1 - row) * width + col)"
      using Suc.prems by (cases "h - row") (auto simp: Suc_diff_Suc not_less_eq)
    then show ?thesis using Suc False by (simp add: file_pixels_Suc nth_append)
  qed (use Suc.prems in \<open>simp add: file_pixels_Suc nth_append\<close>)
qed simp

lemma header_length:
  "length (bmp_info_header w h n (bmp_file_header m)) = 122"
  by (simp add: bmp_info_header_def bmp_file_header_def write_u32_def write_u16_def Let_def)

lemma SaveScreenshot_eq:
  assumes "buffers_ok p"
  shows "SaveScreenshot True True p w = Inr (Some
    (bmp_info_header (log_width w) (log_height w) (log_width w * log_height w * 4)
      (bmp_file_header (122 + log_width w * log_height w * 4)) @
     concat (map (\<lambda>rc. le32 (argb (color_palette p ! shown_index p (fst rc) (snd rc))))
       (file_pixels (log_width w) (log_height w)))))"
proof -
  let ?px = "\<lambda>row col. argb (color_palette p ! shown_index p row col)"
  have "for_each rows (\<lambda>row. for_each [0..<n] (\<lambda>col ofs.
      rbind (screenshot_pixel True p row col) (\<lambda>pixel. Inr (write_u32 pixel ofs)))) ofs =
    Inr (ofs @ concat (map (\<lambda>rc. le32 (?px (fst rc) (snd rc))) (concat (map (\<lambda>row. map (Pair row) [0..<n]) rows))))"
    for rows n ofs
  proof (induction rows arbitrary: ofs)
    case (Cons row rows)
    have "for_each [0..<n] (\<lambda>col ofs. rbind (screenshot_pixel True p row col)
        (\<lambda>pixel. Inr (write_u32 pixel ofs))) ofs = Inr (ofs @ concat (map (\<lambda>col. le32 (?px row col)) [0..<n]))"
      by (rule for_each_blocks) (rule screenshot_pixel_eq [OF assms])
    then show ?case using Cons by (simp add: comp_def)
  qed simp
  then show ?thesis
    by (simp add: SaveScreenshot_def Let_def file_pixels_def)
qed

text \<open>A palette and a headless unit for the witness.\<close>

definition grey_palette :: "(u8 \<times> u8 \<times> u8) list" where
  "grey_palette = [(255, 255, 255), (170, 170, 170), (85, 85, 85), (0, 0, 0)]"

definition headless_Ppu :: Ppu where
  "headless_Ppu = new_Ppu True False False grey_palette 0 (\<lambda>_. 0)"

lemma headless_Ppu_ok: "ppu_ok headless_Ppu" "buffers_ok headless_Ppu"
  using new_Ppu_ok [of grey_palette True False False "\<lambda>_. 0"]
  by (simp_all add: headless_Ppu_def ppu_ok_def grey_palette_def)

text \<open>
  C19. The screenshot of the headless mode is a bitmap: its length is the one in its header, and the
  four bytes that the format gives to a pixel, rows from the bottom up, hold the opaque colour of the
  sprite there, or of the background if there is none.
\<close>

theorem Screenshot_reads_back:
  assumes "buffers_ok p"
  shows "\<exists>bytes. SaveScreenshot True True p w = Inr (Some bytes) \<and>
    length bytes = 122 + log_width w * log_height w * 4 \<and>
    read_u32 2 bytes = of_nat (length bytes) \<and> read_u32 10 bytes = 122 \<and>
    read_u32 18 bytes = of_nat (log_width w) \<and> read_u32 22 bytes = of_nat (log_height w) \<and>
    (\<forall>row < log_height w. \<forall>col < log_width w.
       read_u32 (122 + 4 * ((log_height w - 1 - row) * log_width w + col)) bytes =
       argb (color_palette p ! unat (if sprite_buffer p row col \<noteq> color_code Transparent
         then sprite_buffer p row col else bg_buffer p row col)))"
proof -
  let ?px = "\<lambda>rc. argb (color_palette p ! shown_index p (fst rc) (snd rc))"
  let ?w = "log_width w" and ?h = "log_height w"
  define header where
    "header = bmp_info_header ?w ?h (?w * ?h * 4) (bmp_file_header (122 + ?w * ?h * 4))"
  define bytes where "bytes = header @ concat (map (\<lambda>rc. le32 (?px rc)) (file_pixels ?w ?h))"
  have "SaveScreenshot True True p w = Inr (Some bytes)"
    unfolding bytes_def header_def by (rule SaveScreenshot_eq [OF assms])
  moreover have len: "length bytes = 122 + ?w * ?h * 4"
    by (simp add: bytes_def header_def header_length length_blocks file_pixels_length)
  moreover have "read_u32 (122 + 4 * ((?h - 1 - row) * ?w + col)) bytes = ?px (row, col)"
    if "row < ?h" "col < ?w" for row col
  proof -
    have "(?h - 1 - row) * ?w + col < Suc (?h - 1 - row) * ?w" using that(2) by simp
    also have "\<dots> \<le> ?h * ?w" using that(1) by (intro mult_le_mono1) linarith
    finally show ?thesis
      using read_block [of "(?h - 1 - row) * ?w + col" "file_pixels ?w ?h" header ?px]
        file_pixels_nth [OF that]
      by (simp add: bytes_def header_def header_length file_pixels_length algebra_simps)
  qed
  moreover have "read_u32 2 bytes = of_nat (122 + ?w * ?h * 4)" "read_u32 10 bytes = 122"
    "read_u32 18 bytes = of_nat ?w" "read_u32 22 bytes = of_nat ?h"
    unfolding bytes_def header_def
    by (simp_all add: read_u32_def bmp_info_header_def bmp_file_header_def write_u32_def write_u16_def
        join_bytes nth_append)
  ultimately show ?thesis
    unfolding shown_index_def fst_conv snd_conv by (intro exI [of _ bytes]) simp
qed

lemma Screenshot_reads_back_witness:
  "\<exists>bytes. SaveScreenshot True True headless_Ppu (game_wndw headless_Ppu) = Inr (Some bytes) \<and>
    length bytes = 122 + 160 * 144 * 4 \<and> read_u32 122 bytes = 0xFFFFFFFF"
proof -
  have w: "log_width (game_wndw headless_Ppu) = 160" "log_height (game_wndw headless_Ppu) = 144"
    "sprite_buffer headless_Ppu = (\<lambda>_ _. 4)" "bg_buffer headless_Ppu = (\<lambda>_ _. 0)"
    "color_palette headless_Ppu = grey_palette"
    by (simp_all add: headless_Ppu_def new_Ppu_def new_window_def ppu_consts Let_def)
  obtain bytes where 1: "SaveScreenshot True True headless_Ppu (game_wndw headless_Ppu) = Inr (Some bytes)"
    "length bytes = 122 + 160 * 144 * 4"
    "\<And>row col. row < 144 \<Longrightarrow> col < 160 \<Longrightarrow> read_u32 (122 + 4 * ((144 - 1 - row) * 160 + col)) bytes =
      argb (grey_palette ! 0)"
    using Screenshot_reads_back [OF headless_Ppu_ok(2), of "game_wndw headless_Ppu"] unfolding w by auto
  have "read_u32 122 bytes = argb (grey_palette ! 0)"
    using 1(3) [of 143 0] by simp
  also have "\<dots> = 0xFFFFFFFF" by (simp add: grey_palette_def argb_def)
  finally show ?thesis using 1(1,2) by blast
qed

end
