(* ===== verification/Serial.thy ===== *)
theory Serial
  imports Memory
begin

text \<open>
  The serial port of \<^verbatim>\<open>src/serial.cpp\<close>, which has no partner: a transfer with the internal clock
  takes its time and then requests the interrupt. \<open>interrupt_event\<close> tells whether the notification
  of the SystemC event is pending; the interrupt method runs when it fires, and once at the start of
  the simulation, because the constructor does not call \<^verbatim>\<open>dont_initialize\<close>. The two members are
  uninitialised until then and so are arguments of \<open>new_Serial\<close>.
\<close>

record Serial =
  ongoing_transmission :: bool
  reg_sc :: u8
  interrupt_event :: bool

definition kMaskClockSource :: u8 where "kMaskClockSource = 0x01"
definition kMaskTransferStart :: u8 where "kMaskTransferStart = 0x80"

definition new_Serial :: "bool \<Rightarrow> u8 \<Rightarrow> Serial" where
  "new_Serial ongoing sc =
     \<lparr>ongoing_transmission = ongoing, reg_sc = sc, interrupt_event = False\<rparr>"

definition SerialInterrupt :: "Serial \<Rightarrow> u8 \<Rightarrow> Serial \<times> u8" where
  "SerialInterrupt s reg_if =
     (s\<lparr>reg_sc := reg_sc s AND NOT kMaskTransferStart, ongoing_transmission := False,
        interrupt_event := False\<rparr>,
      reg_if OR kSerialIOIf)"

definition serial_b_transport :: "payload \<Rightarrow> Serial \<Rightarrow> (payload \<times> Serial) res" where
  "serial_b_transport pl s =
     (let adr = unat (address pl) in
      if \<not> adr < 2 then Inl AssertFailed
      else
        (case command pl of
           TLM_READ_COMMAND \<Rightarrow>
             Inr (pl\<lparr>data_byte := (if adr = 0 then 0xFF else reg_sc s),
                    response_status := TLM_OK_RESPONSE\<rparr>, s)
         | TLM_WRITE_COMMAND \<Rightarrow>
             (let s = (if adr = 1 then s\<lparr>reg_sc := data_byte pl\<rparr> else s);
                  clock_internal = (reg_sc s AND kMaskClockSource \<noteq> 0);
                  start_transfer = (reg_sc s AND kMaskTransferStart \<noteq> 0);
                  s = (if adr = 1 \<and> start_transfer \<and> \<not> ongoing_transmission s \<and> clock_internal
                       then s\<lparr>interrupt_event := True, ongoing_transmission := True\<rparr> else s) in
              Inr (pl\<lparr>response_status := TLM_OK_RESPONSE\<rparr>, s))
         | TLM_IGNORE_COMMAND \<Rightarrow>
             Inr (pl\<lparr>response_status := TLM_COMMAND_ERROR_RESPONSE\<rparr>, s)))"

definition serial_transport_dbg :: "payload \<Rightarrow> Serial \<Rightarrow> (payload \<times> Serial) res" where
  "serial_transport_dbg pl s = serial_b_transport pl s"

section \<open>The state machine\<close>

text \<open>
  Steps: an access of the two registers, and the interrupt method when its event fires. A reachable
  port comes from any constructed one by the initial run of the method.
\<close>

inductive serial_step :: "Serial \<Rightarrow> Serial \<Rightarrow> bool" where
  access: "serial_b_transport pl s = Inr (pl', s') \<Longrightarrow> serial_step s s'"
| fires: "interrupt_event s \<Longrightarrow> SerialInterrupt s reg_if = (s', reg_if') \<Longrightarrow> serial_step s s'"

inductive serial_reachable :: "Serial \<Rightarrow> bool" where
  initial: "SerialInterrupt (new_Serial ongoing sc) reg_if = (s, reg_if') \<Longrightarrow> serial_reachable s"
| step: "serial_reachable s \<Longrightarrow> serial_step s s' \<Longrightarrow> serial_reachable s'"

inductive_cases serial_stepE: "serial_step s s'"

text \<open>A transmission is under way exactly while its interrupt is pending.\<close>

definition serial_inv :: "Serial \<Rightarrow> bool" where
  "serial_inv s \<longleftrightarrow> ongoing_transmission s = interrupt_event s"

lemma SerialInterrupt_inv: "serial_inv (fst (SerialInterrupt s reg_if))"
  by (simp add: SerialInterrupt_def serial_inv_def)

lemma serial_b_transport_inv:
  "serial_b_transport pl s = Inr (pl', s') \<Longrightarrow> serial_inv s \<Longrightarrow> serial_inv s'"
  by (auto simp: serial_b_transport_def Let_def serial_inv_def split: tlm_command.splits if_splits)

lemma serial_step_inv: "serial_step s s' \<Longrightarrow> serial_inv s \<Longrightarrow> serial_inv s'"
  by (erule serial_stepE) (auto dest: serial_b_transport_inv simp: SerialInterrupt_def serial_inv_def)

lemma serial_reachable_inv: "serial_reachable s \<Longrightarrow> serial_inv s"
proof (induction rule: serial_reachable.induct)
  case (initial ongoing sc reg_if s reg_if')
  then show ?case using SerialInterrupt_inv by (metis fst_conv)
qed (rule serial_step_inv)

lemma bit_7_mask: "w AND kMaskTransferStart \<noteq> 0 \<longleftrightarrow> bit w 7"
  "w AND kMaskClockSource \<noteq> 0 \<longleftrightarrow> bit w 0"
  by (simp_all add: kMaskTransferStart_def kMaskClockSource_def u8_eq_iff_bits bit_simps)

section \<open>Properties\<close>

text \<open>
  A transfer cannot get stuck: in every reachable state a transmission is under way only if its
  interrupt event is pending, and when the event fires the interrupt is requested, the start bit of SC
  is cleared and the port accepts the next transfer.
\<close>

lemma Serial_transfer_ends:
  assumes "serial_reachable s" and "ongoing_transmission s"
  shows "interrupt_event s \<and>
    (\<exists>s' reg_if'. SerialInterrupt s reg_if = (s', reg_if') \<and> bit reg_if' 3 \<and>
      \<not> bit (reg_sc s') 7 \<and> \<not> ongoing_transmission s' \<and> serial_reachable s')"
proof -
  have event: "interrupt_event s"
    using serial_reachable_inv [OF assms(1)] assms(2) by (simp add: serial_inv_def)
  moreover have "serial_reachable (fst (SerialInterrupt s reg_if))"
    using assms(1) event serial_step.fires [of s reg_if]
    by (metis prod.collapse serial_reachable.step)
  moreover have "bit (reg_if OR kSerialIOIf) 3" "\<not> bit (reg_sc s AND NOT kMaskTransferStart) 7"
    by (simp_all add: kSerialIOIf_def kMaskTransferStart_def bit_simps)
  ultimately show ?thesis
    by (simp add: SerialInterrupt_def)
qed

end
