(* ===== verification/Timer.thy ===== *)
theory Timer
  imports Memory
begin

text \<open>
  The timer of \<^verbatim>\<open>src/timer.cpp\<close>. Its two threads wait and then work for ever; a step of a thread
  is what it does after one wait. The interrupt flag register, which the timer reaches through a
  pointer, is an argument and a result of the step. The constructor leaves the four registers
  uninitialised: they are arguments of \<open>new_Timer\<close>.
\<close>

section \<open>State\<close>

record Timer =
  reg_div :: u8
  reg_tac :: u8
  reg_tima :: u8
  reg_tma :: u8
  cycles_per_inc :: nat
  inc_time :: nat

definition kMaskTimerEnabled :: u8 where "kMaskTimerEnabled = 0x04"

definition new_Timer :: "u8 \<Rightarrow> u8 \<Rightarrow> u8 \<Rightarrow> u8 \<Rightarrow> Timer" where
  "new_Timer div0 tac0 tima0 tma0 =
     \<lparr>reg_div = div0, reg_tac = tac0, reg_tima = tima0, reg_tma = tma0,
      cycles_per_inc = 1024, inc_time = 1024 * kNsPerClkCycle\<rparr>"

section \<open>Threads\<close>

definition div_time :: nat where
  "div_time = 256 * kNsPerClkCycle"

definition DivLoop_step :: "Timer \<Rightarrow> Timer" where
  "DivLoop_step t = t\<lparr>reg_div := reg_div t + 1\<rparr>"

definition TimerLoop_step :: "Timer \<Rightarrow> u8 \<Rightarrow> Timer \<times> u8" where
  "TimerLoop_step t reg_if =
     (if reg_tac t AND kMaskTimerEnabled \<noteq> 0 then
        (let old_val = reg_tima t;
             t = t\<lparr>reg_tima := reg_tima t + 1\<rparr> in
         if old_val > reg_tima t
         then (t\<lparr>reg_tima := reg_tma t\<rparr>, reg_if OR kTimerOfIf)
         else (t, reg_if))
      else (t, reg_if))"

section \<open>Bus access\<close>

definition timer_read :: "nat \<Rightarrow> Timer \<Rightarrow> u8" where
  "timer_read adr t =
     (if adr = 0 then reg_div t else if adr = 1 then reg_tima t
      else if adr = 2 then reg_tma t else reg_tac t)"

definition timer_write :: "nat \<Rightarrow> u8 \<Rightarrow> Timer \<Rightarrow> Timer" where
  "timer_write adr d t =
     (if adr = 0 then t\<lparr>reg_div := 0\<rparr>
      else if adr = 1 then t\<lparr>reg_tima := d\<rparr>
      else if adr = 2 then t\<lparr>reg_tma := d\<rparr>
      else
        (let t = t\<lparr>reg_tac := d\<rparr>;
             s = reg_tac t AND 0x03 in
         t\<lparr>cycles_per_inc :=
             (if s = 0 then 1024 else if s = 1 then 16 else if s = 2 then 64 else 256)\<rparr>))"

definition timer_b_transport :: "payload \<Rightarrow> Timer \<Rightarrow> (payload \<times> Timer) res" where
  "timer_b_transport pl t =
     (let adr = unat (address pl) in
      if 3 < adr then Inl AssertFailed
      else
        (case command pl of
           TLM_READ_COMMAND \<Rightarrow>
             Inr (pl\<lparr>data_byte := timer_read adr t, response_status := TLM_OK_RESPONSE\<rparr>, t)
         | TLM_WRITE_COMMAND \<Rightarrow>
             (let t = timer_write adr (data_byte pl) t in
              Inr (pl\<lparr>response_status := TLM_OK_RESPONSE\<rparr>,
                   t\<lparr>inc_time := cycles_per_inc t * kNsPerClkCycle\<rparr>))
         | TLM_IGNORE_COMMAND \<Rightarrow>
             Inr (pl\<lparr>response_status := TLM_COMMAND_ERROR_RESPONSE\<rparr>, t)))"

definition timer_transport_dbg :: "payload \<Rightarrow> Timer \<Rightarrow> (payload \<times> Timer) res" where
  "timer_transport_dbg pl t = timer_b_transport pl t"

section \<open>Counting\<close>

text \<open>\<open>n\<close> steps of the counting thread without an access in between.\<close>

fun timer_steps :: "nat \<Rightarrow> Timer \<Rightarrow> u8 \<Rightarrow> Timer \<times> u8" where
  "timer_steps 0 t reg_if = (t, reg_if)"
| "timer_steps (Suc n) t reg_if =
     (let (t', reg_if') = TimerLoop_step t reg_if in timer_steps n t' reg_if')"

definition timer_enabled :: "Timer \<Rightarrow> bool" where
  "timer_enabled t \<longleftrightarrow> bit (reg_tac t) 2"

lemma timer_enabled_iff: "reg_tac t AND kMaskTimerEnabled \<noteq> 0 \<longleftrightarrow> timer_enabled t"
  by (simp add: kMaskTimerEnabled_def timer_enabled_def u8_eq_iff_bits bit_simps)

lemma u8_wraps: "(w + 1 :: u8) < w \<longleftrightarrow> unat w = 255"
proof (cases "unat w = 255")
  case True
  then have "w = 255" by (simp add: word_unat_eq_iff)
  then show ?thesis by simp
next
  case False
  then have "unat (w + 1) = unat w + 1"
    using unat_u8_less [of w] by (simp add: unat_word_ariths)
  then show ?thesis using False by (simp add: word_less_nat_alt)
qed

lemma TimerLoop_step_eq:
  "TimerLoop_step t reg_if =
    (if \<not> timer_enabled t then (t, reg_if)
     else if unat (reg_tima t) = 255 then (t\<lparr>reg_tima := reg_tma t\<rparr>, reg_if OR kTimerOfIf)
     else (t\<lparr>reg_tima := reg_tima t + 1\<rparr>, reg_if))"
  by (simp add: TimerLoop_step_def timer_enabled_iff u8_wraps Let_def)

lemma timer_steps_add:
  "timer_steps (m + n) t reg_if = (let (t', reg_if') = timer_steps m t reg_if in
     timer_steps n t' reg_if')"
  by (induction m arbitrary: t reg_if) (simp_all add: split_beta Let_def)

text \<open>Up to the overflow the counter counts and no interrupt is requested.\<close>

lemma timer_counts:
  assumes "timer_enabled t" and "unat (reg_tima t) + n < 256"
  shows "timer_steps n t reg_if = (t\<lparr>reg_tima := reg_tima t + of_nat n\<rparr>, reg_if)"
  using assms
proof (induction n arbitrary: t)
  case (Suc n)
  have less: "unat (reg_tima t) \<noteq> 255" using Suc.prems(2) by simp
  have "unat (reg_tima t + 1) = unat (reg_tima t) + 1"
    using Suc.prems(2) by (simp add: unat_word_ariths)
  then have "timer_steps n (t\<lparr>reg_tima := reg_tima t + 1\<rparr>) reg_if =
      (t\<lparr>reg_tima := reg_tima t + 1 + of_nat n\<rparr>, reg_if)"
    using Suc.IH [of "t\<lparr>reg_tima := reg_tima t + 1\<rparr>"] Suc.prems
    by (simp add: timer_enabled_def)
  then show ?case
    using Suc.prems(1) less by (simp add: TimerLoop_step_eq add.assoc)
qed simp

text \<open>The step after that reloads the counter and requests the interrupt.\<close>

lemma timer_overflows:
  assumes "timer_enabled t"
  shows "timer_steps (256 - unat (reg_tima t)) t reg_if =
    (t\<lparr>reg_tima := reg_tma t\<rparr>, reg_if OR kTimerOfIf)"
proof -
  define n where "n = 255 - unat (reg_tima t)"
  have n: "256 - unat (reg_tima t) = n + 1" "unat (reg_tima t) + n = 255"
    using unat_u8_less [of "reg_tima t"] by (simp_all add: n_def)
  have "unat (reg_tima t + of_nat n) = 255"
    using n(2) by (simp add: unat_word_ariths unat_of_nat mod_simps)
  then show ?thesis
    unfolding n(1) timer_steps_add
    using timer_counts [OF assms, of n] n(2) assms
    by (simp add: TimerLoop_step_eq timer_enabled_def)
qed

lemma reg_if_or_idem: "(reg_if OR kTimerOfIf) OR kTimerOfIf = reg_if OR kTimerOfIf"
  by (simp add: or.assoc)

text \<open>From then on the period is \<open>256 - TMA\<close> steps: \<open>k\<close> periods after an overflow.\<close>

lemma timer_periods:
  assumes "timer_enabled t" and "reg_tima t = reg_tma t" and "0 < k"
  shows "timer_steps (k * (256 - unat (reg_tma t))) t reg_if = (t, reg_if OR kTimerOfIf)"
  using assms(3)
proof (induction k rule: nat_induct_non_zero)
  case 1
  have "t\<lparr>reg_tima := reg_tma t\<rparr> = t" using assms(2) by simp
  then show ?case using timer_overflows [OF assms(1), of reg_if] assms(2) by simp
next
  case (Suc k)
  have "t\<lparr>reg_tima := reg_tma t\<rparr> = t" using assms(2) by simp
  then show ?case
    using Suc timer_overflows [OF assms(1), of "reg_if OR kTimerOfIf"] assms(2)
    by (simp add: timer_steps_add add.commute [of "256 - unat (reg_tma t)"] reg_if_or_idem)
qed

section \<open>Rates\<close>

text \<open>The clock cycles per increment that the header documents for the two select bits of TAC.\<close>

definition documented_rate :: "u8 \<Rightarrow> nat" where
  "documented_rate tac = [1024, 16, 64, 256] ! (unat tac mod 4)"

definition timer_ok :: "Timer \<Rightarrow> bool" where
  "timer_ok t \<longleftrightarrow> inc_time t = cycles_per_inc t * kNsPerClkCycle \<and> 16 \<le> cycles_per_inc t"

lemma unat_and_3: "unat (w AND 0x03 :: u8) = unat w mod 4"
  using unat_and_mask [of 2 w] by (simp add: and.commute)

lemma timer_write_tac:
  "cycles_per_inc (timer_write 3 d t) = documented_rate d"
proof -
  have "unat d mod 4 = 0 \<or> unat d mod 4 = 1 \<or> unat d mod 4 = 2 \<or> unat d mod 4 = 3"
    by linarith
  then show ?thesis
    by (auto simp: timer_write_def documented_rate_def Let_def word_unat_eq_iff unat_and_3)
qed

lemma documented_rate_bounds: "16 \<le> documented_rate d" "documented_rate d \<le> 1024"
proof -
  have "unat d mod 4 = 0 \<or> unat d mod 4 = 1 \<or> unat d mod 4 = 2 \<or> unat d mod 4 = 3"
    by linarith
  then show "16 \<le> documented_rate d" "documented_rate d \<le> 1024"
    by (auto simp: documented_rate_def)
qed

lemma timer_b_transport_ok:
  assumes "timer_ok t" and "address pl < 4"
  shows "\<exists>pl' t'. timer_b_transport pl t = Inr (pl', t') \<and> timer_ok t'"
proof -
  have adr: "unat (address pl) \<le> 3"
    using assms(2) by (simp add: word_less_nat_alt)
  have "16 \<le> cycles_per_inc (timer_write (unat (address pl)) d t)" for d
  proof (cases "unat (address pl) = 3")
    case True
    then show ?thesis by (simp add: timer_write_tac documented_rate_bounds)
  next
    case False
    then show ?thesis using adr assms(1) by (auto simp: timer_write_def timer_ok_def)
  qed
  then show ?thesis
    using adr assms(1)
    by (cases "command pl") (auto simp: timer_b_transport_def Let_def timer_ok_def)
qed

section \<open>Properties\<close>

text \<open>
  C36. An enabled timer that nobody accesses counts TIMA up once per step without requesting an
  interrupt, reloads TMA in the step that overflows and requests the interrupt then, and from there on
  does the same every \<open>256 - TMA\<close> steps.
\<close>

theorem Timer_period:
  assumes "timer_enabled t" and "0 < k" and "n < 256 - unat (reg_tima t)"
  shows "timer_steps n t reg_if = (t\<lparr>reg_tima := reg_tima t + of_nat n\<rparr>, reg_if) \<and>
    timer_steps (256 - unat (reg_tima t)) t reg_if =
      (t\<lparr>reg_tima := reg_tma t\<rparr>, reg_if OR kTimerOfIf) \<and>
    timer_steps (256 - unat (reg_tima t) + k * (256 - unat (reg_tma t))) t reg_if =
      (t\<lparr>reg_tima := reg_tma t\<rparr>, reg_if OR kTimerOfIf)"
proof (intro conjI)
  let ?u = "t\<lparr>reg_tima := reg_tma t\<rparr>"
  show "timer_steps n t reg_if = (t\<lparr>reg_tima := reg_tima t + of_nat n\<rparr>, reg_if)"
    using assms by (intro timer_counts) simp_all
  show overflow: "timer_steps (256 - unat (reg_tima t)) t reg_if = (?u, reg_if OR kTimerOfIf)"
    using assms(1) by (rule timer_overflows)
  have "timer_steps (k * (256 - unat (reg_tma t))) ?u (reg_if OR kTimerOfIf) =
      (?u, reg_if OR kTimerOfIf)"
    using timer_periods [of ?u k "reg_if OR kTimerOfIf"] assms
    by (simp add: timer_enabled_def reg_if_or_idem)
  then show "timer_steps (256 - unat (reg_tima t) + k * (256 - unat (reg_tma t))) t reg_if =
      (?u, reg_if OR kTimerOfIf)"
    by (simp only: timer_steps_add overflow Let_def prod.case)
qed

lemma Timer_period_witness:
  "timer_steps (256 - unat (reg_tima (new_Timer 0 5 250 100)) + 2 * (256 - unat (reg_tma (new_Timer 0 5 250 100))))
     (new_Timer 0 5 250 100) 0 = ((new_Timer 0 5 250 100)\<lparr>reg_tima := 100\<rparr>, kTimerOfIf)"
proof -
  have "timer_enabled (new_Timer 0 5 250 100)"
    by (simp add: timer_enabled_def new_Timer_def)
  then show ?thesis
    using Timer_period [of "new_Timer 0 5 250 100" 2 3 0] by (simp add: new_Timer_def)
qed

text \<open>
  After a write of \<open>d\<close> to TAC the timer waits the documented number of clock cycles between two
  increments, and every access of the four registers keeps the waiting time consistent with the rate.
\<close>

lemma Timer_rate:
  assumes "timer_ok t" and "address pl < 4"
  shows "\<exists>pl' t'. timer_b_transport pl t = Inr (pl', t') \<and> timer_ok t' \<and>
    (command pl = TLM_WRITE_COMMAND \<and> address pl = 3 \<longrightarrow>
      reg_tac t' = data_byte pl \<and> inc_time t' = documented_rate (data_byte pl) * kNsPerClkCycle)"
proof -
  obtain pl' t' where step: "timer_b_transport pl t = Inr (pl', t')" and ok: "timer_ok t'"
    using timer_b_transport_ok [OF assms] by blast
  have "t' = (timer_write 3 (data_byte pl) t)
      \<lparr>inc_time := cycles_per_inc (timer_write 3 (data_byte pl) t) * kNsPerClkCycle\<rparr>"
    if "command pl = TLM_WRITE_COMMAND" "address pl = 3"
    using step that by (simp add: timer_b_transport_def Let_def)
  moreover have "reg_tac (timer_write 3 d t) = d" for d
    by (simp add: timer_write_def Let_def)
  ultimately show ?thesis
    using step ok by (auto simp: timer_write_tac)
qed

end
