(* ===== verification/Gb_Top.thy ===== *)
theory Gb_Top
  imports Apu Cpu_Errors Cartridge_Safety Io_Registers Joypad Ppu_Connect Ppu_Screenshot Serial Timer
begin

text \<open>
  The top level of \<^verbatim>\<open>src/gb_top.cpp\<close>: the modules behind the bus and their address ranges. The
  picture and sound units have no bus slave of their own; they read the registers and memories of
  this state.

  The I/O registers are a slave and a master of the bus, so the bus calls itself: \<open>gb_bus n\<close> is the
  bus with at most \<open>n\<close> accesses nested in each other.

  The threads of the modules run whenever the CPU waits. \<open>schedule\<close> is the time line of their
  activations, an input of the model: for each point in time the nanoseconds since the point before
  and what runs then, in the order in which the kernel runs it.
\<close>

section \<open>State\<close>

datatype activation = ActDiv | ActTimer | ActSerial | ActInput SDL_Event | ActSignals | ActPpu | ActApu |
  ActAudio nat

record gb =
  cartridge :: mbc
  apu :: Apu
  joy_pad :: JoyPad
  video_ram :: GenericMemory
  work_ram :: GenericMemory
  work_ram_n :: GenericMemory
  obj_attr_mem :: GenericMemory
  high_ram :: GenericMemory
  reg_if :: GenericMemory
  intr_enable :: GenericMemory
  io_registers :: IoRegisters
  ppu :: Ppu
  serial :: Serial
  timer :: Timer
  ui :: ui_flags
  wall_clock :: nat
  indeterminate :: u8
  stopped :: bool
  thread_error :: "sim_error option"
  schedule :: "(nat \<times> activation list) list"

text \<open>
  The constructor. \<open>apu0\<close>, \<open>serial0\<close>, \<open>timer0\<close> and \<open>ppu0\<close> carry the members that these modules leave
  uninitialised, \<open>ppu0\<close> the windows that the options ask for as well.
\<close>

definition new_gb ::
  "mbc \<Rightarrow> Apu \<Rightarrow> Ppu \<Rightarrow> Serial \<Rightarrow> Timer \<Rightarrow> ui_flags \<Rightarrow> nat \<Rightarrow> u8 \<Rightarrow> (nat \<times> activation list) list \<Rightarrow> gb" where
  "new_gb cart apu0 ppu0 serial0 timer0 ui0 clock indet sched =
     \<lparr>cartridge = cart, apu = apu0, joy_pad = new_JoyPad,
      video_ram = new_memory 8192, work_ram = new_memory 4096, work_ram_n = new_memory 4096,
      obj_attr_mem = new_memory 160, high_ram = new_memory 127, reg_if = new_memory 1,
      intr_enable = new_memory 1, io_registers = new_IoRegisters, ppu = ppu0, serial = serial0,
      timer = timer0, ui = ui0, wall_clock = clock, indeterminate = indet, stopped = False,
      thread_error = None, schedule = sched\<rparr>"

section \<open>The bus slaves\<close>

definition rom_slave :: "gb BusSlave" where
  "rom_slave =
     \<lparr>addr_from = 0x0000, addr_to = 0x7FFF,
      slave_b_transport = on_part cartridge (\<lambda>c m. m\<lparr>cartridge := c\<rparr>) mbc_b_transport_rom,
      slave_transport_dbg = on_part cartridge (\<lambda>c m. m\<lparr>cartridge := c\<rparr>) mbc_transport_dbg_rom,
      slave_get_direct_mem_ptr = (\<lambda>pl m.
        map_sum id (map_option (dmi_on_part cartridge (\<lambda>c m. m\<lparr>cartridge := c\<rparr>)))
          (mbc_get_direct_mem_ptr pl (cartridge m)))\<rparr>"

definition cartridge_ram_slave :: "gb BusSlave" where
  "cartridge_ram_slave =
     \<lparr>addr_from = 0xA000, addr_to = 0xBFFF,
      slave_b_transport = (\<lambda>pl m. on_part cartridge (\<lambda>c m. m\<lparr>cartridge := c\<rparr>)
        (mbc_b_transport_ram (wall_clock m)) pl m),
      slave_transport_dbg = (\<lambda>pl m. on_part cartridge (\<lambda>c m. m\<lparr>cartridge := c\<rparr>)
        (mbc_transport_dbg_ram (wall_clock m)) pl m),
      slave_get_direct_mem_ptr = no_dmi\<rparr>"

definition module_slave ::
  "(gb \<Rightarrow> 'c) \<Rightarrow> ('c \<Rightarrow> gb \<Rightarrow> gb) \<Rightarrow> (payload \<Rightarrow> 'c \<Rightarrow> (payload \<times> 'c) res) \<Rightarrow>
   (payload \<Rightarrow> 'c \<Rightarrow> (payload \<times> 'c) res) \<Rightarrow> u16 \<Rightarrow> u16 \<Rightarrow> gb BusSlave" where
  "module_slave get put f g from to =
     \<lparr>addr_from = from, addr_to = to,
      slave_b_transport = on_part get put f,
      slave_transport_dbg = on_part get put g,
      slave_get_direct_mem_ptr = no_dmi\<rparr>"

text \<open>\<open>IoRegisters\<close> inherits the direct access of the generic memory.\<close>

definition io_slave :: "(payload \<Rightarrow> gb \<Rightarrow> (payload \<times> gb) res) \<Rightarrow> gb BusSlave" where
  "io_slave bus =
     \<lparr>addr_from = 0xFF10, addr_to = 0xFF7F,
      slave_b_transport = (\<lambda>pl m. io_b_transport io_registers (\<lambda>c m. m\<lparr>io_registers := c\<rparr>) bus
        (indeterminate m) pl m),
      slave_transport_dbg = (\<lambda>pl m. io_b_transport io_registers (\<lambda>c m. m\<lparr>io_registers := c\<rparr>) bus
        (indeterminate m) pl m),
      slave_get_direct_mem_ptr = (\<lambda>pl m.
        map_sum id (map_option (dmi_on_part (io_mem \<circ> io_registers)
          (\<lambda>c m. m\<lparr>io_registers := (io_registers m)\<lparr>io_mem := c\<rparr>\<rparr>)))
          (mem_get_direct_mem_ptr pl (io_mem (io_registers m))))\<rparr>"

text \<open>
  The calls of \<^verbatim>\<open>AddBusSlave\<close>. The two echo memories are modules of their own on the data of the
  two work RAMs.
\<close>

definition gb_slaves :: "(payload \<Rightarrow> gb \<Rightarrow> (payload \<times> gb) res) \<Rightarrow> gb BusSlave list" where
  "gb_slaves bus = foldl (\<lambda>slaves sl. AddBusSlave sl slaves) []
     [rom_slave,
      memory_slave video_ram (\<lambda>c m. m\<lparr>video_ram := c\<rparr>) 0x8000 0x9FFF,
      cartridge_ram_slave,
      memory_slave work_ram (\<lambda>c m. m\<lparr>work_ram := c\<rparr>) 0xC000 0xCFFF,
      memory_slave work_ram_n (\<lambda>c m. m\<lparr>work_ram_n := c\<rparr>) 0xD000 0xDFFF,
      memory_slave work_ram (\<lambda>c m. m\<lparr>work_ram := c\<rparr>) 0xE000 0xEFFF,
      memory_slave work_ram_n (\<lambda>c m. m\<lparr>work_ram_n := c\<rparr>) 0xF000 0xFDFF,
      memory_slave obj_attr_mem (\<lambda>c m. m\<lparr>obj_attr_mem := c\<rparr>) 0xFE00 0xFE9F,
      module_slave joy_pad (\<lambda>c m. m\<lparr>joy_pad := c\<rparr>) joypad_b_transport joypad_transport_dbg
        0xFF00 0xFF00,
      module_slave serial (\<lambda>c m. m\<lparr>serial := c\<rparr>) serial_b_transport serial_transport_dbg
        0xFF01 0xFF03,
      module_slave timer (\<lambda>c m. m\<lparr>timer := c\<rparr>) timer_b_transport timer_transport_dbg
        0xFF04 0xFF07,
      memory_slave reg_if (\<lambda>c m. m\<lparr>reg_if := c\<rparr>) 0xFF0F 0xFF0F,
      io_slave bus,
      memory_slave high_ram (\<lambda>c m. m\<lparr>high_ram := c\<rparr>) 0xFF80 0xFFFE,
      memory_slave intr_enable (\<lambda>c m. m\<lparr>intr_enable := c\<rparr>) 0xFFFF 0xFFFF]"

fun gb_bus :: "nat \<Rightarrow> payload \<Rightarrow> gb \<Rightarrow> (payload \<times> gb) res" where
  "gb_bus 0 pl m = Inl BusDepth"
| "gb_bus (Suc n) pl m = bus_b_transport (gb_slaves (gb_bus n)) pl m"

text \<open>A DMA transfer is an access within an access, and nothing nests deeper.\<close>

definition gb_top_slaves :: "gb BusSlave list" where
  "gb_top_slaves = gb_slaves (gb_bus 1)"

section \<open>The threads\<close>

text \<open>The interrupt flag register is shared by pointers.\<close>

definition get_if :: "gb \<Rightarrow> u8" where
  "get_if m = mem_data (reg_if m) 0"

definition put_if :: "u8 \<Rightarrow> gb \<Rightarrow> gb" where
  "put_if v m = m\<lparr>reg_if := (reg_if m)\<lparr>mem_data := (mem_data (reg_if m))(0 := v)\<rparr>\<rparr>"

text \<open>
  The picture unit's view of the memories, through the pointers that it gets at the start of the
  simulation, and the registers that it writes there.
\<close>

definition gb_ppu_view :: "gb \<Rightarrow> ppu_mem" where
  "gb_ppu_view m =
     (let io = mem_data (io_mem (io_registers m)) in
      \<lparr>reg_lcdc = io 0x30, reg_stat = io 0x31, reg_scroll_y = io 0x32, reg_scroll_x = io 0x33,
       reg_lcdc_y = io 0x34, reg_ly_comp = io 0x35, reg_bgp = io 0x37, reg_obp_0 = io 0x38,
       reg_obp_1 = io 0x39, reg_wndw_y = io 0x3A, reg_wndw_x = io 0x3B, reg_intr_pending = get_if m,
       video = mem_data (video_ram m), oam_table = mem_data (obj_attr_mem m)\<rparr>)"

definition gb_put_io :: "nat \<Rightarrow> u8 \<Rightarrow> gb \<Rightarrow> gb" where
  "gb_put_io i v m = m\<lparr>io_registers := (io_registers m)\<lparr>io_mem := (io_mem (io_registers m))
     \<lparr>mem_data := (mem_data (io_mem (io_registers m)))(i := v)\<rparr>\<rparr>\<rparr>"

definition gb_ppu_write_back :: "ppu_mem \<Rightarrow> gb \<Rightarrow> gb" where
  "gb_ppu_write_back v m =
     put_if (reg_intr_pending v) (gb_put_io 0x34 (reg_lcdc_y v) (gb_put_io 0x31 (reg_stat v) m))"

text \<open>
  The sound unit works on the bytes of the I/O registers. Its methods run in the evaluation phase after
  the update of the signals; \<open>update_signals\<close> is that update.
\<close>

definition on_apu :: "(apu_regs \<times> Apu \<Rightarrow> apu_regs \<times> Apu) \<Rightarrow> gb \<Rightarrow> gb" where
  "on_apu f m =
     (let (r, a) = f (mem_data (io_mem (io_registers m)), apu m) in
      m\<lparr>io_registers := (io_registers m)\<lparr>io_mem := (io_mem (io_registers m))\<lparr>mem_data := r\<rparr>\<rparr>, apu := a\<rparr>)"

definition update_signals :: "IoRegisters \<Rightarrow> IoRegisters" where
  "update_signals io =
     io\<lparr>sig_unmap_rom := snd (sig_update (sig_unmap_rom io)),
        sig_reload_length_square1 := snd (sig_update (sig_reload_length_square1 io)),
        sig_reload_length_square2 := snd (sig_update (sig_reload_length_square2 io)),
        sig_reload_length_wave := snd (sig_update (sig_reload_length_wave io)),
        sig_reload_length_noise := snd (sig_update (sig_reload_length_noise io)),
        sig_trigger_square1 := snd (sig_update (sig_trigger_square1 io)),
        sig_trigger_square2 := snd (sig_update (sig_trigger_square2 io)),
        sig_trigger_wave := snd (sig_update (sig_trigger_wave io)),
        sig_trigger_noise := snd (sig_update (sig_trigger_noise io))\<rparr>"

text \<open>The methods of the sound unit and the signals they are sensitive to, in the order of its constructor.\<close>

definition apu_methods :: "((IoRegisters \<Rightarrow> sc_signal) \<times> (apu_regs \<times> Apu \<Rightarrow> apu_regs \<times> Apu)) list" where
  "apu_methods =
     [(sig_reload_length_square1, \<lambda>(r, a). (r, ReloadLengthSquare1 r a)),
      (sig_reload_length_square2, \<lambda>(r, a). (r, ReloadLengthSquare2 r a)),
      (sig_reload_length_wave, \<lambda>(r, a). (r, ReloadLengthWave r a)),
      (sig_reload_length_noise, \<lambda>(r, a). (r, ReloadLengthNoise r a)),
      (sig_trigger_square1, TriggerEventSquare1),
      (sig_trigger_square2, TriggerEventSquare2),
      (sig_trigger_wave, TriggerEventWave),
      (sig_trigger_noise, TriggerEventNoise)]"

text \<open>
  \<open>ActSignals\<close> is a delta cycle of the kernel: the update phase of the signals, and the methods that the
  changes start. \<open>ActAudio\<close> is SDL's call of the sound unit for so many samples.
\<close>

fun activate :: "gb \<Rightarrow> activation \<Rightarrow> gb" where
  "activate m ActDiv = m\<lparr>timer := DivLoop_step (timer m)\<rparr>"
| "activate m ActTimer =
     (let (t, v) = TimerLoop_step (timer m) (get_if m) in put_if v (m\<lparr>timer := t\<rparr>))"
| "activate m ActSerial =
     (if interrupt_event (serial m)
      then (let (s, v) = SerialInterrupt (serial m) (get_if m) in put_if v (m\<lparr>serial := s\<rparr>))
      else m)"
| "activate m (ActInput event) =
     (case InputLoop_step event (joy_pad m) (ui m) (get_if m) of
        None \<Rightarrow> m\<lparr>stopped := True\<rparr>
      | Some (j, u, v) \<Rightarrow> put_if v (m\<lparr>joy_pad := j, ui := u\<rparr>))"
| "activate m ActSignals =
     (let io = io_registers m;
          m = m\<lparr>io_registers := update_signals io\<rparr>;
          m = foldl (\<lambda>m (sig, f). if fst (sig_update (sig io)) then on_apu f m else m) m apu_methods in
      if fst (sig_update (sig_unmap_rom io)) then
        (case SigHandler (cartridge m) of
           Inl e \<Rightarrow> m\<lparr>thread_error := Some e\<rparr>
         | Inr c \<Rightarrow> m\<lparr>cartridge := c\<rparr>)
      else m)"
| "activate m ActApu = on_apu (snd \<circ> AudioLoop_step) m"
| "activate m (ActAudio len) = on_apu (\<lambda>(r, a). (r, audio_callback len r a)) m"
| "activate m ActPpu =
     (case RenderLoop_step (ui m) (gb_ppu_view m, ppu m) of
        Inl e \<Rightarrow> m\<lparr>thread_error := Some e\<rparr>
      | Inr (t, v, p) \<Rightarrow> gb_ppu_write_back v (m\<lparr>ppu := p\<rparr>))"

text \<open>A wait of \<open>n\<close> nanoseconds runs everything that is due by then.\<close>

fun run_schedule :: "nat \<Rightarrow> (nat \<times> activation list) list \<Rightarrow> gb \<Rightarrow> gb" where
  "run_schedule n [] m = m\<lparr>schedule := []\<rparr>"
| "run_schedule n ((d, acts) # rest) m =
     (if d \<le> n then run_schedule (n - d) rest (foldl activate m acts)
      else m\<lparr>schedule := (d - n, acts) # rest\<rparr>)"

definition gb_wait :: "nat \<Rightarrow> gb \<Rightarrow> gb" where
  "gb_wait n m = run_schedule n (schedule m) m"

definition gb_pending :: "gb \<Rightarrow> nat option" where
  "gb_pending m = (case schedule m of [] \<Rightarrow> None | (d, acts) # rest \<Rightarrow> Some d)"

definition gb_kernel :: "nat \<Rightarrow> gb kernel" where
  "gb_kernel polls =
     \<lparr>kn_wait = gb_wait, kn_pending = gb_pending, kn_indeterminate = indeterminate,
      kn_halt_polls = polls\<rparr>"

text \<open>The CPU's side of the connection; \<open>traced\<close> tells whether the cartridge traces accesses.\<close>

definition gb_socket :: "nat \<Rightarrow> bool \<Rightarrow> gb socket" where
  "gb_socket polls traced =
     \<lparr>sk_b_transport = bus_b_transport gb_top_slaves,
      sk_transport_dbg = bus_transport_dbg gb_top_slaves,
      sk_intr_enable = (\<lambda>m. mem_data (intr_enable m) 0),
      sk_intr_pending = get_if,
      sk_set_intr_pending = put_if,
      sk_rom_bank_0 = (\<lambda>m. if traced then None else Some (mem_data (mbc_rom_low (cartridge m)))),
      sk_wait = gb_wait, sk_pending = gb_pending, sk_indeterminate = indeterminate,
      sk_halt_polls = polls\<rparr>"

section \<open>Address decoding\<close>

lemma gb_slaves_list:
  "gb_slaves bus =
     [rom_slave,
      memory_slave video_ram (\<lambda>c m. m\<lparr>video_ram := c\<rparr>) 0x8000 0x9FFF,
      cartridge_ram_slave,
      memory_slave work_ram (\<lambda>c m. m\<lparr>work_ram := c\<rparr>) 0xC000 0xCFFF,
      memory_slave work_ram_n (\<lambda>c m. m\<lparr>work_ram_n := c\<rparr>) 0xD000 0xDFFF,
      memory_slave work_ram (\<lambda>c m. m\<lparr>work_ram := c\<rparr>) 0xE000 0xEFFF,
      memory_slave work_ram_n (\<lambda>c m. m\<lparr>work_ram_n := c\<rparr>) 0xF000 0xFDFF,
      memory_slave obj_attr_mem (\<lambda>c m. m\<lparr>obj_attr_mem := c\<rparr>) 0xFE00 0xFE9F,
      module_slave joy_pad (\<lambda>c m. m\<lparr>joy_pad := c\<rparr>) joypad_b_transport joypad_transport_dbg
        0xFF00 0xFF00,
      module_slave serial (\<lambda>c m. m\<lparr>serial := c\<rparr>) serial_b_transport serial_transport_dbg
        0xFF01 0xFF03,
      module_slave timer (\<lambda>c m. m\<lparr>timer := c\<rparr>) timer_b_transport timer_transport_dbg
        0xFF04 0xFF07,
      memory_slave reg_if (\<lambda>c m. m\<lparr>reg_if := c\<rparr>) 0xFF0F 0xFF0F,
      io_slave bus,
      memory_slave high_ram (\<lambda>c m. m\<lparr>high_ram := c\<rparr>) 0xFF80 0xFFFE,
      memory_slave intr_enable (\<lambda>c m. m\<lparr>intr_enable := c\<rparr>) 0xFFFF 0xFFFF]"
  by (simp add: gb_slaves_def AddBusSlave_def)

lemma slave_ranges [simp]:
  "addr_from rom_slave = 0x0000" "addr_to rom_slave = 0x7FFF"
  "addr_from cartridge_ram_slave = 0xA000" "addr_to cartridge_ram_slave = 0xBFFF"
  "addr_from (module_slave get put f g from to) = from"
  "addr_to (module_slave get put f g from to) = to"
  "addr_from (memory_slave get' put' from to) = from"
  "addr_to (memory_slave get' put' from to) = to"
  "addr_from (io_slave bus) = 0xFF10" "addr_to (io_slave bus) = 0xFF7F"
  by (simp_all add: rom_slave_def cartridge_ram_slave_def module_slave_def memory_slave_def
      io_slave_def)

lemma gb_slaves_disjoint: "sorted_wrt disjoint_slaves (gb_slaves bus)"
  by (simp add: gb_slaves_list disjoint_slaves_def)

text \<open>A memory of the map as the bus reaches it.\<close>

lemma gb_bus_slave:
  assumes "sl \<in> set (gb_slaves bus)" and "in_range (address pl) sl"
  shows "bus_b_transport (gb_slaves bus) pl m =
    slave_b_transport sl (pl\<lparr>address := address pl - addr_from sl\<rparr>) m"
  by (simp add: bus_find(1) find_unique [OF gb_slaves_disjoint assms])

text \<open>The addresses that no slave answers for.\<close>

definition unmapped :: "u16 \<Rightarrow> bool" where
  "unmapped a \<longleftrightarrow> 0xFEA0 \<le> a \<and> a \<le> 0xFEFF \<or> 0xFF08 \<le> a \<and> a \<le> 0xFF0E"

lemma gb_slaves_none: "find (in_range a) (gb_slaves bus) = None \<longleftrightarrow> unmapped a"
proof -
  have "unat a < 65536" by (rule unat_u16_less)
  then show ?thesis
    by (simp add: find_None_iff gb_slaves_list in_range_def unmapped_def word_le_nat_alt)
      arith
qed

section \<open>Start of simulation\<close>

lemma gb_start:
  assumes "memory_size (intr_enable m) = 1" and "memory_size (reg_if m) = 1"
  shows "cpu_start_of_simulation (gb_kernel polls) gb_top_slaves m =
    Inr (gb_socket polls (mbc_tracer (cartridge m) \<noteq> None))"
  using assms
  by (simp add: cpu_start_of_simulation_def interrupt_module_start_def gb_top_slaves_def
      gb_slaves_list MakeSharedPayloadPtr_def mem_get_direct_mem_ptr_def memory_slave_def
      rom_slave_def mbc_get_direct_mem_ptr_def dmi_on_part_def gb_socket_def gb_kernel_def
      cartridge_ram_slave_def module_slave_def io_slave_def fun_eq_iff put_if_def get_if_def)

lemma gb_ppu_start:
  assumes "memory_size (intr_enable m) = 1" and "memory_size (reg_if m) = 1"
    and "memory_size (video_ram m) = 8192" and "memory_size (obj_attr_mem m) = 160"
    and "memory_size (io_mem (io_registers m)) = 0x80"
  shows "\<exists>l. ppu_start_of_simulation gb_top_slaves m = Inr (l, gb_put_io 0x34 0 m) \<and>
    ppu_view l = gb_ppu_view \<and> ppu_write_back l = gb_ppu_write_back"
  using assms
  by (simp add: ppu_start_of_simulation_def dmi_at_def gb_top_slaves_def gb_slaves_list
      MakeSharedPayloadPtr_def mem_get_direct_mem_ptr_def memory_slave_def dmi_on_part_def io_slave_def
      gb_put_io_def ppu_view_def gb_ppu_view_def ppu_write_back_def gb_ppu_write_back_def fun_eq_iff
      put_if_def get_if_def Let_def)

lemma gb_apu_start:
  assumes "memory_size (io_mem (io_registers m)) = 0x80"
  shows "\<exists>d. apu_start_of_simulation gb_top_slaves m = Inr d \<and>
    dmi_load d = (\<lambda>m i. mem_data (io_mem (io_registers m)) i)"
  using assms
  by (simp add: apu_start_of_simulation_def dmi_at_def gb_top_slaves_def gb_slaves_list
      MakeSharedPayloadPtr_def mem_get_direct_mem_ptr_def memory_slave_def dmi_on_part_def io_slave_def
      rom_slave_def cartridge_ram_slave_def module_slave_def fun_eq_iff)

section \<open>The invariant\<close>

definition gb_ok :: "gb \<Rightarrow> bool" where
  "gb_ok m \<longleftrightarrow> mbc_ok (cartridge m) \<and> memory_size (video_ram m) = 8192 \<and>
     memory_size (work_ram m) = 4096 \<and> memory_size (work_ram_n m) = 4096 \<and>
     memory_size (obj_attr_mem m) = 160 \<and> memory_size (high_ram m) = 127 \<and>
     memory_size (reg_if m) = 1 \<and> memory_size (intr_enable m) = 1 \<and>
     memory_size (io_mem (io_registers m)) = 0x80 \<and> timer_ok (timer m) \<and> ppu_ok (ppu m) \<and>
     thread_error m = None"

lemma new_gb_ok:
  "mbc_ok cart \<Longrightarrow> ppu_ok p \<Longrightarrow> gb_ok (new_gb cart ap p s (new_Timer a b c d) u clock indet sched)"
  by (simp add: gb_ok_def new_gb_def new_memory_def new_IoRegisters_def timer_ok_def new_Timer_def)

text \<open>Every slave keeps it on the addresses the bus passes to it; the I/O registers for themselves.\<close>

lemma on_part_keeps:
  assumes "keeps J E (f pl (get m))" and "\<And>c. J c \<Longrightarrow> I (put c m)"
  shows "keeps I E (on_part get put f pl m)"
  using assms by (auto simp: on_part_def keeps_def rbind_def split: sum.splits)

definition slave_keeps :: "gb BusSlave \<Rightarrow> bool" where
  "slave_keeps sl \<longleftrightarrow> (\<forall>pl m. gb_ok m \<longrightarrow>
     unat (address pl) \<le> unat (addr_to sl) - unat (addr_from sl) \<longrightarrow>
     keeps gb_ok {AssertFailed} (slave_b_transport sl pl m))"

lemma memory_slave_keeps:
  assumes "\<And>m. gb_ok m \<Longrightarrow> unat to - unat from < memory_size (get m)"
    and "\<And>c m. gb_ok m \<Longrightarrow> memory_size c = memory_size (get m) \<Longrightarrow> gb_ok (put c m)"
  shows "slave_keeps (memory_slave get put from to)"
  unfolding slave_keeps_def
proof (intro allI impI)
  fix pl :: payload and m
  assume ok: "gb_ok m"
    and adr: "unat (address pl) \<le> unat (addr_to (memory_slave get put from to)) -
      unat (addr_from (memory_slave get put from to))"
  have "keeps gb_ok {AssertFailed} (on_part get put mem_b_transport pl m)"
    using assms [OF ok] adr
    by (intro on_part_keeps [where J = "\<lambda>c. memory_size c = memory_size (get m)"]
        mem_b_transport_keeps) (auto simp: memory_slave_def)
  then show "keeps gb_ok {AssertFailed} (slave_b_transport (memory_slave get put from to) pl m)"
    by (simp add: memory_slave_def)
qed

lemma module_slave_keeps:
  assumes "\<And>pl m. gb_ok m \<Longrightarrow> unat (address pl) \<le> unat to - unat from \<Longrightarrow>
      keeps J {AssertFailed} (f pl (get m))"
    and "\<And>c m. gb_ok m \<Longrightarrow> J c \<Longrightarrow> gb_ok (put c m)"
  shows "slave_keeps (module_slave get put f g from to)"
  unfolding slave_keeps_def using assms
  by (auto simp: module_slave_def intro!: on_part_keeps)

lemma rom_slave_keeps: "slave_keeps rom_slave"
proof -
  have "keeps gb_ok {AssertFailed} (slave_b_transport rom_slave pl m)"
    if "gb_ok m" "unat (address pl) \<le> 0x7FFF" for pl m
    using that
    by (auto simp: rom_slave_def gb_ok_def word_less_nat_alt intro!: on_part_keeps mbc_rom_keeps)
  then show ?thesis by (simp add: slave_keeps_def)
qed

lemma cartridge_ram_slave_keeps: "slave_keeps cartridge_ram_slave"
proof -
  have "keeps gb_ok {AssertFailed} (slave_b_transport cartridge_ram_slave pl m)"
    if "gb_ok m" "unat (address pl) \<le> 0x1FFF" for pl m
    using that
    by (auto simp: cartridge_ram_slave_def gb_ok_def word_less_nat_alt
        intro!: on_part_keeps mbc_ram_keeps)
  then show ?thesis by (simp add: slave_keeps_def)
qed

lemma joypad_keeps: "keeps (\<lambda>j. True) {AssertFailed} (joypad_b_transport pl j)"
  by (auto simp: joypad_b_transport_def Let_def split: tlm_command.splits prod.splits)

lemma serial_keeps: "keeps (\<lambda>s. True) {AssertFailed} (serial_b_transport pl s)"
  by (auto simp: serial_b_transport_def Let_def split: tlm_command.splits)

lemma timer_keeps:
  "timer_ok t \<Longrightarrow> unat (address pl) \<le> 3 \<Longrightarrow> keeps timer_ok E (timer_b_transport pl t)"
  using timer_b_transport_ok [of t pl] by (auto simp: word_less_nat_alt)

lemma plain_slaves_keep:
  "sl \<in> set (gb_slaves bus) \<Longrightarrow> sl \<noteq> io_slave bus \<Longrightarrow> slave_keeps sl"
  by (auto simp: gb_slaves_list gb_ok_def rom_slave_keeps cartridge_ram_slave_keeps
      intro!: memory_slave_keeps module_slave_keeps joypad_keeps serial_keeps timer_keeps)

lemma io_keeps_plain:
  assumes "gb_ok m" and "unat (address pl) \<le> 0x6F"
    and "command pl \<noteq> TLM_WRITE_COMMAND \<or> unat (address pl) \<noteq> 0x36"
  shows "keeps gb_ok {AssertFailed} (slave_b_transport (io_slave bus) pl m)"
  using assms
  by (auto simp: io_slave_def io_b_transport_def Let_def gb_ok_def split: tlm_command.splits)

text \<open>An access that does not start a DMA transfer does not use the bus again.\<close>

lemma bus_found:
  "find (in_range a) (gb_slaves bus) = Some sl \<Longrightarrow>
    sl \<in> set (gb_slaves bus) \<and> in_range a sl"
  by (auto simp: find_Some_iff)

lemma bus_keeps_plain:
  assumes "gb_ok m" and "command pl \<noteq> TLM_WRITE_COMMAND \<or> address pl \<noteq> 0xFF46"
  shows "keeps gb_ok {AssertFailed} (bus_b_transport (gb_slaves bus) pl m)"
proof (cases "find (in_range (address pl)) (gb_slaves bus)")
  case None
  then show ?thesis using assms(1) by (simp add: bus_find(1))
next
  case (Some sl)
  then have sl: "sl \<in> set (gb_slaves bus)" "in_range (address pl) sl"
    using bus_found by blast+
  note rel = relative_address [OF sl(2)]
  let ?pl = "pl\<lparr>address := address pl - addr_from sl\<rparr>"
  have "keeps gb_ok {AssertFailed} (slave_b_transport sl ?pl m)"
  proof (cases "sl = io_slave bus")
    case True
    then have "unat (address ?pl) = unat (address pl) - 0xFF10" "unat (address ?pl) \<le> 0x6F"
      using rel by simp_all
    moreover have "0xFF10 \<le> unat (address pl)"
      using True sl(2) by (simp add: in_range_def word_le_nat_alt)
    ultimately show ?thesis
      using True assms
      by (intro io_keeps_plain [of m ?pl bus, folded True]) (auto simp: word_unat_eq_iff)
  next
    case False
    then have "slave_keeps sl" using plain_slaves_keep [OF sl(1)] by simp
    then show ?thesis using rel(2) assms(1) by (simp add: slave_keeps_def)
  qed
  then show ?thesis using Some by (simp add: bus_find(1))
qed

lemma command_on_part:
  assumes "on_part get put f pl m = Inr (pl', m')"
    and "\<And>c c'. f pl c = Inr (pl', c') \<Longrightarrow> command pl' = command pl"
  shows "command pl' = command pl"
  using assms by (auto simp: on_part_def rbind_Inr_iff)

lemma command_modules:
  "mem_b_transport pl c = Inr (pl', c') \<Longrightarrow> command pl' = command pl"
  "joypad_b_transport pl j = Inr (pl', j') \<Longrightarrow> command pl' = command pl"
  "serial_b_transport pl s = Inr (pl', s') \<Longrightarrow> command pl' = command pl"
  "timer_b_transport pl t = Inr (pl', t') \<Longrightarrow> command pl' = command pl"
  by (auto simp: mem_b_transport_def joypad_b_transport_def serial_b_transport_def
      timer_b_transport_def Let_def split: tlm_command.splits if_splits prod.splits)

lemma command_io:
  "io_b_transport get put bus v pl m = Inr (pl', m') \<Longrightarrow> command pl' = command pl"
  by (auto simp: io_b_transport_def Let_def rbind_Inr_iff split: tlm_command.splits if_splits)

lemma command_slave:
  assumes "sl \<in> set (gb_slaves bus)" and "slave_b_transport sl pl m = Inr (pl', m')"
  shows "command pl' = command pl"
  using assms
  by (auto simp: gb_slaves_list rom_slave_def cartridge_ram_slave_def memory_slave_def
      module_slave_def io_slave_def command_modules command_mbc_rom command_mbc_ram command_io
      elim!: command_on_part)

lemma command_bus:
  assumes "bus_b_transport (gb_slaves bus) pl m = Inr (pl', m')"
  shows "command pl' = command pl"
proof (cases "find (in_range (address pl)) (gb_slaves bus)")
  case None
  then show ?thesis using assms by (auto simp: bus_find(1))
next
  case (Some sl)
  then have "sl \<in> set (gb_slaves bus)" using bus_found by blast
  moreover have "slave_b_transport sl (pl\<lparr>address := address pl - addr_from sl\<rparr>) m = Inr (pl', m')"
    using assms Some by (simp add: bus_find(1))
  ultimately show ?thesis using command_slave by fastforce
qed

section \<open>DMA\<close>

lemma oam_address:
  assumes "unat (i :: u16) < 0xA0"
  shows "unat (0xFE00 + i) = 0xFE00 + unat i" and "0xFE00 + i \<noteq> 0xFF46"
    and "0xFE00 + i - 0xFE00 = i"
proof -
  show eq: "unat (0xFE00 + i) = 0xFE00 + unat i"
    using assms by (simp add: unat_word_ariths)
  then show "0xFE00 + i \<noteq> 0xFF46"
    using assms by (auto simp: word_unat_eq_iff)
qed simp

lemma dma_loop_keeps:
  assumes "gb_ok m" and "command r = TLM_READ_COMMAND" and "unat i + n \<le> 0xA0"
  shows "case dma_loop (bus_b_transport (gb_slaves bus)) start n i r w m of
    Inl e \<Rightarrow> e = AssertFailed | Inr m' \<Rightarrow> gb_ok m'"
  using assms
proof (induction n arbitrary: i r w m)
  case (Suc n)
  have i: "unat i < 0xA0" "unat (i + 1) + n \<le> 0xA0"
    using Suc.prems(3) by (simp_all add: unat_word_ariths)
  let ?bus = "bus_b_transport (gb_slaves bus)"
  let ?r = "r\<lparr>address := start + i\<rparr>"
  have keep: "keeps gb_ok {AssertFailed} (?bus ?r m)"
    using Suc.prems by (intro bus_keeps_plain) simp_all
  show ?case
  proof (cases "?bus ?r m")
    case (Inl e)
    then show ?thesis using keep by simp
  next
    case (Inr x)
    obtain r' m1 where x: "x = (r', m1)" by fastforce
    have ok: "gb_ok m1" and cmd: "command r' = TLM_READ_COMMAND"
      using keep Inr x Suc.prems(2) command_bus [of bus ?r m r' m1] by simp_all
    let ?w = "w\<lparr>address := 0xFE00 + i, data_byte := data_byte r'\<rparr>"
    have keep': "keeps gb_ok {AssertFailed} (?bus ?w m1)"
      using ok oam_address(2) [OF i(1)] by (intro bus_keeps_plain) simp_all
    show ?thesis
    proof (cases "?bus ?w m1")
      case (Inl e)
      then show ?thesis using keep' Inr x by simp
    next
      case inner: (Inr y)
      obtain w' m2 where y: "y = (w', m2)" by fastforce
      have "gb_ok m2" using keep' inner y by simp
      then show ?thesis
        using Suc.IH [OF _ cmd i(2), of m2 w'] Inr inner x y by simp
    qed
  qed
qed simp

lemma DmaTransfer_keeps:
  assumes "gb_ok m"
  shows "case DmaTransfer (bus_b_transport (gb_slaves bus)) v byte m of
    Inl e \<Rightarrow> e = AssertFailed | Inr m' \<Rightarrow> gb_ok m'"
  unfolding DmaTransfer_def
  using assms by (intro dma_loop_keeps) (simp_all add: MakeSharedPayloadPtr_def)

lemma gb_bus_Suc: "gb_bus (Suc n) = bus_b_transport (gb_slaves (gb_bus n))"
  by (intro ext) simp

text \<open>Two levels are enough: no access on the bus runs out of depth.\<close>

lemma gb_bus_keeps:
  assumes "gb_ok m"
  shows "keeps gb_ok {AssertFailed} (gb_bus (Suc (Suc n)) pl m)"
proof (cases "command pl = TLM_WRITE_COMMAND \<and> address pl = 0xFF46")
  case True
  have "io_slave (gb_bus (Suc n)) \<in> set (gb_slaves (gb_bus (Suc n)))"
    by (simp add: gb_slaves_list del: gb_bus.simps)
  moreover have "in_range (address pl) (io_slave (gb_bus (Suc n)))"
    using True by (simp add: in_range_def)
  ultimately have "gb_bus (Suc (Suc n)) pl m =
      slave_b_transport (io_slave (gb_bus (Suc n))) (pl\<lparr>address := address pl - 0xFF10\<rparr>) m"
    unfolding gb_bus_Suc [of "Suc n"] using gb_bus_slave slave_ranges(9) by metis
  also have "\<dots> = rbind (DmaTransfer (gb_bus (Suc n)) (indeterminate m) (data_byte pl) m)
      (\<lambda>m. Inr (pl\<lparr>address := 0x36, response_status := TLM_OK_RESPONSE\<rparr>, m))"
    using True by (simp add: io_slave_def io_b_transport_def del: gb_bus.simps)
  finally have eq: "gb_bus (Suc (Suc n)) pl m = \<dots>" .
  show ?thesis
    using DmaTransfer_keeps [OF assms, of "gb_bus n", folded gb_bus_Suc]
    unfolding eq keeps_def rbind_def by (fastforce split: sum.splits)
next
  case False
  then show ?thesis
    unfolding gb_bus_Suc [of "Suc n"] using assms by (intro bus_keeps_plain) auto
qed

section \<open>The threads keep the invariant\<close>

lemma gb_ok_put_if [simp]: "gb_ok (put_if v m) = gb_ok m"
  by (simp add: gb_ok_def put_if_def)

lemma timer_ok_threads [simp]:
  "timer_ok (DivLoop_step t) = timer_ok t"
  "timer_ok (fst (TimerLoop_step t v)) = timer_ok t"
  by (simp_all add: timer_ok_def DivLoop_step_def TimerLoop_step_def Let_def)

lemma gb_ok_on_apu [simp]: "gb_ok (on_apu f m) = gb_ok m"
  by (simp add: gb_ok_def on_apu_def split: prod.split)

lemma gb_ok_update_signals [simp]: "gb_ok (m\<lparr>io_registers := update_signals (io_registers m)\<rparr>) = gb_ok m"
  by (simp add: gb_ok_def update_signals_def)

lemma gb_ok_apu_methods: "gb_ok m \<Longrightarrow> gb_ok (foldl (\<lambda>m (sig, f). if c sig then on_apu f m else m) m fs)"
  by (induction fs arbitrary: m) auto

lemma activate_signals:
  assumes "gb_ok m"
  shows "gb_ok (activate m ActSignals)"
proof -
  define m1 where "m1 = foldl (\<lambda>m' (sig, f). if fst (sig_update (sig (io_registers m))) then on_apu f m' else m')
    (m\<lparr>io_registers := update_signals (io_registers m)\<rparr>) apu_methods"
  have ok: "gb_ok m1"
    unfolding m1_def by (rule gb_ok_apu_methods) (use assms in simp)
  then obtain c where "SigHandler (cartridge m1) = Inr c" "mbc_ok c"
    using SigHandler_ok by (auto simp: gb_ok_def)
  then have "gb_ok (if fst (sig_update (sig_unmap_rom (io_registers m))) then
      (case SigHandler (cartridge m1) of Inl e \<Rightarrow> m1\<lparr>thread_error := Some e\<rparr> | Inr c \<Rightarrow> m1\<lparr>cartridge := c\<rparr>)
      else m1)"
    using ok by (simp add: gb_ok_def)
  then show ?thesis unfolding activate.simps Let_def m1_def .
qed

lemma activate_ppu:
  assumes "gb_ok m"
  shows "gb_ok (activate m ActPpu)"
proof -
  have "ppu_ok (ppu m)" using assms by (simp add: gb_ok_def)
  then obtain t v p where "RenderLoop_step (ui m) (gb_ppu_view m, ppu m) = Inr (t, v, p)" "ppu_ok p"
    using RenderLoop_step_ok [of "ppu m" "gb_ppu_view m" "ui m"] by (auto simp: step_result_def)
  then show ?thesis
    using assms by (simp add: gb_ok_def gb_ppu_write_back_def put_if_def gb_put_io_def)
qed

lemma activate_ok:
  assumes "gb_ok m"
  shows "gb_ok (activate m act)"
proof (cases act)
  case ActTimer
  then show ?thesis
    using assms timer_ok_threads(2) [of "timer m" "get_if m"]
    by (cases "TimerLoop_step (timer m) (get_if m)") (simp add: gb_ok_def put_if_def)
next
  case ActSignals
  then show ?thesis using activate_signals [OF assms] by simp
next
  case ActPpu
  then show ?thesis using activate_ppu [OF assms] by simp
next
  case ActApu
  then show ?thesis using assms by simp
next
  case (ActAudio len)
  then show ?thesis using assms by simp
qed (use assms in \<open>auto simp: gb_ok_def put_if_def split: prod.split option.split\<close>)

lemma foldl_activate_ok: "gb_ok m \<Longrightarrow> gb_ok (foldl activate m acts)"
  by (induction acts arbitrary: m) (simp_all add: activate_ok del: activate.simps)

lemma gb_ok_schedule [simp]: "gb_ok (m\<lparr>schedule := s\<rparr>) = gb_ok m"
  by (simp add: gb_ok_def)

lemma run_schedule_ok: "gb_ok m \<Longrightarrow> gb_ok (run_schedule n sched m)"
  by (induction n sched m rule: run_schedule.induct) (simp_all add: foldl_activate_ok)

lemma gb_wait_ok: "gb_ok m \<Longrightarrow> gb_ok (gb_wait n m)"
  by (simp add: gb_wait_def run_schedule_ok)

text \<open>The Game Boy as a system that the CPU can rely on.\<close>

lemma gb_socket_b_transport: "sk_b_transport (gb_socket polls traced) = gb_bus (Suc (Suc 0))"
  by (intro ext) (simp add: gb_socket_def gb_top_slaves_def)

interpretation gb_safe: safe_socket "gb_socket polls traced" gb_ok "{AssertFailed}"
  for polls traced
proof
  fix m pl n v
  assume "gb_ok m"
  then show "keeps gb_ok {AssertFailed} (sk_b_transport (gb_socket polls traced) pl m)"
    by (simp only: gb_socket_b_transport gb_bus_keeps)
  show "gb_ok (sk_wait (gb_socket polls traced) n m)"
    "gb_ok (sk_set_intr_pending (gb_socket polls traced) v m)"
    using \<open>gb_ok m\<close> by (simp_all add: gb_socket_def gb_wait_ok)
qed

end
