(* ===== verification/Gb_Memory.thy ===== *)
theory Gb_Memory
  imports Gb_Top
begin

text \<open>
  What the memory map of the Game Boy is to the program that runs on it: the RAM areas behave like
  memory, the echo area is another name of the work RAM, and a DMA transfer copies a page.
\<close>

section \<open>Memories on the bus\<close>

lemma gb_memory:
  assumes "memory_slave get put from to \<in> set (gb_slaves bus)"
    and "from \<le> address pl" and "address pl \<le> to"
    and "unat to - unat from < memory_size (get m)" and "put (get m) m = m"
  shows "command pl = TLM_READ_COMMAND \<Longrightarrow> bus_b_transport (gb_slaves bus) pl m =
      Inr (pl\<lparr>address := address pl - from,
              data_byte := mem_data (get m) (unat (address pl) - unat from),
              response_status := TLM_OK_RESPONSE\<rparr>, m)"
    and "command pl = TLM_WRITE_COMMAND \<Longrightarrow> bus_b_transport (gb_slaves bus) pl m =
      Inr (pl\<lparr>address := address pl - from, response_status := TLM_OK_RESPONSE\<rparr>,
        put ((get m)\<lparr>mem_data := (mem_data (get m))
          (unat (address pl) - unat from := data_byte pl)\<rparr>) m)"
proof -
  let ?sl = "memory_slave get put from to"
  have range: "in_range (address pl) ?sl" using assms(2,3) by (simp add: in_range_def)
  have rel: "unat (address pl - from) = unat (address pl) - unat from"
    "unat (address pl - from) < memory_size (get m)"
    using relative_address [OF range] assms(4) by simp_all
  note bus = gb_bus_slave [OF assms(1) range, of m]
  show "bus_b_transport (gb_slaves bus) pl m =
      Inr (pl\<lparr>address := address pl - from,
              data_byte := mem_data (get m) (unat (address pl) - unat from),
              response_status := TLM_OK_RESPONSE\<rparr>, m)" if "command pl = TLM_READ_COMMAND"
    using that rel assms(5) unfolding bus
    by (simp add: memory_slave_def on_part_def mem_read)
  show "bus_b_transport (gb_slaves bus) pl m =
      Inr (pl\<lparr>address := address pl - from, response_status := TLM_OK_RESPONSE\<rparr>,
        put ((get m)\<lparr>mem_data := (mem_data (get m))
          (unat (address pl) - unat from := data_byte pl)\<rparr>) m)" if "command pl = TLM_WRITE_COMMAND"
    using that rel unfolding bus
    by (simp add: memory_slave_def on_part_def mem_write)
qed

section \<open>The RAM of the Game Boy\<close>

text \<open>Video RAM, the two work RAMs and high RAM, under their own addresses.\<close>

definition gb_ram :: "u16 \<Rightarrow> bool" where
  "gb_ram a \<longleftrightarrow> 0x8000 \<le> a \<and> a \<le> 0x9FFF \<or> 0xC000 \<le> a \<and> a \<le> 0xDFFF \<or> 0xFF80 \<le> a \<and> a \<le> 0xFFFE"

definition gb_peek :: "gb \<Rightarrow> u16 \<Rightarrow> u8" where
  "gb_peek m a =
     (if a \<le> 0x9FFF then mem_data (video_ram m) (unat a - 0x8000)
      else if a \<le> 0xCFFF then mem_data (work_ram m) (unat a - 0xC000)
      else if a \<le> 0xDFFF then mem_data (work_ram_n m) (unat a - 0xD000)
      else mem_data (high_ram m) (unat a - 0xFF80))"

definition set_mem :: "nat \<Rightarrow> u8 \<Rightarrow> GenericMemory \<Rightarrow> GenericMemory" where
  "set_mem i d c = c\<lparr>mem_data := (mem_data c)(i := d)\<rparr>"

definition gb_poke :: "u16 \<Rightarrow> u8 \<Rightarrow> gb \<Rightarrow> gb" where
  "gb_poke a d m =
     (if a \<le> 0x9FFF then m\<lparr>video_ram := set_mem (unat a - 0x8000) d (video_ram m)\<rparr>
      else if a \<le> 0xCFFF then m\<lparr>work_ram := set_mem (unat a - 0xC000) d (work_ram m)\<rparr>
      else if a \<le> 0xDFFF then m\<lparr>work_ram_n := set_mem (unat a - 0xD000) d (work_ram_n m)\<rparr>
      else m\<lparr>high_ram := set_mem (unat a - 0xFF80) d (high_ram m)\<rparr>)"

lemma set_mem_simps [simp]:
  "memory_size (set_mem i d c) = memory_size c"
  "mem_data (set_mem i d c) j = (if j = i then d else mem_data c j)"
  by (simp_all add: set_mem_def)

text \<open>The four areas, with the memory behind each.\<close>

lemma gb_ram_cases:
  assumes "gb_ram a"
  obtains (video) "0x8000 \<le> a" "a \<le> 0x9FFF"
    | (work) "0xC000 \<le> a" "a \<le> 0xCFFF" "\<not> a \<le> 0x9FFF"
    | (work_n) "0xD000 \<le> a" "a \<le> 0xDFFF" "\<not> a \<le> 0x9FFF" "\<not> a \<le> 0xCFFF"
    | (high) "0xFF80 \<le> a" "a \<le> 0xFFFE" "\<not> a \<le> 0x9FFF" "\<not> a \<le> 0xCFFF" "\<not> a \<le> 0xDFFF"
proof -
  have "a \<le> 0xCFFF \<or> 0xD000 \<le> a"
    by (simp add: word_le_nat_alt) arith
  then show ?thesis
    using assms that unfolding gb_ram_def by (auto simp: word_le_nat_alt)
qed

lemma gb_memories:
  "memory_slave video_ram (\<lambda>c m. m\<lparr>video_ram := c\<rparr>) 0x8000 0x9FFF \<in> set (gb_slaves bus)"
  "memory_slave work_ram (\<lambda>c m. m\<lparr>work_ram := c\<rparr>) 0xC000 0xCFFF \<in> set (gb_slaves bus)"
  "memory_slave work_ram_n (\<lambda>c m. m\<lparr>work_ram_n := c\<rparr>) 0xD000 0xDFFF \<in> set (gb_slaves bus)"
  "memory_slave high_ram (\<lambda>c m. m\<lparr>high_ram := c\<rparr>) 0xFF80 0xFFFE \<in> set (gb_slaves bus)"
  "memory_slave work_ram (\<lambda>c m. m\<lparr>work_ram := c\<rparr>) 0xE000 0xEFFF \<in> set (gb_slaves bus)"
  "memory_slave work_ram_n (\<lambda>c m. m\<lparr>work_ram_n := c\<rparr>) 0xF000 0xFDFF \<in> set (gb_slaves bus)"
  "memory_slave obj_attr_mem (\<lambda>c m. m\<lparr>obj_attr_mem := c\<rparr>) 0xFE00 0xFE9F \<in> set (gb_slaves bus)"
  by (simp_all add: gb_slaves_list)

lemma gb_ram_read:
  assumes "gb_ok m" and "gb_ram (address pl)" and "command pl = TLM_READ_COMMAND"
  shows "\<exists>a. bus_b_transport (gb_slaves bus) pl m =
    Inr (pl\<lparr>address := a, data_byte := gb_peek m (address pl), response_status := TLM_OK_RESPONSE\<rparr>, m)"
  using assms(2)
proof (cases rule: gb_ram_cases)
  case video
  then show ?thesis
    using assms(1,3) gb_memory(1) [OF gb_memories(1) video]
    by (auto simp: gb_ok_def gb_peek_def)
next
  case work
  then show ?thesis
    using assms(1,3) gb_memory(1) [OF gb_memories(2) work(1,2)]
    by (auto simp: gb_ok_def gb_peek_def)
next
  case work_n
  then show ?thesis
    using assms(1,3) gb_memory(1) [OF gb_memories(3) work_n(1,2)]
    by (auto simp: gb_ok_def gb_peek_def)
next
  case high
  then show ?thesis
    using assms(1,3) gb_memory(1) [OF gb_memories(4) high(1,2)]
    by (auto simp: gb_ok_def gb_peek_def)
qed

lemma gb_ram_write:
  assumes "gb_ok m" and "gb_ram (address pl)" and "command pl = TLM_WRITE_COMMAND"
  shows "\<exists>a. bus_b_transport (gb_slaves bus) pl m =
    Inr (pl\<lparr>address := a, response_status := TLM_OK_RESPONSE\<rparr>,
         gb_poke (address pl) (data_byte pl) m)"
  using assms(2)
proof (cases rule: gb_ram_cases)
  case video
  then show ?thesis
    using assms(1,3) gb_memory(2) [OF gb_memories(1) video]
    by (auto simp: gb_ok_def gb_poke_def set_mem_def)
next
  case work
  then show ?thesis
    using assms(1,3) gb_memory(2) [OF gb_memories(2) work(1,2)]
    by (auto simp: gb_ok_def gb_poke_def set_mem_def)
next
  case work_n
  then show ?thesis
    using assms(1,3) gb_memory(2) [OF gb_memories(3) work_n(1,2)]
    by (auto simp: gb_ok_def gb_poke_def set_mem_def)
next
  case high
  then show ?thesis
    using assms(1,3) gb_memory(2) [OF gb_memories(4) high(1,2)]
    by (auto simp: gb_ok_def gb_poke_def set_mem_def)
qed

lemma gb_ok_poke: "gb_ok m \<Longrightarrow> gb_ok (gb_poke a d m)"
  by (simp add: gb_poke_def gb_ok_def)

lemma gb_peek_poke:
  assumes "gb_ram a" and "gb_ram b"
  shows "gb_peek (gb_poke a d m) b = (if a = b then d else gb_peek m b)"
proof -
  have eq: "a = b \<longleftrightarrow> unat a = unat b" by (simp add: word_unat_eq_iff)
  note simps = gb_peek_def gb_poke_def eq word_le_nat_alt
  show ?thesis
    using assms(1)
  proof (cases rule: gb_ram_cases)
    case video
    from assms(2) video show ?thesis
      by (cases rule: gb_ram_cases) (auto simp: simps)
  next
    case work
    from assms(2) work show ?thesis
      by (cases rule: gb_ram_cases) (auto simp: simps)
  next
    case work_n
    from assms(2) work_n show ?thesis
      by (cases rule: gb_ram_cases) (auto simp: simps)
  next
    case high
    from assms(2) high show ?thesis
      by (cases rule: gb_ram_cases) (auto simp: simps)
  qed
qed

lemma gb_ram_above_rom: "gb_ram a \<Longrightarrow> 0x3FFF < a"
  by (auto simp: gb_ram_def word_less_nat_alt word_le_nat_alt)

text \<open>The interrupt registers are apart from it.\<close>

lemma gb_interrupt_flags [simp]:
  "get_if (put_if v m) = v" "intr_enable (put_if v m) = intr_enable m"
  "gb_peek (put_if v m) a = gb_peek m a" "get_if (gb_poke a d m) = get_if m"
  by (simp_all add: get_if_def put_if_def gb_peek_def gb_poke_def)

text \<open>The stack can be in any of them.\<close>

interpretation gb_stack: interrupt_socket "gb_socket polls traced" gb_ok gb_ram gb_peek gb_poke
  for polls traced
proof
  fix m pl a b d v
  assume ok: "gb_ok m"
  have bus: "sk_b_transport (gb_socket polls traced) = bus_b_transport (gb_slaves (gb_bus 1))"
    by (simp add: gb_socket_def gb_top_slaves_def)
  show "observed (sk_b_transport (gb_socket polls traced) pl m) =
      Inr (TLM_OK_RESPONSE, gb_peek m (address pl), m)"
    if "gb_ram (address pl)" "command pl = TLM_READ_COMMAND"
    using gb_ram_read [OF ok that, of "gb_bus 1"] by (auto simp: bus observed_def)
  show "observed (sk_b_transport (gb_socket polls traced) pl m) =
      Inr (TLM_OK_RESPONSE, data_byte pl, gb_poke (address pl) (data_byte pl) m)"
    if "gb_ram (address pl)" "command pl = TLM_WRITE_COMMAND"
    using gb_ram_write [OF ok that, of "gb_bus 1"] by (auto simp: bus observed_def)
  show "gb_ok (gb_poke a d m)" using ok by (rule gb_ok_poke)
  show "gb_peek (gb_poke a d m) b = (if a = b then d else gb_peek m b)"
    if "gb_ram a" "gb_ram b" using that by (rule gb_peek_poke)
  show "gb_ok (sk_set_intr_pending (gb_socket polls traced) v m)"
    using ok by (simp add: gb_socket_def)
qed (simp_all add: gb_ram_above_rom gb_socket_def gb_interrupt_flags)

end
