(* ===== verification/Gb_Properties.thy ===== *)
theory Gb_Properties
  imports Gb_Memory Apu_Properties
begin

text \<open>
  The properties of the whole machine: its address map, the echo RAM, the DMA transfer, the boot ROM,
  the start of the simulation, and what can go wrong while it runs.
\<close>

section \<open>Lemmas\<close>

text \<open>A page that lies in RAM, and what a DMA transfer makes of it.\<close>

definition ram_page :: "u8 \<Rightarrow> bool" where
  "ram_page p \<longleftrightarrow> 0x80 \<le> p \<and> p \<le> 0x9F \<or> 0xC0 \<le> p \<and> p \<le> 0xDF"

definition copied :: "nat \<Rightarrow> nat \<Rightarrow> u16 \<Rightarrow> gb \<Rightarrow> gb" where
  "copied from to start m = m\<lparr>obj_attr_mem := (obj_attr_mem m)\<lparr>mem_data := (\<lambda>j.
     if from \<le> j \<and> j < to then gb_peek m (start + of_nat j) else mem_data (obj_attr_mem m) j)\<rparr>\<rparr>"

lemma ram_page_address:
  assumes "ram_page p" and "j < 0xA0"
  shows "gb_ram (ucast p * 0x100 + of_nat j)"
proof -
  have "unat (ucast p * 0x100 + of_nat j :: u16) = (unat p * 256 + j) mod 65536"
    by (simp add: unat_word_ariths unat_ucast_u8_u16 unat_of_nat mod_simps)
  also have "\<dots> = unat p * 256 + j"
    using assms(2) unat_u8_less [of p] by simp
  finally have eq: "unat (ucast p * 0x100 + of_nat j :: u16) = unat p * 256 + j" .
  show ?thesis
    using assms by (auto simp: gb_ram_def word_le_nat_alt eq ram_page_def)
qed

lemma oam_write:
  assumes "gb_ok m" and "unat i < 0xA0" and "command w = TLM_WRITE_COMMAND"
  shows "bus_b_transport (gb_slaves bus) (w\<lparr>address := 0xFE00 + i, data_byte := d\<rparr>) m =
    Inr (w\<lparr>address := i, data_byte := d, response_status := TLM_OK_RESPONSE\<rparr>,
      m\<lparr>obj_attr_mem := set_mem (unat i) d (obj_attr_mem m)\<rparr>)"
proof -
  let ?pl = "w\<lparr>address := 0xFE00 + i, data_byte := d\<rparr>"
  have "0xFE00 \<le> address ?pl" "address ?pl \<le> 0xFE9F"
    using oam_address(1) [OF assms(2)] assms(2) by (simp_all add: word_le_nat_alt)
  then show ?thesis
    using gb_memory(2) [OF gb_memories(7), of ?pl m] assms oam_address [OF assms(2)]
    by (simp add: gb_ok_def set_mem_def)
qed

lemma gb_peek_oam [simp]: "gb_peek (m\<lparr>obj_attr_mem := c\<rparr>) a = gb_peek m a"
  by (simp add: gb_peek_def)

lemma dma_loop_copies:
  assumes "gb_ok m" and "command r = TLM_READ_COMMAND" and "command w = TLM_WRITE_COMMAND"
    and "unat i + n \<le> 0xA0" and "\<And>j. j < 0xA0 \<Longrightarrow> gb_ram (start + of_nat j)"
  shows "dma_loop (bus_b_transport (gb_slaves bus)) start n i r w m =
    Inr (copied (unat i) (unat i + n) start m)"
  using assms(1-4)
proof (induction n arbitrary: i r w m)
  case 0
  have [simp]: "(a \<le> j \<and> j < a) = False" for a j :: nat by auto
  show ?case by (simp add: copied_def)
next
  case (Suc n)
  have i: "unat i < 0xA0" "unat (i + 1) = unat i + 1"
    using Suc.prems(4) by (simp_all add: unat_word_ariths)
  let ?r = "r\<lparr>address := start + i\<rparr>"
  have ram: "gb_ram (address ?r)" using assms(5) [OF i(1)] by simp
  have cmd: "command ?r = TLM_READ_COMMAND" using Suc.prems(2) by simp
  obtain a where read: "bus_b_transport (gb_slaves bus) ?r m =
      Inr (?r\<lparr>address := a, data_byte := gb_peek m (address ?r),
             response_status := TLM_OK_RESPONSE\<rparr>, m)"
    using gb_ram_read [OF Suc.prems(1) ram cmd] by blast
  define r' where "r' = ?r\<lparr>address := a, data_byte := gb_peek m (address ?r),
    response_status := TLM_OK_RESPONSE\<rparr>"
  define w' where "w' = w\<lparr>address := i, data_byte := data_byte r', response_status := TLM_OK_RESPONSE\<rparr>"
  define m' where "m' = m\<lparr>obj_attr_mem := set_mem (unat i) (data_byte r') (obj_attr_mem m)\<rparr>"
  have fields: "command r' = TLM_READ_COMMAND" "command w' = TLM_WRITE_COMMAND"
    "data_byte r' = gb_peek m (start + i)"
    using Suc.prems(2,3) by (simp_all add: r'_def w'_def)
  have ok: "gb_ok m'" using Suc.prems(1) by (simp add: gb_ok_def m'_def)
  have "dma_loop (bus_b_transport (gb_slaves bus)) start (Suc n) i r w m =
      dma_loop (bus_b_transport (gb_slaves bus)) start n (i + 1) r' w' m'"
    unfolding dma_loop.simps read r'_def [symmetric] rbind_simps prod.case
      oam_write [OF Suc.prems(1) i(1) Suc.prems(3)] w'_def [symmetric] m'_def [symmetric] ..
  also have "\<dots> = Inr (copied (unat (i + 1)) (unat (i + 1) + n) start m')"
    using Suc.IH [OF ok fields(1,2)] Suc.prems(4) i by simp
  also have "copied (unat (i + 1)) (unat (i + 1) + n) start m' =
      copied (unat i) (unat i + Suc n) start m"
  proof -
    have "(\<lambda>j. if Suc (unat i) \<le> j \<and> j < Suc (unat i + n) then gb_peek m (start + of_nat j)
        else mem_data (set_mem (unat i) (data_byte r') (obj_attr_mem m)) j) =
      (\<lambda>j. if unat i \<le> j \<and> j < Suc (unat i + n) then gb_peek m (start + of_nat j)
        else mem_data (obj_attr_mem m) j)" (is "?f = ?g")
      using fields(3) by (auto simp: fun_eq_iff)
    moreover have "copied (unat (i + 1)) (unat (i + 1) + n) start m' =
        m\<lparr>obj_attr_mem := (obj_attr_mem m)\<lparr>mem_data := ?f\<rparr>\<rparr>"
      by (simp add: copied_def m'_def i(2) cong: if_cong)
    ultimately show ?thesis by (simp add: copied_def)
  qed
  finally show ?case .
qed

lemma io_slave_access:
  assumes "0xFF10 \<le> address pl" and "address pl \<le> 0xFF7F"
  shows "bus_b_transport (gb_slaves bus) pl m =
    io_b_transport io_registers (\<lambda>c m. m\<lparr>io_registers := c\<rparr>) bus (indeterminate m)
      (pl\<lparr>address := address pl - 0xFF10\<rparr>) m"
proof -
  have "io_slave bus \<in> set (gb_slaves bus)" by (simp add: gb_slaves_list)
  moreover have "in_range (address pl) (io_slave bus)"
    using assms by (simp add: in_range_def)
  ultimately show ?thesis
    by (simp add: gb_bus_slave) (simp add: io_slave_def)
qed

lemma gb_transport:
  "sk_b_transport (gb_socket polls traced) = bus_b_transport (gb_slaves (gb_bus (Suc 0)))"
  by (simp add: gb_socket_def gb_top_slaves_def)

section \<open>The echo RAM\<close>

text \<open>The areas whose bytes are those of the work RAM 0x2000 below.\<close>

definition echo_ram :: "u16 \<Rightarrow> bool" where
  "echo_ram a \<longleftrightarrow> 0xE000 \<le> a \<and> a \<le> 0xFDFF"

lemma echo_ram_cases:
  assumes "echo_ram a"
  obtains (echo) "0xE000 \<le> a" "a \<le> 0xEFFF" | (echo_n) "0xF000 \<le> a" "a \<le> 0xFDFF" "\<not> a \<le> 0xEFFF"
proof -
  have "a \<le> 0xEFFF \<or> 0xF000 \<le> a \<and> \<not> a \<le> 0xEFFF"
    by (simp add: word_le_nat_alt) arith
  then show ?thesis
    using assms that unfolding echo_ram_def by blast
qed

lemma echo_address:
  assumes "echo_ram a"
  shows "unat (a - 0x2000) = unat a - 0x2000" and "gb_ram (a - 0x2000)"
    and "\<not> a - 0x2000 \<le> 0x9FFF" and "a - 0x2000 \<le> 0xDFFF"
    and "a - 0x2000 \<le> 0xCFFF \<longleftrightarrow> a \<le> 0xEFFF"
proof -
  have range: "0xE000 \<le> unat a" "unat a \<le> 0xFDFF"
    using assms by (simp_all add: echo_ram_def word_le_nat_alt)
  then show eq: "unat (a - 0x2000) = unat a - 0x2000"
    by (simp add: unat_sub word_le_nat_alt)
  show "gb_ram (a - 0x2000)" "\<not> a - 0x2000 \<le> 0x9FFF" "a - 0x2000 \<le> 0xDFFF"
    "a - 0x2000 \<le> 0xCFFF \<longleftrightarrow> a \<le> 0xEFFF"
    using range by (auto simp: gb_ram_def word_le_nat_alt eq)
qed

lemma echo_read:
  assumes "gb_ok m" and "echo_ram (address pl)" and "command pl = TLM_READ_COMMAND"
  shows "\<exists>a. bus_b_transport (gb_slaves bus) pl m =
    Inr (pl\<lparr>address := a, data_byte := gb_peek m (address pl - 0x2000),
            response_status := TLM_OK_RESPONSE\<rparr>, m)"
  using assms(2)
proof (cases rule: echo_ram_cases)
  case echo
  then show ?thesis
    using assms gb_memory(1) [OF gb_memories(5) echo] echo_address [OF assms(2)]
    by (auto simp: gb_ok_def gb_peek_def)
next
  case echo_n
  then show ?thesis
    using assms gb_memory(1) [OF gb_memories(6) echo_n(1,2)] echo_address [OF assms(2)]
    by (auto simp: gb_ok_def gb_peek_def)
qed

lemma echo_write:
  assumes "gb_ok m" and "echo_ram (address pl)" and "command pl = TLM_WRITE_COMMAND"
  shows "\<exists>a. bus_b_transport (gb_slaves bus) pl m =
    Inr (pl\<lparr>address := a, response_status := TLM_OK_RESPONSE\<rparr>,
         gb_poke (address pl - 0x2000) (data_byte pl) m)"
  using assms(2)
proof (cases rule: echo_ram_cases)
  case echo
  then show ?thesis
    using assms gb_memory(2) [OF gb_memories(5) echo] echo_address [OF assms(2)]
    by (auto simp: gb_ok_def gb_poke_def set_mem_def)
next
  case echo_n
  then show ?thesis
    using assms gb_memory(2) [OF gb_memories(6) echo_n(1,2)] echo_address [OF assms(2)]
    by (auto simp: gb_ok_def gb_poke_def set_mem_def)
qed

interpretation gb_echo: ram_socket "gb_socket polls traced" gb_ok echo_ram
    "\<lambda>m a. gb_peek m (a - 0x2000)" "\<lambda>a. gb_poke (a - 0x2000)"
  for polls traced
proof
  fix m pl a b d
  assume ok: "gb_ok m"
  show "observed (sk_b_transport (gb_socket polls traced) pl m) =
      Inr (TLM_OK_RESPONSE, gb_peek m (address pl - 0x2000), m)"
    if "echo_ram (address pl)" "command pl = TLM_READ_COMMAND"
    using echo_read [OF ok that, of "gb_bus (Suc 0)"] unfolding gb_transport observed_def by auto
  show "observed (sk_b_transport (gb_socket polls traced) pl m) =
      Inr (TLM_OK_RESPONSE, data_byte pl, gb_poke (address pl - 0x2000) (data_byte pl) m)"
    if "echo_ram (address pl)" "command pl = TLM_WRITE_COMMAND"
    using echo_write [OF ok that, of "gb_bus (Suc 0)"] unfolding gb_transport observed_def by auto
  show "gb_peek (gb_poke (a - 0x2000) d m) (b - 0x2000) =
      (if a = b then d else gb_peek m (b - 0x2000))"
    if "echo_ram a" "echo_ram b"
    using that by (simp add: gb_peek_poke echo_address(2))
qed (auto simp: gb_ok_poke echo_ram_def word_le_nat_alt word_less_nat_alt)

section \<open>A small Game Boy\<close>

text \<open>A cartridge without a controller whose first bytes are 1, 2, 3, and a CPU with a stack.\<close>

definition small_cartridge :: mbc where
  "small_cartridge = MbcRom (new_ctrler 1 1 False (Some [1, 2, 3]))"

definition small_gb :: gb where
  "small_gb = new_gb small_cartridge test_Apu headless_Ppu (new_Serial False 0) (new_Timer 0 0 0 0) ui_default 0 0xAB []"

definition small_cpu :: "gb cpu" where
  "small_cpu = put16 rSP 0xD000 (new_cpu False small_gb)"

lemma small_cartridge_ok [simp]: "mbc_ok small_cartridge"
  using new_ctrler_ok [of 1 1 False "Some [1, 2, 3]" "()"]
  by (simp add: small_cartridge_def mbc_ok_def new_ctrler_def MemoryBankCtrler.extend_def)

lemma small_gb_ok [simp]: "gb_ok small_gb"
  by (simp add: small_gb_def new_gb_ok headless_Ppu_ok)

lemma small_cpu_simps [simp]:
  "sys small_cpu = small_gb" "get16 small_cpu rSP = 0xD000" "get16 small_cpu rPC = 0"
  "\<not> intr_master_enable small_cpu"
  by (simp_all add: small_cpu_def new_cpu_def get16_put16)
    (simp add: get16_def val16_def dat_init_def make16_def)

lemma small_rom_bank_0 [simp]: "sk_rom_bank_0 (gb_socket polls False) small_gb = Some (\<lambda>_. 0)"
  by (simp add: gb_socket_def small_gb_def new_gb_def small_cartridge_def new_ctrler_def new_memory_def)

section \<open>The properties of the machine\<close>



text \<open>
  The machine starts: on the state that the constructor makes of a well-formed cartridge and
  picture unit the CPU finds the two interrupt registers through the bus, and a direct pointer to the
  lower ROM bank if the cartridge does not trace; the picture unit finds its registers in the I/O
  registers, the video RAM and the object attribute memory, the sound unit its registers in the I/O
  registers; the invariant holds.
\<close>

lemma Game_boy_starts:
  assumes "mbc_ok cart" and "ppu_ok p"
  shows "gb_ok (new_gb cart ap p s (new_Timer a b c d) u clock indet sched) \<and>
    cpu_start_of_simulation (gb_kernel polls) gb_top_slaves
      (new_gb cart ap p s (new_Timer a b c d) u clock indet sched) =
      Inr (gb_socket polls (mbc_tracer cart \<noteq> None)) \<and>
    (\<exists>l m. ppu_start_of_simulation gb_top_slaves
        (new_gb cart ap p s (new_Timer a b c d) u clock indet sched) = Inr (l, m) \<and>
      ppu_view l = gb_ppu_view \<and> ppu_write_back l = gb_ppu_write_back \<and> gb_ok m \<and>
      reg_lcdc_y (gb_ppu_view m) = 0) \<and>
    (\<exists>e. apu_start_of_simulation gb_top_slaves
        (new_gb cart ap p s (new_Timer a b c d) u clock indet sched) = Inr e \<and>
      dmi_load e = (\<lambda>m i. mem_data (io_mem (io_registers m)) i))"
proof -
  let ?m = "new_gb cart ap p s (new_Timer a b c d) u clock indet sched"
  have ok: "gb_ok ?m" using new_gb_ok [OF assms] .
  then have "gb_ok (gb_put_io 0x34 0 ?m)" by (simp add: gb_ok_def gb_put_io_def)
  moreover have "reg_lcdc_y (gb_ppu_view (gb_put_io 0x34 0 ?m)) = 0"
    by (simp add: gb_ppu_view_def gb_put_io_def Let_def)
  ultimately show ?thesis
    using ok gb_start [of ?m polls] gb_ppu_start [of ?m] gb_apu_start [of ?m]
    by (auto simp: gb_ok_def new_gb_def)
qed

text \<open>
  The addresses 0xFEA0 to 0xFEFF and 0xFF08 to 0xFF0E, and no others, belong to no module: a read
  there ends the simulation, a write is lost without an error.
\<close>

lemma Unmapped_addresses:
  shows "(unmapped a \<longleftrightarrow> find (in_range a) gb_top_slaves = None) \<and>
    (unmapped a \<longrightarrow>
      ReadBus (gb_socket polls traced) a c s = Inl (BusError a (indeterminate (sys s))) \<and>
      WriteBus (gb_socket polls traced) a d s =
        Inr (s\<lparr>payload_status := TLM_ADDRESS_ERROR_RESPONSE\<rparr>))"
proof -
  have "\<not> a \<le> 0x3FFF" if "unmapped a"
    using that by (auto simp: unmapped_def word_le_nat_alt)
  then show ?thesis
    using gb_slaves_none [of a "gb_bus 1"]
    by (auto simp: gb_top_slaves_def ReadBus_def WriteBus_def Let_def gb_socket_def bus_find(1)
        is_response_error_def)
qed

text \<open>
  C32. The echo RAM is the work RAM under a second address: a byte written at either of the two
  addresses is read at the other.
\<close>

theorem Echo_ram:
  assumes "gb_ok (sys s)" and "0xE000 \<le> a" and "a \<le> 0xFDFF"
  shows "(\<exists>t u. WriteBus (gb_socket polls traced) a d s = Inr t \<and>
      ReadBus (gb_socket polls traced) (a - 0x2000) c t = Inr (d, u)) \<and>
    (\<exists>t u. WriteBus (gb_socket polls traced) (a - 0x2000) d s = Inr t \<and>
      ReadBus (gb_socket polls traced) a c t = Inr (d, u))"
proof -
  have "echo_ram a" using assms(2,3) by (simp add: echo_ram_def)
  moreover have "gb_ram (a - 0x2000)" using calculation by (rule echo_address)
  ultimately show ?thesis
    using assms(1)
    by (simp add: gb_echo.WriteBus_ram gb_echo.ReadBus_ram gb_stack.WriteBus_ram
        gb_stack.ReadBus_ram gb_ok_poke gb_peek_poke)
qed

lemma Echo_ram_witness:
  "\<exists>t u. WriteBus (gb_socket 10 False) 0xE123 7 small_cpu = Inr t \<and>
    ReadBus (gb_socket 10 False) 0xC123 kGbReadData t = Inr (7, u)"
  using Echo_ram [of small_cpu "0xE123" 10 False 7 kGbReadData] by simp

text \<open>
  C7. Writing a page number of RAM to 0xFF46 copies the first 160 bytes of the page to the object
  attribute memory, at once, and changes nothing else.
\<close>

theorem Dma_copies_page:
  assumes "gb_ok (sys s)" and "ram_page p"
  shows "WriteBus (gb_socket polls traced) 0xFF46 p s =
    Inr (s\<lparr>payload_status := TLM_OK_RESPONSE,
           sys := copied 0 0xA0 (ucast p * 0x100) (sys s)\<rparr>)"
proof -
  have "dma_loop (bus_b_transport (gb_slaves (gb_bus 0))) (ucast p * 0x100) 0xA0 0
      (MakeSharedPayloadPtr TLM_READ_COMMAND 0xFFFF v)
      (MakeSharedPayloadPtr TLM_WRITE_COMMAND 0xFFFF v) (sys s) =
    Inr (copied 0 0xA0 (ucast p * 0x100) (sys s))" for v
    using dma_loop_copies [OF assms(1) _ _ _ ram_page_address [OF assms(2)], where i = 0 and n = "0xA0"]
    by (simp add: MakeSharedPayloadPtr_def)
  then have "DmaTransfer (gb_bus (Suc 0)) v p (sys s) =
    Inr (copied 0 0xA0 (ucast p * 0x100) (sys s))" for v
    unfolding DmaTransfer_def gb_bus_Suc .
  then show ?thesis
    unfolding WriteBus_def Let_def gb_transport
    by (simp add: io_slave_access io_b_transport_def del: gb_bus.simps)
qed

lemma Dma_copies_page_witness:
  "\<exists>t. WriteBus (gb_socket 10 False) 0xFF46 0xC1 small_cpu = Inr t \<and>
    mem_data (obj_attr_mem (sys t)) 5 = gb_peek small_gb 0xC105"
  using Dma_copies_page [of small_cpu "0xC1" 10 False] by (simp add: ram_page_def copied_def)

text \<open>The lower bank after the boot ROM is unmapped.\<close>

lemma unmapped_rom_low:
  assumes "mbc_ok c" and "mbc_game_file c = Some game"
  shows "\<exists>c'. SigHandler c = Inr c' \<and>
    (\<forall>i. i < 0x4000 \<longrightarrow> i < length game \<longrightarrow> mem_data (mbc_rom_low c') i = game ! i)"
proof -
  have "memory_size (mbc_rom_low c) = 0x4000"
    using assms(1) by (simp add: mbc_ok_def mbc_bounded_rom_low)
  then show ?thesis
    using assms(2)
    by (simp add: SigHandler_def mbc_UnmapBootRom_eq LoadFromFile_def LoadFromFile_size_def)
qed

lemma write_unmap:
  assumes "gb_ok (sys s)"
  shows "WriteBus (gb_socket polls traced) 0xFF50 1 s =
    Inr (s\<lparr>payload_status := TLM_OK_RESPONSE,
           sys := (sys s)\<lparr>io_registers := (io_registers (sys s))
             \<lparr>sig_unmap_rom := sig_write True (sig_unmap_rom (io_registers (sys s)))\<rparr>\<rparr>\<rparr>)"
  using assms unfolding WriteBus_def Let_def gb_transport
  by (simp add: io_slave_access io_b_transport_def io_write_def gb_ok_def Let_def del: gb_bus.simps)

text \<open>Once the signals are delivered, a further delta cycle without writes does nothing.\<close>

definition settled :: "IoRegisters \<Rightarrow> bool" where
  "settled io \<longleftrightarrow> \<not> fst (sig_update (sig_unmap_rom io)) \<and>
     (\<forall>(sig, f) \<in> set apu_methods. \<not> fst (sig_update (sig io)))"

lemma settled_update_signals: "settled (update_signals io)"
  by (simp add: settled_def update_signals_def sig_update_def apu_methods_def)

lemma settled_io_mem: "settled (io\<lparr>io_mem := c\<rparr>) = settled io"
  by (simp add: settled_def apu_methods_def)

lemma settled_update:
  assumes "settled io"
  shows "update_signals io = io"
proof -
  have "snd (sig_update s) = s" if "\<not> fst (sig_update s)" for s
    using that by (cases s) (simp add: sig_update_def)
  then show ?thesis using assms by (simp add: settled_def apu_methods_def update_signals_def)
qed

lemma apu_methods_keep:
  assumes "settled (io_registers m)"
  shows "settled (io_registers (foldl (\<lambda>m (sig, f). if c sig then on_apu f m else m) m fs)) \<and>
    cartridge (foldl (\<lambda>m (sig, f). if c sig then on_apu f m else m) m fs) = cartridge m"
  using assms
proof (induction fs arbitrary: m)
  case (Cons a fs)
  have "settled (io_registers (on_apu f m))" "cartridge (on_apu f m) = cartridge m" for f
    using Cons.prems by (simp_all add: on_apu_def settled_io_mem split: prod.split)
  then show ?case using Cons by (cases a) simp
qed simp

lemma settled_no_methods:
  "settled io \<Longrightarrow> foldl (\<lambda>m (sig, f). if fst (sig_update (sig io)) then on_apu f m else m) m apu_methods = m"
  by (simp add: settled_def apu_methods_def)

lemma settled_activate:
  "settled (io_registers m) \<Longrightarrow> activate m ActSignals = m"
  unfolding activate.simps Let_def by (simp add: settled_update settled_no_methods) (simp add: settled_def)

text \<open>
  Writing 1 to 0xFF50 unmaps the boot ROM: once the signal is delivered the game's own bytes are
  read from the beginning of the address space, and delivering it again changes nothing.
\<close>

lemma Boot_rom_unmapped:
  assumes "gb_ok (sys s)" and "mbc_game_file (cartridge (sys s)) = Some game"
    and "\<not> sig_cur (sig_unmap_rom (io_registers (sys s)))"
  shows "\<exists>t m. WriteBus (gb_socket polls traced) 0xFF50 1 s = Inr t \<and>
    activate (sys t) ActSignals = m \<and> gb_ok m \<and> activate m ActSignals = m \<and>
    (\<forall>a \<le> 0x3FFF. unat a < length game \<longrightarrow>
      ReadBus (gb_socket polls False) a c (t\<lparr>sys := m\<rparr>) = Inr (game ! unat a, t\<lparr>sys := m\<rparr>))"
proof -
  define io where "io = (io_registers (sys s))
    \<lparr>sig_unmap_rom := sig_write True (sig_unmap_rom (io_registers (sys s)))\<rparr>"
  define t where "t = s\<lparr>payload_status := TLM_OK_RESPONSE, sys := (sys s)\<lparr>io_registers := io\<rparr>\<rparr>"
  have wr: "WriteBus (gb_socket polls traced) 0xFF50 1 s = Inr t"
    unfolding t_def io_def by (rule write_unmap [OF assms(1)])
  have ok: "gb_ok (sys t)"
    using assms(1) by (simp add: t_def io_def gb_ok_def)
  obtain c' where handler: "SigHandler (cartridge (sys s)) = Inr c'"
    and low: "\<And>i. i < 0x4000 \<Longrightarrow> i < length game \<Longrightarrow> mem_data (mbc_rom_low c') i = game ! i"
    using unmapped_rom_low [OF _ assms(2)] assms(1) by (auto simp: gb_ok_def)
  define m1 where "m1 = foldl (\<lambda>m (sig, f). if fst (sig_update (sig io)) then on_apu f m else m)
    ((sys t)\<lparr>io_registers := update_signals io\<rparr>) apu_methods"
  have m1: "settled (io_registers m1)" "cartridge m1 = cartridge (sys s)"
    unfolding m1_def
    using apu_methods_keep [of "(sys t)\<lparr>io_registers := update_signals io\<rparr>" "\<lambda>sig. fst (sig_update (sig io))"
        apu_methods] settled_update_signals [of io]
    by (simp_all add: t_def)
  define m where "m = m1\<lparr>cartridge := c'\<rparr>"
  have "fst (sig_update (sig_unmap_rom io))"
    using assms(3) by (simp add: io_def sig_update_def sig_write_def)
  moreover have "io_registers (sys t) = io" by (simp add: t_def)
  ultimately have act: "activate (sys t) ActSignals = m"
    unfolding activate.simps Let_def m_def using m1(2) handler by (simp add: m1_def)
  have "activate m ActSignals = m"
    using m1(1) by (intro settled_activate) (simp add: m_def)
  moreover have "\<forall>a \<le> 0x3FFF. unat a < length game \<longrightarrow>
      ReadBus (gb_socket polls False) a c (t\<lparr>sys := m\<rparr>) = Inr (game ! unat a, t\<lparr>sys := m\<rparr>)"
    by (simp add: ReadBus_def gb_socket_def m_def low word_le_nat_alt)
  ultimately show ?thesis
    using wr act activate_ok [OF ok, of ActSignals] by blast
qed

text \<open>
  C8. The stack on the memory map of the Game Boy: wherever in RAM it is, a POP into a register other
  than AF undoes a PUSH of any register, CALL and RET (and RST and RET) cancel out, and PUSH followed
  by POP AF keeps the lower four bits of F as they are.
\<close>

theorem Stack_round_trips:
  assumes "gb_ok (sys s)" and "gb_ram (get16 s rSP - 1)" and "gb_ram (get16 s rSP - 2)"
    and "p \<noteq> rSP" and "q \<noteq> rSP" and "q \<noteq> rAF"
    and "FetchNext2InstrBytes (gb_socket polls traced) s0 = Inr (addr, s)"
  shows "(\<exists>t u. InstrPush (gb_socket polls traced) p s = Inr t \<and>
      InstrPop (gb_socket polls traced) q t = Inr u \<and> get16 u q = get16 s p \<and>
      (\<forall>r. r \<noteq> q \<longrightarrow> get16 u r = get16 s r)) \<and>
    (\<exists>t u. InstrPush (gb_socket polls traced) p s = Inr t \<and>
      InstrPop (gb_socket polls traced) rAF t = Inr u \<and> get8 u rA = hi8 (get16 s p) \<and>
      get8 u rF = (lo8 (get16 s p) AND 0xF0) OR (get8 s rF AND 0x0F)) \<and>
    (\<exists>t u. InstrCall (gb_socket polls traced) s0 = Inr t \<and> get16 t rPC = addr \<and>
      InstrRet (gb_socket polls traced) t = Inr u \<and> (\<forall>r. get16 u r = get16 s r)) \<and>
    (\<exists>t u. InstrRST (gb_socket polls traced) vec s = Inr t \<and> get16 t rPC = ucast vec \<and>
      InstrRet (gb_socket polls traced) t = Inr u \<and> (\<forall>r. get16 u r = get16 s r))"
  using gb_stack.push_pop [OF assms(1-6)] gb_stack.push_pop_AF [OF assms(1-4)]
    gb_stack.call_ret [OF assms(7) assms(1-3)] gb_stack.rst_ret [OF assms(1-3)]
  by blast

lemma Stack_round_trips_witness:
  "\<exists>s t u. FetchNext2InstrBytes (gb_socket 10 False) small_cpu = Inr (0, s) \<and>
    InstrCall (gb_socket 10 False) small_cpu = Inr t \<and> InstrRet (gb_socket 10 False) t = Inr u \<and>
    get16 u rPC = get16 s rPC"
proof -
  have "\<exists>s. FetchNext2InstrBytes (gb_socket 10 False) small_cpu = Inr (0, s) \<and>
      sys s = small_gb \<and> get16 s rSP = 0xD000"
    by (simp add: FetchNext2InstrBytes_def ReadBus_def Let_def get16_put16 make16_def)
  then obtain s where fetch: "FetchNext2InstrBytes (gb_socket 10 False) small_cpu = Inr (0, s)"
    and "sys s = small_gb" "get16 s rSP = 0xD000" by blast
  then have "gb_ok (sys s)" "gb_ram (get16 s rSP - 1)" "gb_ram (get16 s rSP - 2)"
    by (simp_all add: gb_ram_def)
  from Stack_round_trips [OF this _ _ _ fetch, of rBC rBC] fetch show ?thesis by blast
qed

text \<open>
  C9. An interrupt that is taken and whose service routine returns at once leaves every register as
  it was, enables interrupts again and withdraws the request, and it jumps to the vector of the
  enabled request with the lowest number.
\<close>

theorem Interrupt_round_trip:
  assumes "gb_ok (sys s)" and "gb_ram (get16 s rSP - 1)" and "gb_ram (get16 s rSP - 2)"
    and "intr_master_enable s" and "i < 5"
    and "lowest_request (mem_data (intr_enable (sys s)) 0 AND get_if (sys s)) i"
  shows "\<exists>t u. HandleInterrupts (gb_socket polls traced) s = Inr t \<and>
    get16 t rPC = 0x40 + 8 * of_nat i \<and> \<not> intr_master_enable t \<and>
    get_if (sys t) = SetBit (get_if (sys s)) False i \<and>
    InstrRetI (gb_socket polls traced) t = Inr u \<and> intr_master_enable u \<and>
    (\<forall>r. get16 u r = get16 s r)"
  using gb_stack.interrupt_reti [OF assms(1-5)] assms(6) by (simp add: gb_socket_def)

lemma Interrupt_round_trip_witness:
  "\<exists>s t u. HandleInterrupts (gb_socket 10 False) s = Inr t \<and> get16 t rPC = 0x50 \<and>
    InstrRetI (gb_socket 10 False) t = Inr u \<and> get16 u rPC = get16 s rPC"
proof -
  let ?m = "put_if 4 (small_gb\<lparr>intr_enable := (intr_enable small_gb)\<lparr>mem_data := \<lambda>_. 4\<rparr>\<rparr>)"
  let ?s = "small_cpu\<lparr>intr_master_enable := True, sys := ?m\<rparr>"
  have "gb_ok ?m" using small_gb_ok by (simp add: gb_ok_def put_if_def)
  moreover have "lowest_request (mem_data (intr_enable ?m) 0 AND get_if ?m) 2"
    by (auto simp: lowest_request_def bit_simps less_2_cases_iff put_if_def get_if_def)
  ultimately obtain t u where "HandleInterrupts (gb_socket 10 False) ?s = Inr t"
    "get16 t rPC = 0x50" "InstrRetI (gb_socket 10 False) t = Inr u" "get16 u rPC = get16 ?s rPC"
    using Interrupt_round_trip [of ?s 2 10 False] by (auto simp: gb_ram_def)
  then show ?thesis by blast
qed

end
