(* ===== verification/Boot_Rom.thy ===== *)
theory Boot_Rom
  imports Game_Info Gb_Properties
begin

text \<open>
  Running the embedded boot ROM of \<^verbatim>\<open>src/dmg_rom_data.h\<close> on the model of the CPU. The locale \<open>boot_code\<close> is a
  system with code in its lower ROM bank, the predicates of which the other threads keep; its lemmas are
  the effects of the instructions that the boot ROM uses, as steps between states of the registers. The
  locale \<open>boot_system\<close> adds what the boot ROM needs to write, and has its run.
\<close>

section \<open>Runs\<close>

lemma run_cycles_add: "run_cycles (a + b) sk s = rbind (run_cycles a sk s) (run_cycles b sk)"
  by (induction a arbitrary: s) (simp_all add: rbind_assoc cong: rbind_cong)

definition steps :: "'m socket \<Rightarrow> nat \<Rightarrow> ('m cpu \<Rightarrow> bool) \<Rightarrow> ('m cpu \<Rightarrow> bool) \<Rightarrow> bool" where
  "steps sk n P P' \<longleftrightarrow> (\<forall>s. P s \<longrightarrow> (\<exists>t. run_cycles n sk s = Inr t \<and> P' t))"

lemma steps_0: "steps sk 0 P P"
  by (simp add: steps_def)

lemma steps_add: "steps sk a P Q \<Longrightarrow> steps sk b Q R \<Longrightarrow> steps sk (a + b) P R"
  by (fastforce simp: steps_def run_cycles_add)

lemma steps_eq: "steps sk m P Q \<Longrightarrow> m = n \<Longrightarrow> steps sk n P Q"
  by simp

lemma steps_1I:
  assumes "\<And>s. P s \<Longrightarrow> \<exists>t. machine_cycle sk s = Inr t \<and> P' t"
  shows "steps sk 1 P P'"
  using assms by (fastforce simp: steps_def)

text \<open>
  \<open>boot_at Q i a c hl sp z\<close>: interrupts are disabled, the program counter is \<open>i\<close>, the registers A, C, HL and
  SP and the zero flag have these values, and the rest of the system satisfies \<open>Q\<close>.
\<close>

definition boot_at ::
  "('m \<Rightarrow> bool) \<Rightarrow> nat \<Rightarrow> u8 \<Rightarrow> u8 \<Rightarrow> u16 \<Rightarrow> u16 \<Rightarrow> bool \<Rightarrow> 'm cpu \<Rightarrow> bool" where
  "boot_at Q i a c hl sp z s \<longleftrightarrow>
     \<not> intr_master_enable s \<and> Q (sys s) \<and> get16 s rPC = of_nat i \<and> get8 s rA = a \<and> get8 s rC = c \<and>
     get16 s rHL = hl \<and> get16 s rSP = sp \<and> GetFlagZ s = z"

lemma boot_at_update [simp]:
  "boot_at Q i a c hl sp z (s\<lparr>wait_ns := n\<rparr>) = boot_at Q i a c hl sp z s"
  "boot_at Q i a c hl sp z (s\<lparr>local_time_delta := n\<rparr>) = boot_at Q i a c hl sp z s"
  "boot_at Q i a c hl sp z (s\<lparr>payload_status := st\<rparr>) = boot_at Q i a c hl sp z s"
  "boot_at Q i a c hl sp z (s\<lparr>gbcmd := g\<rparr>) = boot_at Q i a c hl sp z s"
  "boot_at Q i a c hl sp z (set_wait n s) = boot_at Q i a c hl sp z s"
  by (simp_all add: boot_at_def GetFlagZ_def)

lemma boot_at_sys: "boot_at Q i a c hl sp z s \<Longrightarrow> Q' m \<Longrightarrow> boot_at Q' i a c hl sp z (s\<lparr>sys := m\<rparr>)"
  by (simp add: boot_at_def GetFlagZ_def)

lemma boot_at_pc: "boot_at Q i a c hl sp z s \<Longrightarrow> boot_at Q j a c hl sp z (put16 rPC (of_nat j) s)"
  by (simp add: boot_at_def get16_put16 get8_put16 GetFlagZ_def)

lemma boot_atD:
  assumes "boot_at Q i a c hl sp z s"
  shows "\<not> intr_master_enable s" "Q (sys s)" "get16 s rPC = of_nat i" "get8 s rA = a" "get8 s rC = c"
    "get16 s rHL = hl" "get16 s rSP = sp" "GetFlagZ s = z"
  using assms by (simp_all add: boot_at_def)

text \<open>A write on the bus that takes \<open>Q\<close> to \<open>Q'\<close>, whatever the status and command of the payload are.\<close>

definition bus_writes :: "'m socket \<Rightarrow> ('m \<Rightarrow> bool) \<Rightarrow> u16 \<Rightarrow> u8 \<Rightarrow> ('m \<Rightarrow> bool) \<Rightarrow> bool" where
  "bus_writes sk Q addr d Q' \<longleftrightarrow>
     (\<forall>m st ext. Q m \<longrightarrow> (\<exists>pl' m'. sk_b_transport sk \<lparr>command = TLM_WRITE_COMMAND, address = addr,
        data_byte = d, response_status = st, extension = ext\<rparr> m = Inr (pl', m') \<and> Q' m'))"

lemma WriteBus_writes:
  assumes "bus_writes sk Q addr d Q'" and "Q (sys s)"
  shows "\<exists>m' st. WriteBus sk addr d s = Inr (s\<lparr>sys := m', payload_status := st\<rparr>) \<and> Q' m'"
  using assms unfolding bus_writes_def WriteBus_def Let_def by (fastforce simp: rbind_Inr_iff)

lemma sync_time_cases: "\<exists>n m'. sync_time sk u = u\<lparr>local_time_delta := n, sys := m'\<rparr> \<and>
    (m' = sys u \<or> (\<exists>k. m' = sk_wait sk k (sys u)))"
  unfolding sync_time_def Let_def by (cases u) auto

text \<open>The instructions that the boot ROM uses.\<close>

lemma boot_opcodes:
  "execute sk 0x31 s = InstrLoadImm16 sk rSP s"
  "execute sk 0x21 s = InstrLoadImm16 sk rHL s"
  "execute sk 0xAF s = Inr (InstrXor8 rA s)"
  "execute sk 0x32 s = InstrStoreDec sk rHL (get8 s rA) s"
  "execute sk 0xCB s = prefix_cb sk s"
  "execute sk 0x20 s = InstrJumpIf sk (\<not> GetFlagZ s) s"
  "execute sk 0x0E s = InstrLoadImm8 sk rC s"
  "execute sk 0x3E s = InstrLoadImm8 sk rA s"
  "execute sk 0xE2 s = InstrStore_u8 sk (get8 s rC) rA s"
  "execute sk 0x0C s = Inr (InstrInc8 rC s)"
  "execute sk 0x77 s = InstrStore16 sk rHL rA s"
  "execute sk 0xE0 s = InstrStoreH sk rA s"
  "execute sk 0xC3 s = InstrJumpAddr sk s"
  "lookup_handler (cb_rows sk) 0x7C s = Inr (InstrBitN8 7 rH s)"
  by (simp_all add: execute_def lookup_handler_def main_rows_def row_0x0_def row_0x2_def row_0x3_def
      row_0x7_def row_0xA_def row_0xC_def row_0xE_def cb_rows_def cb_row_0x7_def ok_def)

lemmas boot_regs = boot_at_def get16_put16 get8_put16 get8_put8 get16_put8 GetFlagZ_def

lemma less_0x8000_iff: "w < (0x8000 :: u16) \<longleftrightarrow> \<not> IsBitSet (hi8 w) 7"
proof -
  have "bit (unat w) 15 = bit w 15" by (simp add: bit_unsigned_iff)
  moreover have "unat w div 0x8000 = (if 0x8000 \<le> unat w then 1 else 0)"
    using unat_u16_less [of w] by (auto intro: div_nat_eqI)
  then have "bit (unat w) 15 \<longleftrightarrow> 0x8000 \<le> unat w" by (simp add: bit_iff_odd)
  ultimately show ?thesis
    by (auto simp: IsBitSet_iff_bit hi8_def bit_simps word_less_nat_alt)
qed

lemma unat_code_address: "i < 0x101 \<Longrightarrow> unat (of_nat i :: u16) = i"
  by (simp add: unat_of_nat)

text \<open>A predicate that the threads keep while the CPU waits.\<close>

definition waits :: "'m socket \<Rightarrow> ('m \<Rightarrow> bool) \<Rightarrow> bool" where
  "waits sk Q \<longleftrightarrow> (\<forall>m n. Q m \<longrightarrow> Q (sk_wait sk n m))"

section \<open>Code in the lower bank\<close>

locale boot_code =
  fixes sk :: "'m socket" and code :: "u8 list" and J :: "'m \<Rightarrow> bool"
  assumes code_byte: "J m \<Longrightarrow> i < length code \<Longrightarrow> \<exists>r. sk_rom_bank_0 sk m = Some r \<and> r i = code ! i"
    and code_length: "length code \<le> 0x100"
begin

definition kept :: "('m \<Rightarrow> bool) \<Rightarrow> bool" where
  "kept Q \<longleftrightarrow> (\<forall>m. Q m \<longrightarrow> J m) \<and> waits sk Q"

lemma kept_waits: "kept Q \<Longrightarrow> waits sk Q"
  by (simp add: kept_def)

lemma ReadBus_code:
  assumes "J (sys s)" and "i < length code"
  shows "ReadBus sk (of_nat i) cmd s = Inr (code ! i, s)"
proof -
  have "i < 0x100" using assms(2) code_length by simp
  then have "unat (of_nat i :: u16) = i" by (simp add: unat_of_nat take_bit_nat_eq_self)
  moreover have "(of_nat i :: u16) \<le> 0x3FFF"
    using \<open>i < 0x100\<close> calculation by (simp add: word_le_nat_alt)
  ultimately show ?thesis
    using code_byte [OF assms] by (auto simp: ReadBus_def)
qed

lemma fetch_code:
  assumes "J (sys s)" and "get16 s rPC = of_nat i" and "i < length code"
  shows "FetchNextInstrByte sk s = Inr (code ! i, put16 rPC (of_nat (i + 1)) s)"
  unfolding FetchNextInstrByte_def assms(2) ReadBus_code [OF assms(1,3)]
  by (simp add: assms(2) add.commute)

lemma fetch2_code:
  assumes "J (sys s)" and "get16 s rPC = of_nat i" and "i + 1 < length code"
  shows "FetchNext2InstrBytes sk s =
    Inr (make16 (code ! (i + 1)) (code ! i), (put16 rPC (of_nat (i + 2)) s)\<lparr>gbcmd := kGbReadInst\<rparr>)"
proof -
  have 1: "ReadBus sk (of_nat i) kGbReadInst (s\<lparr>gbcmd := kGbReadInst\<rparr>) = Inr (code ! i, s\<lparr>gbcmd := kGbReadInst\<rparr>)"
    using assms by (intro ReadBus_code) simp_all
  have "ReadBus sk (of_nat (i + 1)) kGbReadInst (put16 rPC (of_nat (i + 1)) (s\<lparr>gbcmd := kGbReadInst\<rparr>)) =
      Inr (code ! (i + 1), put16 rPC (of_nat (i + 1)) (s\<lparr>gbcmd := kGbReadInst\<rparr>))"
    using assms by (intro ReadBus_code) simp_all
  then have 2: "ReadBus sk (of_nat i + 1) kGbReadInst ((put16 rPC (of_nat i + 1) s)\<lparr>gbcmd := kGbReadInst\<rparr>) =
      Inr (code ! (i + 1), (put16 rPC (of_nat i + 1) s)\<lparr>gbcmd := kGbReadInst\<rparr>)"
    by (simp add: add.commute)
  have "(of_nat i :: u16) + 1 + 1 = of_nat (i + 2)" by simp
  then show ?thesis
    unfolding FetchNext2InstrBytes_def Let_def
    by (simp add: assms(2) 1 2 get16_put16 del: of_nat_add)
qed

text \<open>One iteration of the CPU's loop on an instruction of the code.\<close>

lemma machine_step:
  assumes "kept Q" and "boot_at Q i a c hl sp z s" and "i < length code" and "waits sk Q'"
    and "\<And>s. boot_at Q (i + 1) a c hl sp z s \<Longrightarrow>
      \<exists>u. execute sk (code ! i) s = Inr u \<and> boot_at Q' i' a' c' hl' sp' z' u"
  shows "\<exists>t. machine_cycle sk s = Inr t \<and> boot_at Q' i' a' c' hl' sp' z' t"
proof -
  let ?s = "s\<lparr>wait_ns := 0\<rparr>"
  have at: "boot_at Q i a c hl sp z ?s" using assms(2) by simp
  have J: "J (sys ?s)" using boot_atD(2) [OF at] assms(1) by (simp only: kept_def)
  from assms(5) [OF boot_at_pc [OF at]] obtain u
    where u: "execute sk (code ! i) (put16 rPC (of_nat (i + 1)) ?s) = Inr u"
      and at': "boot_at Q' i' a' c' hl' sp' z' u"
    by (elim exE conjE)
  have "HandleInterrupts sk ?s = Inr ?s"
    unfolding HandleInterrupts_def using boot_atD(1) [OF at] by (rule if_P)
  moreover have "FetchNextInstrByte sk ?s = Inr (code ! i, put16 rPC (of_nat (i + 1)) ?s)"
    by (rule fetch_code [OF J boot_atD(3) [OF at] assms(3)])
  ultimately have cycle: "machine_cycle sk s = Inr (sync_time sk u)"
    unfolding machine_cycle_def Let_def by (simp only: rbind_simps prod.case u)
  from sync_time_cases [of sk u] obtain n m'
    where n: "sync_time sk u = u\<lparr>local_time_delta := n, sys := m'\<rparr>"
      and m': "m' = sys u \<or> (\<exists>k. m' = sk_wait sk k (sys u))"
    by (elim exE conjE)
  have "Q' m'" using m' boot_atD(2) [OF at'] assms(4) by (auto simp only: waits_def)
  then have "boot_at Q' i' a' c' hl' sp' z' (sync_time sk u)"
    unfolding n by (intro boot_at_sys [where Q = Q']) (simp_all only: boot_at_update at')
  with cycle show ?thesis by (intro exI conjI)
qed

lemma step:
  assumes "kept Q" and "waits sk Q'" and "i < length code"
    and "\<And>s. boot_at Q (i + 1) a c hl sp z s \<Longrightarrow>
      \<exists>u. execute sk (code ! i) s = Inr u \<and> boot_at Q' i' a' c' hl' sp' z' u"
  shows "steps sk 1 (boot_at Q i a c hl sp z) (boot_at Q' i' a' c' hl' sp' z')"
  by (rule steps_1I) (rule machine_step [OF assms(1) _ assms(3,2,4)])

lemma at_J: "kept Q \<Longrightarrow> boot_at Q i a c hl sp z s \<Longrightarrow> J (sys s)"
  by (simp add: boot_at_def kept_def)

lemma at_fetch:
  assumes "kept Q" and "boot_at Q i a c hl sp z s" and "i < length code"
  shows "\<exists>s'. FetchNextInstrByte sk s = Inr (code ! i, s') \<and> boot_at Q (i + 1) a c hl sp z s'"
  using fetch_code [OF at_J [OF assms(1,2)] boot_atD(3) [OF assms(2)] assms(3)] boot_at_pc [OF assms(2)]
  by blast

lemma at_fetch2:
  assumes "kept Q" and "boot_at Q i a c hl sp z s" and "i + 1 < length code"
  shows "\<exists>s'. FetchNext2InstrBytes sk s = Inr (make16 (code ! (i + 1)) (code ! i), s') \<and>
    boot_at Q (i + 2) a c hl sp z s'"
  unfolding fetch2_code [OF at_J [OF assms(1,2)] boot_atD(3) [OF assms(2)] assms(3)]
  using boot_at_pc [OF assms(2), of "i + 2"] by (simp del: of_nat_add)

lemma at_write:
  assumes "bus_writes sk Q addr d Q'" and "boot_at Q i a c hl sp z s"
  shows "\<exists>s'. WriteBus sk addr d s = Inr s' \<and> boot_at Q' i a c hl sp z s'"
proof -
  obtain m' st where "WriteBus sk addr d s = Inr (s\<lparr>sys := m', payload_status := st\<rparr>)" "Q' m'"
    using WriteBus_writes [OF assms(1), of s] boot_atD(2) [OF assms(2)] by blast
  then show ?thesis using boot_at_sys [OF assms(2)] by auto
qed

text \<open>The instructions of the boot ROM.\<close>

lemma ld_sp:
  assumes "kept Q" and "code ! i = 0x31" and "i + 2 < length code"
  shows "steps sk 1 (boot_at Q i a c hl sp z)
    (boot_at Q (i + 3) a c hl (make16 (code ! (i + 2)) (code ! (i + 1))) z)"
proof (rule step [OF assms(1) kept_waits [OF assms(1)]])
  show "i < length code" using assms(3) by simp
  fix s assume at: "boot_at Q (i + 1) a c hl sp z s"
  obtain s' where "FetchNext2InstrBytes sk s = Inr (make16 (code ! (i + 2)) (code ! (i + 1)), s')"
    "boot_at Q (i + 3) a c hl sp z s'"
    using at_fetch2 [OF assms(1) at] assms(3) by (auto simp: numeral_3_eq_3)
  then show "\<exists>u. execute sk (code ! i) s = Inr u \<and>
      boot_at Q (i + 3) a c hl (make16 (code ! (i + 2)) (code ! (i + 1))) z u"
    by (simp add: assms(2) boot_opcodes InstrLoadImm16_def) (simp add: boot_regs)
qed

lemma ld_hl:
  assumes "kept Q" and "code ! i = 0x21" and "i + 2 < length code"
  shows "steps sk 1 (boot_at Q i a c hl sp z)
    (boot_at Q (i + 3) a c (make16 (code ! (i + 2)) (code ! (i + 1))) sp z)"
proof (rule step [OF assms(1) kept_waits [OF assms(1)]])
  show "i < length code" using assms(3) by simp
  fix s assume at: "boot_at Q (i + 1) a c hl sp z s"
  obtain s' where "FetchNext2InstrBytes sk s = Inr (make16 (code ! (i + 2)) (code ! (i + 1)), s')"
    "boot_at Q (i + 3) a c hl sp z s'"
    using at_fetch2 [OF assms(1) at] assms(3) by (auto simp: numeral_3_eq_3)
  then show "\<exists>u. execute sk (code ! i) s = Inr u \<and>
      boot_at Q (i + 3) a c (make16 (code ! (i + 2)) (code ! (i + 1))) sp z u"
    by (simp add: assms(2) boot_opcodes InstrLoadImm16_def) (simp add: boot_regs)
qed

lemma jp:
  assumes "kept Q" and "code ! i = 0xC3" and "i + 2 < length code"
    and "make16 (code ! (i + 2)) (code ! (i + 1)) = of_nat j"
  shows "steps sk 1 (boot_at Q i a c hl sp z) (boot_at Q j a c hl sp z)"
proof (rule step [OF assms(1) kept_waits [OF assms(1)]])
  show "i < length code" using assms(3) by simp
  fix s assume at: "boot_at Q (i + 1) a c hl sp z s"
  obtain s' where "FetchNext2InstrBytes sk s = Inr (of_nat j, s')" "boot_at Q (i + 3) a c hl sp z s'"
    using at_fetch2 [OF assms(1) at] assms(3,4) by (auto simp: numeral_3_eq_3)
  then show "\<exists>u. execute sk (code ! i) s = Inr u \<and> boot_at Q j a c hl sp z u"
    by (simp add: assms(2) boot_opcodes InstrJumpAddr_def boot_at_pc)
qed

lemma ld_imm:
  assumes "kept Q" and "i + 1 < length code"
  shows "code ! i = 0x0E \<Longrightarrow> steps sk 1 (boot_at Q i a c hl sp z) (boot_at Q (i + 2) a (code ! (i + 1)) hl sp z)"
    and "code ! i = 0x3E \<Longrightarrow> steps sk 1 (boot_at Q i a c hl sp z) (boot_at Q (i + 2) (code ! (i + 1)) c hl sp z)"
proof -
  have fetch: "\<exists>s'. FetchNextInstrByte sk s = Inr (code ! (i + 1), s') \<and> boot_at Q (i + 2) a c hl sp z s'"
    if "boot_at Q (i + 1) a c hl sp z s" for s
    using at_fetch [OF assms(1) that assms(2)] by simp
  show "steps sk 1 (boot_at Q i a c hl sp z) (boot_at Q (i + 2) a (code ! (i + 1)) hl sp z)"
    if op: "code ! i = 0x0E"
  proof (rule step [OF assms(1) kept_waits [OF assms(1)]])
    fix s assume "boot_at Q (i + 1) a c hl sp z s"
    from fetch [OF this] show "\<exists>u. execute sk (code ! i) s = Inr u \<and> boot_at Q (i + 2) a (code ! (i + 1)) hl sp z u"
      by (elim exE conjE) (simp add: op boot_opcodes InstrLoadImm8_def, simp add: boot_regs)
  qed (use assms(2) in simp)
  show "steps sk 1 (boot_at Q i a c hl sp z) (boot_at Q (i + 2) (code ! (i + 1)) c hl sp z)"
    if op: "code ! i = 0x3E"
  proof (rule step [OF assms(1) kept_waits [OF assms(1)]])
    fix s assume "boot_at Q (i + 1) a c hl sp z s"
    from fetch [OF this] show "\<exists>u. execute sk (code ! i) s = Inr u \<and> boot_at Q (i + 2) (code ! (i + 1)) c hl sp z u"
      by (elim exE conjE) (simp add: op boot_opcodes InstrLoadImm8_def, simp add: boot_regs)
  qed (use assms(2) in simp)
qed

lemma xor_a:
  assumes "kept Q" and "code ! i = 0xAF" and "i < length code"
  shows "steps sk 1 (boot_at Q i a c hl sp z) (boot_at Q (i + 1) 0 c hl sp True)"
proof (rule step [OF assms(1) kept_waits [OF assms(1)] assms(3)])
  fix s assume at: "boot_at Q (i + 1) a c hl sp z s"
  have "boot_at Q (i + 1) 0 c hl sp True (InstrXor8 rA s)"
    using at by (simp add: InstrXor8_def logic_flags_def Let_def) (simp add: boot_at_def flag_simps get8_put8 get16_put8)
  then show "\<exists>u. execute sk (code ! i) s = Inr u \<and> boot_at Q (i + 1) 0 c hl sp True u"
    by (simp add: assms(2) boot_opcodes)
qed

lemma inc_c:
  assumes "kept Q" and "code ! i = 0x0C" and "i < length code"
  shows "steps sk 1 (boot_at Q i a c hl sp z) (boot_at Q (i + 1) a (c + 1) hl sp (c + 1 = 0))"
proof (rule step [OF assms(1) kept_waits [OF assms(1)] assms(3)])
  fix s assume at: "boot_at Q (i + 1) a c hl sp z s"
  have "boot_at Q (i + 1) a (c + 1) hl sp (c + 1 = 0) (InstrInc8 rC s)"
    using at by (simp add: InstrInc8_def Let_def) (simp add: boot_at_def flag_simps get8_put8 get16_put8)
  then show "\<exists>u. execute sk (code ! i) s = Inr u \<and> boot_at Q (i + 1) a (c + 1) hl sp (c + 1 = 0) u"
    by (simp add: assms(2) boot_opcodes)
qed

lemma bit7h:
  assumes "kept Q" and "code ! i = 0xCB" and "code ! (i + 1) = 0x7C" and "i + 1 < length code"
  shows "steps sk 1 (boot_at Q i a c hl sp z) (boot_at Q (i + 2) a c hl sp (hl < 0x8000))"
proof (rule step [OF assms(1) kept_waits [OF assms(1)]])
  show "i < length code" using assms(4) by simp
  fix s assume at: "boot_at Q (i + 1) a c hl sp z s"
  obtain s' where fetch: "FetchNextInstrByte sk s = Inr (0x7C, s')" and at': "boot_at Q (i + 2) a c hl sp z s'"
    using at_fetch [OF assms(1) at assms(4)] assms(3) by auto
  have "hl < 0x8000 \<longleftrightarrow> \<not> IsBitSet (get8 s' rH) 7"
    using boot_atD(6) [OF at'] by (simp only: less_0x8000_iff) (auto simp: get16_eq_make16)
  then have "boot_at Q (i + 2) a c hl sp (hl < 0x8000) (InstrBitN8 7 rH s')"
    using at' by (simp add: InstrBitN8_def Let_def flag_simps)
      (simp add: boot_at_def flag_simps get8_put8 get16_put8)
  then show "\<exists>u. execute sk (code ! i) s = Inr u \<and> boot_at Q (i + 2) a c hl sp (hl < 0x8000) u"
    by (simp add: assms(2) boot_opcodes prefix_cb_def fetch)
qed

lemma jr_nz:
  assumes "kept Q" and "code ! i = 0x20" and "i + 1 < length code"
    and "\<not> z \<Longrightarrow> int (i + 2) + sint (code ! (i + 1)) = int j"
  shows "steps sk 1 (boot_at Q i a c hl sp z) (boot_at Q (if z then i + 2 else j) a c hl sp z)"
proof (rule step [OF assms(1) kept_waits [OF assms(1)]])
  show "i < length code" using assms(3) by simp
  fix s assume at: "boot_at Q (i + 1) a c hl sp z s"
  obtain s' where fetch: "FetchNextInstrByte sk s = Inr (code ! (i + 1), s')"
    and at': "boot_at Q (i + 2) a c hl sp z s'"
    using at_fetch [OF assms(1) at assms(3)] by auto
  have pc: "uint (get16 s rPC) = int (i + 1)"
    unfolding boot_atD(3) [OF at] uint_nat
    by (subst unat_code_address) (use assms(3) code_length in simp_all)
  have "word_of_int (uint (get16 s rPC) + sint (code ! (i + 1)) + 1) = (of_nat j :: u16)" if "\<not> z"
  proof -
    have "uint (get16 s rPC) + sint (code ! (i + 1)) + 1 = int j" using pc assms(4) [OF that] by simp
    then show ?thesis by (simp only: of_int_of_nat_eq)
  qed
  then have "execute sk (code ! i) s =
      Inr (if z then set_wait 8 s' else set_wait 12 (put16 rPC (of_nat j) s'))"
    using boot_atD(8) [OF at]
    by (simp only: assms(2) boot_opcodes InstrJumpIf_def fetch Let_def rbind_simps prod.case split: if_split) simp
  then show "\<exists>u. execute sk (code ! i) s = Inr u \<and> boot_at Q (if z then i + 2 else j) a c hl sp z u"
    using at' by (cases z) (simp_all add: boot_at_pc)
qed

text \<open>The instructions that write.\<close>

lemma ldd:
  assumes "kept Q" and "waits sk Q'" and "code ! i = 0x32" and "i < length code" and "bus_writes sk Q hl a Q'"
  shows "steps sk 1 (boot_at Q i a c hl sp z) (boot_at Q' (i + 1) a c (hl - 1) sp z)"
proof (rule step [OF assms(1,2,4)])
  fix s assume at: "boot_at Q (i + 1) a c hl sp z s"
  obtain s' where "WriteBus sk hl a s = Inr s'" and at': "boot_at Q' (i + 1) a c hl sp z s'"
    using at_write [OF assms(5) at] by blast
  moreover have "boot_at Q' (i + 1) a c (hl - 1) sp z (put16 rHL (hl - 1) s')"
    using at' by (simp add: boot_at_def get8_put16 get16_put16 flag_simps)
  ultimately show "\<exists>u. execute sk (code ! i) s = Inr u \<and> boot_at Q' (i + 1) a c (hl - 1) sp z u"
    using boot_atD(4,6) [OF at] boot_atD(6) [OF at'] by (simp add: assms(3) boot_opcodes InstrStoreDec_def)
qed

lemma st_hl:
  assumes "kept Q" and "waits sk Q'" and "code ! i = 0x77" and "i < length code" and "bus_writes sk Q hl a Q'"
  shows "steps sk 1 (boot_at Q i a c hl sp z) (boot_at Q' (i + 1) a c hl sp z)"
proof (rule step [OF assms(1,2,4)])
  fix s assume at: "boot_at Q (i + 1) a c hl sp z s"
  obtain s' where "WriteBus sk hl a s = Inr s'" and "boot_at Q' (i + 1) a c hl sp z s'"
    using at_write [OF assms(5) at] by blast
  then show "\<exists>u. execute sk (code ! i) s = Inr u \<and> boot_at Q' (i + 1) a c hl sp z u"
    using boot_atD(4,6) [OF at] by (simp add: assms(3) boot_opcodes InstrStore16_def)
qed

lemma st_c:
  assumes "kept Q" and "waits sk Q'" and "code ! i = 0xE2" and "i < length code"
    and "bus_writes sk Q (ucast c + 0xFF00) a Q'"
  shows "steps sk 1 (boot_at Q i a c hl sp z) (boot_at Q' (i + 1) a c hl sp z)"
proof (rule step [OF assms(1,2,4)])
  fix s assume at: "boot_at Q (i + 1) a c hl sp z s"
  obtain s' where "WriteBus sk (ucast c + 0xFF00) a s = Inr s'" and "boot_at Q' (i + 1) a c hl sp z s'"
    using at_write [OF assms(5) at] by blast
  then show "\<exists>u. execute sk (code ! i) s = Inr u \<and> boot_at Q' (i + 1) a c hl sp z u"
    using boot_atD(4,5) [OF at] by (simp add: assms(3) boot_opcodes InstrStore_u8_def)
qed

lemma ldh:
  assumes "kept Q" and "waits sk Q'" and "code ! i = 0xE0" and "i + 1 < length code"
    and "bus_writes sk Q (ucast (code ! (i + 1)) + 0xFF00) a Q'"
  shows "steps sk 1 (boot_at Q i a c hl sp z) (boot_at Q' (i + 2) a c hl sp z)"
proof (rule step [OF assms(1,2)])
  show "i < length code" using assms(4) by simp
  fix s assume at: "boot_at Q (i + 1) a c hl sp z s"
  obtain s' where fetch: "FetchNextInstrByte sk s = Inr (code ! (i + 1), s')"
    and at': "boot_at Q (i + 2) a c hl sp z s'"
    using at_fetch [OF assms(1) at assms(4)] by auto
  obtain s'' where "WriteBus sk (ucast (code ! (i + 1)) + 0xFF00) a s' = Inr s''"
    and "boot_at Q' (i + 2) a c hl sp z s''"
    using at_write [OF assms(5) at'] by blast
  then show "\<exists>u. execute sk (code ! i) s = Inr u \<and> boot_at Q' (i + 2) a c hl sp z u"
    using boot_atD(4) [OF at'] by (simp add: assms(3) boot_opcodes InstrStoreH_def fetch)
qed

end

section \<open>The run of the quick boot ROM\<close>

text \<open>
  \<open>clear k\<close> says that the \<open>k\<close> last bytes of the video RAM are zero, \<open>finished\<close> that the boot ROM is about
  to be unmapped.
\<close>

locale boot_system = boot_code sk kQuickBoot J
  for sk :: "'m socket" and J :: "'m \<Rightarrow> bool" +
  fixes clear :: "nat \<Rightarrow> 'm \<Rightarrow> bool" and finished :: "'m \<Rightarrow> bool"
  assumes kept_J: "kept J"
    and kept_clear: "kept (clear k)"
    and waits_finished: "waits sk finished"
    and clear_0: "J m \<Longrightarrow> clear 0 m"
    and clear_Suc: "k < 0x2000 \<Longrightarrow> bus_writes sk (clear k) (0x9FFF - of_nat k) 0 (clear (Suc k))"
    and clear_io: "a \<in> {0xFF11, 0xFF12, 0xFF24, 0xFF25, 0xFF26, 0xFF47} \<Longrightarrow>
      bus_writes sk (clear k) a d (clear k)"
    and unmaps: "bus_writes sk (clear 0x2000) 0xFF50 1 finished"
begin

lemma quick_boot_bytes:
  "length kQuickBoot = 0x100"
  "kQuickBoot ! 0 = 0x31" "kQuickBoot ! Suc 0 = 0xfe" "kQuickBoot ! Suc (Suc 0) = 0xff" "kQuickBoot ! 3 = 0xaf"
  "kQuickBoot ! 4 = 0x21" "kQuickBoot ! 5 = 0xff" "kQuickBoot ! 6 = 0x9f" "kQuickBoot ! 7 = 0x32"
  "kQuickBoot ! 8 = 0xcb" "kQuickBoot ! 9 = 0x7c" "kQuickBoot ! 10 = 0x20" "kQuickBoot ! 11 = 0xfb"
  "kQuickBoot ! 12 = 0x21" "kQuickBoot ! 13 = 0x26" "kQuickBoot ! 14 = 0xff" "kQuickBoot ! 15 = 0x0e"
  "kQuickBoot ! 16 = 0x11" "kQuickBoot ! 17 = 0x3e" "kQuickBoot ! 18 = 0x80" "kQuickBoot ! 19 = 0x32"
  "kQuickBoot ! 20 = 0xe2" "kQuickBoot ! 21 = 0x0c" "kQuickBoot ! 22 = 0x3e" "kQuickBoot ! 23 = 0xf3"
  "kQuickBoot ! 24 = 0xe2" "kQuickBoot ! 25 = 0x32" "kQuickBoot ! 26 = 0x3e" "kQuickBoot ! 27 = 0x77"
  "kQuickBoot ! 28 = 0x77" "kQuickBoot ! 29 = 0x3e" "kQuickBoot ! 30 = 0xfc" "kQuickBoot ! 31 = 0xe0"
  "kQuickBoot ! 32 = 0x47" "kQuickBoot ! 33 = 0xc3" "kQuickBoot ! 34 = 0xfc" "kQuickBoot ! 35 = 0x00"
  "kQuickBoot ! 252 = 0x3e" "kQuickBoot ! 253 = 0x01" "kQuickBoot ! 254 = 0xe0" "kQuickBoot ! 255 = 0x50"
  by (simp_all add: kQuickBoot_def)

lemma start:
  "steps sk 3 (boot_at J 0 a c hl sp z) (boot_at J 7 0 c 0x9FFF 0xFFFE True)"
proof -
  have "steps sk 1 (boot_at J 0 a c hl sp z) (boot_at J 3 a c hl 0xFFFE z)"
    using ld_sp [OF kept_J, of 0 a c hl sp z] by (simp add: quick_boot_bytes make16_def)
  moreover have "steps sk 1 (boot_at J 3 a c hl 0xFFFE z) (boot_at J 4 0 c hl 0xFFFE True)"
    using xor_a [OF kept_J, of 3 a c hl "0xFFFE" z] by (simp add: quick_boot_bytes)
  moreover have "steps sk 1 (boot_at J 4 0 c hl 0xFFFE True) (boot_at J 7 0 c 0x9FFF 0xFFFE True)"
    using ld_hl [OF kept_J, of 4 0 c hl "0xFFFE" True] by (simp add: quick_boot_bytes make16_def)
  ultimately have "steps sk (1 + 1 + 1) (boot_at J 0 a c hl sp z) (boot_at J 7 0 c 0x9FFF 0xFFFE True)"
    by (intro steps_add)
  then show ?thesis by (rule steps_eq) simp
qed

lemma clear_address:
  assumes "k < 0x2000"
  shows "(0x9FFF - of_nat k - 1 :: u16) < 0x8000 \<longleftrightarrow> Suc k = 0x2000"
proof -
  have "unat (of_nat k :: u16) = k" using assms by (simp add: unat_of_nat)
  then have "unat (0x9FFF - of_nat k - 1 :: u16) = 0x9FFE - k"
    using assms by (simp add: unat_sub_if' word_le_nat_alt)
  then show ?thesis using assms by (simp add: word_less_nat_alt) arith
qed

lemma iteration:
  assumes "k < 0x2000"
  shows "steps sk 3 (boot_at (clear k) 7 0 c (0x9FFF - of_nat k) sp z)
    (boot_at (clear (Suc k)) (if Suc k = 0x2000 then 12 else 7) 0 c (0x9FFF - of_nat (Suc k)) sp (Suc k = 0x2000))"
proof -
  let ?hl = "0x9FFF - of_nat k - 1 :: u16"
  have hl: "?hl = 0x9FFF - of_nat (Suc k)" by simp
  have "steps sk 1 (boot_at (clear k) 7 0 c (0x9FFF - of_nat k) sp z) (boot_at (clear (Suc k)) 8 0 c ?hl sp z)"
    using ldd [OF kept_clear kept_waits [OF kept_clear] _ _ clear_Suc [OF assms], of 7 c sp z]
    by (simp add: quick_boot_bytes)
  moreover have "steps sk 1 (boot_at (clear (Suc k)) 8 0 c ?hl sp z)
      (boot_at (clear (Suc k)) 10 0 c ?hl sp (Suc k = 0x2000))"
    using bit7h [OF kept_clear, of 8 "Suc k" 0 c ?hl sp z] unfolding clear_address [OF assms]
    by (simp add: quick_boot_bytes)
  moreover have "steps sk 1 (boot_at (clear (Suc k)) 10 0 c ?hl sp (Suc k = 0x2000))
      (boot_at (clear (Suc k)) (if Suc k = 0x2000 then 12 else 7) 0 c ?hl sp (Suc k = 0x2000))"
    using jr_nz [OF kept_clear, of 10 "Suc k = 0x2000" 7 "Suc k" 0 c ?hl sp]
    by (simp add: quick_boot_bytes cong: if_cong)
  ultimately have "steps sk (1 + 1 + 1) (boot_at (clear k) 7 0 c (0x9FFF - of_nat k) sp z)
      (boot_at (clear (Suc k)) (if Suc k = 0x2000 then 12 else 7) 0 c ?hl sp (Suc k = 0x2000))"
    by (intro steps_add)
  then show ?thesis unfolding hl by (rule steps_eq) simp
qed

text \<open>The loop of the boot ROM, which has \<open>n\<close> bytes left to clear.\<close>

lemma clearing:
  assumes "0 < n" and "n \<le> 0x2000"
  shows "steps sk (3 * n) (boot_at (clear (0x2000 - n)) 7 0 c (0x9FFF - of_nat (0x2000 - n)) sp z)
    (boot_at (clear 0x2000) 12 0 c 0x7FFF sp True)"
  using assms
proof (induction n arbitrary: z)
  case (Suc n)
  let ?k = "0x2000 - Suc n"
  have k: "?k < 0x2000" using Suc.prems by simp
  show ?case
  proof (cases n)
    case 0
    then show ?thesis using iteration [OF k, of c sp z] by simp
  next
    case (Suc n')
    then have "Suc ?k = 0x2000 - n" "Suc ?k \<noteq> 0x2000" using Suc.prems by simp_all
    with iteration [OF k, of c sp z] Suc.IH [of False] Suc.prems Suc
    have "steps sk (3 + 3 * n) (boot_at (clear ?k) 7 0 c (0x9FFF - of_nat ?k) sp z)
        (boot_at (clear 0x2000) 12 0 c 0x7FFF sp True)"
      by (intro steps_add) simp_all
    then show ?thesis by simp
  qed
qed simp

text \<open>The sound and the palette.\<close>

lemmas keeps_io = clear_io [of _ "0x2000"]

lemma sound_on:
  "steps sk 4 (boot_at (clear 0x2000) 12 0 c hl sp z) (boot_at (clear 0x2000) 20 0x80 0x11 0xFF25 sp z)"
proof -
  let ?Q = "clear 0x2000"
  have "steps sk 1 (boot_at ?Q 12 0 c hl sp z) (boot_at ?Q 15 0 c 0xFF26 sp z)"
    using ld_hl [OF kept_clear, of 12 "0x2000" 0 c hl sp z] by (simp add: quick_boot_bytes make16_def)
  moreover have "steps sk 1 (boot_at ?Q 15 0 c 0xFF26 sp z) (boot_at ?Q 17 0 0x11 0xFF26 sp z)"
    using ld_imm(1) [OF kept_clear, of 15 "0x2000" 0 c "0xFF26" sp z] by (simp add: quick_boot_bytes)
  moreover have "steps sk 1 (boot_at ?Q 17 0 0x11 0xFF26 sp z) (boot_at ?Q 19 0x80 0x11 0xFF26 sp z)"
    using ld_imm(2) [OF kept_clear, of 17 "0x2000" 0 "0x11" "0xFF26" sp z] by (simp add: quick_boot_bytes)
  moreover have "steps sk 1 (boot_at ?Q 19 0x80 0x11 0xFF26 sp z) (boot_at ?Q 20 0x80 0x11 0xFF25 sp z)"
    using ldd [OF kept_clear kept_waits [OF kept_clear] _ _ keeps_io, of 19 "0xFF26" "0x80" "0x11" sp z]
    by (simp add: quick_boot_bytes)
  ultimately have "steps sk (1 + 1 + 1 + 1) (boot_at ?Q 12 0 c hl sp z) (boot_at ?Q 20 0x80 0x11 0xFF25 sp z)"
    by (intro steps_add)
  then show ?thesis by (rule steps_eq) simp
qed

lemma square1:
  "steps sk 4 (boot_at (clear 0x2000) 20 0x80 0x11 0xFF25 sp z)
    (boot_at (clear 0x2000) 25 0xF3 0x12 0xFF25 sp False)"
proof -
  let ?Q = "clear 0x2000"
  have "steps sk 1 (boot_at ?Q 20 0x80 0x11 0xFF25 sp z) (boot_at ?Q 21 0x80 0x11 0xFF25 sp z)"
    using st_c [OF kept_clear kept_waits [OF kept_clear] _ _ keeps_io, of 20 "0x11" "0x80" "0xFF25" sp z]
    by (simp add: quick_boot_bytes)
  moreover have "steps sk 1 (boot_at ?Q 21 0x80 0x11 0xFF25 sp z) (boot_at ?Q 22 0x80 0x12 0xFF25 sp False)"
    using inc_c [OF kept_clear, of 21 "0x2000" "0x80" "0x11" "0xFF25" sp z] by (simp add: quick_boot_bytes)
  moreover have "steps sk 1 (boot_at ?Q 22 0x80 0x12 0xFF25 sp False) (boot_at ?Q 24 0xF3 0x12 0xFF25 sp False)"
    using ld_imm(2) [OF kept_clear, of 22 "0x2000" "0x80" "0x12" "0xFF25" sp False] by (simp add: quick_boot_bytes)
  moreover have "steps sk 1 (boot_at ?Q 24 0xF3 0x12 0xFF25 sp False) (boot_at ?Q 25 0xF3 0x12 0xFF25 sp False)"
    using st_c [OF kept_clear kept_waits [OF kept_clear] _ _ keeps_io, of 24 "0x12" "0xF3" "0xFF25" sp False]
    by (simp add: quick_boot_bytes)
  ultimately have "steps sk (1 + 1 + 1 + 1) (boot_at ?Q 20 0x80 0x11 0xFF25 sp z)
      (boot_at ?Q 25 0xF3 0x12 0xFF25 sp False)"
    by (intro steps_add)
  then show ?thesis by (rule steps_eq) simp
qed

lemma volume:
  "steps sk 3 (boot_at (clear 0x2000) 25 0xF3 c 0xFF25 sp z)
    (boot_at (clear 0x2000) 29 0x77 c 0xFF24 sp z)"
proof -
  let ?Q = "clear 0x2000"
  have "steps sk 1 (boot_at ?Q 25 0xF3 c 0xFF25 sp z) (boot_at ?Q 26 0xF3 c 0xFF24 sp z)"
    using ldd [OF kept_clear kept_waits [OF kept_clear] _ _ keeps_io, of 25 "0xFF25" "0xF3" c sp z]
    by (simp add: quick_boot_bytes)
  moreover have "steps sk 1 (boot_at ?Q 26 0xF3 c 0xFF24 sp z) (boot_at ?Q 28 0x77 c 0xFF24 sp z)"
    using ld_imm(2) [OF kept_clear, of 26 "0x2000" "0xF3" c "0xFF24" sp z] by (simp add: quick_boot_bytes)
  moreover have "steps sk 1 (boot_at ?Q 28 0x77 c 0xFF24 sp z) (boot_at ?Q 29 0x77 c 0xFF24 sp z)"
    using st_hl [OF kept_clear kept_waits [OF kept_clear] _ _ keeps_io, of 28 "0xFF24" "0x77" c sp z]
    by (simp add: quick_boot_bytes)
  ultimately have "steps sk (1 + 1 + 1) (boot_at ?Q 25 0xF3 c 0xFF25 sp z) (boot_at ?Q 29 0x77 c 0xFF24 sp z)"
    by (intro steps_add)
  then show ?thesis by (rule steps_eq) simp
qed

lemma palette_and_unmap:
  "steps sk 5 (boot_at (clear 0x2000) 29 a c hl sp z) (boot_at finished 0x100 1 c hl sp z)"
proof -
  let ?Q = "clear 0x2000"
  have "steps sk 1 (boot_at ?Q 29 a c hl sp z) (boot_at ?Q 31 0xFC c hl sp z)"
    using ld_imm(2) [OF kept_clear, of 29 "0x2000" a c hl sp z] by (simp add: quick_boot_bytes)
  moreover have "steps sk 1 (boot_at ?Q 31 0xFC c hl sp z) (boot_at ?Q 33 0xFC c hl sp z)"
    using ldh [OF kept_clear kept_waits [OF kept_clear] _ _ keeps_io, of 31 "0xFC" c hl sp z]
    by (simp add: quick_boot_bytes)
  moreover have "steps sk 1 (boot_at ?Q 33 0xFC c hl sp z) (boot_at ?Q 0xFC 0xFC c hl sp z)"
    using jp [OF kept_clear, of 33 "0xFC" "0x2000" "0xFC" c hl sp z] by (simp add: quick_boot_bytes make16_def)
  moreover have "steps sk 1 (boot_at ?Q 0xFC 0xFC c hl sp z) (boot_at ?Q 0xFE 1 c hl sp z)"
    using ld_imm(2) [OF kept_clear, of "0xFC" "0x2000" "0xFC" c hl sp z] by (simp add: quick_boot_bytes)
  moreover have "steps sk 1 (boot_at ?Q 0xFE 1 c hl sp z) (boot_at finished 0x100 1 c hl sp z)"
    using ldh [OF kept_clear waits_finished, of "0xFE" "0x2000" 1 c hl sp z] unmaps by (simp add: quick_boot_bytes)
  ultimately have "steps sk (1 + 1 + 1 + 1 + 1) (boot_at ?Q 29 a c hl sp z) (boot_at finished 0x100 1 c hl sp z)"
    by (intro steps_add)
  then show ?thesis by (rule steps_eq) simp
qed

lemma boots:
  "steps sk 24595 (boot_at J 0 a c hl sp z) (boot_at finished 0x100 1 0x12 0xFF24 0xFFFE False)"
proof -
  have "steps sk 0 (boot_at J 7 0 c 0x9FFF 0xFFFE True) (boot_at (clear 0) 7 0 c 0x9FFF 0xFFFE True)"
    by (auto simp: steps_def boot_at_def clear_0)
  moreover have "steps sk (3 * 0x2000) (boot_at (clear 0) 7 0 c 0x9FFF 0xFFFE True)
      (boot_at (clear 0x2000) 12 0 c 0x7FFF 0xFFFE True)"
    using clearing [of "0x2000" c "0xFFFE" True] by simp
  ultimately have "steps sk (3 + 0 + 3 * 0x2000 + 4 + 4 + 3 + 5) (boot_at J 0 a c hl sp z)
      (boot_at finished 0x100 1 0x12 0xFF24 0xFFFE False)"
    using start sound_on square1 volume palette_and_unmap by (intro steps_add)
  then show ?thesis by (rule steps_eq) simp
qed

end

end
