(* ===== verification/Options.thy ===== *)
theory Options
  imports Cpp_Strings
begin

text \<open>
  The options of the command line, \<^verbatim>\<open>src/options.h\<close> and \<^verbatim>\<open>src/options.cpp\<close>. The GNU
  function \<^verbatim>\<open>getopt_long\<close> is a parameter: of the two tables of options and the arguments it makes the list
  of the characters that it returns before \<open>-1\<close>, each with the argument of the option (empty for an
  option without one). The help text is left out.
\<close>

type_synonym getopt = "(string \<times> bool \<times> char) list \<Rightarrow> string \<Rightarrow> string list \<Rightarrow> (char \<times> string) list"

text \<open>The long options, with whether they have an argument, and the short ones.\<close>

definition long_opts :: "(string \<times> bool \<times> char) list" where
  "long_opts =
     [(''boot-rom-path'', True, CHR ''b''), (''color-palette'', True, CHR ''c''),
      (''fps-cap'', True, CHR ''f''), (''headless'', False, CHR ''l''), (''help'', False, CHR ''h''),
      (''max-cycles'', True, CHR ''m''), (''rom-path'', True, CHR ''r''),
      (''resolution-scaling'', True, CHR ''e''), (''single-step'', False, CHR ''s''),
      (''symbol-file'', False, CHR ''y''), (''wait-for-gdb'', False, CHR ''w''),
      (''show-ext-game-window'', False, CHR ''x''), (''show-window-window'', False, CHR ''n''),
      (''quick-boot'', False, CHR ''q'')]"

definition short_opts :: string where
  "short_opts = ''b:f:hm:lwr:sc:e:''"

record Options =
  headless :: bool
  quick_boot :: bool
  symbol_file :: bool
  opt_single_step :: bool
  wait_for_gdb :: bool
  rom_path :: string
  boot_rom_path :: string
  fps_cap :: int
  max_cycles :: int
  resolution_scaling :: int
  opt_color_palette :: string
  show_ext_game_wndw :: bool
  show_window_wndw :: bool

definition default_options :: Options where
  "default_options =
     \<lparr>headless = False, quick_boot = False, symbol_file = False, opt_single_step = False,
      wait_for_gdb = False, rom_path = '''', boot_rom_path = '''', fps_cap = 60, max_cycles = -1,
      resolution_scaling = 4, opt_color_palette = ''f2ffd9aaaaaa555555000000'',
      show_ext_game_wndw = False, show_window_wndw = False\<rparr>"

text \<open>The member \<^verbatim>\<open>fps_cap\<close> is an \<^verbatim>\<open>int\<close>, the number of the argument has 64 bits.\<close>

definition set_option :: "char \<Rightarrow> string \<Rightarrow> Options \<Rightarrow> Options res" where
  "set_option c optarg opts =
     (if c = CHR ''b'' then Inr (opts\<lparr>boot_rom_path := optarg\<rparr>)
      else if c = CHR ''c'' then Inr (opts\<lparr>opt_color_palette := optarg\<rparr>)
      else if c = CHR ''e'' then rbind (stoll optarg) (\<lambda>v. Inr (opts\<lparr>resolution_scaling := v\<rparr>))
      else if c = CHR ''f'' then rbind (stoll optarg) (\<lambda>v. Inr (opts\<lparr>fps_cap := sint (word_of_int v :: u32)\<rparr>))
      else if c = CHR ''l'' then Inr (opts\<lparr>headless := True\<rparr>)
      else if c = CHR ''m'' then rbind (stoll optarg) (\<lambda>v. Inr (opts\<lparr>max_cycles := v\<rparr>))
      else if c = CHR ''r'' then Inr (opts\<lparr>rom_path := optarg\<rparr>)
      else if c = CHR ''s'' then Inr (opts\<lparr>opt_single_step := True\<rparr>)
      else if c = CHR ''w'' then Inr (opts\<lparr>wait_for_gdb := True\<rparr>)
      else if c = CHR ''x'' then Inr (opts\<lparr>show_ext_game_wndw := True\<rparr>)
      else if c = CHR ''n'' then Inr (opts\<lparr>show_window_wndw := True\<rparr>)
      else if c = CHR ''q'' then Inr (opts\<lparr>quick_boot := True\<rparr>)
      else if c = CHR ''y'' then Inr (opts\<lparr>symbol_file := True\<rparr>)
      else Inl (Exited 1))"

fun parse_options :: "(char \<times> string) list \<Rightarrow> Options \<Rightarrow> Options res" where
  "parse_options [] opts = Inr opts"
| "parse_options ((c, optarg) # rest) opts = rbind (set_option c optarg opts) (parse_options rest)"

definition InitOpts :: "getopt \<Rightarrow> string list \<Rightarrow> Options \<Rightarrow> Options res" where
  "InitOpts getopt_long argv opts =
     rbind (parse_options (getopt_long long_opts short_opts argv) opts) (\<lambda>opts.
     if length (opt_color_palette opts) \<noteq> 24 then Inl (Exited 1)
     else if \<not> list_all is_xdigit (opt_color_palette opts) then Inl (Exited 1)
     else Inr opts)"

section \<open>Properties of the options\<close>

lemma stoll_errors: "only_errors {InvalidArgument, OutOfRange} (stoll s)"
  by (simp add: stoll_def Let_def split: prod.split)

lemma stoll_range: "returns_with (\<lambda>v. - (2 ^ 63) \<le> v \<and> v < 2 ^ 63) (stoll s)"
  by (simp add: stoll_def Let_def split: prod.split)

text \<open>The values of the numbers stay in the range of their types.\<close>

definition options_ok :: "Options \<Rightarrow> bool" where
  "options_ok opts \<longleftrightarrow>
     - (2 ^ 63) \<le> max_cycles opts \<and> max_cycles opts < 2 ^ 63 \<and>
     - (2 ^ 63) \<le> resolution_scaling opts \<and> resolution_scaling opts < 2 ^ 63 \<and>
     - (2 ^ 31) \<le> fps_cap opts \<and> fps_cap opts < 2 ^ 31"

lemma default_options_ok [simp]: "options_ok default_options"
  by (simp add: options_ok_def default_options_def)

lemma sint_u32_range: "- (2 ^ 31) \<le> sint (w :: u32)" "sint (w :: u32) < 2 ^ 31"
  using sint_ge [of w] sint_lt [of w] by simp_all

lemma set_option_ok:
  assumes "options_ok opts"
  shows "returns_with options_ok (set_option c s opts)"
    and "only_errors {InvalidArgument, OutOfRange, Exited 1} (set_option c s opts)"
proof -
  show "returns_with options_ok (set_option c s opts)"
    using assms stoll_range [of s] sint_u32_range
    by (cases "stoll s") (simp_all add: set_option_def options_ok_def)
  show "only_errors {InvalidArgument, OutOfRange, Exited 1} (set_option c s opts)"
    using stoll_errors [of s] by (cases "stoll s") (auto simp: set_option_def)
qed

lemma parse_options_ok:
  assumes "options_ok opts"
  shows "returns_with options_ok (parse_options args opts) \<and>
    only_errors {InvalidArgument, OutOfRange, Exited 1} (parse_options args opts)"
  using assms
proof (induction args arbitrary: opts)
  case (Cons a args)
  obtain c s where a: "a = (c, s)" by fastforce
  show ?case
    using Cons.IH set_option_ok [OF Cons.prems, of c s]
    by (cases "set_option c s opts") (simp_all add: a)
qed simp

lemma InitOpts_ok:
  assumes "InitOpts getopt argv opts = Inr opts'" and "options_ok opts"
  shows "options_ok opts'" and "length (opt_color_palette opts') = 24"
    and "list_all is_xdigit (opt_color_palette opts')"
  using assms parse_options_ok [OF assms(2), of "getopt long_opts short_opts argv"]
  by (auto simp: InitOpts_def rbind_Inr_iff split: if_splits)

lemma InitOpts_errors:
  "options_ok opts \<Longrightarrow> only_errors {InvalidArgument, OutOfRange, Exited 1} (InitOpts getopt argv opts)"
  unfolding InitOpts_def using parse_options_ok by (intro only_errors_rbind) auto

end
