(* ===== verification/Game_Properties.thy ===== *)
theory Game_Properties
  imports Game_Info Cartridge_Safety
begin

text \<open>
  What the header of a game file says to the program: the fields as a function of the bytes, the errors
  of the constructor, and which type bytes start which memory bank controller.
\<close>

section \<open>The header as a table\<close>

definition known_type :: "u8 \<Rightarrow> bool" where
  "known_type b \<longleftrightarrow> b \<in> {0x00, 0x01, 0x02, 0x03, 0x05, 0x06, 0x08, 0x09, 0x0B, 0x0C, 0x0D, 0x0F, 0x10,
     0x11, 0x12, 0x13, 0x19, 0x1A, 0x1B, 0x1C, 0x1D, 0x1E, 0x20, 0x22}"

definition known_rom_size :: "u8 \<Rightarrow> bool" where
  "known_rom_size b \<longleftrightarrow> b \<le> 8 \<or> b \<in> {0x52, 0x53, 0x54}"

definition known_ram_size :: "u8 \<Rightarrow> bool" where
  "known_ram_size b \<longleftrightarrow> b \<le> 5"

text \<open>The number of banks and the size in KiB that the header's bytes stand for.\<close>

definition rom_banks :: "u8 \<Rightarrow> nat" where
  "rom_banks b = (if b = 0 then 0 else if b \<le> 8 then 2 ^ (unat b + 1)
     else if b = 0x52 then 72 else if b = 0x53 then 80 else 96)"

definition ram_kib :: "u8 \<Rightarrow> nat" where
  "ram_kib b = (if b = 0 then 0 else if b = 5 then 64 else 2 ^ (2 * unat b - 1))"

definition license_of :: "u8 list \<Rightarrow> string" where
  "license_of d =
     (case (if d ! 0x14B = 0x33
            then map_of new_license_code_map [byte_char (d ! 0x144), byte_char (d ! 0x145)]
            else map_of old_license_code_map (d ! 0x14B)) of
        None \<Rightarrow> ''Unknown''
      | Some name \<Rightarrow> name)"

definition header_info :: "u8 list \<Rightarrow> GameInfo" where
  "header_info d =
     \<lparr>sgb_support = (d ! 0x146 = 3),
      uses_new_license = (d ! 0x14B = 0x33),
      cartridge_type = the (map_of cartridge_type_map (byte_uint (d ! 0x147))),
      license_code = license_of d,
      region = (if d ! 0x14A = 0 then ''Japanese'' else if d ! 0x14A = 1 then ''Non-Japanese''
        else ''Unknown''),
      title = map byte_char (takeWhile (\<lambda>b. b \<noteq> 0) (take 16 (drop 0x134 d))),
      ram_size = the (map_of ram_size_map (byte_uint (d ! 0x149))),
      rom_size = the (map_of rom_size_map (byte_uint (d ! 0x148)))\<rparr>"

section \<open>Keys by sign extension\<close>

text \<open>A byte from 0x80 on becomes a key above 0xFFFFFF80, so no such entry is found.\<close>

lemma byte_uint_eq: "byte_uint b = k \<longleftrightarrow> b = ucast k \<and> byte_uint (ucast k) = k"
proof -
  have "ucast (byte_uint b) = b"
    unfolding byte_uint_def by (rule bit_word_eqI) (simp add: bit_simps)
  then show ?thesis by auto
qed

lemmas byte_uint_key [simp] = byte_uint_eq [of _ "numeral n" for n] byte_uint_eq [of _ 0] byte_uint_eq [of _ 1]

lemma byte_uint_numeral [simp]:
  "byte_uint (numeral n) = scast (numeral n :: u8)" "byte_uint 0 = 0" "byte_uint 1 = 1"
  by (simp_all add: byte_uint_def)

lemma map_at_simps [simp]:
  "map_of m k = Some v \<Longrightarrow> map_at m k = Inr v"
  "map_of m k = None \<Longrightarrow> map_at m k = Inl OutOfRange"
  by (simp_all add: map_at_def)

lemma contains_or_unknown:
  "(if map_contains m k then map_at m k else Inr d) = Inr (case map_of m k of None \<Rightarrow> d | Some v \<Rightarrow> v)"
  by (simp add: map_contains_def map_at_def split: option.split)

lemma region_eq:
  "(if map_contains region_map (byte_uint b) then map_at region_map (byte_uint b) else Inr ''Unknown'') =
     Inr (if b = 0 then ''Japanese'' else if b = 1 then ''Non-Japanese'' else ''Unknown'')"
  unfolding contains_or_unknown by (simp add: region_map_def)

lemma cartridge_type_key: "map_of cartridge_type_map (byte_uint b) = None \<longleftrightarrow> \<not> known_type b"
  by (simp add: map_of_eq_None_iff cartridge_type_map_def known_type_def)

lemma small_bytes:
  "(b :: u8) \<le> 8 \<longleftrightarrow> b \<in> {0, 1, 2, 3, 4, 5, 6, 7, 8}" "(b :: u8) \<le> 5 \<longleftrightarrow> b \<in> {0, 1, 2, 3, 4, 5}"
proof -
  have "unat b \<le> 8 \<longleftrightarrow> unat b \<in> {0, 1, 2, 3, 4, 5, 6, 7, 8}" by auto
  then show "b \<le> 8 \<longleftrightarrow> b \<in> {0, 1, 2, 3, 4, 5, 6, 7, 8}"
    by (simp add: word_le_nat_alt word_unat_eq_iff)
  have "unat b \<le> 5 \<longleftrightarrow> unat b \<in> {0, 1, 2, 3, 4, 5}" by auto
  then show "b \<le> 5 \<longleftrightarrow> b \<in> {0, 1, 2, 3, 4, 5}"
    by (simp add: word_le_nat_alt word_unat_eq_iff)
qed

lemma rom_size_key: "map_of rom_size_map (byte_uint b) = None \<longleftrightarrow> \<not> known_rom_size b"
  by (simp add: map_of_eq_None_iff rom_size_map_def known_rom_size_def small_bytes disj_ac)

lemma ram_size_key: "map_of ram_size_map (byte_uint b) = None \<longleftrightarrow> \<not> known_ram_size b"
  by (simp add: map_of_eq_None_iff ram_size_map_def known_ram_size_def small_bytes)

lemma rom_size_value:
  assumes "known_rom_size b"
  shows "snd (the (map_of rom_size_map (byte_uint b))) = rom_banks b"
proof -
  have "b \<in> {0, 1, 2, 3, 4, 5, 6, 7, 8, 0x52, 0x53, 0x54}"
    using assms by (simp add: known_rom_size_def small_bytes)
  then show ?thesis by (elim insertE emptyE) (simp_all add: rom_size_map_def rom_banks_def)
qed

lemma ram_size_value:
  assumes "known_ram_size b"
  shows "snd (the (map_of ram_size_map (byte_uint b))) = ram_kib b"
proof -
  have "b \<in> {0, 1, 2, 3, 4, 5}"
    using assms by (simp add: known_ram_size_def small_bytes)
  then show ?thesis by (elim insertE emptyE) (simp_all add: ram_size_map_def ram_kib_def)
qed

section \<open>Reading the header\<close>

lemma header_byte_simps [simp]:
  "i < length d \<Longrightarrow> header_byte d i = Inr (d ! i)"
  "\<not> i < length d \<Longrightarrow> header_byte d i = Inl OutOfBounds"
  by (simp_all add: header_byte_def)

lemma read_title_eq:
  "(\<And>i. i \<in> set is \<Longrightarrow> i < length d) \<Longrightarrow>
    read_title d is = Inr (map byte_char (takeWhile (\<lambda>b. b \<noteq> 0) (map ((!) d) is)))"
  by (induction "is") simp_all

lemma read_title_errors: "only_errors {OutOfBounds} (read_title d is)"
  by (induction "is") (auto simp: header_byte_def intro!: only_errors_rbind)

lemma read_title_slice:
  assumes "a + n \<le> length d"
  shows "read_title d [a..<a + n] = Inr (map byte_char (takeWhile (\<lambda>b. b \<noteq> 0) (take n (drop a d))))"
proof -
  have "map ((!) d) [a..<a + n] = take n (drop a d)"
    using assms by (intro nth_equalityI) simp_all
  moreover have "i < length d" if "i \<in> set [a..<a + n]" for i using assms that by simp
  ultimately show ?thesis using read_title_eq [of "[a..<a + n]" d] by simp
qed

lemma header_title:
  assumes "0x14C \<le> length d"
  shows "read_title d [kAdrTitleStart..<Suc kAdrTitleEnd] =
    Inr (map byte_char (takeWhile (\<lambda>b. b \<noteq> 0) (take 16 (drop 0x134 d))))"
proof -
  have e: "Suc kAdrTitleEnd = kAdrTitleStart + 16" "kAdrTitleStart = 0x134"
    by (simp_all add: header_addresses)
  then have "kAdrTitleStart + 16 \<le> length d" using assms by simp
  from read_title_slice [OF this] show ?thesis unfolding e(1) by (simp only: e(2))
qed

lemma read_license_eq:
  assumes "0x14C \<le> length d"
  shows "read_license d (d ! 0x14B = 0x33) = Inr (license_of d)"
proof -
  have "read_key d [kAdrNewLicenseStart..<Suc kAdrNewLicenseEnd] =
      Inr [byte_char (d ! 0x144), byte_char (d ! 0x145)]"
    using assms by (simp add: header_addresses upt_rec)
  then show ?thesis
    using assms by (simp add: read_license_def contains_or_unknown license_of_def kAdrOldLicense_def)
qed

lemma new_GameInfo_complete:
  assumes "0x14C \<le> length d"
  shows "new_GameInfo (Some d) =
    (if known_type (d ! 0x147) \<and> known_rom_size (d ! 0x148) \<and> known_ram_size (d ! 0x149)
     then Inr (header_info d) else Inl OutOfRange)"
proof -
  have at: "map_at m k = (if map_of m k = None then Inl OutOfRange else Inr (the (map_of m k)))"
    for m :: "('k \<times> 'v) list" and k
    by (cases "map_of m k") simp_all
  have len: "i < length d" if "i < 0x14C" for i using that assms by simp
  show ?thesis
    unfolding new_GameInfo_def option.case header_title [OF assms] region_eq rbind_simps
    by (simp add: len read_license_eq [OF assms] kAdrOldLicense_def kAdrSgbFunc_def kAdrCartType_def
        kAdrRomSize_def kAdrRamSize_def kAdrRegionCode_def at cartridge_type_key rom_size_key
        ram_size_key header_info_def)
qed

lemma new_GameInfo_short:
  assumes "length d < 0x14C"
  shows "new_GameInfo (Some d) = Inl OutOfBounds"
proof (cases "read_title d [kAdrTitleStart..<Suc kAdrTitleEnd]")
  case (Inl e)
  then show ?thesis
    using read_title_errors [of d "[kAdrTitleStart..<Suc kAdrTitleEnd]"]
    by (simp add: new_GameInfo_def del: upt_Suc)
next
  case (Inr t)
  then show ?thesis
    using assms by (simp add: new_GameInfo_def kAdrOldLicense_def del: upt_Suc)
qed

lemma new_GameInfo_errors: "only_errors {FileError, OutOfBounds, OutOfRange} (new_GameInfo game)"
proof (cases game)
  case None
  then show ?thesis by (simp add: new_GameInfo_def)
next
  case (Some d)
  then show ?thesis
    by (cases "length d < 0x14C") (simp_all add: new_GameInfo_short new_GameInfo_complete)
qed

lemma Cartridge_Cartridge_errors:
  "only_errors {FileError, OutOfBounds, OutOfRange, AssertFailed, UnknownCartridge}
     (Cartridge_Cartridge game boot sf quick save)"
proof (cases "new_GameInfo game")
  case (Inl e)
  then show ?thesis using new_GameInfo_errors [of game] by (auto simp: Cartridge_Cartridge_def)
next
  case (Inr g)
  have "only_errors {FileError, AssertFailed, UnknownCartridge}
      (new_Cartridge (GetCartridgeType g) game (boot_source boot quick) sf save)"
    by (rule new_Cartridge_errors)
  then show ?thesis
    using Inr
    by (cases "new_Cartridge (GetCartridgeType g) game (boot_source boot quick) sf save")
      (auto simp: Cartridge_Cartridge_def)
qed

lemma Cartridge_Cartridge_ok:
  "Cartridge_Cartridge game boot sf quick save = Inr (g, c) \<Longrightarrow> mbc_ok c"
  by (auto simp: Cartridge_Cartridge_def rbind_Inr_iff intro: new_Cartridge_ok)

text \<open>
  C38. The header of a game file as the program reads it. A file that cannot be opened is an error; a
  file of fewer than 0x14C bytes is read beyond its end; a type, ROM size or RAM size byte that is
  not in the tables, bytes from 0x80 on included because of their sign, ends in an exception. In all
  other cases the title is the bytes from 0x134 up to the first zero or the sixteenth, the licensee
  is the new code's if the old code is 0x33, and the sizes are those of the tables: ROM codes 1 to 8
  are 2 to the power of the code plus one banks, but code 0 (two banks of 16 KiB) is given as 0.
\<close>

theorem Game_header:
  "new_GameInfo game =
     (case game of
        None \<Rightarrow> Inl FileError
      | Some d \<Rightarrow>
          if length d < 0x14C then Inl OutOfBounds
          else if known_type (d ! 0x147) \<and> known_rom_size (d ! 0x148) \<and> known_ram_size (d ! 0x149)
          then Inr (header_info d) else Inl OutOfRange) \<and>
   (\<forall>g. new_GameInfo game = Inr g \<longrightarrow>
      GetRomSize g = rom_banks (the game ! 0x148) \<and> GetRamSize g = ram_kib (the game ! 0x149) \<and>
      length (GetTitle g) \<le> 16)"
proof (cases game)
  case None
  then show ?thesis by (simp add: new_GameInfo_def)
next
  case (Some d)
  show ?thesis
  proof (cases "length d < 0x14C")
    case True
    then show ?thesis using Some by (simp add: new_GameInfo_short)
  next
    case False
    have "length (title (header_info d)) \<le> 16"
      unfolding header_info_def by (simp add: le_trans [OF length_takeWhile_le])
    then show ?thesis
      using Some False
      by (auto simp: new_GameInfo_complete GetRomSize_def GetRamSize_def GetTitle_def header_info_def
          rom_size_value ram_size_value split: if_splits)
  qed
qed

definition test_game :: "u8 \<Rightarrow> u8 list" where
  "test_game t = (replicate 0x134 0 @ [0x44, 0x55, 0x4D, 0x4D, 0x59] @ replicate 0x7ED0 0)[0x147 := t, 0x148 := 2, 0x149 := 3]"

lemma test_game_simps [simp]:
  "length (test_game t) = 0x8009" "test_game t ! 0x147 = t" "test_game t ! 0x148 = 2" "test_game t ! 0x149 = 3"
  by (simp_all add: test_game_def)

lemma Game_header_witness:
  "\<exists>g. new_GameInfo (Some (test_game 0x1B)) = Inr g \<and> GetRomSize g = 8 \<and> GetRamSize g = 32"
proof -
  have "new_GameInfo (Some (test_game 0x1B)) = Inr (header_info (test_game 0x1B))"
    using Game_header [of "Some (test_game 0x1B)"]
    by (simp add: known_type_def known_rom_size_def known_ram_size_def)
  then show ?thesis
    using Game_header [of "Some (test_game 0x1B)"] by (simp add: rom_banks_def ram_kib_def)
qed

section \<open>The controller\<close>

lemma type_name:
  assumes "known_type (d ! 0x147)"
  shows "GetCartridgeType (header_info d) = the (map_of cartridge_type_map (byte_uint (d ! 0x147)))"
  by (simp add: GetCartridgeType_def header_info_def)

lemma new_Cartridge_by_type:
  assumes "known_type t"
  shows "new_Cartridge (the (map_of cartridge_type_map (byte_uint t))) game b sf save =
    (if t = 0 then map_sum id MbcRom (new_Rom game b sf)
     else if t \<in> {1, 2, 3} then map_sum id MbcOne (new_Mbc1 game b sf save)
     else if t \<in> {0x11, 0x12, 0x13} then map_sum id MbcThree (new_Mbc3 game b sf save)
     else if t \<in> {0x19, 0x1A, 0x1B} then map_sum id MbcFive (new_Mbc5 game b sf)
     else Inl UnknownCartridge)"
  using assms unfolding known_type_def
  by (elim insertE emptyE; hypsubst) (simp_all add: cartridge_type_map_def new_Cartridge_def)

text \<open>What the lower bank holds after loading: the boot ROM over the game.\<close>

definition boot_bytes :: "u8 list option option \<Rightarrow> bool \<Rightarrow> u8 list option" where
  "boot_bytes boot quick =
     (case boot of None \<Rightarrow> Some (if quick then kQuickBoot else kOriginalBoot) | Some content \<Rightarrow> content)"

definition rom_low_holds :: "u8 list \<Rightarrow> u8 list \<Rightarrow> GenericMemory \<Rightarrow> bool" where
  "rom_low_holds b d low \<longleftrightarrow>
     (\<forall>i < 0x4000. i < length b \<or> i < length d \<longrightarrow> mem_data low i = (if i < length b then b ! i else d ! i))"

lemma load_roms_content:
  assumes "game_file c = Some d" and "0x4000 \<le> length d" and "boot_bytes boot quick = Some b"
    and "memory_size (rom_low c) = 0x4000" and "0x4000 \<le> memory_size (bs_mem (rom_high c))"
  shows "\<exists>low high. load_roms (boot_source boot quick) c = Inr (c\<lparr>rom_low := low, rom_high := high\<rparr>) \<and>
    rom_low_holds b d low"
proof -
  obtain l1 where l1: "LoadFromFile (Some d) 0 (rom_low c) = Inr l1" "memory_size l1 = 0x4000"
    and d1: "\<And>i. i < 0x4000 \<Longrightarrow> i < length d \<Longrightarrow> mem_data l1 i = d ! i"
    using assms(2,4)
    by (intro that [of "(rom_low c)\<lparr>mem_data := \<lambda>i. if i < 0x4000 then d ! i else mem_data (rom_low c) i\<rparr>"])
      (auto simp: LoadFromFile_def LoadFromFile_size_def Let_def cong: if_cong)
  obtain l2 where l2: "LoadBootRom (boot_source boot quick) l1 = Inr l2"
    and d2: "\<And>i. i < 0x4000 \<Longrightarrow> mem_data l2 i = (if i < length b then b ! i else mem_data l1 i)"
  proof (cases boot)
    case None
    then show ?thesis
      using assms(3) l1(2)
      by (intro that [of "LoadFromData b l1"])
        (auto simp: boot_source_def boot_bytes_def LoadBootRom_def LoadFromData_def)
  next
    case (Some f)
    let ?m = "l1\<lparr>mem_data := (\<lambda>i. if i < min (length b) 0x4000 then b ! i else mem_data l1 i)\<rparr>"
    have "nat (LoadFromFile_size (int (length b)) 0 0x4000) = min (length b) 0x4000"
      "\<not> LoadFromFile_size (int (length b)) 0 0x4000 < 0"
      by (simp_all add: LoadFromFile_size_def)
    then have "LoadFromFile (Some b) 0 l1 = Inr ?m"
      using l1(2) by (simp add: LoadFromFile_def cong: if_cong)
    with Some assms(3) show ?thesis
      by (intro that [of ?m]) (auto simp: boot_source_def boot_bytes_def LoadBootRom_def)
  qed
  have "\<not> LoadFromFile_size (int (length d)) 0x4000 (int (memory_size (bs_mem (rom_high c)))) < 0"
    using assms(2,5) by (simp add: LoadFromFile_size_def)
  then obtain high where "bs_LoadFromFile (Some d) 0x4000 (rom_high c) = Inr high"
    using assms(2) by (simp add: bs_LoadFromFile_def LoadFromFile_def Let_def)
  then have "load_roms (boot_source boot quick) c = Inr (c\<lparr>rom_low := l2, rom_high := high\<rparr>)"
    using l1(1) l2 assms(1) by (simp add: load_roms_def)
  moreover have "rom_low_holds b d l2"
    using d1 d2 by (auto simp: rom_low_holds_def)
  ultimately show ?thesis by blast
qed

lemma load_save_works:
  "\<exists>ram. (case save of None \<Rightarrow> Inr c | Some content \<Rightarrow> map_sum id (\<lambda>ram. c\<lparr>ext_ram := ram\<rparr>)
     (bs_LoadFromFile (Some content) 0 (ext_ram c))) = Inr (c\<lparr>ext_ram := ram\<rparr>)"
  by (cases save) (auto simp: bs_LoadFromFile_def LoadFromFile_def LoadFromFile_size_def Let_def
      intro: exI [of _ "ext_ram c"])

definition supported_type :: "u8 \<Rightarrow> bool" where
  "supported_type t \<longleftrightarrow> t \<in> {0, 1, 2, 3, 0x11, 0x12, 0x13, 0x19, 0x1A, 0x1B}"

lemma new_controller_sizes:
  "memory_size (rom_low (MemoryBankCtrler.extend (new_ctrler n k sf game) x)) = 0x4000"
  "memory_size (bs_mem (rom_high (MemoryBankCtrler.extend (new_ctrler n k sf game) x))) = 0x4000 * n"
  "game_file (MemoryBankCtrler.extend (new_ctrler n k sf game) x) = game"
  "memory_size (rom_low (new_ctrler n k sf game)) = 0x4000"
  "memory_size (bs_mem (rom_high (new_ctrler n k sf game))) = 0x4000 * n"
  "game_file (new_ctrler n k sf game) = game"
  by (simp_all add: MemoryBankCtrler.extend_def new_ctrler_def new_memory_def new_BankSwitchedMem_def)

lemma controller_loads:
  assumes "0x4000 \<le> length d" and "boot_bytes boot quick = Some b"
  shows "\<exists>c. new_Rom (Some d) (boot_source boot quick) sf = Inr c \<and> rom_low_holds b d (rom_low c)"
    and "\<exists>c. new_Mbc1 (Some d) (boot_source boot quick) sf save = Inr c \<and> rom_low_holds b d (rom_low c)"
    and "\<exists>c. new_Mbc3 (Some d) (boot_source boot quick) sf save = Inr c \<and> rom_low_holds b d (rom_low c)"
    and "\<exists>c. new_Mbc5 (Some d) (boot_source boot quick) sf = Inr c \<and> rom_low_holds b d (rom_low c)"
proof -
  note load = load_roms_content [OF _ assms(1) assms(2)]
  show "\<exists>c. new_Rom (Some d) (boot_source boot quick) sf = Inr c \<and> rom_low_holds b d (rom_low c)"
    unfolding new_Rom_def using load [of "new_ctrler 1 1 sf (Some d)"]
    by (auto simp: new_controller_sizes)
  show "\<exists>c. new_Mbc5 (Some d) (boot_source boot quick) sf = Inr c \<and> rom_low_holds b d (rom_low c)"
    unfolding new_Mbc5_def
    using load [of "MemoryBankCtrler.extend (new_ctrler 512 16 sf (Some d)) (Mbc5.fields 0 0 0 False)"]
    by (auto simp: new_controller_sizes)
  obtain l h where 1: "load_roms (boot_source boot quick)
      (MemoryBankCtrler.extend (new_ctrler 128 4 sf (Some d)) (Mbc1.fields 0 0 False False)) =
      Inr ((MemoryBankCtrler.extend (new_ctrler 128 4 sf (Some d)) (Mbc1.fields 0 0 False False))
        \<lparr>rom_low := l, rom_high := h\<rparr>)" "rom_low_holds b d l"
    using load [of "MemoryBankCtrler.extend (new_ctrler 128 4 sf (Some d)) (Mbc1.fields 0 0 False False)"]
    by (auto simp: new_controller_sizes)
  show "\<exists>c. new_Mbc1 (Some d) (boot_source boot quick) sf save = Inr c \<and> rom_low_holds b d (rom_low c)"
    unfolding new_Mbc1_def 1(1) rbind_simps using load_save_works 1(2) by fastforce
  obtain l h where 3: "load_roms (boot_source boot quick)
      (MemoryBankCtrler.extend (new_ctrler 128 4 sf (Some d)) (Mbc3.fields 0 False False False)) =
      Inr ((MemoryBankCtrler.extend (new_ctrler 128 4 sf (Some d)) (Mbc3.fields 0 False False False))
        \<lparr>rom_low := l, rom_high := h\<rparr>)" "rom_low_holds b d l"
    using load [of "MemoryBankCtrler.extend (new_ctrler 128 4 sf (Some d)) (Mbc3.fields 0 False False False)"]
    by (auto simp: new_controller_sizes)
  show "\<exists>c. new_Mbc3 (Some d) (boot_source boot quick) sf save = Inr c \<and> rom_low_holds b d (rom_low c)"
    unfolding new_Mbc3_def 3(1) rbind_simps using load_save_works 3(2) by fastforce
qed

lemma Cartridge_loads:
  assumes "0x4000 \<le> length d" and "known_rom_size (d ! 0x148)" and "known_ram_size (d ! 0x149)"
    and "supported_type (d ! 0x147)" and "boot_bytes boot quick = Some b"
  shows "\<exists>c. Cartridge_Cartridge (Some d) boot sf quick save = Inr (header_info d, c) \<and>
    rom_low_holds b d (mbc_rom_low c)"
proof -
  have known: "known_type (d ! 0x147)"
    using assms(4) by (auto simp: known_type_def supported_type_def)
  have "\<exists>c. new_Cartridge (GetCartridgeType (header_info d)) (Some d) (boot_source boot quick) sf save = Inr c \<and>
      rom_low_holds b d (mbc_rom_low c)"
    using assms(4) controller_loads(1,4) [OF assms(1,5), of sf] controller_loads(2,3) [OF assms(1,5), of sf save]
    unfolding type_name [OF known] new_Cartridge_by_type [OF known] supported_type_def
    by (elim insertE emptyE) auto
  then show ?thesis
    using new_GameInfo_complete [of d] assms(1-3) known by (auto simp: Cartridge_Cartridge_def)
qed

text \<open>
  C39. The type byte at 0x147 decides the memory bank controller: 0 none, 1 to 3 MBC1, 0x11 to 0x13
  MBC3, 0x19 to 0x1B MBC5. The other types of the table, MBC3 with a clock among them, are rejected as
  not implemented, and a byte outside the table ends in an exception of the lookup.
\<close>

theorem Game_types:
  assumes "0x14C \<le> length d" and "known_rom_size (d ! 0x148)" and "known_ram_size (d ! 0x149)"
  shows "Cartridge_Cartridge (Some d) boot sf quick save =
    (let t = d ! 0x147; b = boot_source boot quick in
     map_sum id (Pair (header_info d))
       (if t = 0 then map_sum id MbcRom (new_Rom (Some d) b sf)
        else if t \<in> {1, 2, 3} then map_sum id MbcOne (new_Mbc1 (Some d) b sf save)
        else if t \<in> {0x11, 0x12, 0x13} then map_sum id MbcThree (new_Mbc3 (Some d) b sf save)
        else if t \<in> {0x19, 0x1A, 0x1B} then map_sum id MbcFive (new_Mbc5 (Some d) b sf)
        else Inl (if known_type t then UnknownCartridge else OutOfRange)))"
proof (cases "known_type (d ! 0x147)")
  case True
  have "rbind r (\<lambda>x. Inr (g, x)) = map_sum id (Pair g) r" for r :: "mbc res" and g :: GameInfo
    by (cases r) simp_all
  with True show ?thesis
    using assms
    by (simp only: Cartridge_Cartridge_def new_GameInfo_complete type_name new_Cartridge_by_type
        rbind_simps if_True simp_thms Let_def)
next
  case False
  moreover have "t \<notin> {0, 1, 2, 3, 0x11, 0x12, 0x13, 0x19, 0x1A, 0x1B}" if "\<not> known_type t" for t
    using that by (auto simp: known_type_def)
  ultimately show ?thesis
    using assms by (simp add: Cartridge_Cartridge_def new_GameInfo_complete Let_def)
qed

lemma Game_types_witness:
  "Cartridge_Cartridge (Some (test_game 0x10)) None False True None = Inl UnknownCartridge \<and>
   Cartridge_Cartridge (Some (test_game 0xFC)) None False True None = Inl OutOfRange"
  using Game_types [of "test_game 0x10" None False True None] Game_types [of "test_game 0xFC" None False True None]
  by (simp add: known_type_def known_rom_size_def known_ram_size_def)

end
