(* ===== verification/Gdb_Packets.thy ===== *)
theory Gdb_Packets
  imports Cpp_Strings
begin

text \<open>
  The strings of the debugger's remote protocol, the part of \<^verbatim>\<open>src/gdb_server.cpp\<close> that needs no
  state: check sums, packets and the pattern that splits a command into its parts. The matching of
  \<^verbatim>\<open>std::regex\<close> is modelled as far as the server uses it.
\<close>

section \<open>Packets\<close>

definition GetChecksumStr :: "string \<Rightarrow> string" where
  "GetChecksumStr msg =
     (let checksum = foldl (\<lambda>s c. s + char_uint c) 0 msg AND 0xFF in
      format_hex 2 (unat checksum))"

definition Packetify :: "string \<Rightarrow> string" where
  "Packetify msg = (let checksum = GetChecksumStr msg in ''$'' @ msg @ ''#'' @ checksum)"

section \<open>Commands\<close>

definition is_feature_letter :: "char \<Rightarrow> bool" where
  "is_feature_letter c = (char_in 65 90 c \<or> char_in 97 122 c \<or> c = CHR ''-'')"

text \<open>
  An alternative of the pattern is a list of items: a character that is not captured, or a group with
  the language of what it captures. A group takes the longest prefix of its language with which the
  rest of the alternative matches.
\<close>

datatype item = Skip char | Group "string \<Rightarrow> bool"

fun longest :: "nat \<Rightarrow> (nat \<Rightarrow> 'a option) \<Rightarrow> 'a option" where
  "longest 0 f = f 0"
| "longest (Suc n) f = (case f (Suc n) of Some x \<Rightarrow> Some x | None \<Rightarrow> longest n f)"

fun match_items :: "item list \<Rightarrow> string \<Rightarrow> string list option" where
  "match_items [] s = (if s = [] then Some [] else None)"
| "match_items (Skip c # ps) s =
     (case s of [] \<Rightarrow> None | x # xs \<Rightarrow> if x = c then match_items ps xs else None)"
| "match_items (Group p # ps) s =
     longest (length s) (\<lambda>n.
       if p (take n s) then map_option (Cons (take n s)) (match_items ps (drop n s)) else None)"

definition lit :: "string \<Rightarrow> item" where
  "lit w = Group (\<lambda>s. s = w)"

definition one_of :: "(char \<Rightarrow> bool) \<Rightarrow> item" where
  "one_of p = Group (\<lambda>s. length s = 1 \<and> list_all p s)"

definition many :: "(char \<Rightarrow> bool) \<Rightarrow> item" where
  "many p = Group (list_all p)"

definition some_of :: "(char \<Rightarrow> bool) \<Rightarrow> item" where
  "some_of p = Group (\<lambda>s. s \<noteq> [] \<and> list_all p s)"

text \<open>
  The words of \<^verbatim>\<open>(?:[a-zA-Z-]+\+?;?)+\<close>: after a letter anything may follow, after a plus sign a
  letter or a semicolon, after a semicolon a letter. The argument is whether a plus sign and whether
  a semicolon may come next.
\<close>

fun features_from :: "bool \<Rightarrow> bool \<Rightarrow> string \<Rightarrow> bool" where
  "features_from p q [] = True"
| "features_from p q (c # s) =
     (if is_feature_letter c then features_from True True s
      else if c = CHR ''+'' then p \<and> features_from False True s
      else if c = CHR '';'' then q \<and> features_from False False s
      else False)"

definition features :: "string \<Rightarrow> bool" where
  "features s = (s \<noteq> [] \<and> features_from False False s)"

definition command_pattern :: "item list list" where
  "command_pattern =
     [[lit ''?''], [lit ''D''], [lit ''g''],
      [lit ''c'', many is_digit],
      [lit ''G'', some_of is_xdigit],
      [lit ''M'', some_of is_xdigit, Skip CHR '','', some_of is_xdigit, Skip CHR '':'', some_of is_xdigit],
      [lit ''m'', some_of is_xdigit, Skip CHR '','', some_of is_xdigit],
      [one_of (\<lambda>c. c \<in> {CHR ''z'', CHR ''Z''}), one_of (char_in 48 49), Skip CHR '','',
       some_of is_xdigit, Skip CHR '','', one_of is_digit],
      [lit ''qAttached''],
      [lit ''qSupported'', Skip CHR '':'', Group features]]"

fun match_alternatives :: "item list list \<Rightarrow> string \<Rightarrow> string list" where
  "match_alternatives [] s = []"
| "match_alternatives (p # ps) s =
     (case match_items p s of Some groups \<Rightarrow> groups | None \<Rightarrow> match_alternatives ps s)"

text \<open>The groups of the other alternatives are empty, and empty groups are dropped.\<close>

definition SplitMsg :: "string \<Rightarrow> string list" where
  "SplitMsg msg = filter (\<lambda>g. g \<noteq> []) (match_alternatives command_pattern msg)"

end
