(* ===== verification/Tcp_Server.thy ===== *)
theory Tcp_Server
  imports Prelude
begin

text \<open>
  \<^verbatim>\<open>src/tcp_server.cpp\<close>: the connection to the debugger. The calls of the operating system's sockets
  are inputs: what \<^verbatim>\<open>socket\<close>, \<^verbatim>\<open>bind\<close>, \<^verbatim>\<open>listen\<close> and \<^verbatim>\<open>accept\<close> return, and what arrives at the socket.
\<close>

section \<open>State\<close>

text \<open>
  \<open>available\<close> are the bytes that have arrived and \<open>arrivals\<close> what arrives while the server waits: more
  bytes, the end of the stream, or an error. \<open>outbox\<close> are the bytes sent so far, \<open>send_works\<close> tells
  whether \<^verbatim>\<open>send\<close> succeeds, and \<open>stale\<close> are the contents of the uninitialised buffer of the
  \<open>calls\<close>-th call of \<^verbatim>\<open>RecvBlocking\<close>.
\<close>

datatype arrival = Arrives string | PeerCloses | RecvFails

record TcpServer =
  socket_fd :: int
  client_fd :: int
  available :: string
  arrivals :: "arrival list"
  outbox :: string
  send_works :: bool
  stale :: "nat \<Rightarrow> nat \<Rightarrow> char"
  calls :: nat

definition new_TcpServer :: "arrival list \<Rightarrow> (nat \<Rightarrow> nat \<Rightarrow> char) \<Rightarrow> TcpServer" where
  "new_TcpServer as st =
     \<lparr>socket_fd = 0, client_fd = 0, available = '''', arrivals = as, outbox = '''',
      send_works = True, stale = st, calls = 0\<rparr>"

definition kMaxPacketSize :: nat where "kMaxPacketSize = 4096"

section \<open>Operations\<close>

definition DataAvailable :: "TcpServer \<Rightarrow> bool" where
  "DataAvailable c = (length (available c) \<noteq> 0)"

definition AcceptClient :: "int \<Rightarrow> TcpServer \<Rightarrow> TcpServer res" where
  "AcceptClient accept_result c =
     (let c = c\<lparr>client_fd := accept_result\<rparr> in
      if client_fd c = -1 then Inl SystemError else Inr c)"

definition Start :: "int \<Rightarrow> int \<Rightarrow> int \<Rightarrow> TcpServer \<Rightarrow> TcpServer res" where
  "Start socket_result bind_result listen_result c =
     (let c = c\<lparr>socket_fd := socket_result\<rparr> in
      if socket_fd c = -1 then Inl SystemError
      else if bind_result = -1 then Inl SystemError
      else if listen_result = -1 then Inl SystemError
      else Inr c)"

text \<open>The message is a C string: it ends at the first zero.\<close>

definition c_str :: "string \<Rightarrow> string" where
  "c_str = takeWhile (\<lambda>c. c \<noteq> CHR 0x00)"

definition SendMsg :: "string \<Rightarrow> TcpServer \<Rightarrow> TcpServer res" where
  "SendMsg msg c =
     (if send_works c then Inr (c\<lparr>outbox := outbox c @ c_str msg\<rparr>) else Inl SystemError)"

text \<open>
  \<^verbatim>\<open>recv\<close> waits until something has arrived and takes at most \<open>n\<close> bytes of it; no bytes are the end
  of the stream.
\<close>

fun recv_from :: "nat \<Rightarrow> string \<Rightarrow> arrival list \<Rightarrow> (string \<times> string \<times> arrival list) res" where
  "recv_from n (x # xs) as = Inr (take n (x # xs), drop n (x # xs), as)"
| "recv_from n [] [] = Inl Blocked"
| "recv_from n [] (Arrives s # as) = recv_from n s as"
| "recv_from n [] (PeerCloses # as) = Inr ([], [], PeerCloses # as)"
| "recv_from n [] (RecvFails # as) = Inl SystemError"

text \<open>
  The terminating zero is stored behind the requested length. When fewer bytes were received, the
  bytes between are those that were in the buffer before.
\<close>

definition RecvBlocking :: "nat \<Rightarrow> TcpServer \<Rightarrow> (string \<times> TcpServer) res" where
  "RecvBlocking n c =
     (if n < kMaxPacketSize then
        rbind (recv_from n (available c) (arrivals c)) (\<lambda>(got, av, as).
          let msg = got @ map (stale c (calls c)) [length got..<n] in
          Inr (c_str msg, c\<lparr>available := av, arrivals := as, calls := calls c + 1\<rparr>))
      else Inl AssertFailed)"

section \<open>What is left to read\<close>

text \<open>\<open>unread c\<close> bounds the bytes that can still be received.\<close>

fun arriving :: "arrival list \<Rightarrow> nat" where
  "arriving [] = 0"
| "arriving (Arrives s # as) = length s + arriving as"
| "arriving (a # as) = arriving as"

definition unread :: "TcpServer \<Rightarrow> nat" where
  "unread c = length (available c) + arriving (arrivals c)"

lemma recv_from_unread:
  "recv_from n s as = Inr (got, av, as') \<Longrightarrow>
    length got + length av + arriving as' = length s + arriving as \<and> length got \<le> n"
  by (induction n s as rule: recv_from.induct) auto

lemma RecvBlocking_unread:
  assumes "RecvBlocking n c = Inr (s, d)"
  shows "unread d \<le> unread c" and "DataAvailable c \<Longrightarrow> 0 < n \<Longrightarrow> unread d < unread c"
    and "outbox d = outbox c" and "send_works d = send_works c" and "length s \<le> n"
proof -
  obtain got av as where r: "recv_from n (available c) (arrivals c) = Inr (got, av, as)"
    and s: "s = c_str (got @ map (stale c (calls c)) [length got..<n])"
    and d: "d = c\<lparr>available := av, arrivals := as, calls := calls c + 1\<rparr>"
    using assms by (auto simp: RecvBlocking_def rbind_Inr_iff Let_def split: if_splits)
  note u = recv_from_unread [OF r]
  have "length s \<le> length (got @ map (stale c (calls c)) [length got..<n])"
    unfolding s c_str_def by (rule length_takeWhile_le)
  with u show "length s \<le> n" by simp
  show "unread d \<le> unread c" "outbox d = outbox c" "send_works d = send_works c"
    using u by (simp_all add: d unread_def)
  assume a: "DataAvailable c" "0 < n"
  then have "0 < length got"
    using r by (cases "available c") (auto simp: DataAvailable_def)
  with u show "unread d < unread c"
    by (simp add: d unread_def del: length_greater_0_conv)
qed

lemma c_str_id [simp]: "CHR 0x00 \<notin> set w \<Longrightarrow> c_str w = w"
  unfolding c_str_def by (subst takeWhile_eq_all_conv) auto

text \<open>Bytes that have arrived in time are received as they are.\<close>

lemma RecvBlocking_available:
  assumes "available c = w @ rest" and "w \<noteq> []" and "length w < kMaxPacketSize"
    and "CHR 0x00 \<notin> set w"
  shows "RecvBlocking (length w) c = Inr (w, c\<lparr>available := rest, calls := calls c + 1\<rparr>)"
proof -
  obtain x xs where w: "w = x # xs" using assms(2) by (cases w) auto
  have "recv_from (length w) (available c) (arrivals c) = Inr (w, rest, arrivals c)"
    by (simp add: assms(1) w)
  then show ?thesis
    using assms(3,4) by (simp add: RecvBlocking_def)
qed

lemma SendMsg_works:
  "send_works c \<Longrightarrow> CHR 0x00 \<notin> set msg \<Longrightarrow> SendMsg msg c = Inr (c\<lparr>outbox := outbox c @ msg\<rparr>)"
  by (simp add: SendMsg_def)

end
