(* ===== verification/Gdb_Server.thy ===== *)
theory Gdb_Server
  imports Cpu_Jumptable Gdb_Packets Tcp_Server
begin

text \<open>
  The debugger's server of \<^verbatim>\<open>src/gdb_server.cpp\<close>: receiving and answering messages, the commands, and
  the part of \<^verbatim>\<open>Cpu::DoMachineCycle\<close> that calls it. The server works on the CPU it belongs to, so
  its operations map a pair of server and CPU to such a pair. What is printed to the log is left out.
\<close>

section \<open>State\<close>

record GdbServer =
  is_attached :: bool
  bp_set :: "u16 set"
  tcp_server :: TcpServer

type_synonym 'm gdb_state = "GdbServer \<times> 'm cpu"

definition new_GdbServer :: "TcpServer \<Rightarrow> GdbServer" where
  "new_GdbServer tcp = \<lparr>is_attached = False, bp_set = {}, tcp_server = tcp\<rparr>"

definition kMsgAck :: string where "kMsgAck = ''+''"
definition kMsgEmpty :: string where "kMsgEmpty = ''+$#00''"
definition kMsgOk :: string where "kMsgOk = ''+$OK#9a''"

definition kMaxMessageLength :: nat where "kMaxMessageLength = 4096"

definition SIGTRAP :: nat where "SIGTRAP = 5"

definition gdb_send :: "string \<Rightarrow> GdbServer \<Rightarrow> GdbServer res" where
  "gdb_send msg g = rbind (SendMsg msg (tcp_server g)) (\<lambda>c. Inr (g\<lparr>tcp_server := c\<rparr>))"

definition gdb_reply :: "string \<Rightarrow> 'm gdb_state \<Rightarrow> 'm gdb_state res" where
  "gdb_reply msg = (\<lambda>(g, s). rbind (gdb_send msg g) (\<lambda>g. Inr (g, s)))"

text \<open>An access to a string of the split message, undefined behaviour beyond its end.\<close>

definition msg_part :: "string list \<Rightarrow> nat \<Rightarrow> string res" where
  "msg_part msg_split i = (if i < length msg_split then Inr (msg_split ! i) else Inl OutOfBounds)"

section \<open>Breakpoints and signals\<close>

definition BpReached :: "GdbServer \<Rightarrow> u16 \<Rightarrow> bool" where
  "BpReached g addr = (addr \<in> bp_set g)"

definition SendBpReached :: "GdbServer \<Rightarrow> GdbServer res" where
  "SendBpReached g = gdb_send (Packetify (''S'' @ format_hex 2 SIGTRAP)) g"

section \<open>Commands\<close>

definition CmdDetach :: "string list \<Rightarrow> 'm gdb_state \<Rightarrow> 'm gdb_state res" where
  "CmdDetach msg_split = (\<lambda>(g, s).
     gdb_reply kMsgOk (g\<lparr>is_attached := False\<rparr>, Continue s))"

definition string_contains :: "string \<Rightarrow> string \<Rightarrow> bool" where
  "string_contains s pat = list_ex (\<lambda>i. take (length pat) (drop i s) = pat) [0..<Suc (length s)]"

definition CmdSupported :: "string list \<Rightarrow> 'm gdb_state \<Rightarrow> 'm gdb_state res" where
  "CmdSupported msg_split st =
     rbind (msg_part msg_split 1) (\<lambda>offered.
     let msg_resp = (if string_contains offered ''hwbreak+;'' then ''hwbreak+;'' else '''') in
     gdb_reply (Packetify msg_resp) st)"

definition CmdAttached :: "string list \<Rightarrow> 'm gdb_state \<Rightarrow> 'm gdb_state res" where
  "CmdAttached msg_split = (\<lambda>(g, s). gdb_reply (Packetify ''1'') (g\<lparr>is_attached := True\<rparr>, s))"

definition CmdHalted :: "string list \<Rightarrow> 'm gdb_state \<Rightarrow> 'm gdb_state res" where
  "CmdHalted msg_split = (\<lambda>(g, s).
     gdb_reply (Packetify (''S'' @ format_hex 2 SIGTRAP)) (g, Halt s))"

definition CmdNotFound :: "string list \<Rightarrow> 'm gdb_state \<Rightarrow> 'm gdb_state res" where
  "CmdNotFound msg_split st = gdb_reply kMsgEmpty st"

definition CmdReadReg :: "string list \<Rightarrow> 'm gdb_state \<Rightarrow> 'm gdb_state res" where
  "CmdReadReg msg_split = (\<lambda>(g, s).
     let msg_resp =
       concat (map (\<lambda>q. format_hex 4 (unat (word_rotl 8 (get16 s q)))) [rAF, rBC, rDE, rHL, rSP, rPC])
       @ replicate (7 * 4) CHR ''x'' in
     gdb_reply (Packetify msg_resp) (g, s))"

definition CmdWriteReg :: "string list \<Rightarrow> 'm gdb_state \<Rightarrow> 'm gdb_state res" where
  "CmdWriteReg msg_split = (\<lambda>(g, s).
     rbind (msg_part msg_split 1) (\<lambda>data_str.
     if length data_str < 24 then Inl AssertFailed
     else
       rbind (for_each reg_vec (\<lambda>reg (i, s).
           rbind (substr i 4 data_str) (\<lambda>digits.
           rbind (stoi16 digits) (\<lambda>v.
             Inr (i + 4, put16 reg (word_rotl 8 (word_of_int v)) s)))) (0, s))
         (\<lambda>(i, s). gdb_reply kMsgOk (g, s))))"

definition CmdReadMem :: "'m socket \<Rightarrow> string list \<Rightarrow> 'm gdb_state \<Rightarrow> 'm gdb_state res" where
  "CmdReadMem sk msg_split = (\<lambda>(g, s).
     rbind (msg_part msg_split 1) (\<lambda>addr_str.
     rbind (msg_part msg_split 2) (\<lambda>length_str.
     rbind (stoi16 addr_str) (\<lambda>addr.
     rbind (stoi16 length_str) (\<lambda>len.
     rbind (for_each [0..<unat (word_of_int len :: u32)] (\<lambda>i (msg_resp, s).
         rbind (ReadBusDebug sk (ucast (word_of_int addr + of_nat i :: u32)) s) (\<lambda>(data, s).
           Inr (msg_resp @ format_hex 2 (unat data), s))) ('''', s))
       (\<lambda>(msg_resp, s). gdb_reply (Packetify msg_resp) (g, s)))))))"

definition CmdWriteMem :: "'m socket \<Rightarrow> string list \<Rightarrow> 'm gdb_state \<Rightarrow> 'm gdb_state res" where
  "CmdWriteMem sk msg_split = (\<lambda>(g, s).
     rbind (msg_part msg_split 1) (\<lambda>addr_str.
     rbind (msg_part msg_split 2) (\<lambda>length_str.
     rbind (msg_part msg_split 3) (\<lambda>data_str.
     rbind (stoi16 addr_str) (\<lambda>addr.
     rbind (stoi16 length_str) (\<lambda>len.
     rbind (for_each [0..<unat (word_of_int len :: u32)] (\<lambda>i s.
         rbind (substr (i * 2) 2 data_str) (\<lambda>digits.
         rbind (stoi16 digits) (\<lambda>data.
           WriteBusDebug sk (ucast (word_of_int addr + of_nat i :: u32)) (word_of_int data) s))) s)
       (\<lambda>s. gdb_reply kMsgOk (g, s))))))))"

definition CmdInsertBp :: "string list \<Rightarrow> 'm gdb_state \<Rightarrow> 'm gdb_state res" where
  "CmdInsertBp msg_split = (\<lambda>(g, s).
     rbind (msg_part msg_split 1) (\<lambda>kind.
     if kind = ''0'' \<or> kind = ''1'' then
       rbind (msg_part msg_split 2) (\<lambda>addr_str.
       rbind (stoi16 addr_str) (\<lambda>addr.
       gdb_reply (Packetify ''OK'')
         (g\<lparr>bp_set := insert (ucast (word_of_int addr :: u32)) (bp_set g)\<rparr>, s)))
     else gdb_reply (Packetify '''') (g, s)))"

definition CmdRemoveBp :: "string list \<Rightarrow> 'm gdb_state \<Rightarrow> 'm gdb_state res" where
  "CmdRemoveBp msg_split = (\<lambda>(g, s).
     rbind (msg_part msg_split 1) (\<lambda>kind.
     if kind = ''0'' \<or> kind = ''1'' then
       rbind (msg_part msg_split 2) (\<lambda>addr_str.
       rbind (stoi16 addr_str) (\<lambda>addr.
       gdb_reply (Packetify ''OK'')
         (g\<lparr>bp_set := bp_set g - {ucast (word_of_int addr :: u32)}\<rparr>, s)))
     else gdb_reply (Packetify '''') (g, s)))"

definition CmdContinue :: "string list \<Rightarrow> 'm gdb_state \<Rightarrow> 'm gdb_state res" where
  "CmdContinue msg_split = (\<lambda>(g, s). Inr (g, Continue s))"

section \<open>Messages\<close>

definition cmd_map ::
  "'m socket \<Rightarrow> string \<Rightarrow> (string list \<Rightarrow> 'm gdb_state \<Rightarrow> 'm gdb_state res) option" where
  "cmd_map sk = map_of
     [(''?'', CmdHalted), (''g'', CmdReadReg), (''G'', CmdWriteReg), (''D'', CmdDetach),
      (''m'', CmdReadMem sk), (''M'', CmdWriteMem sk), (''c'', CmdContinue), (''Z'', CmdInsertBp),
      (''z'', CmdRemoveBp), (''qSupported'', CmdSupported), (''qAttached'', CmdAttached)]"

text \<open>A message of less than four characters makes the length of the substring wrap around.\<close>

definition DecodeAndCall :: "'m socket \<Rightarrow> string \<Rightarrow> 'm gdb_state \<Rightarrow> 'm gdb_state res" where
  "DecodeAndCall sk msg st =
     rbind (substr 1 (if length msg < 4 then 2 ^ 64 - (4 - length msg) else length msg - 4) msg) (\<lambda>msg_stripped.
     case SplitMsg msg_stripped of
       [] \<Rightarrow> CmdNotFound [] st
     | name # args \<Rightarrow>
         (case cmd_map sk name of
            None \<Rightarrow> Inl AssertFailed
          | Some cmd \<Rightarrow> rbind (gdb_reply kMsgAck st) (cmd (name # args))))"

text \<open>\<^verbatim>\<open>str.at(0)\<close>\<close>

definition first_char :: "string \<Rightarrow> char res" where
  "first_char s = (case s of [] \<Rightarrow> Inl OutOfRange | c # _ \<Rightarrow> Inr c)"

text \<open>
  The loop that reads up to the \<^verbatim>\<open>#\<close>: the message so far, the sum of its characters, the connection.
\<close>

function recv_data :: "string \<Rightarrow> u32 \<Rightarrow> TcpServer \<Rightarrow> (string \<times> u32 \<times> TcpServer) res" where
  "recv_data str_buffer sum_to_check c =
     rbind (RecvBlocking 1 c) (\<lambda>(resp, c).
     let str_buffer = str_buffer @ resp in
     rbind (first_char resp) (\<lambda>r.
     let sum_to_check = sum_to_check + char_uint r in
     if kMaxMessageLength < length str_buffer then Inl LogicError
     else if r = CHR ''#'' then Inr (str_buffer, sum_to_check, c)
     else recv_data str_buffer sum_to_check c))"
  by pat_completeness auto

termination
  by (relation "measure (\<lambda>(str_buffer, _, _). Suc kMaxMessageLength - length str_buffer)")
    (auto simp: first_char_def kMaxMessageLength_def split: list.splits)

declare recv_data.simps [simp del]

definition RecvMsgBlocking :: "'m socket \<Rightarrow> 'm gdb_state \<Rightarrow> (string \<times> 'm gdb_state) res" where
  "RecvMsgBlocking sk = (\<lambda>(g, s).
     rbind (RecvBlocking 1 (tcp_server g)) (\<lambda>(resp, c).
     let g = g\<lparr>tcp_server := c\<rparr>; str_buffer = resp in
     rbind (first_char str_buffer) (\<lambda>r.
     if r = CHR ''+'' then Inr (str_buffer, g, s)
     else if r = CHR ''-'' then Inl LogicError
     else if r = CHR 0x03 then rbind (CmdHalted [] (g, s)) (\<lambda>st. Inr (str_buffer, st))
     else if r \<noteq> CHR ''$'' then Inl LogicError
     else
       rbind (recv_data str_buffer 0 c) (\<lambda>(str_buffer, sum_to_check, c).
       let sum_to_check = sum_to_check - char_uint CHR ''#'' in
       rbind (RecvBlocking 2 c) (\<lambda>(checksum_str, c).
       rbind (stoi16 checksum_str) (\<lambda>checksum.
       let str_buffer = str_buffer @ checksum_str; g = g\<lparr>tcp_server := c\<rparr> in
       if sum_to_check AND 0xFF \<noteq> word_of_int checksum then Inl LogicError
       else rbind (DecodeAndCall sk str_buffer (g, s)) (\<lambda>st. Inr (str_buffer, st))))))))"

definition IsMsgPending :: "GdbServer \<Rightarrow> bool" where
  "IsMsgPending g = (if \<not> is_attached g then False else DataAvailable (tcp_server g))"

text \<open>The loops over messages; \<open>None\<close> is a loop that never ends.\<close>

partial_function (option) HandleMessages ::
  "'m socket \<Rightarrow> 'm gdb_state \<Rightarrow> 'm gdb_state res option" where
  "HandleMessages sk st =
     (if IsMsgPending (fst st) then
        (case RecvMsgBlocking sk st of
           Inl e \<Rightarrow> Some (Inl e)
         | Inr (msg, st) \<Rightarrow> HandleMessages sk st)
      else Some (Inr st))"

partial_function (option) await_attached ::
  "'m socket \<Rightarrow> string \<Rightarrow> 'm gdb_state \<Rightarrow> 'm gdb_state res option" where
  "await_attached sk msg st =
     (if msg \<noteq> ''$qAttached#8f'' then
        (case RecvMsgBlocking sk st of
           Inl e \<Rightarrow> Some (Inl e)
         | Inr (msg, st) \<Rightarrow> await_attached sk msg st)
      else Some (Inr st))"

text \<open>The calls of the sockets return the four numbers \<open>os\<close>.\<close>

definition InitBlocking ::
  "'m socket \<Rightarrow> int \<times> int \<times> int \<times> int \<Rightarrow> 'm gdb_state \<Rightarrow> 'm gdb_state res option" where
  "InitBlocking sk os = (\<lambda>(g, s).
     let (socket_result, bind_result, listen_result, accept_result) = os in
     case rbind (Start socket_result bind_result listen_result (tcp_server g))
            (AcceptClient accept_result) of
       Inl e \<Rightarrow> Some (Inl e)
     | Inr c \<Rightarrow> await_attached sk '''' (g\<lparr>tcp_server := c\<rparr>, s))"

section \<open>The CPU under the debugger\<close>

text \<open>
  One iteration of the loop of \<^verbatim>\<open>DoMachineCycle\<close>. The threads sleep in real time only, so a halted CPU
  leaves the simulated time as it is.
\<close>

definition debug_cycle :: "'m socket \<Rightarrow> 'm gdb_state \<Rightarrow> 'm gdb_state res option" where
  "debug_cycle sk st =
     map_option (\<lambda>r. rbind r (\<lambda>(g, s).
       if halted s then Inr (g, s)
       else if BpReached g (get16 s rPC) then
         rbind (SendBpReached g) (\<lambda>g.
           Inr (g, s\<lparr>halted := True, sys := sk_wait sk (4 * kNsPerClkCycle) (sys s)\<rparr>))
       else rbind (machine_cycle sk s) (\<lambda>s. Inr (g, s))))
     (if IsMsgPending (fst st) then HandleMessages sk st else Some (Inr st))"

text \<open>
  The whole thread for \<open>n\<close> iterations, with what has arrived before each of them; \<open>attach\<close> are the
  results of the socket calls when the simulator waits for the debugger.
\<close>

definition deliver :: "string \<Rightarrow> 'm gdb_state \<Rightarrow> 'm gdb_state" where
  "deliver bytes = (\<lambda>(g, s).
     (g\<lparr>tcp_server := (tcp_server g)\<lparr>available := available (tcp_server g) @ bytes\<rparr>\<rparr>, s))"

fun debug_cycles :: "'m socket \<Rightarrow> string list \<Rightarrow> 'm gdb_state \<Rightarrow> 'm gdb_state res option" where
  "debug_cycles sk [] st = Some (Inr st)"
| "debug_cycles sk (bytes # rest) st =
     (case debug_cycle sk (deliver bytes st) of
        None \<Rightarrow> None
      | Some (Inl e) \<Rightarrow> Some (Inl e)
      | Some (Inr st) \<Rightarrow> debug_cycles sk rest st)"

definition DoMachineCycle ::
  "'m socket \<Rightarrow> (int \<times> int \<times> int \<times> int) option \<Rightarrow> string list \<Rightarrow> 'm gdb_state \<Rightarrow>
   'm gdb_state res option" where
  "DoMachineCycle sk attach bytes st =
     (case (case attach of None \<Rightarrow> Some (Inr st) | Some os \<Rightarrow> InitBlocking sk os st) of
        None \<Rightarrow> None
      | Some (Inl e) \<Rightarrow> Some (Inl e)
      | Some (Inr st) \<Rightarrow> debug_cycles sk bytes st)"

end
