(* ===== verification/Gdb_Protocol.thy ===== *)
theory Gdb_Protocol
  imports Gdb_Server
begin

text \<open>
  Lemmas about the debugger's protocol: check sums, what the pattern of the commands matches, and how a
  packet is received.
\<close>

section \<open>Check sums\<close>

text \<open>The sum of the bytes of a message.\<close>

definition byte_sum :: "string \<Rightarrow> nat" where
  "byte_sum msg = sum_list (map of_char msg)"

lemma unat_and_255: "unat ((w :: u32) AND 0xFF) = unat w mod 256"
proof -
  have "w AND 0xFF = take_bit 8 w" by (simp add: take_bit_eq_mask mask_eq_exp_minus_1)
  then show ?thesis
    by (simp only: unsigned_take_bit_eq) (simp add: take_bit_eq_mod)
qed

lemma unat_add_mod_256: "unat ((a :: u32) + b) mod 256 = (unat a + unat b) mod 256"
proof -
  have "unat (a + b) mod 256 = ((unat a + unat b) mod 2 ^ 32) mod 256"
    by (simp add: unat_word_ariths)
  then show ?thesis by (simp only: mod_mod_cancel) (simp add: mod_mod_cancel)
qed

lemma take_bit_scast: "take_bit 8 (scast (b :: u8) :: u32) = ucast b"
proof (rule bit_word_eqI)
  fix n assume "n < LENGTH(32)"
  moreover have "min (7::nat) n = n" if "n < 8" using that by simp
  ultimately show "bit (take_bit 8 (scast b :: u32)) n = bit (ucast b :: u32) n"
    by (cases "n < 8") (auto simp: bit_simps dest: bit_imp_le_length)
qed

lemma unat_ucast_byte: "unat (ucast (b :: u8) :: u32) = unat b"
  using unat_u8_less [of b] by (simp add: unsigned_ucast_eq take_bit_nat_eq_self_iff)

lemma unat_of_char: "unat (of_char c :: u8) = of_char c"
proof -
  have "(of_char c :: u8) = of_nat (of_char c)" by (simp add: of_nat_of_char)
  then have "unat (of_char c :: u8) = of_char c mod 2 ^ 8"
    by (simp only: unat_of_nat) simp
  then show ?thesis by simp
qed

lemma unat_char_uint: "unat (char_uint c) mod 256 = of_char c"
proof -
  have "unat (char_uint c) mod 256 = unat (take_bit 8 (char_uint c))"
    by (simp only: unsigned_take_bit_eq) (simp add: take_bit_eq_mod)
  also have "\<dots> = unat (of_char c :: u8)"
    unfolding char_uint_def take_bit_scast by (rule unat_ucast_byte)
  also have "\<dots> = of_char c"
    by (rule unat_of_char)
  finally show ?thesis .
qed

lemma checksum_eq:
  "unat (foldl (\<lambda>s c. s + char_uint c) k msg) mod 256 = (unat k + byte_sum msg) mod 256"
proof (induction msg arbitrary: k)
  case (Cons c msg)
  have "unat (k + char_uint c) mod 256 = (unat k + of_char c) mod 256"
    by (metis unat_add_mod_256 unat_char_uint mod_add_right_eq)
  with Cons [of "k + char_uint c"] show ?case
    by (simp add: byte_sum_def) (metis add.assoc mod_add_left_eq)
qed (simp add: byte_sum_def)

lemma GetChecksumStr_eq: "GetChecksumStr msg = format_hex 2 (byte_sum msg mod 256)"
  by (simp add: GetChecksumStr_def unat_and_255 checksum_eq)

section \<open>What the pattern matches\<close>

lemma longest_eq:
  assumes "k \<le> n" and "f k = Some x" and "\<And>j. k < j \<Longrightarrow> j \<le> n \<Longrightarrow> f j = None"
  shows "longest n f = Some x"
  using assms
proof (induction n)
  case (Suc n)
  then show ?case by (cases "k = Suc n") auto
qed simp

lemma longest_None: "longest n f = None \<longleftrightarrow> (\<forall>k\<le>n. f k = None)"
  by (induction n) (auto simp: le_Suc_eq split: option.splits)

lemma longest_Some: "longest n f = Some x \<Longrightarrow> \<exists>k\<le>n. f k = Some x"
  by (induction n) (auto simp: le_Suc_eq split: option.splits)

lemma longest_single:
  assumes "\<And>j. j \<le> n \<Longrightarrow> j \<noteq> k \<Longrightarrow> f j = None"
  shows "longest n f = (if k \<le> n then f k else None)"
proof (cases "k \<le> n \<and> f k \<noteq> None")
  case True
  then show ?thesis by (auto intro!: longest_eq [of k] assms)
next
  case False
  with assms have "longest n f = None" unfolding longest_None by metis
  with False show ?thesis by auto
qed

lemma match_lit [simp]:
  "match_items (lit w # ps) s =
     (if take (length w) s = w then map_option (Cons w) (match_items ps (drop (length w) s)) else None)"
proof -
  let ?f = "\<lambda>n. if take n s = w
    then map_option (Cons (take n s)) (match_items ps (drop n s)) else None"
  have "longest (length s) ?f = (if length w \<le> length s then ?f (length w) else None)"
    by (rule longest_single) auto
  moreover have "take (length w) s = w \<Longrightarrow> length w \<le> length s"
    by (metis length_take min.cobounded1)
  ultimately show ?thesis by (auto simp: lit_def)
qed

lemma match_one_of [simp]:
  "match_items (one_of p # ps) s =
     (case s of [] \<Rightarrow> None | c # cs \<Rightarrow> if p c then map_option (Cons [c]) (match_items ps cs) else None)"
proof -
  let ?f = "\<lambda>n. if length (take n s) = 1 \<and> list_all p (take n s)
    then map_option (Cons (take n s)) (match_items ps (drop n s)) else None"
  have "longest (length s) ?f = (if 1 \<le> length s then ?f 1 else None)"
    by (rule longest_single) auto
  then have "match_items (one_of p # ps) s = (if 1 \<le> length s then ?f 1 else None)"
    by (simp only: one_of_def match_items.simps(3))
  then show ?thesis by (cases s) simp_all
qed

text \<open>A run of characters up to one that is none of them.\<close>

lemma take_within_run:
  assumes "list_all p (take j (u @ c # v))" and "\<not> p c"
  shows "j \<le> length u"
  using assms by (cases j "length u" rule: linorder_cases) (auto simp: take_Cons' list_all_iff)

lemma match_some_of:
  assumes "list_all p u" and "u \<noteq> []" and "\<not> p c" and "match_items ps v = Some gs"
  shows "match_items (some_of p # Skip c # ps) (u @ c # v) = Some (u # gs)"
  unfolding some_of_def match_items.simps(3)
proof (rule longest_eq [of "length u"])
  fix j assume "length u < j"
  then have "\<not> list_all p (take j (u @ c # v))" using take_within_run [of p j u c v] assms(3) by auto
  then show "(if take j (u @ c # v) \<noteq> [] \<and> list_all p (take j (u @ c # v))
    then map_option (Cons (take j (u @ c # v))) (match_items (Skip c # ps) (drop j (u @ c # v)))
    else None) = None" by (simp only: simp_thms if_False)
qed (use assms in simp_all)

lemma match_last: "match_items [Group p] s = (if p s then Some [s] else None)"
proof -
  have "longest (length s) (\<lambda>n. if p (take n s) then map_option (Cons (take n s)) (match_items [] (drop n s)) else None) =
    (if p s then Some [s] else None)"
    by (subst longest_single [of _ "length s"]) auto
  then show ?thesis by simp
qed

declare match_items.simps(3) [simp del] match_last [simp]

lemma match_some_last [simp]:
  "match_items [some_of p] s = (if s \<noteq> [] \<and> list_all p s then Some [s] else None)"
  by (simp add: some_of_def)

text \<open>Every group of a match is in its language.\<close>

fun group_langs :: "item list \<Rightarrow> (string \<Rightarrow> bool) list" where
  "group_langs [] = []"
| "group_langs (Skip c # ps) = group_langs ps"
| "group_langs (Group p # ps) = p # group_langs ps"

lemma match_items_groups:
  "match_items ps s = Some gs \<Longrightarrow> list_all2 (\<lambda>p g. p g) (group_langs ps) gs"
proof (induction ps s arbitrary: gs rule: match_items.induct)
  case (3 p ps s)
  then obtain n where "p (take n s)" "map_option (Cons (take n s)) (match_items ps (drop n s)) = Some gs"
    by (auto simp: match_items.simps(3) dest!: longest_Some split: if_splits)
  with 3(1) show ?case by auto
qed (auto split: list.splits if_splits)

section \<open>The commands\<close>

lemma SplitMsg_simple:
  "SplitMsg ''?'' = [''?'']" "SplitMsg ''D'' = [''D'']" "SplitMsg ''g'' = [''g'']"
  "SplitMsg ''c'' = [''c'']" "SplitMsg ''qAttached'' = [''qAttached'']"
  by (simp_all add: SplitMsg_def command_pattern_def many_def)

lemma SplitMsg_G:
  "list_all is_xdigit d \<Longrightarrow> d \<noteq> [] \<Longrightarrow> SplitMsg (CHR ''G'' # d) = [''G'', d]"
  by (simp add: SplitMsg_def command_pattern_def many_def)

lemma SplitMsg_memory:
  assumes "list_all is_xdigit a" "a \<noteq> []" "list_all is_xdigit l" "l \<noteq> []"
  shows "SplitMsg (CHR ''m'' # a @ CHR '','' # l) = [''m'', a, l]"
    and "list_all is_xdigit d \<Longrightarrow> d \<noteq> [] \<Longrightarrow>
      SplitMsg (CHR ''M'' # a @ CHR '','' # l @ CHR '':'' # d) = [''M'', a, l, d]"
proof -
  have "match_items [some_of is_xdigit, Skip CHR '','', some_of is_xdigit] (a @ CHR '','' # l) = Some [a, l]"
    by (rule match_some_of) (use assms in simp_all)
  then show "SplitMsg (CHR ''m'' # a @ CHR '','' # l) = [''m'', a, l]"
    using assms by (simp add: SplitMsg_def command_pattern_def)
  assume d: "list_all is_xdigit d" "d \<noteq> []"
  have "match_items [some_of is_xdigit, Skip CHR '':'', some_of is_xdigit] (l @ CHR '':'' # d) = Some [l, d]"
    by (rule match_some_of) (use assms d in simp_all)
  then have "match_items [some_of is_xdigit, Skip CHR '','', some_of is_xdigit, Skip CHR '':'', some_of is_xdigit]
    (a @ CHR '','' # l @ CHR '':'' # d) = Some [a, l, d]"
    by (rule match_some_of [OF assms(1,2) xdigit_simps(2)])
  then show "SplitMsg (CHR ''M'' # a @ CHR '','' # l @ CHR '':'' # d) = [''M'', a, l, d]"
    using assms d by (simp add: SplitMsg_def command_pattern_def)
qed

lemma SplitMsg_breakpoint:
  assumes "list_all is_xdigit a" "a \<noteq> []" "z \<in> {CHR ''z'', CHR ''Z''}" "t \<in> {CHR ''0'', CHR ''1''}" "is_digit k"
  shows "SplitMsg (z # t # CHR '','' # a @ [CHR '','', k]) = [[z], [t], a, [k]]"
proof -
  have "match_items [some_of is_xdigit, Skip CHR '','', one_of is_digit] (a @ CHR '','' # [k]) = Some [a, [k]]"
    by (rule match_some_of) (use assms in simp_all)
  then have m: "match_items [one_of (\<lambda>c. c \<in> {CHR ''z'', CHR ''Z''}), one_of (char_in 48 49), Skip CHR '','',
      some_of is_xdigit, Skip CHR '','', one_of is_digit] (z # t # CHR '','' # a @ [CHR '','', k]) =
      Some [[z], [t], a, [k]]"
    using assms(3,4) by (auto simp: char_in_def)
  have "z \<notin> {CHR ''?'', CHR ''D'', CHR ''g'', CHR ''c'', CHR ''G'', CHR ''M'', CHR ''m''}"
    using assms(3) by auto
  then show ?thesis
    unfolding SplitMsg_def command_pattern_def match_alternatives.simps m
    using assms(2) by simp
qed

section \<open>Receiving a packet\<close>

lemma hex_number_less: "list_all is_xdigit s \<Longrightarrow> hex_number s < 16 ^ length s"
proof (induction s rule: rev_induct)
  case (snoc c s)
  then have "hex_number s < 16 ^ length s" "hex_value c < 16" by (simp_all add: hex_value_less)
  then show ?case by (simp add: hex_number_append)
qed (simp add: hex_number_def)

lemma RecvBlocking_one:
  "available c = x # rest \<Longrightarrow> x \<noteq> CHR 0x00 \<Longrightarrow>
    RecvBlocking (Suc 0) c = Inr ([x], c\<lparr>available := rest, calls := calls c + 1\<rparr>)"
  using RecvBlocking_available [of c "[x]" rest] by (simp add: kMaxPacketSize_def)

lemma recv_data_available:
  assumes "available c = data @ CHR ''#'' # rest" and "CHR ''#'' \<notin> set data"
    and "CHR 0x00 \<notin> set data" and "length buf + length data < kMaxMessageLength"
  shows "recv_data buf k c =
    Inr (buf @ data @ ''#'', foldl (\<lambda>s c. s + char_uint c) k data + char_uint CHR ''#'',
         c\<lparr>available := rest, calls := calls c + length data + 1\<rparr>)"
  using assms
proof (induction data arbitrary: buf k c)
  case Nil
  then show ?case
    by (subst recv_data.simps) (simp add: RecvBlocking_one first_char_def)
next
  case (Cons x data)
  have x: "x \<noteq> CHR 0x00" "x \<noteq> CHR ''#''" using Cons.prems by auto
  have one: "RecvBlocking 1 c =
      Inr ([x], c\<lparr>available := data @ CHR ''#'' # rest, calls := calls c + 1\<rparr>)"
    using RecvBlocking_one [OF _ x(1)] Cons.prems(1) by simp
  show ?case
    by (subst recv_data.simps, subst one) (use Cons x(2) in \<open>simp add: first_char_def\<close>)
qed

lemma RecvMsgBlocking_packet:
  assumes "available (tcp_server g) = CHR ''$'' # data @ CHR ''#'' # cs @ rest"
    and "CHR ''#'' \<notin> set data" and "CHR 0x00 \<notin> set data" and "length data + 2 \<le> kMaxMessageLength"
    and "length cs = 2" and "list_all is_xdigit cs"
  defines "g' \<equiv> g\<lparr>tcp_server := (tcp_server g)\<lparr>available := rest, calls := calls (tcp_server g) + length data + 3\<rparr>\<rparr>"
  shows "RecvMsgBlocking sk (g, s) =
    (if hex_number cs = byte_sum data mod 256
     then rbind (DecodeAndCall sk (CHR ''$'' # data @ CHR ''#'' # cs) (g', s))
            (\<lambda>st. Inr (CHR ''$'' # data @ CHR ''#'' # cs, st))
     else Inl LogicError)"
proof -
  define f :: "u32 \<Rightarrow> char \<Rightarrow> u32" where "f = (\<lambda>s c. s + char_uint c)"
  define c1 where "c1 = (tcp_server g)\<lparr>available := data @ CHR ''#'' # cs @ rest, calls := calls (tcp_server g) + 1\<rparr>"
  define c2 where "c2 = c1\<lparr>available := cs @ rest, calls := calls c1 + length data + 1\<rparr>"
  have one: "RecvBlocking 1 (tcp_server g) = Inr ([CHR ''$''], c1)"
    using assms(1) by (simp add: RecvBlocking_one c1_def)
  have data: "recv_data [CHR ''$''] 0 c1 = Inr ([CHR ''$''] @ data @ ''#'', foldl f 0 data + char_uint CHR ''#'', c2)"
    unfolding f_def c2_def by (rule recv_data_available) (use assms in \<open>simp_all add: c1_def\<close>)
  have "CHR 0x00 \<notin> set cs" using assms(6) by (auto simp: list_all_iff)
  moreover have "cs \<noteq> []" using assms(5) by auto
  ultimately have two: "RecvBlocking 2 c2 = Inr (cs, tcp_server g')"
    using RecvBlocking_available [of c2 cs rest] assms(5)
    by (simp add: kMaxPacketSize_def g'_def c1_def c2_def)
  have small: "hex_number cs < 256" using hex_number_less [OF assms(6)] assms(5) by simp
  have stoi: "stoi16 cs = Inr (int (hex_number cs))"
    using small by (simp add: stoi16_digits assms(6) \<open>cs \<noteq> []\<close>)
  have "foldl f 0 data AND 0xFF = (of_nat (hex_number cs) :: u32) \<longleftrightarrow>
      unat (foldl f 0 data AND 0xFF) = unat (of_nat (hex_number cs) :: u32)"
    by (simp only: unsigned_word_eqI word_unat_eq_iff)
  also have "\<dots> \<longleftrightarrow> byte_sum data mod 256 = hex_number cs"
    using small take_bit_nat_eq_self_iff [of 32 "hex_number cs"]
    by (simp add: unat_and_255 f_def checksum_eq unsigned_of_nat)
  finally have check: "foldl f 0 data AND 0xFF = (of_nat (hex_number cs) :: u32) \<longleftrightarrow>
      hex_number cs = byte_sum data mod 256" by auto
  have g': "g\<lparr>tcp_server := tcp_server g'\<rparr> = g'" by (simp add: g'_def)
  show ?thesis
    unfolding RecvMsgBlocking_def prod.case one rbind_simps Let_def
    by (simp add: first_char_def data two stoi g' check)
qed

lemma DecodeAndCall_packet:
  assumes "length cs = 2"
  shows "DecodeAndCall sk (CHR ''$'' # data @ CHR ''#'' # cs) st =
    (case SplitMsg data of
       [] \<Rightarrow> CmdNotFound [] st
     | name # args \<Rightarrow>
         (case cmd_map sk name of
            None \<Rightarrow> Inl AssertFailed
          | Some cmd \<Rightarrow> rbind (gdb_reply kMsgAck st) (cmd (name # args))))"
  using assms by (simp add: DecodeAndCall_def substr_def)

end
