(* ===== verification/Gdb_Safety.thy ===== *)
theory Gdb_Safety
  imports Gdb_Protocol Cpu_Errors
begin

text \<open>
  What can go wrong under the debugger, whatever it sends: the locale \<open>debug_socket\<close> extends what the
  CPU needs of the system by the debug accesses. Its lemmas show that every command keeps the invariant
  of the system and fails only as the protocol does, that no string of a split message is missing, and
  that the loops over messages end.
\<close>

section \<open>Judgement\<close>

definition res_ok :: "('a \<Rightarrow> bool) \<Rightarrow> sim_error set \<Rightarrow> 'a res \<Rightarrow> bool" where
  "res_ok J F r = (case r of Inl e \<Rightarrow> e \<in> F | Inr x \<Rightarrow> J x)"

lemma res_ok_simps [simp]:
  "res_ok J F (Inl e) \<longleftrightarrow> e \<in> F" "res_ok J F (Inr x) \<longleftrightarrow> J x"
  by (simp_all add: res_ok_def)

lemma res_ok_rbind:
  "res_ok J F r \<Longrightarrow> (\<And>x. r = Inr x \<Longrightarrow> J x \<Longrightarrow> res_ok K F (f x)) \<Longrightarrow> res_ok K F (rbind r f)"
  by (cases r) auto

lemma res_ok_mono: "res_ok J F r \<Longrightarrow> F \<subseteq> G \<Longrightarrow> (\<And>x. J x \<Longrightarrow> K x) \<Longrightarrow> res_ok K G r"
  by (cases r) auto

lemma res_ok_for_each:
  "(\<And>x s. x \<in> set xs \<Longrightarrow> J s \<Longrightarrow> res_ok J F (f x s)) \<Longrightarrow> J s \<Longrightarrow> res_ok J F (for_each xs f s)"
proof (induction xs arbitrary: s)
  case (Cons x xs)
  have "res_ok J F (f x s)" using Cons.prems by simp
  then show ?case
    using Cons by (auto intro!: res_ok_rbind [of J])
qed simp

text \<open>The errors of the protocol, its conversions and the connection.\<close>

definition protocol_errors :: "sim_error set" where
  "protocol_errors =
     {LogicError, InvalidArgument, OutOfRange, SystemError, Blocked, ReportError, AssertFailed}"

lemma stoi16_res: "res_ok (\<lambda>_. True) protocol_errors (stoi16 s)"
  by (simp add: stoi16_def Let_def protocol_errors_def split: prod.split)

lemma substr_res: "res_ok (\<lambda>_. True) protocol_errors (substr i n s)"
  by (simp add: substr_def protocol_errors_def)

lemma gdb_send_res:
  "res_ok (\<lambda>h. unread (tcp_server h) = unread (tcp_server g)) protocol_errors (gdb_send msg g)"
  by (simp add: gdb_send_def SendMsg_def protocol_errors_def unread_def)

lemma recv_from_res: "res_ok (\<lambda>_. True) protocol_errors (recv_from n s as)"
  by (induction n s as rule: recv_from.induct) (simp_all add: protocol_errors_def)

lemma RecvBlocking_res:
  "res_ok (\<lambda>(s, d). unread d \<le> unread c \<and> (DataAvailable c \<longrightarrow> 0 < n \<longrightarrow> unread d < unread c))
     protocol_errors (RecvBlocking n c)"
proof (cases "RecvBlocking n c")
  case (Inl e)
  with recv_from_res [of n "available c" "arrivals c"] show ?thesis
    by (auto simp: RecvBlocking_def rbind_Inl_iff protocol_errors_def res_ok_def Let_def
        split: if_splits sum.splits)
next
  case (Inr x)
  then show ?thesis by (cases x) (simp add: RecvBlocking_unread(1,2))
qed

lemma first_char_res: "res_ok (\<lambda>_. True) protocol_errors (first_char s)"
  by (simp add: first_char_def protocol_errors_def split: list.split)

lemma recv_data_res:
  "res_ok (\<lambda>(s, k, d). unread d \<le> unread c) protocol_errors (recv_data buf k c)"
proof (induction buf k c rule: recv_data.induct)
  case (1 buf k c)
  show ?case
  proof (subst recv_data.simps, rule res_ok_rbind [OF RecvBlocking_res], clarify)
    fix resp d
    assume recv: "RecvBlocking 1 c = Inr (resp, d)" and less: "unread d \<le> unread c"
    show "res_ok (\<lambda>(s, k, d). unread d \<le> unread c) protocol_errors
      (let str_buffer = buf @ resp
       in rbind (first_char resp)
           (\<lambda>r. let sum_to_check = k + char_uint r
                in if kMaxMessageLength < length str_buffer then Inl LogicError
                   else if r = CHR ''#'' then Inr (str_buffer, sum_to_check, d)
                   else recv_data str_buffer sum_to_check d))"
      unfolding Let_def
    proof (rule res_ok_rbind [OF first_char_res])
      fix r assume r: "first_char resp = Inr r"
      have "res_ok (\<lambda>(s, k, e). unread e \<le> unread c) protocol_errors
          (recv_data (buf @ resp) (k + char_uint r) d)"
        if "\<not> kMaxMessageLength < length (buf @ resp)" "r \<noteq> CHR ''#''"
        using 1 [OF recv refl refl r refl that] less
        by (auto elim!: res_ok_mono)
      then show "res_ok (\<lambda>(s, k, d). unread d \<le> unread c) protocol_errors
        (if kMaxMessageLength < length (buf @ resp) then Inl LogicError
         else if r = CHR ''#'' then Inr (buf @ resp, k + char_uint r, d)
         else recv_data (buf @ resp) (k + char_uint r) d)"
        using less by (simp add: protocol_errors_def)
    qed
  qed
qed

section \<open>The strings of a command\<close>

definition parts_ok :: "string list \<Rightarrow> bool" where
  "parts_ok gs \<longleftrightarrow>
     (case gs of [] \<Rightarrow> True
      | name # args \<Rightarrow>
          name \<in> {''?'', ''D'', ''g'', ''c'', ''qAttached''} \<or>
          name \<in> {''G'', ''qSupported''} \<and> length args = 1 \<or>
          name = ''m'' \<and> length args = 2 \<or>
          name \<in> {''M'', ''z'', ''Z''} \<and> length args = 3)"

lemma match_alternatives_cases:
  "match_alternatives ps s = [] \<or> (\<exists>p \<in> set ps. match_items p s = Some (match_alternatives ps s))"
  by (induction ps) (auto split: option.split)

lemma SplitMsg_parts: "parts_ok (SplitMsg msg)"
proof (cases "match_alternatives command_pattern msg = []")
  case True
  then show ?thesis by (simp add: SplitMsg_def parts_ok_def)
next
  case False
  then obtain p where p: "p \<in> set command_pattern"
    "list_all2 (\<lambda>p g. p g) (group_langs p) (match_alternatives command_pattern msg)"
    using match_alternatives_cases [of command_pattern msg] match_items_groups by blast
  let ?ms = "match_alternatives command_pattern msg"
  have "parts_ok (filter (\<lambda>g. g \<noteq> []) ms)"
    if "p \<in> set command_pattern" "list_all2 (\<lambda>p g. p g) (group_langs p) ms" for ms
    using that
    unfolding command_pattern_def list.set insert_iff empty_iff
    by (elim disjE FalseE)
      (auto simp: lit_def some_of_def many_def one_of_def features_def parts_ok_def list_all2_Cons1
        length_Suc_conv)
  with p show ?thesis unfolding SplitMsg_def by blast
qed

lemma msg_part_simps [simp]:
  "msg_part (x # xs) 0 = Inr x" "msg_part (x # xs) (Suc n) = msg_part xs n"
  "msg_part (x # xs) (numeral k) = msg_part xs (pred_numeral k)"
  by (simp_all add: msg_part_def numeral_eq_Suc)

section \<open>The interface\<close>

text \<open>
  \<open>gdb_keeps I F n r\<close>: the command fails with an error of \<open>F\<close>, or the invariant of the system holds
  and at most \<open>n\<close> bytes are left to read.
\<close>

definition gdb_keeps :: "('m \<Rightarrow> bool) \<Rightarrow> sim_error set \<Rightarrow> nat \<Rightarrow> 'm gdb_state res \<Rightarrow> bool" where
  "gdb_keeps I F n = res_ok (\<lambda>(g, s). I (sys s) \<and> unread (tcp_server g) \<le> n) F"

definition debug_errors :: "sim_error set \<Rightarrow> sim_error set" where
  "debug_errors E = E \<union> protocol_errors"

lemma debug_errors_mono: "res_ok J protocol_errors r \<Longrightarrow> res_ok J (debug_errors E) r"
  by (rule res_ok_mono) (auto simp: debug_errors_def)

lemma gdb_reply_keeps:
  assumes "I (sys s)" and "unread (tcp_server g) \<le> n"
  shows "gdb_keeps I (debug_errors E) n (gdb_reply msg (g, s))"
  unfolding gdb_keeps_def gdb_reply_def prod.case
  by (rule res_ok_rbind [OF debug_errors_mono [OF gdb_send_res [of g msg]]]) (use assms in simp)

lemma sys_Halt [simp]: "sys (Halt s) = sys s" "sys (Continue s) = sys s"
  by (simp_all add: Halt_def Continue_def)

lemma sys_put16 [simp]: "sys (put16 q v s) = sys s"
  by (simp add: put16_def)

locale debug_socket = safe_socket sk I E for sk :: "'m socket" and I and E +
  assumes debug_keeps: "I m \<Longrightarrow> keeps I E (sk_transport_dbg sk pl m)"
begin

abbreviation okay :: "nat \<Rightarrow> 'm gdb_state res \<Rightarrow> bool" where
  "okay \<equiv> gdb_keeps I (debug_errors E)"

lemma debug_cases:
  assumes "I m"
  shows "(\<exists>e \<in> E. sk_transport_dbg sk pl m = Inl e) \<or>
    (\<exists>pl' m'. sk_transport_dbg sk pl m = Inr (pl', m') \<and> I m')"
  using debug_keeps [OF assms, of pl] by (auto simp: keeps_def split: sum.splits)

lemma ReadBusDebug_res:
  assumes "I (sys s)"
  shows "res_ok (\<lambda>(v, t). I (sys t)) (debug_errors E) (ReadBusDebug sk a s)"
proof -
  let ?pl = "\<lparr>command = TLM_READ_COMMAND, address = a, data_byte = sk_indeterminate sk (sys s),
    response_status = payload_status s, extension = Some (gbcmd s)\<rparr>"
  show ?thesis
    using debug_cases [OF assms, of ?pl] by (auto simp: ReadBusDebug_def Let_def debug_errors_def)
qed

lemma WriteBusDebug_res:
  assumes "I (sys s)"
  shows "res_ok (\<lambda>t. I (sys t)) (debug_errors E) (WriteBusDebug sk a d s)"
proof -
  let ?pl = "\<lparr>command = TLM_WRITE_COMMAND, address = a, data_byte = d,
    response_status = payload_status s, extension = Some (gbcmd s)\<rparr>"
  show ?thesis
    using debug_cases [OF assms, of ?pl]
    by (auto simp: WriteBusDebug_def Let_def debug_errors_def protocol_errors_def)
qed

lemma CmdWriteReg_okay:
  assumes "I (sys s)" and "unread (tcp_server g) \<le> n"
  shows "okay n (CmdWriteReg [name, data] (g, s))"
proof -
  have loop: "res_ok (\<lambda>(i, t). I (sys t)) (debug_errors E)
    (for_each reg_vec (\<lambda>reg (i, s). rbind (substr i 4 data) (\<lambda>digits. rbind (stoi16 digits)
      (\<lambda>v. Inr (i + 4, put16 reg (word_rotl 8 (word_of_int v)) s)))) (0, s))"
    by (rule res_ok_for_each)
      (auto intro!: res_ok_rbind [OF debug_errors_mono [OF substr_res]]
        res_ok_rbind [OF debug_errors_mono [OF stoi16_res]] simp: assms)
  show ?thesis
  proof (cases "length data < 24")
    case True
    then show ?thesis
      by (simp add: CmdWriteReg_def gdb_keeps_def debug_errors_def protocol_errors_def)
  next
    case False
    have "okay n (rbind (for_each reg_vec (\<lambda>reg (i, s). rbind (substr i 4 data) (\<lambda>digits. rbind (stoi16 digits)
      (\<lambda>v. Inr (i + 4, put16 reg (word_rotl 8 (word_of_int v)) s)))) (0, s)) (\<lambda>(i, s). gdb_reply kMsgOk (g, s)))"
      unfolding gdb_keeps_def
      by (rule res_ok_rbind [OF loop])
        (use assms in \<open>auto intro: gdb_reply_keeps [unfolded gdb_keeps_def]\<close>)
    with False show ?thesis by (simp add: CmdWriteReg_def)
  qed
qed

lemma CmdReadMem_okay:
  assumes "I (sys s)" and "unread (tcp_server g) \<le> n"
  shows "okay n (CmdReadMem sk [name, a, l] (g, s))"
proof -
  have loop: "res_ok (\<lambda>(msg, t). I (sys t)) (debug_errors E)
    (for_each xs (\<lambda>i (msg_resp, s).
         rbind (ReadBusDebug sk (ucast (word_of_int addr + of_nat i :: u32)) s) (\<lambda>(data, s).
           Inr (msg_resp @ format_hex 2 (unat data), s))) ('''', s))" for xs addr
    by (rule res_ok_for_each) (auto intro!: res_ok_rbind [OF ReadBusDebug_res] simp: assms)
  show ?thesis
    unfolding CmdReadMem_def prod.case gdb_keeps_def
    by simp
      (intro res_ok_rbind [OF debug_errors_mono [OF stoi16_res]] res_ok_rbind [OF loop],
        use assms in \<open>auto intro: gdb_reply_keeps [unfolded gdb_keeps_def]\<close>)
qed

lemma CmdWriteMem_okay:
  assumes "I (sys s)" and "unread (tcp_server g) \<le> n"
  shows "okay n (CmdWriteMem sk [name, a, l, d] (g, s))"
proof -
  have loop: "res_ok (\<lambda>t. I (sys t)) (debug_errors E)
    (for_each xs (\<lambda>i s.
         rbind (substr (i * 2) 2 d) (\<lambda>digits.
         rbind (stoi16 digits) (\<lambda>data.
           WriteBusDebug sk (ucast (word_of_int addr + of_nat i :: u32)) (word_of_int data) s))) s)" for xs addr
    by (rule res_ok_for_each)
      (auto intro!: res_ok_rbind [OF debug_errors_mono [OF substr_res]]
        res_ok_rbind [OF debug_errors_mono [OF stoi16_res]] WriteBusDebug_res simp: assms)
  show ?thesis
    unfolding CmdWriteMem_def prod.case gdb_keeps_def
    by simp
      (intro res_ok_rbind [OF debug_errors_mono [OF stoi16_res]] res_ok_rbind [OF loop],
        use assms in \<open>auto intro: gdb_reply_keeps [unfolded gdb_keeps_def]\<close>)
qed

lemma breakpoint_okay:
  assumes "I (sys s)" and "unread (tcp_server g) \<le> n"
  shows "okay n (CmdInsertBp [name, t, a, k] (g, s))" "okay n (CmdRemoveBp [name, t, a, k] (g, s))"
  using assms unfolding CmdInsertBp_def CmdRemoveBp_def gdb_keeps_def
  by (auto intro!: res_ok_rbind [OF debug_errors_mono [OF stoi16_res]]
      gdb_reply_keeps [unfolded gdb_keeps_def])

lemma simple_okay:
  assumes "I (sys s)" and "unread (tcp_server g) \<le> n"
  shows "okay n (CmdHalted gs (g, s))" "okay n (CmdDetach gs (g, s))" "okay n (CmdReadReg gs (g, s))"
    "okay n (CmdContinue gs (g, s))" "okay n (CmdAttached gs (g, s))" "okay n (CmdNotFound gs (g, s))"
    "okay n (CmdSupported [name, offered] (g, s))"
  using assms
  by (auto simp: CmdHalted_def CmdDetach_def CmdReadReg_def CmdContinue_def CmdAttached_def
      CmdNotFound_def CmdSupported_def Let_def intro!: gdb_reply_keeps)
    (simp add: gdb_keeps_def)

end

section \<open>Messages\<close>

text \<open>What a call of \<^verbatim>\<open>RecvMsgBlocking\<close> leaves: fewer bytes, if any had arrived.\<close>

definition msg_keeps ::
  "('m \<Rightarrow> bool) \<Rightarrow> TcpServer \<Rightarrow> sim_error set \<Rightarrow> (string \<times> 'm gdb_state) res \<Rightarrow> bool" where
  "msg_keeps I c = res_ok (\<lambda>(msg, g, s). I (sys s) \<and> unread (tcp_server g) \<le> unread c \<and>
     (DataAvailable c \<longrightarrow> unread (tcp_server g) < unread c))"

definition loop_errors :: "sim_error set \<Rightarrow> sim_error set" where
  "loop_errors E = debug_errors E \<union> cpu_errors E \<union> opcode_errors"

lemma logic_error: "LogicError \<in> debug_errors E"
  by (simp add: debug_errors_def protocol_errors_def)

lemma debug_errors_loop: "debug_errors E \<subseteq> loop_errors E"
  by (auto simp: loop_errors_def)

lemma cmd_map_simps:
  "cmd_map sk ''?'' = Some CmdHalted" "cmd_map sk ''g'' = Some CmdReadReg"
  "cmd_map sk ''G'' = Some CmdWriteReg" "cmd_map sk ''D'' = Some CmdDetach"
  "cmd_map sk ''m'' = Some (CmdReadMem sk)" "cmd_map sk ''M'' = Some (CmdWriteMem sk)"
  "cmd_map sk ''c'' = Some CmdContinue" "cmd_map sk ''Z'' = Some CmdInsertBp"
  "cmd_map sk ''z'' = Some CmdRemoveBp" "cmd_map sk ''qSupported'' = Some CmdSupported"
  "cmd_map sk ''qAttached'' = Some CmdAttached"
  by (simp_all add: cmd_map_def)

lemma list_of_length:
  "length xs = 1 \<Longrightarrow> \<exists>x. xs = [x]"
  "length xs = 2 \<Longrightarrow> \<exists>x y. xs = [x, y]"
  "length xs = 3 \<Longrightarrow> \<exists>x y z. xs = [x, y, z]"
  by (auto simp: numeral_2_eq_2 numeral_3_eq_3 length_Suc_conv)

context debug_socket
begin

lemma commands_okay:
  assumes I: "I (sys s)" "unread (tcp_server g) \<le> n" and parts: "parts_ok (name # args)"
  shows "\<exists>cmd. cmd_map sk name = Some cmd \<and> okay n (cmd (name # args) (g, s))"
proof -
  note cases = parts [unfolded parts_ok_def list.case]
  from cases show ?thesis
  proof (elim disjE conjE)
    assume "name \<in> {''?'', ''D'', ''g'', ''c'', ''qAttached''}"
    then show ?thesis
      by (elim insertE emptyE; hypsubst)
        (rule exI, rule conjI, rule cmd_map_simps, rule simple_okay [OF I])+
  next
    assume name: "name \<in> {''G'', ''qSupported''}" and "length args = 1"
    then obtain x where "args = [x]" using list_of_length(1) by metis
    with name show ?thesis
      by (elim insertE emptyE; hypsubst)
        (rule exI, rule conjI, rule cmd_map_simps, rule simple_okay [OF I] CmdWriteReg_okay [OF I])+
  next
    assume name: "name = ''m''" and "length args = 2"
    then obtain x y where "args = [x, y]" using list_of_length(2) by metis
    with name show ?thesis
      by hypsubst (rule exI, rule conjI, rule cmd_map_simps, rule CmdReadMem_okay [OF I])
  next
    assume name: "name \<in> {''M'', ''z'', ''Z''}" and "length args = 3"
    then obtain x y z where "args = [x, y, z]" using list_of_length(3) by metis
    with name show ?thesis
      by (elim insertE emptyE; hypsubst)
        (rule exI, rule conjI, rule cmd_map_simps, rule CmdWriteMem_okay [OF I] breakpoint_okay [OF I])+
  qed
qed

lemma DecodeAndCall_okay:
  assumes "I (sys s)" and "unread (tcp_server g) \<le> n"
  shows "okay n (DecodeAndCall sk msg (g, s))"
  unfolding DecodeAndCall_def gdb_keeps_def
proof (rule res_ok_rbind [OF debug_errors_mono [OF substr_res]])
  fix data
  show "res_ok (\<lambda>(g, s). I (sys s) \<and> unread (tcp_server g) \<le> n) (debug_errors E)
    (case SplitMsg data of [] \<Rightarrow> CmdNotFound [] (g, s)
     | name # args \<Rightarrow> (case cmd_map sk name of None \<Rightarrow> Inl AssertFailed
        | Some cmd \<Rightarrow> rbind (gdb_reply kMsgAck (g, s)) (cmd (name # args))))"
  proof (cases "SplitMsg data")
    case Nil
    then show ?thesis using simple_okay(6) [OF assms] by (simp add: gdb_keeps_def)
  next
    case (Cons name args)
    have parts: "parts_ok (name # args)" using SplitMsg_parts [of data] Cons by simp
    obtain cmd where cmd: "cmd_map sk name = Some cmd"
      using commands_okay [OF assms parts] by blast
    have "res_ok (\<lambda>(g, s). I (sys s) \<and> unread (tcp_server g) \<le> n) (debug_errors E)
      (rbind (gdb_reply kMsgAck (g, s)) (cmd (name # args)))"
    proof (rule res_ok_rbind [OF gdb_reply_keeps [where I = I, OF assms, unfolded gdb_keeps_def]])
      fix st :: "'m gdb_state"
      obtain h t where st: "st = (h, t)" by fastforce
      assume "case st of (g, s) \<Rightarrow> I (sys s) \<and> unread (tcp_server g) \<le> n"
      then show "res_ok (\<lambda>(g, s). I (sys s) \<and> unread (tcp_server g) \<le> n) (debug_errors E)
          (cmd (name # args) st)"
        using commands_okay [OF _ _ parts, of t h n] cmd st by (auto simp: gdb_keeps_def)
    qed
    then show ?thesis by (simp add: Cons cmd)
  qed
qed

lemma DecodeAndCall_message:
  assumes "I (sys s)" and "unread (tcp_server g) \<le> unread c"
  shows "res_ok (\<lambda>(msg, h, t). I (sys t) \<and> unread (tcp_server h) \<le> unread c) (debug_errors E)
    (rbind (DecodeAndCall sk msg (g, s)) (\<lambda>st. Inr (msg, st)))"
  by (rule res_ok_rbind [OF DecodeAndCall_okay [OF assms, unfolded gdb_keeps_def]]) auto

lemma RecvMsgBlocking_keeps:
  assumes "I (sys s)"
  shows "msg_keeps I (tcp_server g) (debug_errors E) (RecvMsgBlocking sk (g, s))"
  unfolding RecvMsgBlocking_def msg_keeps_def prod.case
proof (rule res_ok_rbind [OF debug_errors_mono [OF RecvBlocking_res]], clarify)
  fix resp c
  let ?J = "\<lambda>(msg, h, t). I (sys t) \<and> unread (tcp_server h) \<le> unread c"
  let ?g = "g\<lparr>tcp_server := c\<rparr>"
  assume c: "unread c \<le> unread (tcp_server g)"
    "DataAvailable (tcp_server g) \<longrightarrow> 0 < (1 :: nat) \<longrightarrow> unread c < unread (tcp_server g)"
  have packet: "res_ok ?J (debug_errors E) (rbind (recv_data resp 0 c) (\<lambda>(str_buffer, sum_to_check, c).
       let sum_to_check = sum_to_check - char_uint CHR ''#'' in
       rbind (RecvBlocking 2 c) (\<lambda>(checksum_str, c).
       rbind (stoi16 checksum_str) (\<lambda>checksum.
       let str_buffer = str_buffer @ checksum_str; g = ?g\<lparr>tcp_server := c\<rparr> in
       if sum_to_check AND 0xFF \<noteq> word_of_int checksum then Inl LogicError
       else rbind (DecodeAndCall sk str_buffer (g, s)) (\<lambda>st. Inr (str_buffer, st))))))"
  proof (rule res_ok_rbind [OF debug_errors_mono [OF recv_data_res]], clarify)
    fix str_buffer and k :: u32 and d
    assume d: "unread d \<le> unread c"
    show "res_ok ?J (debug_errors E) (let sum_to_check = k - char_uint CHR ''#'' in
       rbind (RecvBlocking 2 d) (\<lambda>(checksum_str, c).
       rbind (stoi16 checksum_str) (\<lambda>checksum.
       let str_buffer = str_buffer @ checksum_str; g = ?g\<lparr>tcp_server := c\<rparr> in
       if sum_to_check AND 0xFF \<noteq> word_of_int checksum then Inl LogicError
       else rbind (DecodeAndCall sk str_buffer (g, s)) (\<lambda>st. Inr (str_buffer, st)))))"
      unfolding Let_def
    proof (rule res_ok_rbind [OF debug_errors_mono [OF RecvBlocking_res]], clarify)
      fix cs e assume "unread e \<le> unread d"
      with d have e: "unread (tcp_server (?g\<lparr>tcp_server := e\<rparr>)) \<le> unread c" by simp
      show "res_ok ?J (debug_errors E) (rbind (stoi16 cs) (\<lambda>checksum.
         if k - char_uint CHR ''#'' AND 0xFF \<noteq> word_of_int checksum then Inl LogicError
         else rbind (DecodeAndCall sk (str_buffer @ cs) (?g\<lparr>tcp_server := e\<rparr>, s))
           (\<lambda>st. Inr (str_buffer @ cs, st))))"
        by (rule res_ok_rbind [OF debug_errors_mono [OF stoi16_res]])
          (use DecodeAndCall_message [OF assms e] in \<open>simp add: logic_error\<close>)
    qed
  qed
  have halted: "res_ok ?J (debug_errors E) (rbind (CmdHalted [] (?g, s)) (\<lambda>st. Inr (resp, st)))"
    by (rule res_ok_rbind [OF simple_okay(1) [of s ?g "unread c", unfolded gdb_keeps_def]])
      (use assms in auto)
  have "res_ok ?J (debug_errors E) (rbind (first_char resp) (\<lambda>r.
     if r = CHR ''+'' then Inr (resp, ?g, s)
     else if r = CHR ''-'' then Inl LogicError
     else if r = CHR 0x03 then rbind (CmdHalted [] (?g, s)) (\<lambda>st. Inr (resp, st))
     else if r \<noteq> CHR ''$'' then Inl LogicError
     else rbind (recv_data resp 0 c) (\<lambda>(str_buffer, sum_to_check, c).
       let sum_to_check = sum_to_check - char_uint CHR ''#'' in
       rbind (RecvBlocking 2 c) (\<lambda>(checksum_str, c).
       rbind (stoi16 checksum_str) (\<lambda>checksum.
       let str_buffer = str_buffer @ checksum_str; g = ?g\<lparr>tcp_server := c\<rparr> in
       if sum_to_check AND 0xFF \<noteq> word_of_int checksum then Inl LogicError
       else rbind (DecodeAndCall sk str_buffer (g, s)) (\<lambda>st. Inr (str_buffer, st)))))))"
    by (rule res_ok_rbind [OF debug_errors_mono [OF first_char_res]])
      (use packet halted assms in \<open>simp add: logic_error\<close>)
  then show "res_ok (\<lambda>(msg, h, t). I (sys t) \<and> unread (tcp_server h) \<le> unread (tcp_server g) \<and>
      (DataAvailable (tcp_server g) \<longrightarrow> unread (tcp_server h) < unread (tcp_server g)))
    (debug_errors E)
    (let g = ?g; str_buffer = resp in rbind (first_char str_buffer) (\<lambda>r.
     if r = CHR ''+'' then Inr (str_buffer, g, s)
     else if r = CHR ''-'' then Inl LogicError
     else if r = CHR 0x03 then rbind (CmdHalted [] (g, s)) (\<lambda>st. Inr (str_buffer, st))
     else if r \<noteq> CHR ''$'' then Inl LogicError
     else rbind (recv_data str_buffer 0 c) (\<lambda>(str_buffer, sum_to_check, c).
       let sum_to_check = sum_to_check - char_uint CHR ''#'' in
       rbind (RecvBlocking 2 c) (\<lambda>(checksum_str, c).
       rbind (stoi16 checksum_str) (\<lambda>checksum.
       let str_buffer = str_buffer @ checksum_str; g = g\<lparr>tcp_server := c\<rparr> in
       if sum_to_check AND 0xFF \<noteq> word_of_int checksum then Inl LogicError
       else rbind (DecodeAndCall sk str_buffer (g, s)) (\<lambda>st. Inr (str_buffer, st)))))))"
    unfolding Let_def by (rule res_ok_mono) (use c in auto)
qed

text \<open>The loop over the pending messages returns, and then nothing is pending.\<close>

lemma HandleMessages_returns:
  assumes "I (sys (snd st))"
  shows "\<exists>r. HandleMessages sk st = Some r \<and>
    res_ok (\<lambda>(g, s). I (sys s) \<and> \<not> IsMsgPending g) (debug_errors E) r"
  using assms
proof (induction "unread (tcp_server (fst st))" arbitrary: st rule: less_induct)
  case less
  obtain g s where st: "st = (g, s)" by fastforce
  show ?case
  proof (cases "IsMsgPending g")
    case False
    then show ?thesis
      using less.prems st by (subst HandleMessages.simps) simp
  next
    case True
    then have avail: "DataAvailable (tcp_server g)" by (simp add: IsMsgPending_def split: if_splits)
    have keep: "msg_keeps I (tcp_server g) (debug_errors E) (RecvMsgBlocking sk (g, s))"
      using RecvMsgBlocking_keeps less.prems st by simp
    show ?thesis
    proof (cases "RecvMsgBlocking sk (g, s)")
      case (Inl e)
      then show ?thesis
        using keep True st by (subst HandleMessages.simps) (simp add: msg_keeps_def)
    next
      case (Inr x)
      obtain msg h t where x: "x = (msg, h, t)" by (cases x) auto
      have "unread (tcp_server h) < unread (tcp_server g)" "I (sys t)"
        using keep Inr x avail by (simp_all add: msg_keeps_def)
      then have "\<exists>r. HandleMessages sk (h, t) = Some r \<and>
          res_ok (\<lambda>(g, s). I (sys s) \<and> \<not> IsMsgPending g) (debug_errors E) r"
        using less.hyps [of "(h, t)"] st by simp
      then show ?thesis
        using True st Inr x by (subst HandleMessages.simps) simp
    qed
  qed
qed

lemma debug_cycle_keeps:
  assumes "I (sys (snd st))"
  shows "\<exists>r. debug_cycle sk st = Some r \<and> res_ok (\<lambda>(g, s). I (sys s)) (loop_errors E) r"
proof -
  have handled: "\<exists>r. (if IsMsgPending (fst st) then HandleMessages sk st else Some (Inr st)) = Some r \<and>
      res_ok (\<lambda>(g, s). I (sys s)) (debug_errors E) r"
  proof (cases "IsMsgPending (fst st)")
    case True
    then show ?thesis
      using HandleMessages_returns [OF assms] by (auto elim!: res_ok_mono)
  qed (use assms in \<open>cases st; simp\<close>)
  have body: "res_ok (\<lambda>(g, s). I (sys s)) (loop_errors E)
      (if halted s then Inr (g, s)
       else if BpReached g (get16 s rPC) then
         rbind (SendBpReached g) (\<lambda>g.
           Inr (g, s\<lparr>halted := True, sys := sk_wait sk (4 * kNsPerClkCycle) (sys s)\<rparr>))
       else rbind (machine_cycle sk s) (\<lambda>s. Inr (g, s)))"
    if I: "I (sys s)" for g s
  proof -
    have "safe_res I (cpu_errors E \<union> opcode_errors) (machine_cycle sk s)"
      using machine_cycle_safe I by (simp add: safe_def)
    then have "res_ok (\<lambda>(g, s). I (sys s)) (loop_errors E) (rbind (machine_cycle sk s) (\<lambda>s. Inr (g, s)))"
      by (cases "machine_cycle sk s") (auto simp: loop_errors_def)
    moreover have "res_ok (\<lambda>(g, s). I (sys s)) (loop_errors E) (rbind (SendBpReached g) (\<lambda>g.
           Inr (g, s\<lparr>halted := True, sys := sk_wait sk (4 * kNsPerClkCycle) (sys s)\<rparr>)))"
      unfolding SendBpReached_def
      by (rule res_ok_rbind [OF res_ok_mono [OF gdb_send_res [of g]]])
        (use I in \<open>auto simp: wait_keeps loop_errors_def debug_errors_def\<close>)
    ultimately show ?thesis using I by simp
  qed
  from handled obtain r where
    r: "(if IsMsgPending (fst st) then HandleMessages sk st else Some (Inr st)) = Some r"
      "res_ok (\<lambda>(g, s). I (sys s)) (debug_errors E) r" by blast
  have "res_ok (\<lambda>(g, s). I (sys s)) (loop_errors E) (rbind r (\<lambda>(g, s).
      if halted s then Inr (g, s)
       else if BpReached g (get16 s rPC) then
         rbind (SendBpReached g) (\<lambda>g.
           Inr (g, s\<lparr>halted := True, sys := sk_wait sk (4 * kNsPerClkCycle) (sys s)\<rparr>))
       else rbind (machine_cycle sk s) (\<lambda>s. Inr (g, s))))"
  proof (rule res_ok_rbind [OF res_ok_mono [OF r(2) debug_errors_loop]])
    fix st' :: "'m gdb_state"
    assume "case st' of (g, s) \<Rightarrow> I (sys s)"
    then show "res_ok (\<lambda>(g, s). I (sys s)) (loop_errors E) ((\<lambda>(g, s).
      if halted s then Inr (g, s)
       else if BpReached g (get16 s rPC) then
         rbind (SendBpReached g) (\<lambda>g.
           Inr (g, s\<lparr>halted := True, sys := sk_wait sk (4 * kNsPerClkCycle) (sys s)\<rparr>))
       else rbind (machine_cycle sk s) (\<lambda>s. Inr (g, s))) st')"
      by (cases st') (simp only: prod.case body)
  qed
  then show ?thesis unfolding debug_cycle_def r(1) by simp
qed

lemma debug_cycles_keep:
  assumes "I (sys (snd st))"
  shows "\<exists>r. debug_cycles sk bytes st = Some r \<and> res_ok (\<lambda>(g, s). I (sys s)) (loop_errors E) r"
  using assms
proof (induction bytes arbitrary: st)
  case Nil
  then show ?case by (cases st) simp
next
  case (Cons b bytes)
  have "I (sys (snd (deliver b st)))" using Cons.prems by (cases st) (simp add: deliver_def)
  then obtain r where r: "debug_cycle sk (deliver b st) = Some r"
    "res_ok (\<lambda>(g, s). I (sys s)) (loop_errors E) r" using debug_cycle_keeps by blast
  show ?case
  proof (cases r)
    case (Inr st')
    then have "I (sys (snd st'))" using r(2) by (cases st') simp
    then show ?thesis using Cons.IH [of st'] r(1) Inr by simp
  qed (use r in simp)
qed

text \<open>Waiting for the debugger may never end; what it ends in is as safe as the rest.\<close>

lemma await_attached_keep:
  assumes "await_attached sk msg st = Some r" and "I (sys (snd st))"
  shows "res_ok (\<lambda>(g, s). I (sys s)) (debug_errors E) r"
proof -
  have "sk = sk \<longrightarrow> I (sys (snd st)) \<longrightarrow> res_ok (\<lambda>(g, s). I (sys s)) (debug_errors E) r"
  proof (rule await_attached.raw_induct
      [where P = "\<lambda>sk' msg st r. sk' = sk \<longrightarrow> I (sys (snd st)) \<longrightarrow>
         res_ok (\<lambda>(g, s). I (sys s)) (debug_errors E) r", OF _ assms(1)])
    fix loop :: "'m socket \<Rightarrow> string \<Rightarrow> 'm gdb_state \<Rightarrow> 'm gdb_state res option"
      and sk' :: "'m socket" and msg st r
    assume IH: "\<And>sk' msg st r. loop sk' msg st = Some r \<Longrightarrow>
        sk' = sk \<longrightarrow> I (sys (snd st)) \<longrightarrow> res_ok (\<lambda>(g, s). I (sys s)) (debug_errors E) r"
      and step: "(if msg \<noteq> ''$qAttached#8f''
        then case RecvMsgBlocking sk' st of Inl e \<Rightarrow> Some (Inl e) | Inr (msg, st) \<Rightarrow> loop sk' msg st
        else Some (Inr st)) = Some r"
    obtain g s where st: "st = (g, s)" by fastforce
    show "sk' = sk \<longrightarrow> I (sys (snd st)) \<longrightarrow> res_ok (\<lambda>(g, s). I (sys s)) (debug_errors E) r"
    proof (intro impI)
      assume sk: "sk' = sk" and "I (sys (snd st))"
      then have I: "I (sys s)" using st by simp
      have keep: "msg_keeps I (tcp_server g) (debug_errors E) (RecvMsgBlocking sk (g, s))"
        using RecvMsgBlocking_keeps I by simp
      show "res_ok (\<lambda>(g, s). I (sys s)) (debug_errors E) r"
      proof (cases "msg = ''$qAttached#8f''")
        case True
        then have "r = Inr (g, s)" using step st by simp
        with I show ?thesis by simp
      next
        case False
        show ?thesis
        proof (cases "RecvMsgBlocking sk (g, s)")
          case (Inl e)
          then have "r = Inl e" using step st sk False by simp
          with Inl keep show ?thesis by (simp add: msg_keeps_def)
        next
          case (Inr x)
          obtain msg' h t where x: "x = (msg', h, t)" by (cases x) auto
          have "I (sys t)" using keep Inr x by (simp add: msg_keeps_def)
          moreover have "loop sk msg' (h, t) = Some r" using step st sk False Inr x by simp
          ultimately show ?thesis using IH by simp
        qed
      qed
    qed
  qed
  with assms(2) show ?thesis by simp
qed

lemma InitBlocking_keep:
  assumes "InitBlocking sk os (g, s) = Some r" and "I (sys s)"
  shows "res_ok (\<lambda>(g, s). I (sys s)) (debug_errors E) r"
proof -
  obtain sr br lr ar where os: "os = (sr, br, lr, ar)" by (cases os)
  let ?c = "rbind (Start sr br lr (tcp_server g)) (AcceptClient ar)"
  have "only_errors {SystemError} ?c"
    by (simp add: Start_def AcceptClient_def Let_def)
  then show ?thesis
    using assms await_attached_keep
    by (cases ?c) (auto simp: InitBlocking_def os debug_errors_def protocol_errors_def)
qed

text \<open>The CPU's thread: only the wait for the debugger can keep it from returning.\<close>

lemma DoMachineCycle_keep:
  assumes "I (sys s)"
  shows "case DoMachineCycle sk attach bytes (g, s) of
      None \<Rightarrow> attach \<noteq> None
    | Some r \<Rightarrow> res_ok (\<lambda>(g, s). I (sys s)) (loop_errors E) r"
proof (cases attach)
  case None
  obtain r where "debug_cycles sk bytes (g, s) = Some r" "res_ok (\<lambda>(g, s). I (sys s)) (loop_errors E) r"
    using debug_cycles_keep [of "(g, s)" bytes] assms by auto
  then show ?thesis by (simp add: DoMachineCycle_def None)
next
  case (Some os)
  show ?thesis
  proof (cases "InitBlocking sk os (g, s)")
    case None
    then show ?thesis by (simp add: DoMachineCycle_def Some)
  next
    case init: (Some r)
    have keep: "res_ok (\<lambda>(g, s). I (sys s)) (debug_errors E) r"
      using InitBlocking_keep init assms by blast
    show ?thesis
    proof (cases r)
      case (Inl e)
      then show ?thesis
        using keep debug_errors_loop by (auto simp: DoMachineCycle_def Some init)
    next
      case (Inr st)
      then have "I (sys (snd st))" using keep by (cases st) simp
      then obtain r' where "debug_cycles sk bytes st = Some r'" "res_ok (\<lambda>(g, s). I (sys s)) (loop_errors E) r'"
        using debug_cycles_keep [of st bytes] by auto
      then show ?thesis using Inr by (simp add: DoMachineCycle_def Some init)
    qed
  qed
qed

end

end
