(* ===== verification/Gdb_Game_Boy.thy ===== *)
theory Gdb_Game_Boy
  imports Gdb_Safety Gb_Memory
begin

text \<open>
  The debug accesses of the Game Boy: every slave answers them within its bounds, and memories answer
  them as they answer the CPU. The locale \<open>debug_ram\<close> is a memory for the commands of the debugger that
  read and write memory.
\<close>

section \<open>The cartridge\<close>

lemma rom_dbg_keeps:
  assumes "memory_size (rom_low c) = 0x4000" and "bs_ok n 0x4000 (rom_high c)" and "address pl < 0x8000"
  shows "\<exists>pl' l h. transport_dbg_rom pl c = Inr (pl', c\<lparr>rom_low := l, rom_high := h\<rparr>) \<and>
    memory_size l = 0x4000 \<and> bs_ok n 0x4000 h \<and> current_bank_ind h = current_bank_ind (rom_high c)"
proof (cases "address pl < 0x4000")
  case True
  then have "unat (address pl) < memory_size (rom_low c)"
    using assms(1) by (simp add: word_less_nat_alt)
  then obtain pl' l where "mem_b_transport pl (rom_low c) = Inr (pl', l)"
    using mem_b_transport_in_bounds by fast
  then show ?thesis
    using mem_b_transport_size [of pl "rom_low c" pl' l] True assms
    by (auto simp: transport_dbg_rom_def access_rom_low_def
        intro!: exI [of _ l] exI [of _ "rom_high c"])
next
  case False
  then obtain pl' b where "bs_b_transport (pl\<lparr>address := address pl - 0x4000\<rparr>) (rom_high c) =
      Inr (pl', b)" "bs_ok n 0x4000 b" "current_bank_ind b = current_bank_ind (rom_high c)"
    using bs_b_transport_ok [OF assms(2), of "pl\<lparr>address := address pl - 0x4000\<rparr>"]
      upper_half [OF assms(3) False] by auto
  then show ?thesis
    using False assms
    by (auto simp: transport_dbg_rom_def access_rom_high_def
        intro!: exI [of _ "rom_low c"] exI [of _ b])
qed

lemma mbc_dbg_rom_keeps:
  assumes "mbc_ok c" and "address pl < 0x8000"
  shows "keeps mbc_ok {AssertFailed} (mbc_transport_dbg_rom pl c)"
proof (cases c)
  case (MbcRom d)
  then show ?thesis
    using assms rom_dbg_keeps [of d 1 pl] by (auto simp: mbc_ok_def ctrler_ok_def)
next
  case (MbcOne d)
  then show ?thesis
    using assms rom_dbg_keeps [of d 128 pl]
    by (auto simp: mbc_ok_def ctrler_ok_def mbc1_ok_def mbc1_abs_def)
next
  case (MbcThree d)
  then show ?thesis
    using assms rom_dbg_keeps [of d 128 pl] by (auto simp: mbc_ok_def ctrler_ok_def mbc3_ok_def)
next
  case (MbcFive d)
  then show ?thesis
    using assms rom_dbg_keeps [of d 512 pl] by (auto simp: mbc_ok_def mbc5_bounded_def)
qed

lemma mbc_dbg_ram_keeps:
  assumes "mbc_ok c" and "address pl < 0x2000"
  shows "keeps mbc_ok {AssertFailed} (mbc_transport_dbg_ram now pl c)"
proof (cases c)
  case (MbcFive d)
  have "bs_ok 16 0x2000 (ext_ram d)" "unat (address pl) < 0x2000"
    using assms MbcFive by (simp_all add: mbc_ok_def mbc5_bounded_def word_less_nat_alt)
  then obtain pl' b where "bs_b_transport pl (ext_ram d) = Inr (pl', b)" "bs_ok 16 0x2000 b"
    using bs_b_transport_ok by blast
  then show ?thesis
    using assms MbcFive
    by (simp add: mbc5_transport_dbg_ram_def access_ext_ram_def mbc_ok_def mbc5_bounded_def)
qed (use mbc_ram_keeps [OF assms, of now] in simp_all)

section \<open>The bus\<close>

lemma debug_as_b_transport:
  assumes "sl \<in> set (gb_slaves bus)" and "sl \<noteq> rom_slave" and "sl \<noteq> cartridge_ram_slave"
  shows "slave_transport_dbg sl = slave_b_transport sl"
proof -
  have "mem_transport_dbg = mem_b_transport" "joypad_transport_dbg = joypad_b_transport"
    "serial_transport_dbg = serial_b_transport" "timer_transport_dbg = timer_b_transport"
    by (intro ext; simp add: mem_transport_dbg_def joypad_transport_dbg_def serial_transport_dbg_def
        timer_transport_dbg_def)+
  then show ?thesis
    using assms by (auto simp: gb_slaves_list memory_slave_def module_slave_def io_slave_def)
qed

lemma debug_bus_cases:
  assumes "sl \<in> set (gb_slaves bus)" and "in_range (address pl) sl"
  shows "bus_transport_dbg (gb_slaves bus) pl m =
    slave_transport_dbg sl (pl\<lparr>address := address pl - addr_from sl\<rparr>) m"
  by (simp add: bus_find(2) find_unique [OF gb_slaves_disjoint assms])

lemma cartridge_debug_keeps:
  assumes "gb_ok m" and "in_range (address pl) sl" and "sl = rom_slave \<or> sl = cartridge_ram_slave"
  shows "keeps gb_ok {AssertFailed} (slave_transport_dbg sl (pl\<lparr>address := address pl - addr_from sl\<rparr>) m)"
proof -
  let ?pl = "pl\<lparr>address := address pl - addr_from sl\<rparr>"
  have rel: "unat (address ?pl) \<le> unat (addr_to sl) - unat (addr_from sl)"
    using relative_address [OF assms(2)] by simp
  from assms(3) show ?thesis
  proof
    assume sl: "sl = rom_slave"
    with rel have "address ?pl < 0x8000" by (simp add: word_less_nat_alt)
    then have "keeps gb_ok {AssertFailed}
        (on_part cartridge (\<lambda>c m. m\<lparr>cartridge := c\<rparr>) mbc_transport_dbg_rom ?pl m)"
      using assms(1) by (intro on_part_keeps [where J = mbc_ok] mbc_dbg_rom_keeps) (auto simp: gb_ok_def)
    then show ?thesis by (simp add: sl rom_slave_def)
  next
    assume sl: "sl = cartridge_ram_slave"
    with rel have "address ?pl < 0x2000" by (simp add: word_less_nat_alt)
    then have "keeps gb_ok {AssertFailed}
        (on_part cartridge (\<lambda>c m. m\<lparr>cartridge := c\<rparr>) (mbc_transport_dbg_ram (wall_clock m)) ?pl m)"
      using assms(1) by (intro on_part_keeps [where J = mbc_ok] mbc_dbg_ram_keeps) (auto simp: gb_ok_def)
    then show ?thesis by (simp add: sl cartridge_ram_slave_def)
  qed
qed

lemma gb_debug_same:
  assumes "\<not> in_range (address pl) rom_slave" and "\<not> in_range (address pl) cartridge_ram_slave"
  shows "bus_transport_dbg (gb_slaves bus) pl m = bus_b_transport (gb_slaves bus) pl m"
proof (cases "find (in_range (address pl)) (gb_slaves bus)")
  case None
  then show ?thesis by (simp add: bus_find)
next
  case (Some sl)
  then have sl: "sl \<in> set (gb_slaves bus)" "in_range (address pl) sl" using bus_found by blast+
  with assms have "slave_transport_dbg sl = slave_b_transport sl"
    by (intro debug_as_b_transport) auto
  then show ?thesis using Some by (simp add: bus_find)
qed

lemma gb_debug_keeps:
  assumes "gb_ok m"
  shows "keeps gb_ok {AssertFailed} (bus_transport_dbg gb_top_slaves pl m)"
proof (cases "in_range (address pl) rom_slave \<or> in_range (address pl) cartridge_ram_slave")
  case True
  then obtain sl where sl: "sl = rom_slave \<or> sl = cartridge_ram_slave" "in_range (address pl) sl"
    by blast
  then have "sl \<in> set (gb_slaves (gb_bus 1))" by (auto simp: gb_slaves_list)
  then show ?thesis
    using cartridge_debug_keeps [OF assms sl(2,1)] debug_bus_cases sl(2)
    by (simp add: gb_top_slaves_def)
next
  case False
  then have "bus_transport_dbg gb_top_slaves pl m = gb_bus (Suc (Suc 0)) pl m"
    using gb_debug_same [of pl "gb_bus 1" m] by (simp add: gb_top_slaves_def)
  then show ?thesis using gb_bus_keeps [OF assms, of 0 pl] by simp
qed

interpretation gb_debug: debug_socket "gb_socket polls traced" gb_ok "{AssertFailed}"
  for polls traced
  by unfold_locales (simp add: gb_socket_def gb_debug_keeps)

text \<open>Of a system one knows nothing about, the loops over messages still end.\<close>

interpretation any_debug: debug_socket sk "\<lambda>_. True" UNIV for sk :: "'m socket"
  by unfold_locales (auto simp: keeps_def split: sum.split)

end
