(* ===== verification/Gdb_Commands.thy ===== *)
theory Gdb_Commands
  imports Gdb_Game_Boy
begin

text \<open>
  What the commands of the debugger do when the connection works: the answers, the registers, and, in
  the locale \<open>debug_ram\<close>, memory that a debugger writes and reads back.
\<close>

section \<open>Answers\<close>

definition answered :: "string \<Rightarrow> GdbServer \<Rightarrow> GdbServer" where
  "answered msg g = g\<lparr>tcp_server := (tcp_server g)\<lparr>outbox := outbox (tcp_server g) @ msg\<rparr>\<rparr>"

lemma answered_simps [simp]:
  "is_attached (answered msg g) = is_attached g" "bp_set (answered msg g) = bp_set g"
  "outbox (tcp_server (answered msg g)) = outbox (tcp_server g) @ msg"
  "send_works (tcp_server (answered msg g)) = send_works (tcp_server g)"
  "available (tcp_server (answered msg g)) = available (tcp_server g)"
  "answered m2 (answered m1 g) = answered (m1 @ m2) g"
  by (simp_all add: answered_def)

lemma gdb_reply_answered:
  "send_works (tcp_server g) \<Longrightarrow> CHR 0x00 \<notin> set msg \<Longrightarrow> gdb_reply msg (g, s) = Inr (answered msg g, s)"
  by (simp add: gdb_reply_def gdb_send_def SendMsg_works answered_def)

lemma format_hex_plain: "c \<in> set (format_hex w n) \<Longrightarrow> is_xdigit c"
  using format_hex_digits [of w n] by (auto simp: list_all_iff)

lemma hex_not_special [simp]:
  "CHR 0x00 \<notin> set (format_hex w n)" "CHR ''#'' \<notin> set (format_hex w n)"
  using format_hex_plain [of _ w n] xdigit_simps by blast+

lemma Packetify_plain [simp]: "CHR 0x00 \<notin> set (Packetify msg) \<longleftrightarrow> CHR 0x00 \<notin> set msg"
  by (simp add: Packetify_def GetChecksumStr_eq)

lemma GetChecksumStr_props:
  "length (GetChecksumStr msg) = 2" "list_all is_xdigit (GetChecksumStr msg)"
  "hex_number (GetChecksumStr msg) = byte_sum msg mod 256"
  by (simp_all add: GetChecksumStr_eq length_format_hex format_hex_digits hex_number_format)

section \<open>Receiving commands\<close>

definition received :: "nat \<Rightarrow> string \<Rightarrow> GdbServer \<Rightarrow> GdbServer" where
  "received n rest g = g\<lparr>tcp_server := (tcp_server g)\<lparr>available := rest, calls := calls (tcp_server g) + n\<rparr>\<rparr>"

lemma received_simps [simp]:
  "is_attached (received n rest g) = is_attached g" "bp_set (received n rest g) = bp_set g"
  "outbox (tcp_server (received n rest g)) = outbox (tcp_server g)"
  "send_works (tcp_server (received n rest g)) = send_works (tcp_server g)"
  "available (tcp_server (received n rest g)) = rest"
  by (simp_all add: received_def)

text \<open>A command as the debugger sends it: no \<^verbatim>\<open>#\<close>, no zero, and not too long.\<close>

definition sendable :: "string \<Rightarrow> bool" where
  "sendable msg \<longleftrightarrow> CHR ''#'' \<notin> set msg \<and> CHR 0x00 \<notin> set msg \<and> length msg + 2 \<le> kMaxMessageLength"

lemma RecvMsgBlocking_Packetify:
  assumes "available (tcp_server g) = Packetify data @ rest" and "sendable data"
  shows "RecvMsgBlocking sk (g, s) =
    rbind (DecodeAndCall sk (Packetify data) (received (length data + 3) rest g, s))
      (\<lambda>st. Inr (Packetify data, st))"
proof -
  have "available (tcp_server g) = CHR ''$'' # data @ CHR ''#'' # GetChecksumStr data @ rest"
    using assms(1) by (simp add: Packetify_def)
  then show ?thesis
    using RecvMsgBlocking_packet [of g data "GetChecksumStr data" rest sk s] assms(2)
    by (simp add: sendable_def GetChecksumStr_props Packetify_def received_def add.assoc)
qed

lemma HandleMessages_Packetify:
  assumes "is_attached g" and "available (tcp_server g) = Packetify data @ rest" and "sendable data"
    and "DecodeAndCall sk (Packetify data) (received (length data + 3) rest g, s) = Inr st"
  shows "HandleMessages sk (g, s) = HandleMessages sk st"
proof -
  have "IsMsgPending g"
    using assms(1,2) by (simp add: IsMsgPending_def DataAvailable_def Packetify_def)
  then show ?thesis
    using RecvMsgBlocking_Packetify [OF assms(2,3), of sk s] assms(4)
    by (subst HandleMessages.simps) simp
qed

lemma HandleMessages_done:
  "available (tcp_server g) = [] \<Longrightarrow> HandleMessages sk (g, s) = Some (Inr (g, s))"
  by (subst HandleMessages.simps) (simp add: IsMsgPending_def DataAvailable_def)

lemma DecodeAndCall_command:
  assumes "SplitMsg data = name # args" and "cmd_map sk name = Some cmd" and "send_works (tcp_server g)"
  shows "DecodeAndCall sk (Packetify data) (g, s) = cmd (name # args) (answered ''+'' g, s)"
  using assms
  by (simp add: Packetify_def DecodeAndCall_packet GetChecksumStr_props kMsgAck_def gdb_reply_answered)

section \<open>Registers\<close>

lemma rotl_make16: "word_rotl 8 (make16 h l) = make16 l h"
proof (rule bit_word_eqI)
  fix n assume n: "n < LENGTH(16)"
  show "bit (word_rotl 8 (make16 h l)) n = bit (make16 l h) n"
  proof (cases "n < 8")
    case True
    then have "(n + 8) mod 16 = n + 8" by simp
    with True n show ?thesis
      by (auto simp: bit_word_rotl_iff make16_def bit_simps dest: bit_imp_le_length)
  next
    case False
    then obtain k where k: "n = k + 8" "k < 8"
      using n by (intro that [of "n - 8"]) auto
    then have "(n + 8) mod 16 = k" by simp
    with k n show ?thesis
      by (auto simp: bit_word_rotl_iff make16_def bit_simps dest: bit_imp_le_length)
  qed
qed

lemma rotl_rotl [simp]: "word_rotl 8 (word_rotl 8 (v :: u16)) = v"
  by (metis make16_hi8_lo8 rotl_make16)

definition reg_hex :: "u16 \<Rightarrow> string" where
  "reg_hex v = format_hex 4 (unat (word_rotl 8 v))"

lemma length_reg_hex [simp]: "length (reg_hex v) = 4"
  using unat_u16_less [of "word_rotl 8 v"] by (simp add: reg_hex_def length_format_hex)

lemma stoi16_reg_hex [simp]: "stoi16 (reg_hex v) = Inr (int (unat (word_rotl 8 v)))"
  using unat_u16_less [of "word_rotl 8 v"] by (simp add: reg_hex_def stoi16_format)

text \<open>All six registers in the order of the register file.\<close>

definition put_regs :: "u16 list \<Rightarrow> 'm cpu \<Rightarrow> 'm cpu" where
  "put_regs vs s = foldl (\<lambda>s (q, v). put16 q v s) s (zip reg_vec vs)"

lemma list_of_six: "length vs = 6 \<Longrightarrow> \<exists>a b c d e f. vs = [a, b, c, d, e, f]"
  by (auto simp: eval_nat_numeral length_Suc_conv)

lemma CmdWriteReg_eq:
  assumes "length vs = 6" and "send_works (tcp_server g)"
  shows "CmdWriteReg [name, concat (map reg_hex vs) @ extra] (g, s) =
    Inr (answered kMsgOk g, put_regs vs s)"
proof -
  obtain a b c d e f where vs: "vs = [a, b, c, d, e, f]"
    using list_of_six [OF assms(1)] by blast
  show ?thesis
    using assms(2)
    by (simp add: CmdWriteReg_def vs reg_vec_def substr_def put_regs_def gdb_reply_answered kMsgOk_def)
qed

lemma get16_put_regs:
  assumes "length vs = 6" and "i < 6"
  shows "get16 (put_regs vs s) (reg_vec ! i) = vs ! i"
proof -
  obtain a b c d e f where vs: "vs = [a, b, c, d, e, f]"
    using list_of_six [OF assms(1)] by blast
  have "i \<in> {0, 1, 2, 3, 4, 5}" using assms(2) by auto
  then show ?thesis
    by (auto simp: vs put_regs_def reg_vec_def get16_put16)
qed

lemma CmdReadReg_eq:
  assumes "send_works (tcp_server g)"
  shows "CmdReadReg gs (g, s) =
    Inr (answered (Packetify (concat (map (\<lambda>q. reg_hex (get16 s q)) reg_vec) @ replicate 28 CHR ''x'')) g, s)"
proof -
  have "CHR 0x00 \<notin> set (concat (map (\<lambda>q. reg_hex (get16 s q)) reg_vec) @ replicate 28 CHR ''x'')"
    by (auto simp: reg_hex_def)
  then show ?thesis
    using assms
    by (simp add: CmdReadReg_def gdb_reply_answered reg_hex_def reg_vec_def)
qed

section \<open>Memory\<close>

text \<open>The bytes of a memory command, two digits each.\<close>

definition bytes_hex :: "u8 list \<Rightarrow> string" where
  "bytes_hex ds = concat (map (\<lambda>d. format_hex 2 (unat d)) ds)"

lemma length_format_byte [simp]: "length (format_hex 2 (unat (d :: u8))) = 2"
  using unat_u8_less [of d] by (simp add: length_format_hex)

lemma bytes_hex_simps [simp]:
  "bytes_hex [] = []" "bytes_hex (ds @ [d]) = bytes_hex ds @ format_hex 2 (unat d)"
  "length (bytes_hex ds) = 2 * length ds" "list_all is_xdigit (bytes_hex ds)"
  "CHR 0x00 \<notin> set (bytes_hex ds)" "CHR ''#'' \<notin> set (bytes_hex ds)"
  by (induction ds) (auto simp: bytes_hex_def format_hex_digits)

lemma substr_bytes_hex:
  "i < length ds \<Longrightarrow> substr (i * 2) 2 (bytes_hex ds) = Inr (format_hex 2 (unat (ds ! i)))"
proof (induction ds arbitrary: i)
  case (Cons d ds)
  show ?case
  proof (cases i)
    case 0
    then show ?thesis by (simp add: substr_def bytes_hex_def)
  next
    case (Suc j)
    with Cons.prems have "substr (j * 2) 2 (bytes_hex ds) = Inr (format_hex 2 (unat (ds ! j)))"
      by (intro Cons.IH) simp
    moreover have "bytes_hex (d # ds) = format_hex 2 (unat d) @ bytes_hex ds" by (simp add: bytes_hex_def)
    ultimately show ?thesis by (simp add: substr_def Suc split: if_splits)
  qed
qed simp

definition write_command :: "nat \<Rightarrow> u8 list \<Rightarrow> string" where
  "write_command a ds = ''M'' @ format_hex 1 a @ '','' @ format_hex 1 (length ds) @ '':'' @ bytes_hex ds"

definition read_command :: "nat \<Rightarrow> nat \<Rightarrow> string" where
  "read_command a n = ''m'' @ format_hex 1 a @ '','' @ format_hex 1 n"

lemma SplitMsg_commands:
  "ds \<noteq> [] \<Longrightarrow> SplitMsg (write_command a ds) =
    [''M'', format_hex 1 a, format_hex 1 (length ds), bytes_hex ds]"
  "SplitMsg (read_command a n) = [''m'', format_hex 1 a, format_hex 1 n]"
proof -
  show "SplitMsg (read_command a n) = [''m'', format_hex 1 a, format_hex 1 n]"
    unfolding read_command_def
    using SplitMsg_memory(1) [OF format_hex_digits [of 1 a] format_hex_digits [of 1 n]] by simp
  assume "ds \<noteq> []"
  then have "bytes_hex ds \<noteq> []" by (metis bytes_hex_simps(3) length_0_conv mult_eq_0_iff zero_neq_numeral)
  then show "SplitMsg (write_command a ds) =
      [''M'', format_hex 1 a, format_hex 1 (length ds), bytes_hex ds]"
    unfolding write_command_def
    using SplitMsg_memory(2) [OF format_hex_digits [of 1 a] format_hex_digits [of 1 "length ds"]
        bytes_hex_simps(4)] by simp
qed

text \<open>Addresses from \<open>a\<close> on, as 16-bit words.\<close>

lemma ucast_of_nat: "(ucast (of_nat n :: u32) :: u16) = of_nat n"
proof -
  have "unat (ucast (of_nat n :: u32) :: u16) = unat (of_nat n :: u16)"
    by (simp only: unsigned_ucast_eq unsigned_of_nat take_bit_take_bit) simp
  then show ?thesis by (simp only: word_unat_eq_iff)
qed

lemma address_of_nat: "(ucast (of_nat a + of_nat i :: u32) :: u16) = of_nat a + of_nat i"
  using ucast_of_nat [of "a + i"] by simp

lemma of_nat_address: "n < 65536 \<Longrightarrow> of_nat n = (b :: u16) \<longleftrightarrow> n = unat b"
  using take_bit_nat_eq_self_iff [of 16 n] by (simp add: word_unat_eq_iff unsigned_of_nat)

lemma all_bytes_u32: "n \<le> 65536 \<Longrightarrow> unat (of_nat n :: u32) = n"
  by (simp add: unsigned_of_nat take_bit_nat_eq_self_iff)

locale debug_ram = ram_socket sk good ram peek poke
  for sk :: "'m socket" and good and ram and peek and poke +
  assumes debug_same: "good m \<Longrightarrow> ram (address pl) \<Longrightarrow> sk_transport_dbg sk pl m = sk_b_transport sk pl m"
begin

lemma WriteBusDebug_ram:
  assumes "good (sys s)" and "ram a"
  shows "WriteBusDebug sk a d s = Inr (s\<lparr>sys := poke a d (sys s), payload_status := TLM_OK_RESPONSE\<rparr>)"
proof -
  let ?pl = "\<lparr>command = TLM_WRITE_COMMAND, address = a, data_byte = d,
    response_status = payload_status s, extension = Some (gbcmd s)\<rparr>"
  have "observed (sk_transport_dbg sk ?pl (sys s)) = Inr (TLM_OK_RESPONSE, d, poke a d (sys s))"
    using write_ram [of "sys s" ?pl] debug_same [of "sys s" ?pl] assms by simp
  then obtain pl' where "sk_transport_dbg sk ?pl (sys s) = Inr (pl', poke a d (sys s))"
    and "response_status pl' = TLM_OK_RESPONSE"
    by (auto simp: observed_def map_sum_def split: sum.splits)
  then show ?thesis by (simp add: WriteBusDebug_def Let_def is_response_error_def)
qed

lemma ReadBusDebug_ram:
  assumes "good (sys s)" and "ram a"
  shows "ReadBusDebug sk a s = Inr (peek (sys s) a, s\<lparr>payload_status := TLM_OK_RESPONSE\<rparr>)"
proof -
  let ?pl = "\<lparr>command = TLM_READ_COMMAND, address = a, data_byte = sk_indeterminate sk (sys s),
    response_status = payload_status s, extension = Some (gbcmd s)\<rparr>"
  have "observed (sk_transport_dbg sk ?pl (sys s)) = Inr (TLM_OK_RESPONSE, peek (sys s) a, sys s)"
    using read_ram [of "sys s" ?pl] debug_same [of "sys s" ?pl] assms by simp
  then obtain pl' where "sk_transport_dbg sk ?pl (sys s) = Inr (pl', sys s)"
    and "response_status pl' = TLM_OK_RESPONSE" and "data_byte pl' = peek (sys s) a"
    by (auto simp: observed_def map_sum_def split: sum.splits)
  then show ?thesis by (simp add: ReadBusDebug_def Let_def is_response_error_def)
qed

text \<open>The memory after the first \<open>k\<close> bytes.\<close>

fun poke_all :: "nat \<Rightarrow> u8 list \<Rightarrow> nat \<Rightarrow> 'm \<Rightarrow> 'm" where
  "poke_all a ds 0 m = m"
| "poke_all a ds (Suc k) m = poke (of_nat (a + k)) (ds ! k) (poke_all a ds k m)"

definition all_ram :: "nat \<Rightarrow> nat \<Rightarrow> bool" where
  "all_ram a n \<longleftrightarrow> a + n \<le> 65536 \<and> (\<forall>i<n. ram (of_nat (a + i)))"

lemma good_poke_all: "good m \<Longrightarrow> all_ram a n \<Longrightarrow> k \<le> n \<Longrightarrow> good (poke_all a ds k m)"
  by (induction k) (simp_all add: all_ram_def good_poke del: of_nat_add)

lemma peek_poke_all:
  assumes "good m" and "all_ram a n" and "k \<le> n" and "ram b"
  shows "peek (poke_all a ds k m) b =
    (if a \<le> unat b \<and> unat b < a + k then ds ! (unat b - a) else peek m b)"
  using assms(3)
proof (induction k)
  case (Suc k)
  have good: "good (poke_all a ds k m)" using good_poke_all [OF assms(1,2)] Suc.prems by simp
  have ram: "ram (of_nat (a + k))" using assms(2) Suc.prems by (simp add: all_ram_def)
  have "a + k < 65536" using assms(2) Suc.prems by (simp add: all_ram_def)
  then have eq: "of_nat (a + k) = b \<longleftrightarrow> a + k = unat b" by (rule of_nat_address)
  show ?case
    using peek_poke [OF good ram assms(4), of "ds ! k"] Suc
    by (auto simp: eq less_Suc_eq simp del: of_nat_add) (metis add_diff_cancel_left')
qed auto

abbreviation write_body :: "nat \<Rightarrow> string \<Rightarrow> nat \<Rightarrow> 'm cpu \<Rightarrow> 'm cpu res" where
  "write_body a digits \<equiv> (\<lambda>i s. rbind (substr (i * 2) 2 digits) (\<lambda>digits.
     rbind (stoi16 digits) (\<lambda>data.
       WriteBusDebug sk (ucast (of_nat a + of_nat i :: u32)) (word_of_int data) s)))"

lemma write_loop:
  assumes "good (sys s)" and "all_ram a (length ds)" and "k \<le> length ds"
  shows "\<exists>st. for_each [0..<k] (write_body a (bytes_hex ds)) s =
    Inr (s\<lparr>sys := poke_all a ds k (sys s), payload_status := st\<rparr>)"
  using assms(3)
proof (induction k)
  case 0
  have "s = s\<lparr>sys := sys s, payload_status := payload_status s\<rparr>" by simp
  then show ?case by (metis for_each.simps(1) poke_all.simps(1) upt_0)
next
  case (Suc k)
  then obtain st where loop: "for_each [0..<k] (write_body a (bytes_hex ds)) s =
      Inr (s\<lparr>sys := poke_all a ds k (sys s), payload_status := st\<rparr>)" by auto
  let ?t = "s\<lparr>sys := poke_all a ds k (sys s), payload_status := st\<rparr>"
  have digits: "stoi16 (format_hex 2 (unat (ds ! k))) = Inr (int (unat (ds ! k)))"
    by (rule stoi16_format) (use unat_u8_less [of "ds ! k"] in simp)
  have "good (sys ?t)" "ram (of_nat a + of_nat k)"
    using good_poke_all [OF assms(1,2)] assms(2) Suc.prems by (simp_all add: all_ram_def)
  note bus = WriteBusDebug_ram [OF this, of "ds ! k"]
  have "for_each [0..<Suc k] (write_body a (bytes_hex ds)) s = write_body a (bytes_hex ds) k ?t"
    by (simp add: for_each_append loop) (simp add: rbind_def split: sum.split)
  also have "\<dots> = Inr (s\<lparr>sys := poke_all a ds (Suc k) (sys s), payload_status := TLM_OK_RESPONSE\<rparr>)"
    using Suc.prems bus by (simp add: substr_bytes_hex digits address_of_nat)
  finally show ?case by blast
qed

lemma CmdWriteMem_ram:
  assumes "good (sys s)" and "all_ram a (length ds)" and "send_works (tcp_server g)"
  shows "\<exists>st. CmdWriteMem sk [name, format_hex 1 a, format_hex 1 (length ds), bytes_hex ds] (g, s) =
    Inr (answered kMsgOk g, s\<lparr>sys := poke_all a ds (length ds) (sys s), payload_status := st\<rparr>)"
proof -
  obtain st where loop: "for_each [0..<length ds] (write_body a (bytes_hex ds)) s =
    Inr (s\<lparr>sys := poke_all a ds (length ds) (sys s), payload_status := st\<rparr>)"
    using write_loop [OF assms(1,2)] by blast
  have "stoi16 (format_hex 1 a) = Inr (int a)"
    "stoi16 (format_hex 1 (length ds)) = Inr (int (length ds))"
    "unat (of_nat (length ds) :: u32) = length ds"
    by (intro stoi16_format all_bytes_u32; use assms(2) in \<open>simp add: all_ram_def\<close>)+
  then show ?thesis
    by (intro exI [of _ st]) (simp add: CmdWriteMem_def loop gdb_reply_answered [OF assms(3)] kMsgOk_def)
qed

abbreviation read_body :: "nat \<Rightarrow> nat \<Rightarrow> string \<times> 'm cpu \<Rightarrow> (string \<times> 'm cpu) res" where
  "read_body a \<equiv> (\<lambda>i (msg_resp, s).
     rbind (ReadBusDebug sk (ucast (of_nat a + of_nat i :: u32)) s) (\<lambda>(data, s).
       Inr (msg_resp @ format_hex 2 (unat data), s)))"

lemma read_loop:
  assumes "good (sys s)" and "all_ram a n" and "k \<le> n"
  shows "\<exists>st. for_each [0..<k] (read_body a) ([], s) =
    Inr (bytes_hex (map (\<lambda>i. peek (sys s) (of_nat (a + i))) [0..<k]), s\<lparr>payload_status := st\<rparr>)"
  using assms(3)
proof (induction k)
  case 0
  have "s = s\<lparr>payload_status := payload_status s\<rparr>" by simp
  then show ?case by (metis bytes_hex_simps(1) for_each.simps(1) list.map(1) upt_0)
next
  case (Suc k)
  then obtain st where loop: "for_each [0..<k] (read_body a) ([], s) =
      Inr (bytes_hex (map (\<lambda>i. peek (sys s) (of_nat (a + i))) [0..<k]), s\<lparr>payload_status := st\<rparr>)"
    by auto
  have "good (sys (s\<lparr>payload_status := st\<rparr>))" "ram (of_nat a + of_nat k)"
    using assms(1,2) Suc.prems by (simp_all add: all_ram_def)
  note bus = ReadBusDebug_ram [OF this]
  have "for_each [0..<Suc k] (read_body a) ([], s) =
      read_body a k (bytes_hex (map (\<lambda>i. peek (sys s) (of_nat (a + i))) [0..<k]), s\<lparr>payload_status := st\<rparr>)"
    by (simp only: upt_Suc_append for_each_append loop rbind_simps le0 for_each.simps)
      (simp add: rbind_def split: sum.split)
  also have "\<dots> = Inr (bytes_hex (map (\<lambda>i. peek (sys s) (of_nat (a + i))) [0..<Suc k]),
      s\<lparr>payload_status := TLM_OK_RESPONSE\<rparr>)"
    using bus by (simp add: address_of_nat)
  finally show ?case by blast
qed

lemma CmdReadMem_ram:
  assumes "good (sys s)" and "all_ram a n" and "send_works (tcp_server g)"
  shows "\<exists>st. CmdReadMem sk [name, format_hex 1 a, format_hex 1 n] (g, s) =
    Inr (answered (Packetify (bytes_hex (map (\<lambda>i. peek (sys s) (of_nat (a + i))) [0..<n]))) g,
      s\<lparr>payload_status := st\<rparr>)"
proof -
  obtain st where loop: "for_each [0..<n] (read_body a) ([], s) =
    Inr (bytes_hex (map (\<lambda>i. peek (sys s) (of_nat (a + i))) [0..<n]), s\<lparr>payload_status := st\<rparr>)"
    using read_loop [OF assms(1,2)] by blast
  have "stoi16 (format_hex 1 a) = Inr (int a)" "stoi16 (format_hex 1 n) = Inr (int n)"
    "unat (of_nat n :: u32) = n"
    by (intro stoi16_format all_bytes_u32; use assms(2) in \<open>simp add: all_ram_def\<close>)+
  then show ?thesis
    by (intro exI [of _ st]) (simp add: CmdReadMem_def loop gdb_reply_answered [OF assms(3)])
qed

end

interpretation gb_debug_ram: debug_ram "gb_socket polls traced" gb_ok gb_ram gb_peek gb_poke
  for polls traced
proof
  fix m and pl :: payload
  assume "gb_ok m" and ram: "gb_ram (address pl)"
  have "\<not> in_range (address pl) rom_slave" "\<not> in_range (address pl) cartridge_ram_slave"
    using ram by (auto simp: gb_ram_def in_range_def word_le_nat_alt)
  then show "sk_transport_dbg (gb_socket polls traced) pl m = sk_b_transport (gb_socket polls traced) pl m"
    using gb_debug_same [of pl "gb_bus 1" m] by (simp add: gb_socket_def gb_top_slaves_def)
qed

section \<open>Breakpoints\<close>

definition breakpoint_command :: "char \<Rightarrow> char \<Rightarrow> nat \<Rightarrow> char \<Rightarrow> string" where
  "breakpoint_command z t a k = z # t # CHR '','' # format_hex 1 a @ [CHR '','', k]"

lemma Cmd_breakpoint:
  assumes "t \<in> {CHR ''0'', CHR ''1''}" and "a < 2 ^ 31" and "send_works (tcp_server g)"
  shows "CmdInsertBp [name, [t], format_hex 1 a, [k]] (g, s) =
      Inr (answered (Packetify ''OK'') (g\<lparr>bp_set := insert (of_nat a) (bp_set g)\<rparr>), s)"
    and "CmdRemoveBp [name, [t], format_hex 1 a, [k]] (g, s) =
      Inr (answered (Packetify ''OK'') (g\<lparr>bp_set := bp_set g - {of_nat a}\<rparr>), s)"
proof -
  have "stoi16 (format_hex 1 a) = Inr (int a)" using assms(2) by (rule stoi16_format)
  then show "CmdInsertBp [name, [t], format_hex 1 a, [k]] (g, s) =
      Inr (answered (Packetify ''OK'') (g\<lparr>bp_set := insert (of_nat a) (bp_set g)\<rparr>), s)"
    "CmdRemoveBp [name, [t], format_hex 1 a, [k]] (g, s) =
      Inr (answered (Packetify ''OK'') (g\<lparr>bp_set := bp_set g - {of_nat a}\<rparr>), s)"
    using assms(1,3)
    by (auto simp: CmdInsertBp_def CmdRemoveBp_def ucast_of_nat gdb_reply_answered)
qed

lemma DecodeAndCall_breakpoint:
  assumes "t \<in> {CHR ''0'', CHR ''1''}" and "is_digit k" and "a < 2 ^ 31" and "send_works (tcp_server g)"
  shows "DecodeAndCall sk (Packetify (breakpoint_command CHR ''Z'' t a k)) (g, s) =
      Inr (answered (''+'' @ Packetify ''OK'') (g\<lparr>bp_set := insert (of_nat a) (bp_set g)\<rparr>), s)"
    and "DecodeAndCall sk (Packetify (breakpoint_command CHR ''z'' t a k)) (g, s) =
      Inr (answered (''+'' @ Packetify ''OK'') (g\<lparr>bp_set := bp_set g - {of_nat a}\<rparr>), s)"
proof -
  have split: "SplitMsg (breakpoint_command z t a k) = [[z], [t], format_hex 1 a, [k]]"
    if "z \<in> {CHR ''z'', CHR ''Z''}" for z
    unfolding breakpoint_command_def
    by (rule SplitMsg_breakpoint) (use that assms format_hex_digits in simp_all)
  have ans: "answered m (h\<lparr>bp_set := b\<rparr>) = (answered m h)\<lparr>bp_set := b\<rparr>" for m b h
    by (simp add: answered_def)
  show "DecodeAndCall sk (Packetify (breakpoint_command CHR ''Z'' t a k)) (g, s) =
      Inr (answered (''+'' @ Packetify ''OK'') (g\<lparr>bp_set := insert (of_nat a) (bp_set g)\<rparr>), s)"
    using DecodeAndCall_command [OF split [of "CHR ''Z''"] cmd_map_simps(8) assms(4), of sk s]
      Cmd_breakpoint(1) [OF assms(1,3), of "answered ''+'' g" _ k s] assms(4)
    by (simp add: ans)
  show "DecodeAndCall sk (Packetify (breakpoint_command CHR ''z'' t a k)) (g, s) =
      Inr (answered (''+'' @ Packetify ''OK'') (g\<lparr>bp_set := bp_set g - {of_nat a}\<rparr>), s)"
    using DecodeAndCall_command [OF split [of "CHR ''z''"] cmd_map_simps(9) assms(4), of sk s]
      Cmd_breakpoint(2) [OF assms(1,3), of "answered ''+'' g" _ k s] assms(4)
    by (simp add: ans)
qed

lemma debug_cycle_breakpoint:
  assumes "\<not> IsMsgPending g" and "\<not> halted s" and "BpReached g (get16 s rPC)"
    and "send_works (tcp_server g)"
  shows "debug_cycle sk (g, s) = Some (Inr (answered (Packetify ''S05'') g,
    s\<lparr>halted := True, sys := sk_wait sk (4 * kNsPerClkCycle) (sys s)\<rparr>))"
proof -
  have "''S'' @ format_hex 2 SIGTRAP = ''S05''"
    by (simp add: SIGTRAP_def format_hex_def to_hex.simps hex_digit_def)
  then have "SendBpReached g = Inr (answered (Packetify ''S05'') g)"
    using assms(4) by (simp add: SendBpReached_def gdb_send_def SendMsg_works answered_def)
  then show ?thesis using assms by (simp add: debug_cycle_def)
qed

section \<open>Rejected messages\<close>

lemma recv_data_too_long:
  assumes "available c = data @ rest" and "CHR ''#'' \<notin> set data" and "CHR 0x00 \<notin> set data"
    and "kMaxMessageLength < length buf + length data" and "length buf \<le> kMaxMessageLength"
  shows "recv_data buf k c = Inl LogicError"
  using assms
proof (induction data arbitrary: buf k c)
  case (Cons x data)
  have x: "x \<noteq> CHR 0x00" "x \<noteq> CHR ''#''" using Cons.prems by auto
  have one: "RecvBlocking 1 c = Inr ([x], c\<lparr>available := data @ rest, calls := calls c + 1\<rparr>)"
    using RecvBlocking_one [OF _ x(1)] Cons.prems(1) by simp
  show ?case
    by (subst recv_data.simps, subst one) (use Cons x(2) in \<open>simp add: first_char_def Let_def\<close>)
qed simp

end
