(* ===== verification/Gdb_Properties.thy ===== *)
theory Gdb_Properties
  imports Gdb_Commands Gb_Properties
begin

text \<open>
  The properties of the debugger: its packets, what it rejects, that its loops end, that a debugged
  Game Boy stays within its bounds, and what its commands do to memory, registers and breakpoints.
\<close>

section \<open>A server for examples\<close>

text \<open>A debugger that is attached and has sent some bytes, over an otherwise silent connection.\<close>

definition small_server :: "string \<Rightarrow> GdbServer" where
  "small_server bytes =
     \<lparr>is_attached = True, bp_set = {0},
      tcp_server = (new_TcpServer [] (\<lambda>_ _. CHR ''+''))\<lparr>available := bytes\<rparr>\<rparr>"

lemma small_server_simps [simp]:
  "is_attached (small_server bytes)" "bp_set (small_server bytes) = {0}"
  "available (tcp_server (small_server bytes)) = bytes" "send_works (tcp_server (small_server bytes))"
  "outbox (tcp_server (small_server bytes)) = ''''"
  by (simp_all add: small_server_def new_TcpServer_def)

section \<open>Packets\<close>

text \<open>
  C23. The packets of the remote protocol. A message between \<open>$\<close> and \<open>#\<close> that fits into the limit of
  4096 characters, followed by two hexadecimal digits, is accepted exactly when they are the sum of
  its characters modulo 256. Then the whole packet is consumed and the command between the two marks
  is executed; otherwise the server throws. The packets the server makes itself have that form.
\<close>

theorem Gdb_packets:
  assumes "available (tcp_server g) = CHR ''$'' # data @ CHR ''#'' # cs @ rest"
    and "CHR ''#'' \<notin> set data" and "CHR 0x00 \<notin> set data" and "length data + 2 \<le> 4096"
    and "length cs = 2" and "list_all is_xdigit cs"
  shows "RecvMsgBlocking sk (g, s) =
      (if hex_number cs = (\<Sum>c\<leftarrow>data. of_char c) mod 256
       then rbind (case SplitMsg data of
                [] \<Rightarrow> CmdNotFound [] (received (length data + 3) rest g, s)
              | name # args \<Rightarrow>
                  (case cmd_map sk name of
                     None \<Rightarrow> Inl AssertFailed
                   | Some cmd \<Rightarrow>
                       rbind (gdb_reply kMsgAck (received (length data + 3) rest g, s))
                         (cmd (name # args))))
              (\<lambda>st. Inr (CHR ''$'' # data @ CHR ''#'' # cs, st))
       else Inl LogicError) \<and>
    Packetify data = CHR ''$'' # data @ CHR ''#'' # GetChecksumStr data \<and>
    length (GetChecksumStr data) = 2 \<and> list_all is_xdigit (GetChecksumStr data) \<and>
    hex_number (GetChecksumStr data) = (\<Sum>c\<leftarrow>data. of_char c) mod 256"
proof -
  have "g\<lparr>tcp_server := (tcp_server g)\<lparr>available := rest, calls := calls (tcp_server g) + length data + 3\<rparr>\<rparr> =
      received (length data + 3) rest g"
    by (simp add: received_def add.assoc)
  then show ?thesis
    using RecvMsgBlocking_packet [of g data cs rest sk s] assms
    by (simp add: GetChecksumStr_props byte_sum_def Packetify_def DecodeAndCall_packet
        kMaxMessageLength_def)
qed

lemma Gdb_packets_witness:
  "RecvMsgBlocking (gb_socket 10 False) (small_server ''$c#64'', small_cpu) = Inl LogicError \<and>
   hex_number (GetChecksumStr ''c'') = 0x63"
  using Gdb_packets [of "small_server ''$c#64''" "''c''" "''64''" "''''" "gb_socket 10 False" small_cpu]
  by (simp add: is_xdigit_def is_digit_def char_in_def hex_number_def hex_value_def)

text \<open>
  What the server does not accept. A message that starts with anything but \<open>+\<close>, \<open>$\<close> or the
  interrupt character makes it throw, the negative acknowledgement included; so does a message
  without an end within the limit. A command that no alternative of its pattern matches is answered
  by the empty packet, and neither the server nor the CPU changes.
\<close>

lemma Gdb_rejects:
  assumes "available (tcp_server g) = x # data @ rest" and "x \<noteq> CHR 0x00"
  shows "(x \<notin> {CHR ''+'', CHR ''$'', CHR 0x03} \<longrightarrow> RecvMsgBlocking sk (g, s) = Inl LogicError) \<and>
    (x = CHR ''$'' \<and> CHR ''#'' \<notin> set data \<and> CHR 0x00 \<notin> set data \<and> 4096 \<le> length data \<longrightarrow>
      RecvMsgBlocking sk (g, s) = Inl LogicError) \<and>
    (SplitMsg data = [] \<and> send_works (tcp_server g) \<longrightarrow>
      DecodeAndCall sk (Packetify data) (g, s) = Inr (answered ''+$#00'' g, s))"
proof (intro conjI impI)
  have one: "RecvBlocking 1 (tcp_server g) = Inr ([x],
      (tcp_server g)\<lparr>available := data @ rest, calls := calls (tcp_server g) + 1\<rparr>)"
    using RecvBlocking_one [OF assms] by simp
  show "RecvMsgBlocking sk (g, s) = Inl LogicError" if "x \<notin> {CHR ''+'', CHR ''$'', CHR 0x03}"
    using that unfolding RecvMsgBlocking_def prod.case one by (simp add: first_char_def Let_def)
  show "RecvMsgBlocking sk (g, s) = Inl LogicError"
    if "x = CHR ''$'' \<and> CHR ''#'' \<notin> set data \<and> CHR 0x00 \<notin> set data \<and> 4096 \<le> length data"
  proof -
    have "recv_data [x] 0 ((tcp_server g)\<lparr>available := data @ rest, calls := calls (tcp_server g) + 1\<rparr>) =
        Inl LogicError"
      by (rule recv_data_too_long) (use that in \<open>auto simp: kMaxMessageLength_def\<close>)
    then show ?thesis
      using that unfolding RecvMsgBlocking_def prod.case one by (simp add: first_char_def Let_def)
  qed
  show "DecodeAndCall sk (Packetify data) (g, s) = Inr (answered ''+$#00'' g, s)"
    if "SplitMsg data = [] \<and> send_works (tcp_server g)"
    using that
    by (simp add: Packetify_def DecodeAndCall_packet GetChecksumStr_props CmdNotFound_def kMsgEmpty_def
        gdb_reply_answered)
qed

section \<open>Loops\<close>


text \<open>The peer has gone, and the buffer of \<^verbatim>\<open>RecvBlocking\<close> always starts with \<open>x\<close>.\<close>

definition lost :: "char \<Rightarrow> GdbServer \<Rightarrow> bool" where
  "lost x g \<longleftrightarrow> available (tcp_server g) = '''' \<and> arrivals (tcp_server g) = [PeerCloses] \<and>
     (\<forall>k. stale (tcp_server g) k 0 = x)"

lemma lost_recv:
  "lost x g \<Longrightarrow> RecvBlocking 1 (tcp_server g) =
    Inr (c_str [x], (tcp_server g)\<lparr>calls := calls (tcp_server g) + 1\<rparr>)"
  by (simp add: RecvBlocking_def lost_def kMaxPacketSize_def)

lemma lost_message:
  assumes "lost CHR ''+'' g"
  shows "\<exists>h. RecvMsgBlocking sk (g, s) = Inr (''+'', h, s) \<and> lost CHR ''+'' h"
proof -
  have "RecvMsgBlocking sk (g, s) =
      Inr (''+'', g\<lparr>tcp_server := (tcp_server g)\<lparr>calls := calls (tcp_server g) + 1\<rparr>\<rparr>, s)"
    unfolding RecvMsgBlocking_def prod.case lost_recv [OF assms]
    by (simp add: first_char_def c_str_def Let_def)
  moreover have "lost CHR ''+'' (g\<lparr>tcp_server := (tcp_server g)\<lparr>calls := calls (tcp_server g) + 1\<rparr>\<rparr>)"
    using assms by (simp add: lost_def)
  ultimately show ?thesis by blast
qed

lemma lost_waits_forever:
  assumes "await_attached sk msg st = Some r" and "lost CHR ''+'' (fst st)" and "msg \<noteq> ''$qAttached#8f''"
  shows False
proof -
  have "lost CHR ''+'' (fst st) \<longrightarrow> msg = ''$qAttached#8f''"
  proof (rule await_attached.raw_induct
      [where P = "\<lambda>sk msg st r. lost CHR ''+'' (fst st) \<longrightarrow> msg = ''$qAttached#8f''", OF _ assms(1)])
    fix loop :: "'a socket \<Rightarrow> string \<Rightarrow> 'a gdb_state \<Rightarrow> 'a gdb_state res option"
      and sk :: "'a socket" and msg st r
    assume IH: "\<And>sk msg st r. loop sk msg st = Some r \<Longrightarrow>
        lost CHR ''+'' (fst st) \<longrightarrow> msg = ''$qAttached#8f''"
      and step: "(if msg \<noteq> ''$qAttached#8f''
        then case RecvMsgBlocking sk st of Inl e \<Rightarrow> Some (Inl e) | Inr (msg, st) \<Rightarrow> loop sk msg st
        else Some (Inr st)) = Some r"
    obtain g s where st: "st = (g, s)" by fastforce
    show "lost CHR ''+'' (fst st) \<longrightarrow> msg = ''$qAttached#8f''"
    proof (intro impI, rule ccontr)
      assume "lost CHR ''+'' (fst st)" and msg: "msg \<noteq> ''$qAttached#8f''"
      then obtain h where h: "RecvMsgBlocking sk (g, s) = Inr (''+'', h, s)" "lost CHR ''+'' h"
        using lost_message [of g sk s] st by auto
      then have "loop sk ''+'' (h, s) = Some r" using step msg st by simp
      from IH [OF this] h(2) show False by simp
    qed
  qed
  then show False using assms(2,3) by blast
qed

text \<open>
  C27. A debugger that closes the connection before it is attached. \<^verbatim>\<open>recv\<close> then returns no bytes at once,
  and the server takes what the buffer held before for a message: if that is the character \<open>+\<close> every
  time, the simulator never leaves the loop that waits for the debugger, and if it is zero, it throws.
\<close>

theorem Gdb_lost_connection:
  assumes "available (tcp_server g) = ''''" and "arrivals (tcp_server g) = [PeerCloses]"
    and "\<And>k. stale (tcp_server g) k 0 = x"
  shows "(x = CHR ''+'' \<longrightarrow> InitBlocking sk (3, 0, 0, 4) (g, s) = None) \<and>
    (x = CHR 0x00 \<longrightarrow> InitBlocking sk (3, 0, 0, 4) (g, s) = Some (Inl OutOfRange))"
proof -
  define g0 where "g0 = g\<lparr>tcp_server := (tcp_server g)\<lparr>socket_fd := 3, client_fd := 4\<rparr>\<rparr>"
  have init: "InitBlocking sk (3, 0, 0, 4) (g, s) = await_attached sk '''' (g0, s)"
    by (simp add: InitBlocking_def Start_def AcceptClient_def g0_def)
  have lost: "lost x g0" using assms by (simp add: lost_def g0_def)
  have "await_attached sk '''' (g0, s) = None" if "x = CHR ''+''"
    using lost_waits_forever [of sk "''''" "(g0, s)"] lost that
    by (cases "await_attached sk '''' (g0, s)") auto
  moreover have "await_attached sk '''' (g0, s) = Some (Inl OutOfRange)" if "x = CHR 0x00"
  proof -
    have "RecvMsgBlocking sk (g0, s) = Inl OutOfRange"
      unfolding RecvMsgBlocking_def prod.case lost_recv [OF lost]
      using that by (simp add: first_char_def c_str_def Let_def)
    then show ?thesis by (subst await_attached.simps) simp
  qed
  ultimately show ?thesis by (simp add: init)
qed

lemma Gdb_lost_connection_witness:
  "InitBlocking (gb_socket 10 False) (3, 0, 0, 4)
     (new_GdbServer (new_TcpServer [PeerCloses] (\<lambda>_ _. CHR ''+'')), small_cpu) = None"
  using Gdb_lost_connection [of "new_GdbServer (new_TcpServer [PeerCloses] (\<lambda>_ _. CHR ''+''))"
      "CHR ''+''" "gb_socket 10 False" small_cpu]
  by (simp add: new_GdbServer_def new_TcpServer_def)

section \<open>The debugged Game Boy\<close>



section \<open>Memory and registers\<close>

lemma plain_commands:
  "CHR ''#'' \<notin> set (write_command a ds)" "CHR 0x00 \<notin> set (write_command a ds)"
  "CHR ''#'' \<notin> set (read_command a n)" "CHR 0x00 \<notin> set (read_command a n)"
  by (simp_all add: write_command_def read_command_def)

lemma length_hex_le: "n < 16 ^ w \<Longrightarrow> 0 < w \<Longrightarrow> length (format_hex 1 n) \<le> w"
  using length_to_hex [of n w] by (simp add: format_hex_def Let_def)

lemma sendable_commands:
  assumes "a < 65536" and "n \<le> 2040"
  shows "sendable (read_command a n)" and "length ds = n \<Longrightarrow> sendable (write_command a ds)"
proof -
  have "length (format_hex 1 a) \<le> 4" "length (format_hex 1 n) \<le> 3"
    using assms by (intro length_hex_le; simp)+
  then show "sendable (read_command a n)" "length ds = n \<Longrightarrow> sendable (write_command a ds)"
    using plain_commands assms(2)
    by (auto simp: sendable_def kMaxMessageLength_def write_command_def read_command_def)
qed

text \<open>The two commands on a server that can send.\<close>

lemma write_answered:
  assumes "gb_ok (sys s)" and "ds \<noteq> []" and "gb_debug_ram.all_ram a (length ds)" and "send_works (tcp_server g)"
  shows "\<exists>st. DecodeAndCall (gb_socket polls traced) (Packetify (write_command a ds)) (g, s) =
    Inr (answered (''+'' @ kMsgOk) g,
      s\<lparr>sys := gb_debug_ram.poke_all a ds (length ds) (sys s), payload_status := st\<rparr>)"
proof -
  have "send_works (tcp_server (answered ''+'' g))" using assms(4) by simp
  then obtain st where "CmdWriteMem (gb_socket polls traced)
      [''M'', format_hex 1 a, format_hex 1 (length ds), bytes_hex ds] (answered ''+'' g, s) =
      Inr (answered kMsgOk (answered ''+'' g),
        s\<lparr>sys := gb_debug_ram.poke_all a ds (length ds) (sys s), payload_status := st\<rparr>)"
    using gb_debug_ram.CmdWriteMem_ram [OF assms(1,3)] by blast
  then show ?thesis
    unfolding DecodeAndCall_command [OF SplitMsg_commands(1) [OF assms(2)] cmd_map_simps(6) assms(4)]
    by (auto simp only: answered_simps(6))
qed

lemma read_answered:
  assumes "gb_ok (sys s)" and "gb_debug_ram.all_ram a n" and "send_works (tcp_server g)"
  shows "\<exists>st. DecodeAndCall (gb_socket polls traced) (Packetify (read_command a n)) (g, s) =
    Inr (answered (''+'' @ Packetify (bytes_hex (map (\<lambda>i. gb_peek (sys s) (of_nat (a + i))) [0..<n]))) g,
      s\<lparr>payload_status := st\<rparr>)"
proof -
  have "send_works (tcp_server (answered ''+'' g))" using assms(3) by simp
  then obtain st where "CmdReadMem (gb_socket polls traced)
      [''m'', format_hex 1 a, format_hex 1 n] (answered ''+'' g, s) =
      Inr (answered (Packetify (bytes_hex (map (\<lambda>i. gb_peek (sys s) (of_nat (a + i))) [0..<n])))
        (answered ''+'' g), s\<lparr>payload_status := st\<rparr>)"
    using gb_debug_ram.CmdReadMem_ram [OF assms(1,2)] by blast
  then show ?thesis
    unfolding DecodeAndCall_command [OF SplitMsg_commands(2) cmd_map_simps(5) assms(3)]
    by (auto simp only: answered_simps(6))
qed

text \<open>
  C22. Memory through the debugger: the packet that writes up to 2040 bytes to RAM and the packet that
  reads them back. Both are answered, the second with the bytes that were written; exactly these
  addresses change, the registers do not, and nothing is left pending. The answer to the first carries
  two acknowledgements, one more than the protocol asks for.
\<close>

theorem Gdb_memory:
  assumes "gb_ok (sys s)" and "is_attached g" and "send_works (tcp_server g)"
    and "ds \<noteq> []" and "length ds \<le> 2040" and "a + length ds \<le> 65536"
    and "\<And>i. i < length ds \<Longrightarrow> gb_ram (of_nat (a + i))"
    and "available (tcp_server g) =
      Packetify (write_command a ds) @ Packetify (read_command a (length ds))"
  shows "\<exists>h t. HandleMessages (gb_socket polls traced) (g, s) = Some (Inr (h, t)) \<and>
    outbox (tcp_server h) = outbox (tcp_server g) @ ''++$OK#9a+'' @ Packetify (bytes_hex ds) \<and>
    (\<forall>b. gb_ram b \<longrightarrow> gb_peek (sys t) b =
      (if a \<le> unat b \<and> unat b < a + length ds then ds ! (unat b - a) else gb_peek (sys s) b)) \<and>
    dat t = dat s \<and> \<not> IsMsgPending h"
proof -
  let ?sk = "gb_socket polls traced" and ?w = "write_command a ds" and ?r = "read_command a (length ds)"
  have ram: "gb_debug_ram.all_ram a (length ds)"
    using assms(6,7) by (simp add: gb_debug_ram.all_ram_def)
  have "0 < length ds" using assms(4) by simp
  then have "a < 65536" using assms(6) by linarith
  note sendable = sendable_commands [OF this assms(5)]
  define g1 where "g1 = received (length ?w + 3) (Packetify ?r) g"
  have works1: "send_works (tcp_server g1)" using assms(3) by (simp add: g1_def)
  obtain st where w: "DecodeAndCall ?sk (Packetify ?w) (g1, s) = Inr (answered (''+'' @ kMsgOk) g1,
      s\<lparr>sys := gb_debug_ram.poke_all a ds (length ds) (sys s), payload_status := st\<rparr>)"
    using write_answered [OF assms(1,4) ram works1] by blast
  define s1 where "s1 = s\<lparr>sys := gb_debug_ram.poke_all a ds (length ds) (sys s), payload_status := st\<rparr>"
  define g2 where "g2 = received (length ?r + 3) [] (answered (''+'' @ kMsgOk) g1)"
  have good: "gb_ok (sys s1)"
    using gb_debug_ram.good_poke_all [OF assms(1) ram order.refl] by (simp add: s1_def)
  have peek: "gb_peek (sys s1) b =
      (if a \<le> unat b \<and> unat b < a + length ds then ds ! (unat b - a) else gb_peek (sys s) b)"
    if "gb_ram b" for b
    using gb_debug_ram.peek_poke_all [OF assms(1) ram order.refl that] by (simp add: s1_def)
  have stored: "map (\<lambda>i. gb_peek (sys s1) (of_nat (a + i))) [0..<length ds] = ds"
  proof (rule nth_equalityI; clarsimp simp del: of_nat_add)
    fix i assume i: "i < length ds"
    then have "unat (of_nat (a + i) :: u16) = a + i"
      using of_nat_address [of "a + i" "of_nat (a + i)"] assms(6) by simp
    then show "gb_peek (sys s1) (of_nat (a + i)) = ds ! i"
      using peek [OF assms(7) [OF i]] i by simp
  qed
  have "send_works (tcp_server g2)" using assms(3) by (simp add: g2_def g1_def)
  then obtain st' where r: "DecodeAndCall ?sk (Packetify ?r) (g2, s1) =
      Inr (answered (''+'' @ Packetify (bytes_hex ds)) g2, s1\<lparr>payload_status := st'\<rparr>)"
    using read_answered [OF good ram] stored by metis
  have "HandleMessages ?sk (g, s) = HandleMessages ?sk (answered (''+'' @ kMsgOk) g1, s1)"
    by (rule HandleMessages_Packetify [OF assms(2,8) sendable(2) [OF refl]
          w [folded s1_def, unfolded g1_def], folded g1_def])
  also have "\<dots> = HandleMessages ?sk (answered (''+'' @ Packetify (bytes_hex ds)) g2, s1\<lparr>payload_status := st'\<rparr>)"
    by (rule HandleMessages_Packetify [where rest = "[]"])
      (use assms(2) sendable(1) r in \<open>simp_all only: g2_def g1_def answered_simps received_simps append_Nil2\<close>)
  also have "\<dots> = Some (Inr (answered (''+'' @ Packetify (bytes_hex ds)) g2, s1\<lparr>payload_status := st'\<rparr>))"
    by (rule HandleMessages_done) (simp add: g2_def)
  finally show ?thesis
    using peek
    by (auto simp: g2_def g1_def kMsgOk_def s1_def IsMsgPending_def DataAvailable_def)
qed

lemma Gdb_memory_witness:
  "\<exists>h t. HandleMessages (gb_socket 10 False)
      (small_server (Packetify (write_command 0xC000 [7, 8]) @ Packetify (read_command 0xC000 2)), small_cpu) =
    Some (Inr (h, t)) \<and> outbox (tcp_server h) = ''++$OK#9a+'' @ Packetify ''0708''"
proof -
  have "gb_ram (of_nat (0xC000 + i))" if "i < length [7, 8 :: u8]" for i
    using that by (auto simp: less_Suc_eq gb_ram_def)
  moreover have "bytes_hex [7, 8] = ''0708''"
    by (simp add: bytes_hex_def format_hex_def to_hex.simps hex_digit_def)
  ultimately show ?thesis
    using Gdb_memory [of small_cpu "small_server (Packetify (write_command 0xC000 [7, 8]) @
        Packetify (read_command 0xC000 2))" "[7, 8]" "0xC000" 10 False]
    by (auto simp: numeral_2_eq_2)
qed

text \<open>The command that writes the six registers; the debugger may send more registers, all are digits.\<close>

definition registers_command :: "u16 list \<Rightarrow> string \<Rightarrow> string" where
  "registers_command vs extra = CHR ''G'' # concat (map reg_hex vs) @ extra"

lemma reg_hex_digits: "list_all is_xdigit (concat (map reg_hex vs))"
  by (induction vs) (simp_all add: reg_hex_def format_hex_digits)

lemma DecodeAndCall_registers:
  assumes "length vs = 6" and "list_all is_xdigit extra" and "send_works (tcp_server g)"
  shows "DecodeAndCall sk (Packetify (registers_command vs extra)) (g, s) =
    Inr (answered (''+'' @ kMsgOk) g, put_regs vs s)"
proof -
  have "concat (map reg_hex vs) @ extra \<noteq> []"
    using list_of_six [OF assms(1)] by (auto simp: reg_hex_def format_hex_digits)
  then have "SplitMsg (registers_command vs extra) = [''G'', concat (map reg_hex vs) @ extra]"
    unfolding registers_command_def by (intro SplitMsg_G) (simp_all add: reg_hex_digits assms(2))
  then have "DecodeAndCall sk (Packetify (registers_command vs extra)) (g, s) =
      CmdWriteReg [''G'', concat (map reg_hex vs) @ extra] (answered ''+'' g, s)"
    by (rule DecodeAndCall_command [OF _ cmd_map_simps(3) assms(3)])
  also have "\<dots> = Inr (answered (''+'' @ kMsgOk) g, put_regs vs s)"
    using CmdWriteReg_eq [OF assms(1), of "answered ''+'' g" "''G''" extra s] assms(3)
    by (simp only: answered_simps)
  finally show ?thesis .
qed

text \<open>
  C26. Registers through the debugger. The command \<open>G\<close> with the six registers in the byte order of the
  protocol, and with digits of further registers that the server ignores, sets exactly these values
  and leaves the rest of the system alone; \<open>g\<close> then answers with them, followed by 28 unknown digits.
\<close>

theorem Gdb_registers:
  assumes "length vs = 6" and "list_all is_xdigit extra" and "send_works (tcp_server g)"
  shows "\<exists>h t. DecodeAndCall sk (Packetify (registers_command vs extra)) (g, s) = Inr (h, t) \<and>
    (\<forall>i<6. get16 t (reg_vec ! i) = vs ! i) \<and> sys t = sys s \<and>
    (\<exists>k. DecodeAndCall sk (Packetify ''g'') (h, t) = Inr (k, t) \<and>
      outbox (tcp_server k) = outbox (tcp_server g) @ ''++$OK#9a+'' @
        Packetify (concat (map reg_hex vs) @ replicate 28 CHR ''x''))"
proof -
  let ?h = "answered (''+'' @ kMsgOk) g" and ?t = "put_regs vs s"
  have put: "get16 ?t (reg_vec ! i) = vs ! i" if "i < 6" for i
    using get16_put_regs [OF assms(1) that] .
  have read: "map (get16 ?t) reg_vec = vs"
  proof (rule nth_equalityI)
    have six: "length reg_vec = 6" by (simp add: reg_vec_def)
    then show "length (map (get16 ?t) reg_vec) = length vs" using assms(1) by simp
    fix i assume "i < length (map (get16 ?t) reg_vec)"
    with six put show "map (get16 ?t) reg_vec ! i = vs ! i" by simp
  qed
  have "map (\<lambda>q. reg_hex (get16 ?t q)) reg_vec = map reg_hex (map (get16 ?t) reg_vec)"
    by simp
  then have digits: "map (\<lambda>q. reg_hex (get16 ?t q)) reg_vec = map reg_hex vs"
    unfolding read .
  have works: "send_works (tcp_server ?h)" "send_works (tcp_server (answered ''+'' ?h))"
    using assms(3) by simp_all
  have answer: "DecodeAndCall sk (Packetify ''g'') (?h, ?t) = Inr (answered (''++$OK#9a+'' @
      Packetify (concat (map reg_hex vs) @ replicate 28 CHR ''x'')) g, ?t)"
    unfolding DecodeAndCall_command [OF SplitMsg_simple(3) cmd_map_simps(2) works(1)]
      CmdReadReg_eq [OF works(2)] digits
    by (simp add: kMsgOk_def)
  have "sys ?t = sys s"
    using list_of_six [OF assms(1)] by (auto simp: put_regs_def reg_vec_def)
  then show ?thesis
    using put by (intro exI [of _ ?h] exI [of _ ?t] conjI exI [of _ "answered (''++$OK#9a+'' @
        Packetify (concat (map reg_hex vs) @ replicate 28 CHR ''x'')) g"] answer
        DecodeAndCall_registers [OF assms]) simp_all
qed

lemma Gdb_registers_witness:
  "\<exists>h t. DecodeAndCall (gb_socket 10 False) (Packetify (registers_command [0x1180, 0, 0, 0, 0xD000, 0x100] ''0''))
      (small_server '''', small_cpu) = Inr (h, t) \<and> get16 t rPC = 0x100"
proof -
  have "list_all is_xdigit ''0''" by (simp add: is_xdigit_def is_digit_def char_in_def)
  then obtain h t where "DecodeAndCall (gb_socket 10 False)
      (Packetify (registers_command [0x1180, 0, 0, 0, 0xD000, 0x100] ''0'')) (small_server '''', small_cpu) = Inr (h, t)"
    and regs: "\<forall>i<6. get16 t (reg_vec ! i) = [0x1180, 0, 0, 0, 0xD000, 0x100] ! i"
    using Gdb_registers [of "[0x1180, 0, 0, 0, 0xD000, 0x100]" "''0''" "small_server ''''"
      "gb_socket 10 False" small_cpu] by auto
  moreover have "get16 t rPC = 0x100"
    using regs [rule_format, of 5] by (simp add: reg_vec_def)
  ultimately show ?thesis by blast
qed

section \<open>Breakpoints\<close>

text \<open>A CPU halted at a breakpoint that gets the command to continue halts there again.\<close>

lemma continue_at_breakpoint:
  assumes "send_works (tcp_server h)" and "is_attached h" and "available (tcp_server h) = ''''"
    and "BpReached h (get16 u rPC)"
  shows "\<exists>h' u'. debug_cycle sk (deliver (Packetify ''c'') (h, u)) = Some (Inr (h', u')) \<and>
    halted u' \<and> dat u' = dat u"
proof -
  define h' where "h' = h\<lparr>tcp_server := (tcp_server h)\<lparr>available := Packetify ''c''\<rparr>\<rparr>"
  have deliver: "deliver (Packetify ''c'') (h, u) = (h', u)"
    using assms(3) by (simp add: deliver_def h'_def)
  have works: "send_works (tcp_server h')" "is_attached h'"
    using assms(1,2) by (simp_all add: h'_def)
  let ?g = "answered ''+'' (received 4 '''' h')"
  have "DecodeAndCall sk (Packetify ''c'') (received (length ''c'' + 3) [] h', u) = Inr (?g, Continue u)"
    using DecodeAndCall_command [OF SplitMsg_simple(4) cmd_map_simps(7), of "received 4 [] h'" sk u] works
    by (simp add: CmdContinue_def)
  then have "HandleMessages sk (h', u) = HandleMessages sk (?g, Continue u)"
    by (rule HandleMessages_Packetify [rotated 3]) (use works in \<open>simp_all add: h'_def sendable_def kMaxMessageLength_def\<close>)
  also have "\<dots> = Some (Inr (?g, Continue u))"
    by (rule HandleMessages_done) simp
  finally have handled: "HandleMessages sk (h', u) = Some (Inr (?g, Continue u))" .
  have pending: "IsMsgPending h'"
    using works by (simp add: IsMsgPending_def DataAvailable_def h'_def Packetify_def)
  have again: "BpReached ?g (get16 (Continue u) rPC)" "\<not> halted (Continue u)"
    using assms(4) by (simp_all add: BpReached_def h'_def Continue_def)
  have idle: "\<not> IsMsgPending ?g" by (simp add: IsMsgPending_def DataAvailable_def)
  have "debug_cycle sk (h', u) = debug_cycle sk (?g, Continue u)"
    unfolding debug_cycle_def using handled pending idle by simp
  also have "\<dots> = Some (Inr (answered (Packetify ''S05'') ?g, (Continue u)
      \<lparr>halted := True, sys := sk_wait sk (4 * kNsPerClkCycle) (sys (Continue u))\<rparr>))"
    by (rule debug_cycle_breakpoint) (use again idle works in simp_all)
  finally show ?thesis by (simp add: deliver Continue_def)
qed

text \<open>
  C24. Breakpoints. The commands \<open>Z\<close> and \<open>z\<close>, for software and hardware breakpoints alike, add and
  remove exactly the address they name, taken modulo 65536. When the CPU comes to a breakpoint, it
  executes nothing: it halts, and the server reports the trap. A debugger that asks to continue without
  removing the breakpoint gets the CPU halted at the same place again, with the same registers.
\<close>

theorem Gdb_breakpoints:
  assumes "t \<in> {CHR ''0'', CHR ''1''}" and "is_digit k" and "a < 2 ^ 31" and "send_works (tcp_server g)"
    and "is_attached g" and "available (tcp_server g) = ''''" and "\<not> halted s"
  shows "(\<exists>h. DecodeAndCall sk (Packetify (breakpoint_command CHR ''Z'' t a k)) (g, s) = Inr (h, s) \<and>
      (\<forall>b. BpReached h b \<longleftrightarrow> b = of_nat a \<or> BpReached g b)) \<and>
    (\<exists>h. DecodeAndCall sk (Packetify (breakpoint_command CHR ''z'' t a k)) (g, s) = Inr (h, s) \<and>
      (\<forall>b. BpReached h b \<longleftrightarrow> b \<noteq> of_nat a \<and> BpReached g b)) \<and>
    (BpReached g (get16 s rPC) \<longrightarrow>
      (\<exists>h u. debug_cycle sk (g, s) = Some (Inr (h, u)) \<and> halted u \<and> dat u = dat s \<and>
        outbox (tcp_server h) = outbox (tcp_server g) @ Packetify ''S05'' \<and>
        (\<exists>h' u'. debug_cycle sk (deliver (Packetify ''c'') (h, u)) = Some (Inr (h', u')) \<and>
          halted u' \<and> dat u' = dat s)))"
proof (intro conjI impI)
  show "\<exists>h. DecodeAndCall sk (Packetify (breakpoint_command CHR ''Z'' t a k)) (g, s) = Inr (h, s) \<and>
      (\<forall>b. BpReached h b \<longleftrightarrow> b = of_nat a \<or> BpReached g b)"
    "\<exists>h. DecodeAndCall sk (Packetify (breakpoint_command CHR ''z'' t a k)) (g, s) = Inr (h, s) \<and>
      (\<forall>b. BpReached h b \<longleftrightarrow> b \<noteq> of_nat a \<and> BpReached g b)"
    using DecodeAndCall_breakpoint [OF assms(1-4), of sk s]
    by (auto simp: BpReached_def)
  assume bp: "BpReached g (get16 s rPC)"
  define u where "u = s\<lparr>halted := True, sys := sk_wait sk (4 * kNsPerClkCycle) (sys s)\<rparr>"
  define h where "h = answered (Packetify ''S05'') g"
  have first: "debug_cycle sk (g, s) = Some (Inr (h, u))"
    unfolding h_def u_def
    by (rule debug_cycle_breakpoint) (use assms bp in \<open>simp_all add: IsMsgPending_def DataAvailable_def\<close>)
  have "\<exists>h' u'. debug_cycle sk (deliver (Packetify ''c'') (h, u)) = Some (Inr (h', u')) \<and>
      halted u' \<and> dat u' = dat u"
    by (rule continue_at_breakpoint) (use assms(4-6) bp in \<open>simp_all add: h_def u_def BpReached_def\<close>)
  then have second: "\<exists>h' u'. debug_cycle sk (deliver (Packetify ''c'') (h, u)) = Some (Inr (h', u')) \<and>
      halted u' \<and> dat u' = dat s"
    by (simp add: u_def)
  show "\<exists>h u. debug_cycle sk (g, s) = Some (Inr (h, u)) \<and> halted u \<and> dat u = dat s \<and>
      outbox (tcp_server h) = outbox (tcp_server g) @ Packetify ''S05'' \<and>
      (\<exists>h' u'. debug_cycle sk (deliver (Packetify ''c'') (h, u)) = Some (Inr (h', u')) \<and>
        halted u' \<and> dat u' = dat s)"
    using first second by (intro exI [of _ h] exI [of _ u]) (simp add: h_def u_def)
qed

lemma small_cpu_running: "\<not> halted small_cpu"
  by (simp add: small_cpu_def new_cpu_def)

lemma Gdb_breakpoints_witness:
  "\<exists>h u. debug_cycle (gb_socket 10 False) (small_server '''', small_cpu) = Some (Inr (h, u)) \<and> halted u \<and>
     outbox (tcp_server h) = Packetify ''S05''"
  using Gdb_breakpoints [of "CHR ''1''" "CHR ''1''" 0 "small_server ''''" small_cpu "gb_socket 10 False"]
    small_cpu_running
  by (auto simp: BpReached_def is_digit_def char_in_def)

end
