(* ===== verification/Gb_Main.thy ===== *)
theory Gb_Main
  imports Options Game_Properties Gdb_Properties
begin

text \<open>
  The program: \<^verbatim>\<open>sc_main\<close> of \<^verbatim>\<open>src/main.cpp\<close>, the constructor of \<^verbatim>\<open>src/gb_top.cpp\<close> with the arguments it
  passes on, the palette in the constructor of \<^verbatim>\<open>src/ppu.cpp\<close>, and the start of the simulation.

  The parser of the command line and the file system are inputs: which paths exist, which of them are directories, and what a file
  contains (\<open>None\<close> if it cannot be opened). A save file that exists can be opened. So are the values of
  the members that no constructor initialises, the wall clock and the time line of the threads.
\<close>

section \<open>Inputs\<close>

record environment =
  getopt_long :: getopt
  path_exists :: "string \<Rightarrow> bool"
  is_directory :: "string \<Rightarrow> bool"
  file_content :: "string \<Rightarrow> u8 list option"
  start_apu :: Apu
  start_serial :: "bool \<times> u8"
  start_timer :: "u8 \<times> u8 \<times> u8 \<times> u8"
  start_window_line :: int
  start_texture :: "nat \<Rightarrow> u32"
  start_clock :: nat
  start_indeterminate :: u8
  start_schedule :: "(nat \<times> activation list) list"

text \<open>What \<^verbatim>\<open>sc_main\<close> does: it returns, or prints a text and starts the kernel for some time, if it is limited.\<close>

datatype outcome = Returns nat | Simulates string "gb cpu" bool "int option"

section \<open>The palette\<close>

text \<open>\<^verbatim>\<open>(u8)std::stoul(args.color_palette.substr(6 * j + i * 2, 2), nullptr, 16)\<close>\<close>

definition palette_byte :: "string \<Rightarrow> nat \<Rightarrow> nat \<Rightarrow> u8 res" where
  "palette_byte s j i =
     rbind (substr (6 * j + i * 2) 2 s) (\<lambda>digits.
     rbind (stoul16 digits) (\<lambda>v. Inr (word_of_int v)))"

fun map_res :: "('a \<Rightarrow> 'b res) \<Rightarrow> 'a list \<Rightarrow> 'b list res" where
  "map_res f [] = Inr []"
| "map_res f (x # xs) = rbind (f x) (\<lambda>y. rbind (map_res f xs) (\<lambda>ys. Inr (y # ys)))"

definition parse_palette :: "string \<Rightarrow> (u8 \<times> u8 \<times> u8) list res" where
  "parse_palette s =
     map_res (\<lambda>j.
       rbind (palette_byte s j 0) (\<lambda>r.
       rbind (palette_byte s j 1) (\<lambda>g.
       rbind (palette_byte s j 2) (\<lambda>b. Inr (r, g, b))))) [0..<4]"

definition Ppu_Ppu :: "environment \<Rightarrow> Options \<Rightarrow> Ppu res" where
  "Ppu_Ppu env opts =
     rbind (parse_palette (opt_color_palette opts)) (\<lambda>palette.
     Inr (new_Ppu (headless opts) (show_ext_game_wndw opts) (show_window_wndw opts) palette
       (start_window_line env) (start_texture env)))"

section \<open>The Game Boy and the main function\<close>

definition path_filename :: "string \<Rightarrow> string" where
  "path_filename p = rev (takeWhile (\<lambda>c. c \<noteq> CHR ''/'') (rev p))"

definition save_content :: "environment \<Rightarrow> string \<Rightarrow> u8 list option" where
  "save_content env game_path =
     (let save_file = path_filename game_path @ ''.save'' in
      if path_exists env save_file then file_content env save_file else None)"

definition GbTop_GbTop :: "environment \<Rightarrow> Options \<Rightarrow> (GameInfo \<times> gb) res" where
  "GbTop_GbTop env opts =
     rbind (Cartridge_Cartridge (file_content env (rom_path opts))
       (if boot_rom_path opts = '''' then None else Some (file_content env (boot_rom_path opts)))
       (symbol_file opts) (quick_boot opts) (save_content env (rom_path opts))) (\<lambda>(info, cart).
     rbind (Ppu_Ppu env opts) (\<lambda>p.
     let (div0, tac0, tima0, tma0) = start_timer env; (ongoing, sc) = start_serial env in
     Inr (info, new_gb cart (start_apu env) p (new_Serial ongoing sc) (new_Timer div0 tac0 tima0 tma0)
       ui_default (start_clock env) (start_indeterminate env) (start_schedule env))))"

text \<open>The product of the cycles and their time is computed in 64 bits with a sign.\<close>

definition simulated_time :: "Options \<Rightarrow> int option res" where
  "simulated_time opts =
     (if max_cycles opts < 0 then Inr None
      else if 2 ^ 63 \<le> int kNsPerClkCycle * max_cycles opts then Inl SignedOverflow
      else Inr (Some (int kNsPerClkCycle * max_cycles opts)))"

definition sc_main :: "environment \<Rightarrow> string list \<Rightarrow> outcome res" where
  "sc_main env argv =
     rbind (InitOpts (getopt_long env) argv default_options) (\<lambda>opts.
     if length (rom_path opts) = 0 then Inr (Returns 1)
     else if \<not> path_exists env (rom_path opts) then Inr (Returns 1)
     else if is_directory env (rom_path opts) then Inr (Returns 1)
     else
       rbind (GbTop_GbTop env opts) (\<lambda>(info, m).
       rbind (simulated_time opts) (\<lambda>time.
       Inr (Simulates (game_info_string info) (new_cpu (opt_single_step opts) m) (wait_for_gdb opts)
         time))))"

text \<open>
  The kernel calls \<^verbatim>\<open>start_of_simulation\<close> of every module, in the order in which they were made: sound
  unit, CPU, joypad, picture unit.
\<close>

definition start_simulation :: "nat \<Rightarrow> gb \<Rightarrow> (gb socket \<times> gb) res" where
  "start_simulation polls m =
     rbind (apu_start_of_simulation gb_top_slaves m) (\<lambda>_.
     rbind (cpu_start_of_simulation (gb_kernel polls) gb_top_slaves m) (\<lambda>sk.
     rbind (interrupt_module_start gb_top_slaves m) (\<lambda>_.
     rbind (ppu_start_of_simulation gb_top_slaves m) (\<lambda>(l, m). Inr (sk, m)))))"

end
