(* ===== verification/Main_Properties.thy ===== *)
theory Main_Properties
  imports Gb_Main
begin

text \<open>
  The properties of the whole program: what the palette option means, when the program starts, what it
  has in memory then, and that a started program is safe.
\<close>

section \<open>The palette\<close>

definition palette_hex :: "string \<Rightarrow> nat \<Rightarrow> u8" where
  "palette_hex s k = of_nat (16 * hex_value (s ! k) + hex_value (s ! Suc k))"

lemma two_of: "Suc k < length s \<Longrightarrow> take 2 (drop k s) = [s ! k, s ! Suc k]"
  by (simp add: Cons_nth_drop_Suc [symmetric] numeral_2_eq_2)

lemma palette_byte_eq:
  assumes "list_all is_xdigit s" and "length s = 24" and "j < 4" and "i < 3"
  shows "palette_byte s j i = Inr (palette_hex s (6 * j + i * 2))"
proof -
  have k: "Suc (6 * j + i * 2) < length s" using assms by simp
  then have "is_xdigit (s ! (6 * j + i * 2))" "is_xdigit (s ! Suc (6 * j + i * 2))"
    using assms(1) by (simp_all add: list_all_length)
  with k show ?thesis
    by (simp add: palette_byte_def substr_def two_of stoul16_byte palette_hex_def)
qed

lemma map_res_Inr: "(\<And>x. x \<in> set xs \<Longrightarrow> f x = Inr (g x)) \<Longrightarrow> map_res f xs = Inr (map g xs)"
  by (induction xs) simp_all

definition palette_of :: "string \<Rightarrow> (u8 \<times> u8 \<times> u8) list" where
  "palette_of s = map (\<lambda>j. (palette_hex s (6 * j), palette_hex s (6 * j + 2), palette_hex s (6 * j + 4))) [0..<4]"

lemma length_palette_of [simp]: "length (palette_of s) = 4"
  by (simp add: palette_of_def)

lemma parse_palette_eq:
  "list_all is_xdigit s \<Longrightarrow> length s = 24 \<Longrightarrow> parse_palette s = Inr (palette_of s)"
  unfolding parse_palette_def palette_of_def
  by (rule map_res_Inr) (simp add: palette_byte_eq)

text \<open>The option that names four given colours.\<close>

definition colour_string :: "u8 \<times> u8 \<times> u8 \<Rightarrow> string" where
  "colour_string = (\<lambda>(r, g, b). format_hex 2 (unat r) @ format_hex 2 (unat g) @ format_hex 2 (unat b))"

definition palette_string :: "(u8 \<times> u8 \<times> u8) list \<Rightarrow> string" where
  "palette_string pal = concat (map colour_string pal)"

lemma byte_digits:
  obtains c d where "format_hex 2 (unat (b :: u8)) = [c, d]" and "is_xdigit c" and "is_xdigit d"
    and "of_nat (16 * hex_value c + hex_value d) = b"
proof -
  have "length (format_hex 2 (unat b)) = 2"
    using unat_u8_less [of b] by (intro length_format_hex) simp_all
  then obtain c d where s: "format_hex 2 (unat b) = [c, d]"
    by (metis (no_types) One_nat_def Suc_1 length_0_conv length_Suc_conv)
  moreover have "is_xdigit c" "is_xdigit d" using format_hex_digits [of 2 "unat b"] s by simp_all
  moreover have "16 * hex_value c + hex_value d = unat b"
    using hex_number_format [of 2 "unat b"] s by (simp add: hex_number_def)
  then have "of_nat (16 * hex_value c + hex_value d) = b" by (metis of_nat_unat ucast_id)
  ultimately show ?thesis by (rule that)
qed

lemma colour_digits:
  obtains c1 c2 c3 c4 c5 c6 where "colour_string (r, g, b) = [c1, c2, c3, c4, c5, c6]"
    and "list_all is_xdigit [c1, c2, c3, c4, c5, c6]"
    and "of_nat (16 * hex_value c1 + hex_value c2) = r" and "of_nat (16 * hex_value c3 + hex_value c4) = g"
    and "of_nat (16 * hex_value c5 + hex_value c6) = b"
proof -
  obtain c1 c2 where 1: "format_hex 2 (unat r) = [c1, c2]" "is_xdigit c1" "is_xdigit c2"
    "of_nat (16 * hex_value c1 + hex_value c2) = r" by (rule byte_digits)
  obtain c3 c4 where 2: "format_hex 2 (unat g) = [c3, c4]" "is_xdigit c3" "is_xdigit c4"
    "of_nat (16 * hex_value c3 + hex_value c4) = g" by (rule byte_digits)
  obtain c5 c6 where 3: "format_hex 2 (unat b) = [c5, c6]" "is_xdigit c5" "is_xdigit c6"
    "of_nat (16 * hex_value c5 + hex_value c6) = b" by (rule byte_digits)
  show ?thesis
    by (rule that [of c1 c2 c3 c4 c5 c6]) (use 1 2 3 in \<open>simp_all add: colour_string_def\<close>)
qed

lemma palette_string_parses:
  assumes "length pal = 4"
  shows "length (palette_string pal) = 24" and "list_all is_xdigit (palette_string pal)"
    and "palette_of (palette_string pal) = pal"
proof -
  obtain p0 p1 p2 p3 where pal: "pal = [p0, p1, p2, p3]"
    using assms by (auto simp: numeral_eq_Suc length_Suc_conv)
  obtain r0 g0 b0 r1 g1 b1 r2 g2 b2 r3 g3 b3 where
    p: "p0 = (r0, g0, b0)" "p1 = (r1, g1, b1)" "p2 = (r2, g2, b2)" "p3 = (r3, g3, b3)"
    by (metis prod_cases3)
  obtain a1 a2 a3 a4 a5 a6 where a: "colour_string (r0, g0, b0) = [a1, a2, a3, a4, a5, a6]"
    "list_all is_xdigit [a1, a2, a3, a4, a5, a6]" "of_nat (16 * hex_value a1 + hex_value a2) = r0"
    "of_nat (16 * hex_value a3 + hex_value a4) = g0" "of_nat (16 * hex_value a5 + hex_value a6) = b0"
    by (rule colour_digits)
  obtain c1 c2 c3 c4 c5 c6 where c: "colour_string (r1, g1, b1) = [c1, c2, c3, c4, c5, c6]"
    "list_all is_xdigit [c1, c2, c3, c4, c5, c6]" "of_nat (16 * hex_value c1 + hex_value c2) = r1"
    "of_nat (16 * hex_value c3 + hex_value c4) = g1" "of_nat (16 * hex_value c5 + hex_value c6) = b1"
    by (rule colour_digits)
  obtain d1 d2 d3 d4 d5 d6 where d: "colour_string (r2, g2, b2) = [d1, d2, d3, d4, d5, d6]"
    "list_all is_xdigit [d1, d2, d3, d4, d5, d6]" "of_nat (16 * hex_value d1 + hex_value d2) = r2"
    "of_nat (16 * hex_value d3 + hex_value d4) = g2" "of_nat (16 * hex_value d5 + hex_value d6) = b2"
    by (rule colour_digits)
  obtain e1 e2 e3 e4 e5 e6 where e: "colour_string (r3, g3, b3) = [e1, e2, e3, e4, e5, e6]"
    "list_all is_xdigit [e1, e2, e3, e4, e5, e6]" "of_nat (16 * hex_value e1 + hex_value e2) = r3"
    "of_nat (16 * hex_value e3 + hex_value e4) = g3" "of_nat (16 * hex_value e5 + hex_value e6) = b3"
    by (rule colour_digits)
  have s: "palette_string pal = [a1, a2, a3, a4, a5, a6, c1, c2, c3, c4, c5, c6, d1, d2, d3, d4, d5, d6,
      e1, e2, e3, e4, e5, e6]"
    by (simp add: pal p palette_string_def a(1) c(1) d(1) e(1))
  show "length (palette_string pal) = 24" by (simp add: s)
  show "list_all is_xdigit (palette_string pal)" using a(2) c(2) d(2) e(2) by (simp add: s)
  have "[0..<4] = [0, 1, 2, 3]" by (simp add: upt_rec)
  then show "palette_of (palette_string pal) = pal"
    by (simp only: palette_of_def s palette_hex_def)
      (use a(3-5) c(3-5) d(3-5) e(3-5) in \<open>simp add: pal p\<close>)
qed

text \<open>
  C40. The palette option. Whatever the arguments are, a palette that the option parser accepts is one the
  picture unit's constructor can read, so its conversions never throw; and the option that spells the
  red, green and blue parts of four colours with two hexadecimal digits each is accepted and gives
  exactly these colours.
\<close>

theorem Palette_option:
  "(InitOpts getopt argv default_options = Inr opts \<longrightarrow>
      (\<exists>p. Ppu_Ppu env opts = Inr p \<and> color_palette p = palette_of (opt_color_palette opts))) \<and>
   (length pal = 4 \<and> getopt long_opts short_opts argv' = [(CHR ''c'', palette_string pal)] \<longrightarrow>
      InitOpts getopt argv' default_options =
        Inr (default_options\<lparr>opt_color_palette := palette_string pal\<rparr>) \<and>
      parse_palette (palette_string pal) = Inr pal)"
proof (intro conjI impI)
  assume "InitOpts getopt argv default_options = Inr opts"
  then have "list_all is_xdigit (opt_color_palette opts)" "length (opt_color_palette opts) = 24"
    using InitOpts_ok default_options_ok by blast+
  then show "\<exists>p. Ppu_Ppu env opts = Inr p \<and> color_palette p = palette_of (opt_color_palette opts)"
    by (simp add: Ppu_Ppu_def parse_palette_eq new_Ppu_def Let_def)
next
  assume pal: "length pal = 4 \<and> getopt long_opts short_opts argv' = [(CHR ''c'', palette_string pal)]"
  show "InitOpts getopt argv' default_options =
      Inr (default_options\<lparr>opt_color_palette := palette_string pal\<rparr>)"
    using palette_string_parses [of pal] pal by (simp add: InitOpts_def set_option_def)
  show "parse_palette (palette_string pal) = Inr pal"
    using palette_string_parses [of pal] pal by (simp add: parse_palette_eq)
qed

definition test_palette :: "(u8 \<times> u8 \<times> u8) list" where
  "test_palette = [(0xF2, 0xFF, 0xD9), (0xAA, 0xAA, 0xAA), (0x55, 0x55, 0x55), (0, 0, 0)]"

text \<open>A command line for examples: no option, or the palette.\<close>

definition test_getopt :: getopt where
  "test_getopt longs shorts argv = (if argv = [] then [] else [(CHR ''c'', palette_string test_palette)])"

lemma no_options: "InitOpts test_getopt [] default_options = Inr default_options"
  by (simp add: InitOpts_def test_getopt_def default_options_def is_xdigit_def is_digit_def char_in_def)

lemma Palette_option_witness:
  "InitOpts test_getopt [''-c''] default_options =
     Inr (default_options\<lparr>opt_color_palette := palette_string test_palette\<rparr>) \<and>
   parse_palette (palette_string test_palette) = Inr test_palette \<and>
   (\<forall>env. \<exists>p. Ppu_Ppu env default_options = Inr p \<and>
      color_palette p = palette_of ''f2ffd9aaaaaa555555000000'')"
proof -
  have "length test_palette = 4 \<and>
      test_getopt long_opts short_opts [''-c''] = [(CHR ''c'', palette_string test_palette)]"
    by (simp add: test_palette_def test_getopt_def)
  then show ?thesis
    using Palette_option [of test_getopt "[]" default_options _ test_palette "[''-c'']"] no_options
    by (auto simp: default_options_def)
qed

section \<open>The start\<close>

lemma GbTop_errors:
  assumes "InitOpts getopt argv default_options = Inr opts"
  shows "only_errors {FileError, OutOfBounds, OutOfRange, AssertFailed, UnknownCartridge} (GbTop_GbTop env opts)"
proof -
  have "list_all is_xdigit (opt_color_palette opts)" "length (opt_color_palette opts) = 24"
    using InitOpts_ok [OF assms] by simp_all
  then have "Ppu_Ppu env opts = Inr (new_Ppu (headless opts) (show_ext_game_wndw opts)
      (show_window_wndw opts) (palette_of (opt_color_palette opts)) (start_window_line env)
      (start_texture env))"
    by (simp add: Ppu_Ppu_def parse_palette_eq)
  then show ?thesis
    unfolding GbTop_GbTop_def
    by (intro only_errors_rbind Cartridge_Cartridge_errors) (simp split: prod.split)
qed

lemma GbTop_state:
  assumes "InitOpts getopt argv default_options = Inr opts" and "GbTop_GbTop env opts = Inr (info, m)"
  shows "\<exists>cart ongoing sc div0 tac0 tima0 tma0. mbc_ok cart \<and> cartridge m = cart \<and>
    Cartridge_Cartridge (file_content env (rom_path opts))
       (if boot_rom_path opts = '''' then None else Some (file_content env (boot_rom_path opts)))
       (symbol_file opts) (quick_boot opts) (save_content env (rom_path opts)) = Inr (info, cart) \<and>
    m = new_gb cart (start_apu env) (new_Ppu (headless opts) (show_ext_game_wndw opts)
      (show_window_wndw opts) (palette_of (opt_color_palette opts)) (start_window_line env)
      (start_texture env)) (new_Serial ongoing sc) (new_Timer div0 tac0 tima0 tma0)
      ui_default (start_clock env) (start_indeterminate env) (start_schedule env)"
proof -
  have pal: "parse_palette (opt_color_palette opts) = Inr (palette_of (opt_color_palette opts))"
    using InitOpts_ok [OF assms(1)] by (simp add: parse_palette_eq)
  obtain div0 tac0 tima0 tma0 ongoing sc where
    s: "start_timer env = (div0, tac0, tima0, tma0)" "start_serial env = (ongoing, sc)"
    by (metis prod_cases4 surj_pair)
  obtain cart where c: "Cartridge_Cartridge (file_content env (rom_path opts))
      (if boot_rom_path opts = '''' then None else Some (file_content env (boot_rom_path opts)))
      (symbol_file opts) (quick_boot opts) (save_content env (rom_path opts)) = Inr (info, cart)"
    and m: "m = new_gb cart (start_apu env) (new_Ppu (headless opts) (show_ext_game_wndw opts)
      (show_window_wndw opts) (palette_of (opt_color_palette opts)) (start_window_line env)
      (start_texture env)) (new_Serial ongoing sc) (new_Timer div0 tac0 tima0 tma0)
      ui_default (start_clock env) (start_indeterminate env) (start_schedule env)"
    using assms(2) unfolding GbTop_GbTop_def Ppu_Ppu_def
    by (auto simp: rbind_Inr_iff pal s)
  show ?thesis
    using c m Cartridge_Cartridge_ok [OF c]
    by (intro exI [of _ cart] exI [of _ ongoing] exI [of _ sc] exI [of _ div0] exI [of _ tac0]
        exI [of _ tima0] exI [of _ tma0]) (simp add: new_gb_def)
qed

lemma GbTop_ok:
  assumes "InitOpts getopt argv default_options = Inr opts" and "GbTop_GbTop env opts = Inr (info, m)"
    and "start_window_line env = 0"
  shows "gb_ok m"
  using GbTop_state [OF assms(1,2)] assms(3) by (metis new_gb_ok new_Ppu_ok length_palette_of)

lemma start_simulation_ok:
  assumes "gb_ok m"
  shows "start_simulation polls m =
      Inr (gb_socket polls (mbc_tracer (cartridge m) \<noteq> None), gb_put_io 0x34 0 m) \<and>
    gb_ok (gb_put_io 0x34 0 m)"
proof -
  have sizes: "memory_size (intr_enable m) = 1" "memory_size (reg_if m) = 1"
    "memory_size (video_ram m) = 8192" "memory_size (obj_attr_mem m) = 160"
    "memory_size (io_mem (io_registers m)) = 0x80"
    using assms by (simp_all add: gb_ok_def)
  have "\<exists>x. interrupt_module_start gb_top_slaves m = Inr x"
    using gb_start [of m polls] sizes by (auto simp: cpu_start_of_simulation_def rbind_Inr_iff)
  moreover obtain l where "ppu_start_of_simulation gb_top_slaves m = Inr (l, gb_put_io 0x34 0 m)"
    using gb_ppu_start [of m] sizes by auto
  moreover obtain d where "apu_start_of_simulation gb_top_slaves m = Inr d"
    using gb_apu_start [of m] sizes by auto
  ultimately show ?thesis
    using gb_start [of m polls] sizes assms
    by (auto simp: start_simulation_def gb_ok_def gb_put_io_def)
qed

lemma simulated_time_errors: "only_errors {SignedOverflow} (simulated_time opts)"
  by (simp add: simulated_time_def)

text \<open>A started machine, as its CPU's thread runs it.\<close>

lemma machine_runs:
  assumes "gb_ok (sys s)"
  shows "\<exists>sk m. start_simulation polls (sys s) = Inr (sk, m) \<and>
    (\<forall>os bytes g.
       case DoMachineCycle sk (if attach then Some os else None) bytes (g, s\<lparr>sys := m\<rparr>) of
         None \<Rightarrow> attach
       | Some (Inl e) \<Rightarrow>
           e \<in> {LogicError, InvalidArgument, OutOfRange, SystemError, Blocked, ReportError,
             AssertFailed, HaltUnresolved, NotImplemented 0x10} \<or>
           (\<exists>a d. e = BusError a d) \<or> (\<exists>op \<in> set undefined_opcodes. e = UnknownInstruction op)
       | Some (Inr (h, t)) \<Rightarrow> gb_ok (sys t))"
proof -
  let ?m = "gb_put_io 0x34 0 (sys s)"
  obtain traced where start: "start_simulation polls (sys s) = Inr (gb_socket polls traced, ?m)"
    and ok: "gb_ok ?m"
    using start_simulation_ok [OF assms] by blast
  have "case DoMachineCycle (gb_socket polls traced) a bytes (g, s\<lparr>sys := ?m\<rparr>) of
      None \<Rightarrow> a \<noteq> None
    | Some r \<Rightarrow> res_ok (\<lambda>(g, s). gb_ok (sys s)) (loop_errors {AssertFailed}) r"
    for a bytes g
    using gb_debug.DoMachineCycle_keep [of "s\<lparr>sys := ?m\<rparr>"] ok by simp
  note run = this [where a = "if attach then Some os else None" for os]
  have "case DoMachineCycle (gb_socket polls traced) (if attach then Some os else None) bytes
        (g, s\<lparr>sys := ?m\<rparr>) of
      None \<Rightarrow> attach
    | Some (Inl e) \<Rightarrow>
        e \<in> {LogicError, InvalidArgument, OutOfRange, SystemError, Blocked, ReportError,
          AssertFailed, HaltUnresolved, NotImplemented 0x10} \<or>
        (\<exists>a d. e = BusError a d) \<or> (\<exists>op \<in> set undefined_opcodes. e = UnknownInstruction op)
    | Some (Inr (h, t)) \<Rightarrow> gb_ok (sys t)"
    for os bytes g
    using run [of os bytes g]
    by (auto simp: res_ok_def loop_errors_def debug_errors_def protocol_errors_def cpu_errors_def
        opcode_errors_def split: option.splits sum.splits if_splits)
  then show ?thesis
    using start by (intro exI [of _ "gb_socket polls traced"] exI [of _ ?m] conjI) simp_all
qed


text \<open>An environment for examples: one game file, the option for it, no option for the help.\<close>

definition test_env :: "u8 \<Rightarrow> environment" where
  "test_env t =
     \<lparr>getopt_long = (\<lambda>longs shorts argv. map (\<lambda>a. (CHR ''r'', a)) argv),
      path_exists = (\<lambda>p. p = ''dummy.gb''), is_directory = (\<lambda>p. False),
      file_content = (\<lambda>p. if p = ''dummy.gb'' then Some (test_game t) else None),
      start_apu = test_Apu, start_serial = (False, 0), start_timer = (0, 0, 0, 0), start_window_line = 0,
      start_texture = (\<lambda>_. 0), start_clock = 0, start_indeterminate = 0, start_schedule = []\<rparr>"

lemma test_options:
  "InitOpts (getopt_long (test_env t)) [''dummy.gb''] default_options =
     Inr (default_options\<lparr>rom_path := ''dummy.gb''\<rparr>)"
  by (simp add: InitOpts_def test_env_def set_option_def default_options_def is_xdigit_def is_digit_def char_in_def)

text \<open>The machine that the main function makes for a supported game.\<close>

lemma main_starts:
  assumes "InitOpts (getopt_long env) argv default_options = Inr opts"
    and "rom_path opts \<noteq> ''''" and "path_exists env (rom_path opts)" and "\<not> is_directory env (rom_path opts)"
    and "file_content env (rom_path opts) = Some d"
    and "0x4000 \<le> length d" and "known_rom_size (d ! 0x148)" and "known_ram_size (d ! 0x149)"
    and "supported_type (d ! 0x147)"
    and "boot_bytes (if boot_rom_path opts = '''' then None else Some (file_content env (boot_rom_path opts)))
      (quick_boot opts) = Some b"
    and "max_cycles opts \<le> (2 ^ 63 - 1) div 238"
  shows "\<exists>m. GbTop_GbTop env opts = Inr (header_info d, m) \<and> sc_main env argv = Inr (Simulates (game_info_string (header_info d))
        (new_cpu (opt_single_step opts) m) (wait_for_gdb opts)
        (if max_cycles opts < 0 then None else Some (238 * max_cycles opts))) \<and>
    rom_low_holds b d (mbc_rom_low (cartridge m)) \<and>
    color_palette (ppu m) = palette_of (opt_color_palette opts)"
proof -
  obtain c where c: "Cartridge_Cartridge (file_content env (rom_path opts))
      (if boot_rom_path opts = '''' then None else Some (file_content env (boot_rom_path opts)))
      (symbol_file opts) (quick_boot opts) (save_content env (rom_path opts)) = Inr (header_info d, c)"
    and low: "rom_low_holds b d (mbc_rom_low c)"
    using Cartridge_loads [OF assms(6-10)] assms(5) by metis
  have pal: "parse_palette (opt_color_palette opts) = Inr (palette_of (opt_color_palette opts))"
    using InitOpts_ok [OF assms(1)] by (simp add: parse_palette_eq)
  have "\<exists>m. GbTop_GbTop env opts = Inr (header_info d, m) \<and> cartridge m = c \<and>
      color_palette (ppu m) = palette_of (opt_color_palette opts)"
    unfolding GbTop_GbTop_def c rbind_simps prod.case Ppu_Ppu_def pal
    by (cases "start_timer env"; cases "start_serial env") (simp add: new_gb_def new_Ppu_def Let_def)
  then obtain m where m: "GbTop_GbTop env opts = Inr (header_info d, m)" "cartridge m = c"
    "color_palette (ppu m) = palette_of (opt_color_palette opts)"
    by blast
  have "238 * max_cycles opts < 2 ^ 63" using assms(11) by simp
  then have "simulated_time opts =
      Inr (if max_cycles opts < 0 then None else Some (238 * max_cycles opts))"
    by (simp add: simulated_time_def kNsPerClkCycle_def)
  then show ?thesis
    using assms(2-4) m low by (intro exI [of _ m]) (simp add: sc_main_def assms(1))
qed

text \<open>
  C3. When the program starts. With valid options, a ROM file of a supported type and at least one
  bank, whose header has sizes of the tables, a boot ROM that can be read or none, and a time limit that
  fits into 64 bits, the main function starts the simulation for the time of the limit. The lower
  bank then holds the bytes of the boot ROM and behind them those of the game, the picture unit has the
  four colours of the option, the CPU is in its initial state.
\<close>

theorem Program_loads:
  assumes "InitOpts (getopt_long env) argv default_options = Inr opts"
    and "rom_path opts \<noteq> ''''" and "path_exists env (rom_path opts)" and "\<not> is_directory env (rom_path opts)"
    and "file_content env (rom_path opts) = Some d"
    and "0x4000 \<le> length d" and "known_rom_size (d ! 0x148)" and "known_ram_size (d ! 0x149)"
    and "supported_type (d ! 0x147)"
    and "boot_bytes (if boot_rom_path opts = '''' then None else Some (file_content env (boot_rom_path opts)))
      (quick_boot opts) = Some b"
    and "max_cycles opts \<le> (2 ^ 63 - 1) div 238"
  shows "\<exists>m. sc_main env argv = Inr (Simulates (game_info_string (header_info d))
        (new_cpu (opt_single_step opts) m) (wait_for_gdb opts)
        (if max_cycles opts < 0 then None else Some (238 * max_cycles opts))) \<and>
    rom_low_holds b d (mbc_rom_low (cartridge m)) \<and>
    color_palette (ppu m) = palette_of (opt_color_palette opts)"
  using main_starts [OF assms] by blast

lemma Program_loads_witness:
  "\<exists>m. sc_main (test_env 0) [''dummy.gb''] = Inr (Simulates (game_info_string (header_info (test_game 0)))
        (new_cpu False m) False None) \<and>
    rom_low_holds kOriginalBoot (test_game 0) (mbc_rom_low (cartridge m))"
proof -
  have "boot_bytes None False = Some kOriginalBoot" by (simp add: boot_bytes_def)
  then show ?thesis
    using Program_loads [OF test_options [of 0, simplified], of "test_game 0" kOriginalBoot]
    by (auto simp: default_options_def test_env_def known_rom_size_def known_ram_size_def supported_type_def)
qed


end
