(* ===== verification/Boot_Properties.thy ===== *)
theory Boot_Properties
  imports Boot_Rom Main_Properties
begin

text \<open>
  The Game Boy runs the embedded quick boot ROM: its modules provide what \<open>boot_system\<close> asks for, so the
  program, when it is started with the option for the quick boot ROM, reaches the first instruction of
  the game.
\<close>

section \<open>What the threads can change\<close>

text \<open>The cartridge, the video RAM and the signal that unmaps the boot ROM.\<close>

definition boot_view :: "gb \<Rightarrow> mbc \<times> GenericMemory \<times> sc_signal" where
  "boot_view m = (cartridge m, video_ram m, sig_unmap_rom (io_registers m))"

lemma boot_view_on_apu: "boot_view (on_apu f m) = boot_view m"
  by (simp add: on_apu_def boot_view_def split: prod.split)

lemma boot_view_methods:
  "boot_view (foldl (\<lambda>m (sig, f). if c sig then on_apu f m else m) m fs) = boot_view m"
proof (induction fs arbitrary: m)
  case (Cons a fs)
  then show ?case by (cases a) (simp add: boot_view_on_apu)
qed simp

lemma boot_view_activate:
  assumes "act \<noteq> ActSignals"
  shows "boot_view (activate m act) = boot_view m"
proof (cases act)
  case ActTimer
  then show ?thesis by (simp add: boot_view_def put_if_def split: prod.split)
next
  case ActSerial
  then show ?thesis by (simp add: boot_view_def put_if_def split: prod.split)
next
  case (ActInput event)
  then show ?thesis by (simp add: boot_view_def put_if_def split: option.split prod.split)
next
  case ActPpu
  then show ?thesis
    by (simp add: boot_view_def put_if_def gb_ppu_write_back_def gb_put_io_def split: sum.split prod.split)
qed (use assms in \<open>simp_all only: activate.simps boot_view_on_apu simp_thms\<close>, simp add: boot_view_def)

lemma boot_view_signals:
  assumes "boot_view m = (c, v, sg)" and "SigHandler c = Inr c'"
  shows "boot_view (activate m ActSignals) = (if sig_cur sg \<noteq> sig_next sg then c' else c, v, sg\<lparr>sig_cur := sig_next sg\<rparr>)"
proof -
  let ?m = "m\<lparr>io_registers := update_signals (io_registers m)\<rparr>"
  define m' where "m' = foldl (\<lambda>m' (sig, f). if fst (sig_update (sig (io_registers m))) then on_apu f m' else m') ?m apu_methods"
  have "boot_view m' = boot_view ?m"
    unfolding m'_def by (rule boot_view_methods)
  also have "\<dots> = (c, v, sg\<lparr>sig_cur := sig_next sg\<rparr>)"
    using assms(1) by (simp add: boot_view_def update_signals_def sig_update_def)
  finally have view: "boot_view m' = (c, v, sg\<lparr>sig_cur := sig_next sg\<rparr>)" .
  have "sig_unmap_rom (io_registers m) = sg" "cartridge m' = c"
    using assms(1) view by (simp_all add: boot_view_def)
  then have "activate m ActSignals = (if sig_cur sg \<noteq> sig_next sg then m'\<lparr>cartridge := c'\<rparr> else m')"
    unfolding activate.simps Let_def m'_def [symmetric] by (simp add: sig_update_def assms(2))
  then show ?thesis using view by (simp add: boot_view_def)
qed

text \<open>A wait keeps what every activation keeps.\<close>

lemma run_schedule_keeps:
  assumes "\<And>m act. Q m \<Longrightarrow> Q (activate m act)" and "\<And>m s. Q m \<Longrightarrow> Q (m\<lparr>schedule := s\<rparr>)" and "Q m"
  shows "Q (run_schedule n sched m)"
proof -
  have acts: "Q (foldl activate m acts)" if "Q m" for m acts
    using that by (induction acts arbitrary: m) (simp_all add: assms(1))
  show ?thesis
    using assms(3) by (induction n sched m rule: run_schedule.induct) (simp_all add: acts assms(2))
qed

section \<open>The Game Boy as the boot ROM's system\<close>

text \<open>
  \<open>booting game m\<close>: the boot ROM is in the lower bank of the cartridge with this game and nobody asked to
  unmap it. \<open>booted game m\<close>: somebody has, and when the signal is delivered the game is there.
\<close>

definition booting :: "u8 list \<Rightarrow> gb \<Rightarrow> bool" where
  "booting game m \<longleftrightarrow> gb_ok m \<and> mbc_game_file (cartridge m) = Some game \<and>
     (\<forall>i < 0x100. mem_data (mbc_rom_low (cartridge m)) i = kQuickBoot ! i) \<and>
     sig_unmap_rom (io_registers m) = sig_init"

definition vram_clear :: "nat \<Rightarrow> gb \<Rightarrow> bool" where
  "vram_clear k m \<longleftrightarrow> (\<forall>j. 0x2000 - k \<le> j \<and> j < 0x2000 \<longrightarrow> mem_data (video_ram m) j = 0)"

definition booted :: "u8 list \<Rightarrow> gb \<Rightarrow> bool" where
  "booted game m \<longleftrightarrow> gb_ok m \<and> sig_next (sig_unmap_rom (io_registers m)) \<and>
     (if sig_cur (sig_unmap_rom (io_registers m))
      then \<forall>i < 0x4000. i < length game \<longrightarrow> mem_data (mbc_rom_low (cartridge m)) i = game ! i
      else mbc_game_file (cartridge m) = Some game)"

lemma booting_activate:
  assumes "booting game m"
  shows "booting game (activate m act) \<and> video_ram (activate m act) = video_ram m"
proof -
  have ok: "gb_ok m" using assms by (simp add: booting_def)
  obtain c' where c': "SigHandler (cartridge m) = Inr c'"
    using SigHandler_ok [of "cartridge m"] ok by (auto simp: gb_ok_def)
  have "boot_view (activate m act) = boot_view m"
  proof (cases "act = ActSignals")
    case True
    then show ?thesis
      using boot_view_signals [OF _ c', of m "video_ram m" "sig_unmap_rom (io_registers m)"] assms
      by (simp add: boot_view_def booting_def sig_init_def)
  qed (rule boot_view_activate)
  then show ?thesis
    using assms activate_ok [OF ok, of act] by (simp add: booting_def boot_view_def)
qed

lemma booted_signals:
  assumes "booted game m"
  shows "booted game (activate m ActSignals) \<and> video_ram (activate m ActSignals) = video_ram m \<and>
    sig_cur (sig_unmap_rom (io_registers (activate m ActSignals)))"
proof -
  let ?sg = "sig_unmap_rom (io_registers m)"
  have ok: "gb_ok m" "mbc_ok (cartridge m)" using assms by (simp_all add: booted_def gb_ok_def)
  obtain c' where c': "SigHandler (cartridge m) = Inr c'"
    using SigHandler_ok [OF ok(2)] by blast
  have view: "boot_view (activate m ActSignals) =
      (if sig_cur ?sg \<noteq> sig_next ?sg then c' else cartridge m, video_ram m, ?sg\<lparr>sig_cur := sig_next ?sg\<rparr>)"
    by (rule boot_view_signals [OF _ c']) (simp add: boot_view_def)
  have "\<forall>i < 0x4000. i < length game \<longrightarrow> mem_data (mbc_rom_low c') i = game ! i" if "\<not> sig_cur ?sg"
    using unmapped_rom_low [OF ok(2), of game] assms that c' by (auto simp: booted_def)
  then show ?thesis
    using assms view activate_ok [OF ok(1), of ActSignals]
    by (cases "sig_cur ?sg") (simp_all add: booted_def boot_view_def del: activate.simps)
qed

lemma booted_activate:
  assumes "booted game m"
  shows "booted game (activate m act) \<and> video_ram (activate m act) = video_ram m"
proof (cases "act = ActSignals")
  case True
  then show ?thesis using booted_signals [OF assms] by (simp del: activate.simps)
next
  case False
  then show ?thesis
    using boot_view_activate [OF False, of m] assms activate_ok [of m act]
    by (simp add: booted_def boot_view_def)
qed

text \<open>The accesses of the boot ROM.\<close>

lemma waits_gb:
  assumes "\<And>m act. Q m \<Longrightarrow> Q (activate m act)" and "\<And>m s. Q m \<Longrightarrow> Q (m\<lparr>schedule := s\<rparr>)"
  shows "waits (gb_socket polls traced) Q"
  using run_schedule_keeps [of Q, OF assms] by (simp add: waits_def gb_socket_def gb_wait_def)

lemma vram_clear_same: "video_ram m' = video_ram m \<Longrightarrow> vram_clear k m' = vram_clear k m"
  by (auto simp: vram_clear_def)

lemma waits_booting: "waits (gb_socket polls traced) (\<lambda>m. booting game m \<and> vram_clear k m)"
proof (rule waits_gb)
  fix m act assume "booting game m \<and> vram_clear k m"
  then show "booting game (activate m act) \<and> vram_clear k (activate m act)"
    using booting_activate [of game m act] vram_clear_same by blast
qed (simp add: booting_def vram_clear_def gb_ok_schedule)

lemma waits_booted: "waits (gb_socket polls traced) (\<lambda>m. booted game m \<and> vram_clear k m)"
proof (rule waits_gb)
  fix m act assume "booted game m \<and> vram_clear k m"
  then show "booted game (activate m act) \<and> vram_clear k (activate m act)"
    using booted_activate [of game m act] vram_clear_same by blast
qed (simp add: booted_def vram_clear_def gb_ok_schedule)

lemma write_vram:
  assumes "k < 0x2000"
  shows "bus_writes (gb_socket polls traced) (\<lambda>m. booting game m \<and> vram_clear k m)
    (0x9FFF - of_nat k) 0 (\<lambda>m. booting game m \<and> vram_clear (Suc k) m)"
  unfolding bus_writes_def gb_transport
proof (intro allI impI)
  fix m st ext assume m: "booting game m \<and> vram_clear k m"
  let ?a = "0x9FFF - of_nat k :: u16"
  have "unat (of_nat k :: u16) = k" using assms by (simp add: unat_of_nat)
  then have a: "unat ?a = 0x9FFF - k" using assms by (simp add: unat_sub_if' word_le_nat_alt)
  moreover have "0x8000 \<le> 0x9FFF - k" using assms by simp
  ultimately have ram: "gb_ram ?a" "?a \<le> 0x9FFF" by (simp_all add: gb_ram_def word_le_nat_alt)
  let ?pl = "\<lparr>command = TLM_WRITE_COMMAND, address = ?a, data_byte = 0, response_status = st, extension = ext\<rparr>"
  have ok: "gb_ok m" using m by (simp add: booting_def)
  have "booting game (gb_poke ?a 0 m)"
    using m gb_ok_poke [OF ok, of ?a 0] ram(2) by (simp add: booting_def gb_poke_def)
  moreover have "vram_clear (Suc k) (gb_poke ?a 0 m)"
    using m ram(2) assms by (auto simp: vram_clear_def gb_poke_def a)
  ultimately show "\<exists>pl' m'. bus_b_transport (gb_slaves (gb_bus (Suc 0))) ?pl m = Inr (pl', m') \<and>
      booting game m' \<and> vram_clear (Suc k) m'"
    using gb_ram_write [OF ok, of ?pl "gb_bus (Suc 0)"] ram(1) by auto
qed

lemma io_write_unmap:
  "memory_size (io_mem (io_write adr d io)) = memory_size (io_mem io)"
  "adr \<noteq> 0x40 \<Longrightarrow> sig_unmap_rom (io_write adr d io) = sig_unmap_rom io"
  by (simp_all add: io_write_def Let_def io_set_def apu_off_def)

lemma write_io_register:
  assumes "0xFF10 \<le> a" and "a \<le> 0xFF7F" and "a \<noteq> 0xFF46" and "gb_ok m"
  shows "\<exists>pl. bus_b_transport (gb_slaves bus) \<lparr>command = TLM_WRITE_COMMAND, address = a, data_byte = d,
      response_status = st, extension = ext\<rparr> m =
    Inr (pl, m\<lparr>io_registers := io_write (unat (a - 0xFF10)) d (io_registers m)\<rparr>)"
proof -
  have u: "unat (a - 0xFF10) = unat a - 0xFF10"
    using assms(1) by (simp add: unat_sub)
  have "unat a \<noteq> 0xFF46"
    using assms(3) by (auto simp: word_unat_eq_iff)
  then have "unat (a - 0xFF10) \<noteq> 0x36" "unat (a - 0xFF10) < 0x80"
    using assms(1,2) by (simp_all add: u word_le_nat_alt)
  moreover have "memory_size (io_mem (io_registers m)) = 0x80"
    using assms(4) by (simp add: gb_ok_def)
  ultimately show ?thesis
    using assms(1,2) by (simp add: io_slave_access io_b_transport_def Let_def)
qed

lemma write_boot_registers:
  assumes "a \<in> {0xFF11, 0xFF12, 0xFF24, 0xFF25, 0xFF26, 0xFF47}"
  shows "bus_writes (gb_socket polls traced) (\<lambda>m. booting game m \<and> vram_clear k m)
    a d (\<lambda>m. booting game m \<and> vram_clear k m)"
  unfolding bus_writes_def gb_transport
proof (intro allI impI)
  fix m st ext assume m: "booting game m \<and> vram_clear k m"
  let ?m = "m\<lparr>io_registers := io_write (unat (a - 0xFF10)) d (io_registers m)\<rparr>"
  have "unat (a - 0xFF10) \<noteq> 0x40" using assms by auto
  then have "booting game ?m \<and> vram_clear k ?m"
    using m by (simp add: booting_def vram_clear_def gb_ok_def io_write_unmap)
  moreover have "0xFF10 \<le> a" "a \<le> 0xFF7F" "a \<noteq> 0xFF46" using assms by auto
  moreover have "gb_ok m" using m by (simp add: booting_def)
  ultimately show "\<exists>pl' m'. bus_b_transport (gb_slaves (gb_bus (Suc 0))) \<lparr>command = TLM_WRITE_COMMAND,
      address = a, data_byte = d, response_status = st, extension = ext\<rparr> m = Inr (pl', m') \<and>
      booting game m' \<and> vram_clear k m'"
    using write_io_register [of a m "gb_bus (Suc 0)" d st ext] by blast
qed

lemma write_boot_unmap:
  "bus_writes (gb_socket polls traced) (\<lambda>m. booting game m \<and> vram_clear k m)
    0xFF50 1 (\<lambda>m. booted game m \<and> vram_clear k m)"
  unfolding bus_writes_def gb_transport
proof (intro allI impI)
  fix m st ext assume m: "booting game m \<and> vram_clear k m"
  let ?m = "m\<lparr>io_registers := io_write (unat (0xFF50 - 0xFF10 :: u16)) 1 (io_registers m)\<rparr>"
  have "sig_unmap_rom (io_registers ?m) = sig_write True (sig_unmap_rom (io_registers m))"
    by (simp add: io_write_def Let_def)
  then have "booted game ?m \<and> vram_clear k ?m"
    using m by (simp add: booting_def booted_def vram_clear_def gb_ok_def io_write_unmap sig_write_def sig_init_def)
  moreover have "gb_ok m" using m by (simp add: booting_def)
  ultimately show "\<exists>pl' m'. bus_b_transport (gb_slaves (gb_bus (Suc 0))) \<lparr>command = TLM_WRITE_COMMAND,
      address = 0xFF50, data_byte = 1, response_status = st, extension = ext\<rparr> m = Inr (pl', m') \<and>
      booted game m' \<and> vram_clear k m'"
    using write_io_register [of "0xFF50" m "gb_bus (Suc 0)" 1 st ext] by auto
qed

lemma vram_clear_0: "vram_clear 0 m"
  by (auto simp: vram_clear_def)

interpretation gb_code: boot_code "gb_socket polls False" kQuickBoot "booting game"
  for polls game
proof
  show "\<exists>r. sk_rom_bank_0 (gb_socket polls False) m = Some r \<and> r i = kQuickBoot ! i"
    if "booting game m" "i < length kQuickBoot" for m i
    using that by (simp add: gb_socket_def booting_def) (simp add: kQuickBoot_def)
qed (simp add: kQuickBoot_def)

interpretation gb_boot: boot_system "gb_socket polls False" "booting game"
    "\<lambda>k m. booting game m \<and> vram_clear k m" "\<lambda>m. booted game m \<and> vram_clear 0x2000 m"
  for polls game
proof
  show "gb_code.kept polls game (booting game)"
    using waits_booting [of polls False game 0] by (simp add: gb_code.kept_def vram_clear_0)
  show "gb_code.kept polls game (\<lambda>m. booting game m \<and> vram_clear k m)" for k
    using waits_booting [of polls False game k] by (simp add: gb_code.kept_def)
qed (rule waits_booted write_vram write_boot_registers write_boot_unmap | simp add: vram_clear_0)+

section \<open>The program runs the boot ROM\<close>

lemma quick_boot_runs:
  assumes "booting game (sys s)" and "\<not> intr_master_enable s" and "get16 s rPC = 0"
  shows "\<exists>t. run_cycles 24595 (gb_socket polls False) s = Inr t \<and> booted game (sys t) \<and>
    get16 t rPC = 0x100 \<and> get8 t rA = 1 \<and> get16 t rSP = 0xFFFE \<and> vram_clear 0x2000 (sys t)"
proof -
  have "boot_at (booting game) 0 (get8 s rA) (get8 s rC) (get16 s rHL) (get16 s rSP) (GetFlagZ s) s"
    using assms by (simp add: boot_at_def)
  then obtain t where "run_cycles 24595 (gb_socket polls False) s = Inr t"
    "boot_at (\<lambda>m. booted game m \<and> vram_clear 0x2000 m) 0x100 1 0x12 0xFF24 0xFFFE False t"
    using gb_boot.boots [of polls game] unfolding steps_def by blast
  then show ?thesis by (auto simp: boot_at_def)
qed

lemma booted_reads:
  assumes "booted game (sys t)" and "a \<le> 0x3FFF" and "unat a < length game"
  shows "ReadBus (gb_socket polls False) a c (t\<lparr>sys := activate (sys t) ActSignals\<rparr>) =
    Inr (game ! unat a, t\<lparr>sys := activate (sys t) ActSignals\<rparr>)"
proof -
  have "unat a < 0x4000" using assms(2) by (simp add: word_le_nat_alt)
  then have "mem_data (mbc_rom_low (cartridge (activate (sys t) ActSignals))) (unat a) = game ! unat a"
    using booted_signals [OF assms(1)] assms(3) by (auto simp: booted_def simp del: activate.simps)
  then show ?thesis
    using assms(2) by (simp add: ReadBus_def gb_socket_def del: activate.simps)
qed

lemma Cartridge_files:
  assumes "Cartridge_Cartridge game boot sf quick save = Inr (info, c)"
  shows "mbc_game_file c = game \<and> (mbc_tracer c \<noteq> None \<longleftrightarrow> sf)"
  using assms unfolding Cartridge_Cartridge_def
  by (auto simp: rbind_Inr_iff dest: new_Cartridge_files)

lemma new_gb_idle: "sig_unmap_rom (io_registers (new_gb cart ap p s t u clock indet sched)) = sig_init"
  by (simp add: new_gb_def new_IoRegisters_def)

text \<open>A machine that the program makes for a game with the quick boot ROM is ready to boot it.\<close>

lemma GbTop_booting:
  assumes "InitOpts getopt argv default_options = Inr opts" and "GbTop_GbTop env opts = Inr (info, m)"
    and "start_window_line env = 0" and "file_content env (rom_path opts) = Some d"
    and "\<not> symbol_file opts" and "rom_low_holds kQuickBoot d (mbc_rom_low (cartridge m))"
  shows "booting d (gb_put_io 0x34 0 m) \<and> mbc_tracer (cartridge m) = None"
proof -
  have "mbc_game_file (cartridge m) = Some d \<and> mbc_tracer (cartridge m) = None"
    using GbTop_state [OF assms(1,2)] assms(4,5)
    by (elim exE conjE) (drule Cartridge_files, simp)
  moreover have "sig_unmap_rom (io_registers m) = sig_init"
    using GbTop_state [OF assms(1,2)] by (elim exE conjE) (simp add: new_gb_idle)
  moreover have "length kQuickBoot = 0x100" by (simp add: kQuickBoot_def)
  ultimately show ?thesis
    using GbTop_ok [OF assms(1-3)] assms(6)
    by (simp add: booting_def gb_ok_def gb_put_io_def rom_low_holds_def)
qed

text \<open>
  C2. The program boots a game. Started with the quick boot ROM on a supported game, without tracing,
  the main function starts the simulation, the modules find their registers, and after exactly 24595
  instructions the CPU is at the first instruction of the game, 0x100, whatever the threads of the other
  modules do in between: A is 1, the stack is at the top of high RAM, the video RAM is zero, and once
  the signal of the write to 0xFF50 is delivered the CPU reads the bytes of the game from address 0 on.
\<close>

theorem Program_boots:
  assumes "InitOpts (getopt_long env) argv default_options = Inr opts"
    and "rom_path opts \<noteq> ''''" and "path_exists env (rom_path opts)" and "\<not> is_directory env (rom_path opts)"
    and "file_content env (rom_path opts) = Some d"
    and "0x4000 \<le> length d" and "known_rom_size (d ! 0x148)" and "known_ram_size (d ! 0x149)"
    and "supported_type (d ! 0x147)"
    and "boot_rom_path opts = ''''" and "quick_boot opts" and "\<not> symbol_file opts"
    and "max_cycles opts \<le> (2 ^ 63 - 1) div 238" and "start_window_line env = 0"
  shows "\<exists>text s attach time sk m t.
    sc_main env argv = Inr (Simulates text s attach time) \<and>
    start_simulation polls (sys s) = Inr (sk, m) \<and>
    run_cycles 24595 sk (s\<lparr>sys := m\<rparr>) = Inr t \<and>
    get16 t rPC = 0x100 \<and> get8 t rA = 1 \<and> get16 t rSP = 0xFFFE \<and>
    (\<forall>j < 0x2000. mem_data (video_ram (sys t)) j = 0) \<and> gb_ok (sys t) \<and>
    (\<forall>a \<le> 0x3FFF. ReadBus sk a kGbReadInst (t\<lparr>sys := activate (sys t) ActSignals\<rparr>) =
      Inr (d ! unat a, t\<lparr>sys := activate (sys t) ActSignals\<rparr>))"
proof -
  obtain m0 time where top: "GbTop_GbTop env opts = Inr (header_info d, m0)"
    and main: "sc_main env argv = Inr (Simulates (game_info_string (header_info d))
      (new_cpu (opt_single_step opts) m0) (wait_for_gdb opts) time)"
    and low: "rom_low_holds kQuickBoot d (mbc_rom_low (cartridge m0))"
    using main_starts [OF assms(1-9), of kQuickBoot] assms(10,11,13) by (auto simp: boot_bytes_def)
  let ?s = "new_cpu (opt_single_step opts) m0" and ?m = "gb_put_io 0x34 0 m0" and ?sk = "gb_socket polls False"
  have "booting d ?m" "mbc_tracer (cartridge m0) = None"
    using GbTop_booting [OF assms(1) top assms(14,5,12) low] by simp_all
  moreover from this have "start_simulation polls (sys ?s) = Inr (?sk, ?m)"
    using start_simulation_ok [OF GbTop_ok [OF assms(1) top assms(14)], of polls] by (simp add: new_cpu_def)
  moreover have "\<not> intr_master_enable (?s\<lparr>sys := ?m\<rparr>)" "get16 (?s\<lparr>sys := ?m\<rparr>) rPC = 0"
    by (simp_all add: new_cpu_def get16_def val16_def dat_init_def make16_def)
  ultimately obtain t where t: "run_cycles 24595 ?sk (?s\<lparr>sys := ?m\<rparr>) = Inr t" "booted d (sys t)"
      "get16 t rPC = 0x100" "get8 t rA = 1" "get16 t rSP = 0xFFFE" "vram_clear 0x2000 (sys t)"
    and start: "start_simulation polls (sys ?s) = Inr (?sk, ?m)"
    using quick_boot_runs [of d "?s\<lparr>sys := ?m\<rparr>" polls] by auto
  have "ReadBus ?sk a kGbReadInst (t\<lparr>sys := activate (sys t) ActSignals\<rparr>) =
      Inr (d ! unat a, t\<lparr>sys := activate (sys t) ActSignals\<rparr>)" if "a \<le> 0x3FFF" for a
    using booted_reads [OF t(2) that] that assms(6) by (simp add: word_le_nat_alt del: activate.simps)
  moreover have "\<forall>j < 0x2000. mem_data (video_ram (sys t)) j = 0" "gb_ok (sys t)"
    using t(2,6) by (simp_all add: vram_clear_def booted_def)
  ultimately show ?thesis using main start t(1,3-5) by blast
qed

text \<open>The test game with the option for the quick boot ROM.\<close>

definition quick_env :: environment where
  "quick_env = (test_env 0)\<lparr>getopt_long := \<lambda>longs shorts argv. [(CHR ''r'', ''dummy.gb''), (CHR ''q'', '''')]\<rparr>"

lemma Program_boots_witness:
  "\<exists>text s attach time sk m t.
    sc_main quick_env [] = Inr (Simulates text s attach time) \<and>
    start_simulation 10 (sys s) = Inr (sk, m) \<and>
    run_cycles 24595 sk (s\<lparr>sys := m\<rparr>) = Inr t \<and> get16 t rPC = 0x100"
proof -
  have "InitOpts (getopt_long quick_env) [] default_options =
      Inr (default_options\<lparr>rom_path := ''dummy.gb'', quick_boot := True\<rparr>)"
    by (simp add: InitOpts_def quick_env_def set_option_def default_options_def is_xdigit_def is_digit_def char_in_def)
  from Program_boots [OF this, of "test_game 0" 10] show ?thesis
    by (auto simp: quick_env_def default_options_def test_env_def known_rom_size_def known_ram_size_def
        supported_type_def)
qed

end
