(* ===== verification/Cpu_Bcd.thy ===== *)
theory Cpu_Bcd
  imports Cpu_Alu
begin

text \<open>
  DAA after an addition or a subtraction: \<^verbatim>\<open>InstrDAA\<close> turns the binary result of an arithmetic
  instruction on two packed decimal numbers into the packed decimal result.
\<close>

section \<open>DAA as a function on numbers\<close>

definition daa_low :: "bool \<Rightarrow> bool \<Rightarrow> nat \<Rightarrow> bool" where
  "daa_low n h a \<longleftrightarrow> h \<or> (\<not> n \<and> 9 < a mod 16)"

definition daa_high :: "bool \<Rightarrow> bool \<Rightarrow> nat \<Rightarrow> bool" where
  "daa_high n c a \<longleftrightarrow> c \<or> (\<not> n \<and> 0x99 < a)"

definition daa_correction :: "bool \<Rightarrow> bool \<Rightarrow> bool \<Rightarrow> nat \<Rightarrow> nat" where
  "daa_correction n h c a = (if daa_high n c a then 0x60 else 0) + (if daa_low n h a then 6 else 0)"

lemma low_nibble_gt_9: "(a :: u8) AND 0x0F > 9 \<longleftrightarrow> 9 < unat a mod 16"
  by (simp add: word_less_nat_alt unat_and_15)

lemma gt_0x99: "(a :: u8) > 0x99 \<longleftrightarrow> 0x99 < unat a"
  by (simp add: word_less_nat_alt)

lemma InstrDAA_out:
  fixes s :: "'m cpu"
  defines "a \<equiv> get8 s rA"
  defines "k \<equiv> daa_correction (GetFlagN s) (GetFlagH s) (GetFlagC s) (unat a)"
  shows "get8 (InstrDAA s) rA = (if GetFlagN s then a - of_nat k else a + of_nat k)"
    and "GetFlagC (InstrDAA s) = daa_high (GetFlagN s) (GetFlagC s) (unat a)"
    and "\<not> GetFlagH (InstrDAA s)" "GetFlagN (InstrDAA s) = GetFlagN s"
    and "GetFlagZ (InstrDAA s) \<longleftrightarrow> get8 (InstrDAA s) rA = 0"
  unfolding a_def k_def
  by (cases "GetFlagN s"; cases "GetFlagH s"; cases "GetFlagC s";
      simp add: InstrDAA_def Let_def daa_correction_def daa_low_def daa_high_def
        low_nibble_gt_9 gt_0x99 flag_simps)+

section \<open>Packed decimal numbers\<close>

definition bcd :: "nat \<Rightarrow> nat" where
  "bcd n = 16 * (n div 10) + n mod 10"

lemma bcd_digits: "e < 10 \<Longrightarrow> bcd (10 * d + e) = 16 * d + e"
  by (simp add: bcd_def)

lemma bcd_less: "n < 100 \<Longrightarrow> bcd n < 256"
  by (simp add: bcd_def)

lemma bcd_low: "bcd n mod 16 = n mod 10"
  by (simp add: bcd_def mod_add_left_eq)

text \<open>
  Addition: \<open>P\<close> and \<open>Q\<close> are the sums of the high and of the low digits, a carry included in \<open>Q\<close>.
  With \<open>k\<close> and \<open>m\<close> the decimal carries out of the two digits, the binary sum \<open>16 * P + Q\<close> falls short
  of the decimal one by \<open>6 * k + 96 * m\<close>, which is exactly the correction.
\<close>

lemma daa_add:
  fixes P Q :: nat
  assumes "P \<le> 18" and "Q \<le> 19"
  defines "t \<equiv> 16 * P + Q" and "n \<equiv> 10 * P + Q"
  shows "daa_high False (256 \<le> t) (t mod 256) \<longleftrightarrow> 100 \<le> n"
    and "(t + daa_correction False (16 \<le> Q) (256 \<le> t) (t mod 256)) mod 256 = bcd (n mod 100)"
proof -
  define k where "k = (if 10 \<le> Q then 1 else 0 :: nat)"
  define m where "m = (if 10 \<le> P + k then 1 else 0 :: nat)"
  define e where "e = Q - 10 * k"
  define d where "d = P + k - 10 * m"
  have digits: "d < 10" "e < 10"
    using assms(1,2) by (auto simp: d_def e_def m_def k_def)
  have PQ: "Q = e + 10 * k" "P + k = d + 10 * m"
    by (auto simp: d_def e_def m_def k_def)
  have n: "n = 100 * m + (10 * d + e)" and t: "t + (96 * m + 6 * k) = 256 * m + (16 * d + e)"
    using PQ by (simp_all add: n_def t_def)
  have m01: "m = 0 \<or> m = 1" and k01: "k = 0 \<or> k = 1"
    by (simp_all add: m_def k_def)
  have high: "daa_high False (256 \<le> t) (t mod 256) \<longleftrightarrow> m = 1"
  proof -
    have "daa_high False (256 \<le> t) (t mod 256) \<longleftrightarrow> 153 < t"
      by (cases "256 \<le> t") (simp_all add: daa_high_def)
    then show ?thesis
      using t digits m01 k01 by auto
  qed
  have "t mod 256 mod 16 = Q mod 16"
    by (simp add: t_def mod_mod_cancel)
  then have low: "daa_low False (16 \<le> Q) (t mod 256) \<longleftrightarrow> k = 1"
    by (cases "Q < 16") (simp_all add: daa_low_def k_def)
  have correction: "daa_correction False (16 \<le> Q) (256 \<le> t) (t mod 256) = 96 * m + 6 * k"
    using m01 k01 by (auto simp: daa_correction_def high low)
  show "daa_high False (256 \<le> t) (t mod 256) \<longleftrightarrow> 100 \<le> n"
    using m01 digits by (auto simp: high n)
  have "n mod 100 = 10 * d + e" "(256 * m + (16 * d + e)) mod 256 = 16 * d + e"
    using digits by (simp_all add: n)
  then show "(t + daa_correction False (16 \<le> Q) (256 \<le> t) (t mod 256)) mod 256 = bcd (n mod 100)"
    using digits by (simp only: correction t bcd_digits)
qed

text \<open>Subtraction: the same with borrows, on integers.\<close>

lemma daa_sub:
  fixes P Q :: int
  assumes "-9 \<le> P" "P \<le> 9" "-10 \<le> Q" "Q \<le> 9"
  defines "t \<equiv> 16 * P + Q" and "n \<equiv> 10 * P + Q"
  shows "t < 0 \<longleftrightarrow> n < 0"
    and "(t - int (daa_correction True (Q < 0) (t < 0) a)) mod 256 = int (bcd (nat (n mod 100)))"
proof -
  define k where "k = (if Q < 0 then 1 else 0 :: int)"
  define m where "m = (if P - k < 0 then 1 else 0 :: int)"
  define e where "e = Q + 10 * k"
  define d where "d = P - k + 10 * m"
  have digits: "0 \<le> d" "d < 10" "0 \<le> e" "e < 10"
    using assms(1-4) by (auto simp: d_def e_def m_def k_def)
  have PQ: "Q = e - 10 * k" "P = d + k - 10 * m"
    by (auto simp: d_def e_def m_def k_def)
  have n: "n = 10 * d + e - 100 * m" and t: "t - (96 * m + 6 * k) = (16 * d + e) - 256 * m"
    using PQ by (simp_all add: n_def t_def)
  have m01: "m = 0 \<or> m = 1" and k01: "k = 0 \<or> k = 1"
    by (simp_all add: m_def k_def)
  have neg: "t < 0 \<longleftrightarrow> m = 1"
    using t digits m01 k01 by auto
  then show "t < 0 \<longleftrightarrow> n < 0"
    using n digits m01 by auto
  have correction: "int (daa_correction True (Q < 0) (t < 0) a) = 96 * m + 6 * k"
    using m01 by (auto simp: daa_correction_def daa_high_def daa_low_def neg k_def)
  have "n mod 100 = 10 * d + e"
    using digits m01 by (auto simp: n)
  then have "nat (n mod 100) = 10 * nat d + nat e"
    using digits by (simp add: nat_add_distrib nat_mult_distrib)
  then have "int (bcd (nat (n mod 100))) = 16 * d + e"
    using digits by (simp add: bcd_digits)
  moreover have "((16 * d + e) - 256 * m) mod 256 = 16 * d + e"
    using digits m01 by auto
  ultimately show "(t - int (daa_correction True (Q < 0) (t < 0) a)) mod 256 =
      int (bcd (nat (n mod 100)))"
    by (simp add: correction t)
qed

section \<open>Decimal addition and subtraction\<close>

text \<open>A byte that holds two decimal digits, read as a number.\<close>

lemma tens_digit: "x < 100 \<Longrightarrow> x div 10 \<le> (9 :: nat)"
  by (simp add: less_Suc_eq_le [symmetric] less_mult_imp_div_less)

lemma digit_differences:
  "(16 * a + b) - (16 * a' + b') - c = 16 * (a - a') + (b - b' - c)"
  "(10 * a + b) - (10 * a' + b') - c = 10 * (a - a') + (b - b' - c)" for a :: int
  by simp_all

lemma units_digit: "x mod 10 \<le> (9 :: nat)"
  by (simp add: less_Suc_eq_le [symmetric])

lemma DAA_after_ADC:
  assumes "r \<noteq> rF" and "x < 100" and "y < 100"
    and "unat (get8 s rA) = bcd x" and "unat (get8 s r) = bcd y"
  defines "t \<equiv> InstrDAA (InstrAddACarry8 r s)"
  shows "unat (get8 t rA) = bcd ((x + y + carry_in s) mod 100)"
    and "GetFlagC t \<longleftrightarrow> 100 \<le> x + y + carry_in s"
proof -
  define c where "c = carry_in s"
  define P where "P = x div 10 + y div 10"
  define Q where "Q = x mod 10 + y mod 10 + c"
  have c1: "c \<le> 1" by (simp add: c_def carry_in_def)
  have PQ: "P \<le> 18" "Q \<le> 19"
    using tens_digit [OF assms(2)] tens_digit [OF assms(3)] units_digit [of x] units_digit [of y] c1
    by (simp_all add: P_def Q_def)
  have sum: "bcd x + bcd y + c = 16 * P + Q" and n: "x + y + c = 10 * P + Q"
    by (simp_all add: bcd_def P_def Q_def)
  define u where "u = InstrAddACarry8 r s"
  have out: "alu_out u = add_spec (bcd x) (bcd y) c"
    using alu_AddACarry8 [OF assms(1), of s] by (simp add: u_def assms(4,5) c_def)
  have A: "get8 u rA = of_nat (16 * P + Q)" and N: "\<not> GetFlagN u"
    and H: "GetFlagH u \<longleftrightarrow> 16 \<le> Q" and C: "GetFlagC u \<longleftrightarrow> 256 \<le> 16 * P + Q"
    using out unfolding alu_out_def add_spec_def sum bcd_low Q_def [symmetric] by simp_all
  have A: "unat (get8 u rA) = (16 * P + Q) mod 256"
    unfolding A by (simp only: unat_of_nat) simp
  have t: "t = InstrDAA u" by (simp add: t_def u_def)
  show "GetFlagC t \<longleftrightarrow> 100 \<le> x + y + carry_in s"
    using daa_add(1) [OF PQ] InstrDAA_out(2) [of u]
    by (simp add: t A N C n c_def [symmetric])
  have "unat (get8 t rA) =
      ((16 * P + Q) mod 256 + daa_correction False (16 \<le> Q) (256 \<le> 16 * P + Q)
        ((16 * P + Q) mod 256)) mod 256"
    by (simp add: t InstrDAA_out(1) N A H C unat_word_ariths unat_of_nat mod_simps)
  then show "unat (get8 t rA) = bcd ((x + y + carry_in s) mod 100)"
    using daa_add(2) [OF PQ] by (simp add: mod_simps n c_def [symmetric])
qed

lemma DAA_after_SBC:
  assumes "r \<noteq> rF" and "x < 100" and "y < 100"
    and "unat (get8 s rA) = bcd x" and "unat (get8 s r) = bcd y"
  defines "t \<equiv> InstrDAA (InstrSubCarry8 r s)"
  shows "int (unat (get8 t rA)) = int (bcd (nat ((int x - int y - int (carry_in s)) mod 100)))"
    and "GetFlagC t \<longleftrightarrow> x < y + carry_in s"
proof -
  define c where "c = carry_in s"
  define P where "P = int (x div 10) - int (y div 10)"
  define Q where "Q = int (x mod 10) - int (y mod 10) - int c"
  have c1: "c \<le> 1" by (simp add: c_def carry_in_def)
  have PQ: "-9 \<le> P" "P \<le> 9" "-10 \<le> Q" "Q \<le> 9"
    using tens_digit [OF assms(2)] tens_digit [OF assms(3)] units_digit [of x] units_digit [of y] c1
    by (simp_all add: P_def Q_def del: zmod_int zdiv_int of_nat_div of_nat_mod)
  have tens: "int x = 10 * int (x div 10) + int (x mod 10)"
    "int y = 10 * int (y div 10) + int (y mod 10)"
    using mult_div_mod_eq [of 10 x] mult_div_mod_eq [of 10 y] by linarith+
  have diff: "int (bcd x) - int (bcd y) - int c = 16 * P + Q"
    and n: "int x - int y - int c = 10 * P + Q"
    by (simp_all only: bcd_def P_def Q_def of_nat_add of_nat_mult of_nat_numeral digit_differences)
      (simp_all only: tens digit_differences [symmetric])
  define u where "u = InstrSubCarry8 r s"
  have out: "alu_out u = sub_spec (bcd x) (bcd y) c"
    using alu_SubCarry8 [OF assms(1), of s] by (simp add: u_def assms(4,5) c_def)
  have A: "get8 u rA = of_int (16 * P + Q)" and N: "GetFlagN u"
    and H: "GetFlagH u \<longleftrightarrow> Q < 0" and C: "GetFlagC u \<longleftrightarrow> 16 * P + Q < 0"
  proof -
    have "GetFlagH u \<longleftrightarrow> x mod 10 < y mod 10 + c" and "GetFlagC u \<longleftrightarrow> bcd x < bcd y + c"
      and rest: "get8 u rA = of_int (16 * P + Q)" "GetFlagN u"
      using out unfolding alu_out_def sub_spec_def diff bcd_low prod.inject by blast+
    then show "GetFlagH u \<longleftrightarrow> Q < 0" "GetFlagC u \<longleftrightarrow> 16 * P + Q < 0"
      using diff unfolding Q_def by linarith+
    show "get8 u rA = of_int (16 * P + Q)" "GetFlagN u"
      by (fact rest)+
  qed
  have t: "t = InstrDAA u" by (simp add: t_def u_def)
  have neg: "10 * P + Q < 0 \<longleftrightarrow> x < y + c"
    using n by linarith
  show "GetFlagC t \<longleftrightarrow> x < y + carry_in s"
    using daa_sub(1) [OF PQ] InstrDAA_out(2) [of u]
    by (simp add: t N C neg daa_high_def c_def [symmetric])
  define k where "k = daa_correction True (Q < 0) (16 * P + Q < 0) (unat (get8 u rA))"
  have "get8 t rA = of_int (16 * P + Q - int k)"
    by (simp add: t InstrDAA_out(1) N H C k_def A)
  then have "uint (get8 t rA) = (16 * P + Q - int k) mod 256"
    by (simp only: uint_word_of_int) simp
  then show "int (unat (get8 t rA)) =
      int (bcd (nat ((int x - int y - int (carry_in s)) mod 100)))"
    using daa_sub(2) [OF PQ, of "unat (get8 u rA)"]
    by (simp only: k_def n [symmetric] c_def [symmetric] uint_nat [symmetric])
qed

end
