(* ===== verification/Cpu_Shift.thy ===== *)
theory Cpu_Shift
  imports Cpu_Alu
begin

text \<open>
  The rotations and shifts: the rotations through eight bits are inverse to each other, those through
  the carry are rotations of nine bits, and the arithmetic shifts double and halve.
\<close>

section \<open>Bytes\<close>

definition rot_left :: "u8 \<Rightarrow> u8" where
  "rot_left w = push_bit 1 w OR drop_bit 7 w"

definition rot_right :: "u8 \<Rightarrow> u8" where
  "rot_right w = drop_bit 1 w OR push_bit 7 w"

text \<open>Rotations by one, bit by bit.\<close>

lemma bit_rot_left [simp]:
  "bit (rot_left w) 0 = bit w 7" "bit (rot_left w) 1 = bit w 0" "bit (rot_left w) 2 = bit w 1"
  "bit (rot_left w) 3 = bit w 2" "bit (rot_left w) 4 = bit w 3" "bit (rot_left w) 5 = bit w 4"
  "bit (rot_left w) 6 = bit w 5" "bit (rot_left w) 7 = bit w 6"
  unfolding rot_left_def
  by (simp_all add: bit_simps del: push_bit_Suc drop_bit_Suc One_nat_def) (auto dest: bit_imp_le_length)

lemma bit_rot_right [simp]:
  "bit (rot_right w) 0 = bit w 1" "bit (rot_right w) 1 = bit w 2" "bit (rot_right w) 2 = bit w 3"
  "bit (rot_right w) 3 = bit w 4" "bit (rot_right w) 4 = bit w 5" "bit (rot_right w) 5 = bit w 6"
  "bit (rot_right w) 6 = bit w 7" "bit (rot_right w) 7 = bit w 0"
  unfolding rot_right_def
  by (simp_all add: bit_simps del: push_bit_Suc drop_bit_Suc One_nat_def) (auto dest: bit_imp_le_length)

lemma rot_left_right: "rot_right (rot_left w) = w" "rot_left (rot_right w) = w"
  by (simp_all only: u8_eq_iff_bits bit_rot_left bit_rot_right simp_thms)

lemma rot_zero_iff: "rot_left w = 0 \<longleftrightarrow> w = 0" "rot_right w = 0 \<longleftrightarrow> w = 0"
proof -
  have "rot_left 0 = 0" "rot_right 0 = 0"
    by (simp_all add: rot_left_def rot_right_def)
  then show "rot_left w = 0 \<longleftrightarrow> w = 0" "rot_right w = 0 \<longleftrightarrow> w = 0"
    by (metis rot_left_right)+
qed

lemma mask_tests:
  "(w :: u8) AND 0x01 \<noteq> 0 \<longleftrightarrow> bit w 0" "w AND 0x80 \<noteq> 0 \<longleftrightarrow> bit w 7"
  "w AND kMaskBit0 \<noteq> 0 \<longleftrightarrow> bit w 0" "w AND kMaskBit7 \<noteq> 0 \<longleftrightarrow> bit w 7"
  "w AND 0x01 = 0 \<longleftrightarrow> \<not> bit w 0" "w AND 0x80 = 0 \<longleftrightarrow> \<not> bit w 7"
  by (simp_all add: u8_eq_iff_bits bit_simps kMaskBit0_def kMaskBit7_def)

lemma mask_bit0_and_1: "w AND kMaskBit0 = w AND 0x01" and mask_bit7_and_0x80: "w AND kMaskBit7 = w AND 0x80"
  by (simp_all add: kMaskBit0_def kMaskBit7_def)

lemma bit_unat: "bit (unat (w :: u8)) n \<longleftrightarrow> n < 8 \<and> bit w n"
  by (auto simp: bit_unsigned_iff dest: bit_imp_le_length)

lemma bit_0_iff_odd: "bit (w :: u8) 0 \<longleftrightarrow> odd (unat w)"
  using bit_unat [of w 0] by (simp add: bit_0)

lemma unat_drop_bit_1: "unat (drop_bit 1 w :: u8) = unat w div 2"
  by (simp only: drop_bit_eq_div power_one_right) (simp add: unat_div)

lemma unat_push_bit_1: "unat (push_bit 1 w :: u8) = 2 * unat w mod 256"
  by (simp add: unat_word_ariths mult.commute)

lemma bit_7_iff: "bit (w :: u8) 7 \<longleftrightarrow> 128 \<le> unat w"
proof -
  have "bit w 7 \<longleftrightarrow> bit (unat w) 7"
    by (simp add: bit_unat)
  also have "\<dots> \<longleftrightarrow> odd (unat w div 128)"
    by (simp add: bit_iff_odd)
  also have "unat w div 128 = (if 128 \<le> unat w then 1 else 0)"
    using unat_u8_less [of w] by (simp add: div_nat_eqI)
  finally show ?thesis by simp
qed

lemma sint_u8: "sint (w :: u8) = int (unat w) - (if bit w 7 then 256 else 0)"
proof -
  have "sint w = signed_take_bit 7 (uint w)"
    by (simp add: sint_uint)
  also have "\<dots> = take_bit 8 (uint w) - 256 * of_bool (bit (uint w) 7)"
    using signed_take_bit_eq_take_bit_minus [of 7 "uint w"] by simp
  also have "take_bit 8 (uint w) = uint w"
    using uint_u8_bounds [of w] by (simp add: take_bit_int_eq_self)
  also have "bit (uint w) 7 \<longleftrightarrow> bit w 7"
    by (auto simp: bit_unsigned_iff)
  finally show ?thesis
    unfolding uint_nat by (cases "bit w 7") simp_all
qed

text \<open>Rotations through the carry: the new byte from the byte and the carry that comes in.\<close>

definition rotc_left :: "bool \<Rightarrow> u8 \<Rightarrow> u8" where
  "rotc_left c w = push_bit 1 w OR (if c then 1 else 0)"

definition rotc_right :: "bool \<Rightarrow> u8 \<Rightarrow> u8" where
  "rotc_right c w = drop_bit 1 w OR (if c then 0x80 else 0)"

definition swap_nibbles :: "u8 \<Rightarrow> u8" where
  "swap_nibbles w = push_bit 4 w OR drop_bit 4 w"

definition shift_right_arith :: "u8 \<Rightarrow> u8" where
  "shift_right_arith w = drop_bit 1 w OR (w AND kMaskBit7)"

lemma bit_rotc_left [simp]:
  "bit (rotc_left c w) 0 = c" "bit (rotc_left c w) 1 = bit w 0" "bit (rotc_left c w) 2 = bit w 1"
  "bit (rotc_left c w) 3 = bit w 2" "bit (rotc_left c w) 4 = bit w 3"
  "bit (rotc_left c w) 5 = bit w 4" "bit (rotc_left c w) 6 = bit w 5"
  "bit (rotc_left c w) 7 = bit w 6"
  unfolding rotc_left_def
  by (simp_all add: bit_simps del: push_bit_Suc drop_bit_Suc One_nat_def) simp

lemma bit_rotc_right [simp]:
  "bit (rotc_right c w) 0 = bit w 1" "bit (rotc_right c w) 1 = bit w 2"
  "bit (rotc_right c w) 2 = bit w 3" "bit (rotc_right c w) 3 = bit w 4"
  "bit (rotc_right c w) 4 = bit w 5" "bit (rotc_right c w) 5 = bit w 6"
  "bit (rotc_right c w) 6 = bit w 7" "bit (rotc_right c w) 7 = c"
  unfolding rotc_right_def
  by (simp_all add: bit_simps del: push_bit_Suc drop_bit_Suc One_nat_def)
    (auto dest: bit_imp_le_length)

lemma rotc_left_right:
  "rotc_right (bit w 7) (rotc_left c w) = w" "rotc_left (bit w 0) (rotc_right c w) = w"
  by (simp_all only: u8_eq_iff_bits bit_rotc_left bit_rotc_right simp_thms)

lemma swap_swap: "swap_nibbles (swap_nibbles w) = w"
  unfolding swap_nibbles_def
  by (simp add: u8_eq_iff_bits bit_simps)

lemma shift_right_arith_sint: "sint (shift_right_arith w) = sint w div 2"
proof -
  have bits: "bit (shift_right_arith w) 7 = bit w 7"
    unfolding shift_right_arith_def kMaskBit7_def
    by (simp add: bit_simps del: drop_bit_Suc One_nat_def) (auto dest: bit_imp_le_length)
  have "w AND kMaskBit7 = (if bit w 7 then 128 else 0)"
    unfolding kMaskBit7_def by (auto simp: u8_eq_iff_bits bit_simps)
  moreover have "drop_bit 1 w OR 128 = drop_bit 1 w + 128"
  proof (rule disjunctive_add [symmetric])
    fix n
    have "n < 8 \<Longrightarrow> bit (128 :: u8) n \<Longrightarrow> n = 7"
      by (auto simp: less_eight_cases)
    then show "\<not> bit (drop_bit 1 w) n \<or> \<not> bit (128 :: u8) n"
      using bit_imp_le_length [of w "Suc n"] by (auto simp: bit_simps)
  qed
  moreover have "unat (drop_bit 1 w + 128) = unat w div 2 + 128"
    using unat_u8_less [of w] by (simp only: unat_add_u8 unat_drop_bit_1) simp
  ultimately have "unat (shift_right_arith w) = unat w div 2 + (if bit w 7 then 128 else 0)"
    unfolding shift_right_arith_def by (simp add: unat_drop_bit_1 [simplified])
  then show ?thesis
    unfolding sint_u8 bits by (cases "bit w 7") (simp_all add: zdiv_int)
qed

section \<open>The instructions\<close>

lemma rlc_out:
  assumes "r \<noteq> rF"
  shows "get8 (InstrRlc8 r s) r = rot_left (get8 s r)"
    and "GetFlagC (InstrRlc8 r s) \<longleftrightarrow> bit (get8 s r) 7"
    and "GetFlagZ (InstrRlc8 r s) \<longleftrightarrow> get8 s r = 0"
    and "\<not> GetFlagN (InstrRlc8 r s)" "\<not> GetFlagH (InstrRlc8 r s)"
  using assms
  unfolding InstrRlc8_def Let_def rot_left_def [symmetric]
  by (simp_all add: flag_simps rot_zero_iff mask_tests)

lemma rrc_out:
  assumes "r \<noteq> rF"
  shows "get8 (InstrRrc8 r s) r = rot_right (get8 s r)"
    and "GetFlagC (InstrRrc8 r s) \<longleftrightarrow> bit (get8 s r) 0"
    and "GetFlagZ (InstrRrc8 r s) \<longleftrightarrow> get8 s r = 0"
    and "\<not> GetFlagN (InstrRrc8 r s)" "\<not> GetFlagH (InstrRrc8 r s)"
  using assms
  unfolding InstrRrc8_def Let_def rot_right_def [symmetric]
  by (simp_all add: flag_simps rot_zero_iff mask_tests)

lemma rl_out:
  assumes "r \<noteq> rF"
  shows "get8 (InstrRotLeft8 r s) r = rotc_left (GetFlagC s) (get8 s r)"
    and "GetFlagC (InstrRotLeft8 r s) \<longleftrightarrow> bit (get8 s r) 7"
  using assms
  unfolding InstrRotLeft8_def Let_def
  by (simp_all add: flag_simps mask_tests rotc_left_def del: push_bit_Suc)

lemma rr_out:
  assumes "r \<noteq> rF"
  shows "get8 (InstrRotRight8 r s) r = rotc_right (GetFlagC s) (get8 s r)"
    and "GetFlagC (InstrRotRight8 r s) \<longleftrightarrow> bit (get8 s r) 0"
  using assms
  unfolding InstrRotRight8_def Let_def
  by (simp_all add: flag_simps mask_tests rotc_right_def)

lemma swap_out: "r \<noteq> rF \<Longrightarrow> get8 (InstrSwap8 r s) r = swap_nibbles (get8 s r)"
  unfolding InstrSwap8_def Let_def swap_nibbles_def [symmetric] by (simp add: flag_simps)

lemma sra_out:
  assumes "r \<noteq> rF"
  shows "get8 (InstrSRA8 r s) r = shift_right_arith (get8 s r)"
    and "GetFlagC (InstrSRA8 r s) \<longleftrightarrow> odd (unat (get8 s r))"
  using assms
  unfolding InstrSRA8_def Let_def shift_right_arith_def [symmetric]
  by (simp_all add: flag_simps mask_tests bit_0_iff_odd [symmetric])

lemma srl_out:
  assumes "r \<noteq> rF"
  shows "unat (get8 (InstrShiftRight8 r s) r) = unat (get8 s r) div 2"
    and "GetFlagC (InstrShiftRight8 r s) \<longleftrightarrow> odd (unat (get8 s r))"
  using assms
  unfolding InstrShiftRight8_def Let_def
  by (simp_all add: flag_simps mask_tests bit_0_iff_odd [symmetric] unat_drop_bit_1 [simplified])

lemma sla_out:
  assumes "r \<noteq> rF"
  shows "unat (get8 (InstrSLA8 r s) r) = 2 * unat (get8 s r) mod 256"
    and "GetFlagC (InstrSLA8 r s) \<longleftrightarrow> 256 \<le> 2 * unat (get8 s r)"
  using assms unat_push_bit_1 [of "get8 s r"]
  unfolding InstrSLA8_def Let_def
  by (simp_all add: flag_simps mask_tests bit_7_iff)

end
