(* ===== verification/Cpu_Timing.thy ===== *)
theory Cpu_Timing
  imports Cpu_Decode
begin

text \<open>
  The time an instruction leaves in \<^verbatim>\<open>wait_ns_\<close>, against the clock cycles documented for the SM83.
\<close>

section \<open>The time of a handler\<close>

text \<open>\<open>takes ns\<close>: the time is one of the clock cycles \<open>ns\<close>; an empty list leaves it open.\<close>

definition takes :: "nat list \<Rightarrow> 'm cpu \<Rightarrow> 'm cpu \<Rightarrow> bool" where
  "takes ns s t \<longleftrightarrow> ns = [] \<or> wait_ns t \<in> (\<lambda>n. n * kNsPerClkCycle) ` set ns"

named_theorems timings \<open>the time of the handlers\<close>

lemma takes_4 [timings]:
  "effect (takes [4]) (ok InstrNop)"
  "effect (takes [4]) (ok (InstrInc8 r))"
  "effect (takes [4]) (ok InstrRlca)"
  "effect (takes [4]) (ok InstrRrca)"
  "effect (takes [4]) (ok InstrRra)"
  "effect (takes [4]) (ok (InstrAddA8 r))"
  "effect (takes [4]) (ok (InstrAddACarry8 r))"
  "effect (takes [4]) (ok (InstrSub8 r))"
  "effect (takes [4]) (ok (InstrSubCarry8 r))"
  "effect (takes [4]) (ok (InstrComp8 r))"
  "effect (takes [4]) (ok (InstrDec8 r))"
  "effect (takes [4]) (ok (InstrXor8 r))"
  "effect (takes [4]) (ok (InstrAnd8 r))"
  "effect (takes [4]) (ok (InstrOr8 r))"
  "effect (takes [4]) (ok (InstrJump16 q))"
  "effect (takes [4]) (ok (InstrMov r r'))"
  "effect (takes [4]) (ok InstrRotLeftA)"
  "effect (takes [4]) (ok InstrDI)"
  "effect (takes [4]) (ok InstrEI)"
  "effect (takes [4]) (ok InstrComplement)"
  "effect (takes [4]) (ok InstrDAA)"
  "effect (takes [4]) (ok InstrSCF)"
  "effect (takes [4]) (ok InstrCCF)"
  by (auto simp: effect_def ok_def instr_defs Let_def takes_def intro!: effect_rules)

lemma takes_8 [timings]:
  "effect (takes [8]) (InstrLoad16 sk r q)"
  "effect (takes [8]) (InstrLoadImm8 sk r)"
  "effect (takes [8]) (InstrLoadInc sk r q)"
  "effect (takes [8]) (InstrLoadDec sk q r)"
  "effect (takes [8]) (InstrStoreInc sk q v)"
  "effect (takes [8]) (InstrStoreDec sk q v)"
  "effect (takes [8]) (InstrStore16 sk q r)"
  "effect (takes [8]) (InstrStore_u8 sk v r)"
  "effect (takes [8]) (ok InstrLoadSpHl)"
  "effect (takes [8]) (ok (InstrInc16 q))"
  "effect (takes [8]) (ok (InstrRlc8 r))"
  "effect (takes [8]) (ok (InstrRrc8 r))"
  "effect (takes [8]) (ok (InstrAddHl q))"
  "effect (takes [8]) (InstrAddA16 sk q)"
  "effect (takes [8]) (InstrAddAImm sk)"
  "effect (takes [8]) (InstrAddACarry16 sk q)"
  "effect (takes [8]) (InstrAddACarryImm sk)"
  "effect (takes [8]) (InstrSubImm sk)"
  "effect (takes [8]) (InstrSub16 sk q)"
  "effect (takes [8]) (InstrSubCarry16 sk q)"
  "effect (takes [8]) (InstrSubCarryImm sk)"
  "effect (takes [8]) (InstrComp16 sk q)"
  "effect (takes [8]) (InstrCompImm sk)"
  "effect (takes [8]) (ok (InstrDec16 q))"
  "effect (takes [8]) (InstrXor16 sk q)"
  "effect (takes [8]) (InstrXorImm sk)"
  "effect (takes [8]) (InstrAnd16 sk q)"
  "effect (takes [8]) (InstrAndImm sk)"
  "effect (takes [8]) (InstrOr16 sk q)"
  "effect (takes [8]) (InstrOrImm sk)"
  "effect (takes [8]) (ok (InstrBitN8 i r))"
  "effect (takes [8]) (ok (InstrSetBitN8 i r))"
  "effect (takes [8]) (ok (InstrRotLeft8 r))"
  "effect (takes [8]) (ok (InstrRotRight8 r))"
  "effect (takes [8]) (ok (InstrShiftRight8 r))"
  "effect (takes [8]) (ok (InstrSwap8 r))"
  "effect (takes [8]) (ok (InstrResetBit8 i r))"
  "effect (takes [8]) (ok (InstrSLA8 r))"
  "effect (takes [8]) (ok (InstrSRA8 r))"
  "effect (takes [8]) (InstrLoadC sk)"
  by (auto simp: effect_def ok_def instr_defs Let_def takes_def intro!: effect_rules)

lemma takes_8_12 [timings]:
  "effect (takes [8, 12]) (InstrJumpIf sk b)"
  by (auto simp: effect_def ok_def instr_defs Let_def takes_def intro!: effect_rules)

lemma takes_8_20 [timings]:
  "effect (takes [8, 20]) (InstrRetIf sk b)"
  by (auto simp: effect_def ok_def instr_defs Let_def takes_def intro!: effect_rules)

lemma takes_12 [timings]:
  "effect (takes [12]) (InstrLoadImm16 sk q)"
  "effect (takes [12]) (InstrStoreImm sk q)"
  "effect (takes [12]) (InstrStoreH sk r)"
  "effect (takes [12]) (InstrLoadH sk r)"
  "effect (takes [12]) (InstrLoadHlSpRel sk)"
  "effect (takes [12]) (InstrIncAddr sk q)"
  "effect (takes [12]) (InstrDecAddr sk q)"
  "effect (takes [12]) (InstrJump sk)"
  "effect (takes [12]) (InstrBitN16 sk i q)"
  "effect (takes [12]) (InstrPop sk q)"
  by (auto simp: effect_def ok_def instr_defs Let_def takes_def intro!: effect_rules)

lemma takes_12_16 [timings]:
  "effect (takes [12, 16]) (InstrJumpAddrIf sk b)"
  by (auto simp: effect_def ok_def instr_defs Let_def takes_def intro!: effect_rules)

lemma takes_12_24 [timings]:
  "effect (takes [12, 24]) (InstrCallIf sk b)"
  by (auto simp: effect_def ok_def instr_defs Let_def takes_def intro!: effect_rules)

lemma takes_16 [timings]:
  "effect (takes [16]) (InstrLoad_addr sk r a)"
  "effect (takes [16]) (InstrStore8 sk r)"
  "effect (takes [16]) (InstrRlc16 sk q)"
  "effect (takes [16]) (InstrRrc16 sk q)"
  "effect (takes [16]) (InstrAddSp sk)"
  "effect (takes [16]) (InstrJumpAddr sk)"
  "effect (takes [16]) (InstrSetBitN16 sk i q)"
  "effect (takes [16]) (InstrRet sk)"
  "effect (takes [16]) (InstrRetI sk)"
  "effect (takes [16]) (InstrPush sk q)"
  "effect (takes [16]) (InstrRotLeft16 sk q)"
  "effect (takes [16]) (InstrRotRight16 sk q)"
  "effect (takes [16]) (InstrShiftRight16 sk q)"
  "effect (takes [16]) (InstrSwap16 sk q)"
  "effect (takes [16]) (InstrRST sk v)"
  "effect (takes [16]) (InstrResetBit16 sk i q)"
  "effect (takes [16]) (InstrSLA16 sk q)"
  "effect (takes [16]) (InstrSRA16 sk q)"
  by (auto simp: effect_def ok_def instr_defs Let_def takes_def intro!: effect_rules)

lemma takes_20 [timings]:
  "effect (takes [20]) (InstrStoreSp sk)"
  by (auto simp: effect_def ok_def instr_defs Let_def takes_def intro!: effect_rules)

lemma takes_24 [timings]:
  "effect (takes [24]) (InstrCall sk)"
  by (auto simp: effect_def ok_def instr_defs Let_def takes_def intro!: effect_rules)

lemma takes_open [timings]: "effect (takes []) h"
  by (simp add: effect_def takes_def returns_withI)

lemma takes_conditional [timings]:
  "effect (takes [8, 12]) (\<lambda>s. InstrJumpIf sk (c s) s)"
  "effect (takes [12, 16]) (\<lambda>s. InstrJumpAddrIf sk (c s) s)"
  "effect (takes [12, 24]) (\<lambda>s. InstrCallIf sk (c s) s)"
  "effect (takes [8, 20]) (\<lambda>s. InstrRetIf sk (c s) s)"
  "effect (takes [8]) (\<lambda>s. InstrStoreInc sk q (w s) s)"
  "effect (takes [8]) (\<lambda>s. InstrStoreDec sk q (w s) s)"
  "effect (takes [8]) (\<lambda>s. InstrStore_u8 sk (w s) r s)"
  "effect (takes [16]) (\<lambda>s. rbind (FetchNext2InstrBytes sk s)
     (\<lambda>(addr, s). InstrLoad_addr sk rA addr s))"
  by (auto simp: effect_def instr_defs Let_def takes_def intro!: effect_rules)

section \<open>The documented times\<close>

text \<open>
  Clock cycles per opcode, row by row; a conditional instruction has the time for the condition false
  and for the condition true. An empty entry: STOP, HALT (which waits by itself), the prefix, the
  semihosting opcode and the undefined opcodes.
\<close>

definition documented_cycles :: "nat list list list" where
  "documented_cycles =
     [[[4], [12], [8], [8], [4], [4], [8], [4], [20], [8], [8], [8], [4], [4], [8], [4]],
      [[], [12], [8], [8], [4], [4], [8], [4], [12], [8], [8], [8], [4], [4], [8], [4]],
      [[8, 12], [12], [8], [8], [4], [4], [8], [4], [8, 12], [8], [8], [8], [4], [4], [8], [4]],
      [[8, 12], [12], [8], [8], [12], [12], [12], [4], [8, 12], [8], [8], [8], [4], [4], [8], [4]],
      [[4], [4], [4], [4], [4], [4], [8], [4], [4], [4], [4], [4], [4], [4], [8], [4]],
      [[4], [4], [4], [4], [4], [4], [8], [4], [4], [4], [4], [4], [4], [4], [8], [4]],
      [[4], [4], [4], [4], [4], [4], [8], [4], [4], [4], [4], [4], [4], [4], [8], [4]],
      [[8], [8], [8], [8], [8], [8], [], [8], [4], [4], [4], [4], [4], [4], [8], [4]],
      [[4], [4], [4], [4], [4], [4], [8], [4], [4], [4], [4], [4], [4], [4], [8], [4]],
      [[4], [4], [4], [4], [4], [4], [8], [4], [4], [4], [4], [4], [4], [4], [8], [4]],
      [[4], [4], [4], [4], [4], [4], [8], [4], [4], [4], [4], [4], [4], [4], [8], [4]],
      [[4], [4], [4], [4], [4], [4], [8], [4], [4], [4], [4], [4], [4], [4], [8], [4]],
      [[8, 20], [12], [12, 16], [16], [12, 24], [16], [8], [16],
       [8, 20], [16], [12, 16], [], [12, 24], [24], [8], [16]],
      [[8, 20], [12], [12, 16], [], [12, 24], [16], [8], [16],
       [8, 20], [16], [12, 16], [], [12, 24], [], [8], [16]],
      [[12], [12], [8], [], [], [16], [8], [16], [16], [4], [16], [], [], [], [8], [16]],
      [[12], [12], [8], [4], [], [16], [8], [16], [12], [8], [16], [4], [], [], [8], [16]]]"

definition cycles_of :: "u8 \<Rightarrow> nat list" where
  "cycles_of op = documented_cycles ! (unat op div 16) ! (unat op mod 16)"

text \<open>After the prefix: 8 cycles on a register, 16 on memory, 12 for the bit tests of memory.\<close>

definition cb_cycles_of :: "nat \<Rightarrow> nat list" where
  "cb_cycles_of op =
     (if op mod 8 \<noteq> 6 then [8] else if op div 64 = 1 then [12] else [16])"

lemma takes_main_rows:
  "list_all2 (list_all2 (\<lambda>ns. effect (takes ns))) documented_cycles (main_rows sk)"
  unfolding documented_cycles_def main_rows_def list_all2_Cons list_all2_Nil
  by (intro conjI TrueI) (simp_all only: row_defs list_all2_Cons list_all2_Nil timings simp_thms)

lemma takes_execute:
  fixes sk :: "'m socket"
  shows "effect (takes (cycles_of op)) (execute sk op)"
proof -
  note rows = takes_main_rows [of sk]
  have "unat op div 16 < length documented_cycles"
    using list_all2_lengthD [OF rows] main_rows_size(1) [of sk] unat_u8_div_16 [of op] by simp
  moreover from this have "unat op mod 16 < length (documented_cycles ! (unat op div 16))"
    using rows main_rows_size [of sk] unat_u8_div_16 [of op]
    by (simp add: list_all2_conv_all_nth list_all_length)
  ultimately show ?thesis
    using rows
    by (simp add: list_all2_conv_all_nth cycles_of_def execute_def [abs_def]
        lookup_handler_def [abs_def])
qed

lemma less_8_cases: "i < 8 \<longleftrightarrow> i \<in> {0, 1, 2, 3, 4, 5, 6, 7::nat}"
  by (simp, presburger)

lemma operand_memory: "operand f g 6 = g"
  by (simp add: operand_def reg_code_def)

lemma operand_register:
  "i < 8 \<Longrightarrow> i \<noteq> 6 \<Longrightarrow> (\<And>r. effect R (f r)) \<Longrightarrow> effect R (operand f g i)"
  by (auto simp: less_8_cases operand_def reg_code_def)

lemma takes_cb_decode:
  fixes sk :: "'m socket"
  shows "effect (takes (cb_cycles_of op)) (cb_decode sk op)"
proof -
  define z where "z = op mod 8"
  define y where "y = op div 8 mod 8"
  have z: "z < 8" by (simp add: z_def)
  have "y < 8" by (simp add: y_def)
  then have "effect (takes [8]) (ok (rot_reg y r) :: 'm handler)" for r
    unfolding less_8_cases by (auto simp: rot_reg_def timings)
  moreover have "effect (takes [16]) (rot_mem y sk rHL)"
    using \<open>y < 8\<close> unfolding less_8_cases by (auto simp: rot_mem_def timings)
  ultimately show ?thesis
    by (cases "z = 6")
      (simp_all add: cb_decode_def cb_cycles_of_def Let_def z_def [symmetric] y_def [symmetric]
        timings operand_memory operand_register z)
qed

end
