(* ===== verification/Cpu_Properties.thy ===== *)
theory Cpu_Properties
  imports Cpu_Bcd Cpu_Shift Cpu_Timing Cpu_Errors
begin

text \<open>
  The properties of the CPU by itself: the opcode table, arithmetic, rotations, times, what no
  instruction touches, and HALT. The witnesses run on the test bench of \<^verbatim>\<open>tests/test_cpu.cpp\<close>, a
  memory full of zeros.
\<close>

definition bench_cpu :: "GenericMemory cpu" where
  "bench_cpu = put16 rSP 0xD000 (new_cpu False testbench_memory)"

lemma bench_cpu_sys [simp]: "sys bench_cpu = testbench_memory"
  by (simp add: bench_cpu_def new_cpu_def)

lemma bench_flags [simp]: "\<not> intr_master_enable bench_cpu" "\<not> halted bench_cpu"
  by (simp_all add: bench_cpu_def new_cpu_def)

lemma bench_nop: "execute testbench_socket 0 = ok InstrNop"
  by (simp add: execute_def lookup_handler_def main_rows_def row_0x0_def)

lemma bench_good [simp]: "tb_good testbench_memory"
  by (simp add: tb_good_def testbench_memory_def new_memory_def)

lemma bench_get8 [simp]:
  "get8 bench_cpu r = (if r = rSPmsb then 0xD0 else 0)"
  by (cases r) (simp_all add: bench_cpu_def new_cpu_def get8_def put16_def dat_init_def set16_def
      val8_def hi8_def lo8_def)

lemma bench_get16 [simp]: "get16 bench_cpu q = (if q = rSP then 0xD000 else 0)"
  by (cases q) (simp_all add: get16_eq_make16 make16_def)

lemma bench_fetch: "\<exists>t. FetchNextInstrByte testbench_socket bench_cpu = Inr (0, t)"
  by (simp add: FetchNextInstrByte_def ReadBus_def testbench_memory_def new_memory_def)

section \<open>Decoding\<close>

text \<open>
  C5. The two opcode tables, 501 entries typed out one by one, are the instruction encoding of the
  SM83: the entry of an opcode is the one its bit fields (operation, register, register pair,
  condition) select, for the opcodes without a prefix and for those after 0xCB.
\<close>

theorem Opcode_tables_decode:
  "execute sk op = decode sk (unat op) \<and> lookup_handler (cb_rows sk) op = cb_decode sk (unat op)"
  by (simp add: execute_eq_decode lookup_cb_decode)

text \<open>
  On a system that keeps its invariant (here the test bench) the opcodes that end the simulation
  as unknown are exactly the ten undefined ones of the SM83, less 0xD3 which is used for
  semihosting; the only opcode reported as not implemented is STOP.
\<close>

lemma Undefined_opcodes_exactly:
  assumes "tb_good (sys s)"
  shows "(execute testbench_socket op s = Inl (UnknownInstruction v) \<longleftrightarrow>
      v = op \<and> op \<in> {0xDB, 0xDD, 0xE3, 0xE4, 0xEB, 0xEC, 0xED, 0xF4, 0xFC, 0xFD}) \<and>
    (execute testbench_socket op s = Inl (NotImplemented v) \<longleftrightarrow> v = op \<and> op = 0x10)"
proof -
  have "entry_safe tb_good (cpu_errors {}) op (execute testbench_socket op)"
    by (rule tb_safe.execute_entry_safe)
  then show ?thesis
    using assms
    by (cases "execute testbench_socket op s")
      (auto simp: entry_safe_def undefined_opcodes_def safe_def cpu_errors_def safe_res_def
        split: if_splits)
qed

section \<open>Arithmetic\<close>

text \<open>
  C10. ADD, ADC, SUB, SBC and CP on a register leave in A and in the four flags what the operation on
  natural numbers gives: the sum or difference modulo 256, Z for a zero result, N for a subtraction,
  H for a carry or borrow out of the lower nibble, C for one out of the byte. CP leaves A alone.
\<close>

theorem Alu_register:
  assumes "r \<noteq> rF"
  shows "alu_out (InstrAddA8 r s) = add_spec (unat (get8 s rA)) (unat (get8 s r)) 0 \<and>
    alu_out (InstrAddACarry8 r s) =
      add_spec (unat (get8 s rA)) (unat (get8 s r)) (of_bool (GetFlagC s)) \<and>
    alu_out (InstrSub8 r s) = sub_spec (unat (get8 s rA)) (unat (get8 s r)) 0 \<and>
    alu_out (InstrSubCarry8 r s) =
      sub_spec (unat (get8 s rA)) (unat (get8 s r)) (of_bool (GetFlagC s)) \<and>
    alu_out (InstrComp8 r s) = (get8 s rA, snd (sub_spec (unat (get8 s rA)) (unat (get8 s r)) 0))"
  using alu_AddA8 [OF assms, of s] alu_AddACarry8 [OF assms, of s] alu_Sub8 [OF assms, of s]
    alu_SubCarry8 [OF assms, of s] alu_Comp8 [OF assms, of s]
  by (simp add: carry_in_def)

lemma Alu_register_witness:
  "alu_out (InstrSub8 rB (put8 rB 1 bench_cpu)) = (255, False, True, True, True)"
  using Alu_register [of rB "put8 rB 1 bench_cpu"] by (simp add: sub_spec_def flag_simps)

text \<open>
  The forms of these operations with a memory operand and with an immediate operand compute the
  same function of A, the operand and the carry as the register forms.
\<close>

lemma Alu_operands:
  assumes "ReadBus sk (get16 s q) kGbReadData s = Inr (v, t)"
    and "FetchNextInstrByte sk s = Inr (i, u)"
  shows "map_sum id alu_out (InstrAddA16 sk q s) = Inr (add_spec (unat (get8 s rA)) (unat v) 0) \<and>
    map_sum id alu_out (InstrAddACarry16 sk q s) =
      Inr (add_spec (unat (get8 s rA)) (unat v) (of_bool (GetFlagC s))) \<and>
    map_sum id alu_out (InstrSub16 sk q s) = Inr (sub_spec (unat (get8 s rA)) (unat v) 0) \<and>
    map_sum id alu_out (InstrSubCarry16 sk q s) =
      Inr (sub_spec (unat (get8 s rA)) (unat v) (of_bool (GetFlagC s))) \<and>
    map_sum id alu_out (InstrComp16 sk q s) =
      Inr (get8 s rA, snd (sub_spec (unat (get8 s rA)) (unat v) 0)) \<and>
    map_sum id alu_out (InstrAddAImm sk s) = Inr (add_spec (unat (get8 s rA)) (unat i) 0) \<and>
    map_sum id alu_out (InstrAddACarryImm sk s) =
      Inr (add_spec (unat (get8 s rA)) (unat i) (of_bool (GetFlagC s))) \<and>
    map_sum id alu_out (InstrSubImm sk s) = Inr (sub_spec (unat (get8 s rA)) (unat i) 0) \<and>
    map_sum id alu_out (InstrSubCarryImm sk s) =
      Inr (sub_spec (unat (get8 s rA)) (unat i) (of_bool (GetFlagC s))) \<and>
    map_sum id alu_out (InstrCompImm sk s) =
      Inr (get8 s rA, snd (sub_spec (unat (get8 s rA)) (unat i) 0))"
  using alu_memory_forms [OF assms(1)] alu_immediate_forms [OF assms(2)]
  by (simp add: carry_in_def)

text \<open>
  C11. Decimal arithmetic: after ADC (after SBC) of two packed decimal numbers DAA leaves the packed
  decimal sum (difference) modulo 100 in A and the decimal carry (borrow) in C.
\<close>

theorem Daa_decimal:
  assumes "r \<noteq> rF" and "x < 100" and "y < 100"
    and "unat (get8 s rA) = bcd x" and "unat (get8 s r) = bcd y"
  shows "unat (get8 (InstrDAA (InstrAddACarry8 r s)) rA) =
      bcd ((x + y + of_bool (GetFlagC s)) mod 100) \<and>
    (GetFlagC (InstrDAA (InstrAddACarry8 r s)) \<longleftrightarrow> 100 \<le> x + y + of_bool (GetFlagC s)) \<and>
    unat (get8 (InstrDAA (InstrSubCarry8 r s)) rA) =
      bcd (nat ((int x - int y - of_bool (GetFlagC s)) mod 100)) \<and>
    (GetFlagC (InstrDAA (InstrSubCarry8 r s)) \<longleftrightarrow> x < y + of_bool (GetFlagC s))"
  using DAA_after_ADC [OF assms] DAA_after_SBC [OF assms]
  unfolding carry_in_def of_nat_eq_iff of_nat_of_bool by blast

lemma Daa_decimal_witness:
  "unat (get8 (InstrDAA (InstrAddACarry8 rB (put8 rB 0x27 (put8 rA 0x15 bench_cpu)))) rA) = 0x42 \<and>
   unat (get8 (InstrDAA (InstrSubCarry8 rB (put8 rB 0x27 (put8 rA 0x15 bench_cpu)))) rA) = 0x88"
  using Daa_decimal [of rB 15 27 "put8 rB 0x27 (put8 rA 0x15 bench_cpu)"]
  by (simp add: flag_simps bcd_def GetFlag_iff_bit)



section \<open>Time\<close>

text \<open>
  C12. Every instruction that returns takes the number of clock cycles documented for the SM83, in the
  conditional ones the shorter or the longer of two times, and after 0xCB 8 on a register, 16 on
  memory and 12 for a bit test of memory. (HALT, the prefix itself and the semihosting opcode have no
  entry.)
\<close>

theorem Documented_times:
  shows "(execute sk op s = Inr t \<longrightarrow> cycles_of op \<noteq> [] \<longrightarrow>
      (\<exists>n \<in> set (cycles_of op). wait_ns t = n * kNsPerClkCycle)) \<and>
    (lookup_handler (cb_rows sk) op s = Inr u \<longrightarrow>
      (\<exists>n \<in> set (cb_cycles_of (unat op)). wait_ns u = n * kNsPerClkCycle))"
proof -
  have "cb_cycles_of (unat op) \<noteq> []" by (simp add: cb_cycles_of_def)
  then show ?thesis
    using effectD [OF takes_execute [of op sk]] effectD [OF takes_cb_decode [of "unat op" sk]]
    by (auto simp: takes_def lookup_cb_decode image_iff)
qed

lemma Documented_times_witness:
  "execute testbench_socket 0x80 bench_cpu = Inr (InstrAddA8 rB bench_cpu) \<and>
   wait_ns (InstrAddA8 rB bench_cpu) = 4 * 238"
proof -
  have run: "execute testbench_socket 0x80 bench_cpu = Inr (InstrAddA8 rB bench_cpu)"
    by (simp add: execute_def lookup_handler_def main_rows_def row_0x8_def ok_def)
  have "cycles_of 0x80 = [4]"
    by (simp add: cycles_of_def documented_cycles_def)
  then show ?thesis
    using run Documented_times [of testbench_socket "0x80" bench_cpu "InstrAddA8 rB bench_cpu"
        "InstrAddA8 rB bench_cpu"] by (simp add: kNsPerClkCycle_def)
qed

section \<open>What every instruction keeps\<close>

text \<open>
  However many instructions and interrupts the CPU executes, on whatever system, the lower four
  bits of F stay as they are: 0, when they start as 0. (POP AF and the flag instructions are the ones
  that could change them.) Nor does an instruction touch the debugger's halt flag.
\<close>

lemma Flag_register_low_bits:
  assumes "run_cycles n sk s = Inr t"
  shows "get8 t rF AND 0x0F = get8 s rF AND 0x0F \<and> halted t = halted s"
  using effectD [OF run_cycles_cycle_frame assms] by (simp add: cycle_frame_def f_low_def)

section \<open>HALT\<close>

text \<open>
  C34. HALT returns as soon as an enabled interrupt is requested, whether or not interrupts are
  enabled as a whole: after exactly the waits up to the first at whose end the enable and the request
  register have a bit in common, if the polling bound of the model admits that many.
\<close>

theorem Halt_returns:
  assumes "k < sk_halt_polls sk"
    and "requests sk ((halt_step sk ^^ Suc k) (sys s)) \<noteq> 0"
    and "\<forall>j < k. requests sk ((halt_step sk ^^ Suc j) (sys s)) = 0"
  shows "InstrHalt sk s = Inr (s\<lparr>sys := (halt_step sk ^^ Suc k) (sys s)\<rparr>)"
  unfolding InstrHalt_def using assms by (rule halt_loop_returns)

definition requested_memory :: GenericMemory where
  "requested_memory = testbench_memory
     \<lparr>mem_data := (mem_data testbench_memory)(0xFFFF := 4, 0xFF0F := 4)\<rparr>"

lemma Halt_returns_witness:
  "InstrHalt testbench_socket (bench_cpu\<lparr>sys := requested_memory\<rparr>) =
    Inr (bench_cpu\<lparr>sys := requested_memory\<rparr>)"
  using Halt_returns [of 0 testbench_socket "bench_cpu\<lparr>sys := requested_memory\<rparr>"]
  by (simp add: requests_def halt_step_def requested_memory_def)

section \<open>Interrupts\<close>

text \<open>
  The five interrupts are taken by priority, lowest bit first; but a request on one of the three
  bits that stand for no interrupt, when it is enabled, makes the CPU disable interrupts and push the
  program counter although no service routine is entered.
\<close>

lemma Interrupt_dispatch:
  assumes "intr_master_enable s"
    and "InstrPush sk rPC (s\<lparr>intr_master_enable := False\<rparr>) = Inr t"
    and "requests sk (sys s) \<noteq> 0"
  shows "HandleInterrupts sk s =
    Inr (case find (bit (requests sk (sys s))) [0, 1, 2, 3, 4] of
           Some i \<Rightarrow> acknowledge sk (push_bit i 1) (put16 rPC (0x40 + 8 * of_nat i) t)
         | None \<Rightarrow> t)"
proof -
  have "HandleInterrupts sk s =
      Inr (case find (\<lambda>(msk, _). requests sk (sys s) AND msk \<noteq> 0) interrupt_table of
             None \<Rightarrow> t
           | Some (msk, vec) \<Rightarrow> acknowledge sk msk (put16 rPC vec t))"
    using HandleInterrupts_table [OF assms(1) assms(3) [unfolded requests_def] assms(2)]
    by (simp only: requests_def and.assoc)
  then show ?thesis
    by (simp only: interrupt_table_def find.simps prod.case and_mask_bits)
      (simp add: intr_mask_defs)
qed

definition spurious_memory :: GenericMemory where
  "spurious_memory = testbench_memory
     \<lparr>mem_data := (mem_data testbench_memory)(0xFFFF := 0x20, 0xFF0F := 0x20)\<rparr>"

end
