(* ===== verification/File_Utils.thy ===== *)
theory File_Utils
  imports Cpp_Strings
begin

text \<open>
  The helpers of \<^verbatim>\<open>src/utils.cpp\<close> that look at files and at the environment of the process, whose
  contents are arguments.
\<close>

definition GetEnvVariable :: "(string \<Rightarrow> string option) \<Rightarrow> string \<Rightarrow> string res" where
  "GetEnvVariable env name = (case env name of None \<Rightarrow> Inl SystemError | Some t \<Rightarrow> Inr t)"

section \<open>Reading in pieces\<close>

text \<open>
  \<^verbatim>\<open>read\<close> delivers up to \<open>n\<close> bytes of the rest of a file; \<^verbatim>\<open>gcount\<close> is how many, and the end of the
  file is noticed when it delivers fewer than were asked for.
\<close>

definition stream_read :: "nat \<Rightarrow> 'a list \<Rightarrow> 'a list \<times> bool \<times> 'a list" where
  "stream_read n rest = (take n rest, length rest < n, drop n rest)"

definition buf_size :: nat where "buf_size = 1024"

function compare_streams :: "u8 list \<Rightarrow> u8 list \<Rightarrow> bool" where
  "compare_streams r1 r2 =
     (let (buf1, eof1, r1') = stream_read buf_size r1;
          (buf2, eof2, r2') = stream_read buf_size r2 in
      if length buf1 \<noteq> length buf2 then False
      else if list_ex (\<lambda>i. buf1 ! i \<noteq> buf2 ! i) [0..<length buf1] then False
      else if \<not> eof1 \<and> \<not> eof2 then compare_streams r1' r2'
      else True)"
  by pat_completeness auto

termination
  by (relation "measure (length \<circ> fst)") (auto simp: stream_read_def buf_size_def)

declare compare_streams.simps [simp del]

definition CompareFiles :: "u8 list option \<Rightarrow> u8 list option \<Rightarrow> bool" where
  "CompareFiles file1 file2 =
     (case file1 of
        None \<Rightarrow> False
      | Some f1 \<Rightarrow>
          (case file2 of
             None \<Rightarrow> False
           | Some f2 \<Rightarrow> compare_streams f1 f2))"

lemma differs_somewhere: "length xs = length ys \<Longrightarrow> list_ex (\<lambda>i. xs ! i \<noteq> ys ! i) [0..<length xs] \<longleftrightarrow> xs \<noteq> ys"
  by (auto simp: list_ex_iff intro: nth_equalityI)

text \<open>One round: the pieces agree, and where neither file has ended the rests do.\<close>

lemma compare_streams_step:
  "compare_streams r1 r2 \<longleftrightarrow>
     take buf_size r1 = take buf_size r2 \<and>
     (buf_size \<le> length r1 \<and> buf_size \<le> length r2 \<longrightarrow>
       compare_streams (drop buf_size r1) (drop buf_size r2))"
proof -
  define b1 b2 where "b1 = take buf_size r1" and "b2 = take buf_size r2"
  have "compare_streams r1 r2 \<longleftrightarrow>
      (if length b1 \<noteq> length b2 then False
       else if list_ex (\<lambda>i. b1 ! i \<noteq> b2 ! i) [0..<length b1] then False
       else if buf_size \<le> length r1 \<and> buf_size \<le> length r2
       then compare_streams (drop buf_size r1) (drop buf_size r2) else True)"
    by (subst compare_streams.simps) (simp only: stream_read_def Let_def prod.case not_less b1_def b2_def)
  also have "\<dots> \<longleftrightarrow> b1 = b2 \<and> (buf_size \<le> length r1 \<and> buf_size \<le> length r2 \<longrightarrow>
      compare_streams (drop buf_size r1) (drop buf_size r2))"
    using differs_somewhere [of b1 b2] by auto
  finally show ?thesis unfolding b1_def b2_def .
qed

lemma compare_streams_eq: "compare_streams r1 r2 \<longleftrightarrow> r1 = r2"
proof (induction "length r1" arbitrary: r1 r2 rule: less_induct)
  case less
  show ?case
  proof (cases "buf_size \<le> length r1 \<and> buf_size \<le> length r2")
    case True
    then have "length (drop buf_size r1) < length r1" by (auto simp: buf_size_def)
    then have "compare_streams (drop buf_size r1) (drop buf_size r2) \<longleftrightarrow>
        drop buf_size r1 = drop buf_size r2"
      by (rule less)
    with True compare_streams_step [of r1 r2] show ?thesis
      by (metis append_take_drop_id)
  next
    case False
    have "r1 = r2" if take: "take buf_size r1 = take buf_size r2"
    proof -
      have "min (length r1) buf_size = min (length r2) buf_size" using take by (metis length_take)
      with False have "length r1 \<le> buf_size" "length r2 \<le> buf_size" by linarith+
      with take show ?thesis by simp
    qed
    with False compare_streams_step [of r1 r2] show ?thesis by auto
  qed
qed

text \<open>
  The comparison of two files in pieces of 1024 bytes ends, whatever their sizes (multiples of the
  piece included), and says that the files are equal exactly when both can be opened and have the same
  bytes.
\<close>

lemma CompareFiles_iff:
  "CompareFiles file1 file2 \<longleftrightarrow> (\<exists>content. file1 = Some content \<and> file2 = Some content)"
  by (auto simp: CompareFiles_def compare_streams_eq split: option.split)

end
