(* ===== verification/Ppu_Properties.thy ===== *)
theory Ppu_Properties
  imports Ppu_Screenshot
begin

text \<open>
  The properties of the pixel processing unit: its modes and times, and what it draws.
\<close>

section \<open>Modes\<close>

text \<open>
  Between two waits the line register and the mode bits of STAT stand for the control point: mode 2
  while the sprites are searched, 3 while the line is transferred, 0 until its end, 1 during the
  vertical blank.
\<close>

definition mode :: "ppu_mem \<Rightarrow> u8" where
  "mode v = reg_stat v AND 3"

definition consistent :: "ppu_mem \<times> Ppu \<Rightarrow> bool" where
  "consistent = (\<lambda>(v, p).
     case render_pc p of
       RenderStart \<Rightarrow> reg_lcdc_y v = 0
     | AfterOamSearch i \<Rightarrow> reg_lcdc_y v = of_nat i \<and> mode v = 2
     | AfterTransfer i \<Rightarrow> reg_lcdc_y v = of_nat i \<and> mode v = 3
     | AfterHBlank i \<Rightarrow> reg_lcdc_y v = of_nat (i + 1) \<and> mode v = 0 \<and>
         (bit (reg_stat v) 2 \<longleftrightarrow> reg_ly_comp v = reg_lcdc_y v)
     | AfterVBlank i \<Rightarrow> reg_lcdc_y v = of_nat (i + 144) \<and> mode v = 1)"

definition stat_request :: "ppu_mem \<Rightarrow> Ppu \<Rightarrow> bool" where
  "stat_request v p \<longleftrightarrow>
     (case render_pc p of
        AfterTransfer i \<Rightarrow> bit (reg_stat v) 3 \<or> bit (reg_stat v) 6 \<and> reg_ly_comp v = reg_lcdc_y v + 1
      | AfterVBlank i \<Rightarrow> bit (reg_stat v) 6 \<and>
          (reg_ly_comp v = reg_lcdc_y v + 1 \<or> i = 9 \<and> reg_ly_comp v = 0)
      | _ \<Rightarrow> False)"

definition step_time :: "render_pc \<Rightarrow> nat" where
  "step_time c =
     (case c of
        RenderStart \<Rightarrow> 80
      | AfterOamSearch i \<Rightarrow> 168
      | AfterTransfer i \<Rightarrow> 208
      | AfterHBlank i \<Rightarrow> if i < 143 then 80 else 456
      | AfterVBlank i \<Rightarrow> if i < 9 then 456 else 80)"

lemma mode_iff:
  "mode v = 0 \<longleftrightarrow> \<not> bit (reg_stat v) 0 \<and> \<not> bit (reg_stat v) (Suc 0)"
  "mode v = 1 \<longleftrightarrow> bit (reg_stat v) 0 \<and> \<not> bit (reg_stat v) (Suc 0)"
  "mode v = 2 \<longleftrightarrow> \<not> bit (reg_stat v) 0 \<and> bit (reg_stat v) (Suc 0)"
  "mode v = 3 \<longleftrightarrow> bit (reg_stat v) 0 \<and> bit (reg_stat v) (Suc 0)"
  by (auto simp: mode_def u8_eq_iff_bits bit_simps)

lemma and_masks: "s AND kMaskBit6 \<noteq> 0 \<longleftrightarrow> bit s 6" "s AND kMaskBit3 \<noteq> 0 \<longleftrightarrow> bit s 3"
  by (simp_all add: kMaskBit6_def kMaskBit3_def u8_eq_iff_bits bit_simps)

lemma bit_requests:
  "bit (a OR kMaskLcdcStatIf) 0 = bit a 0" "bit (a OR kMaskLcdcStatIf) (Suc 0)"
  "bit (a OR kMaskVBlankIE) 0" "bit (a OR kMaskVBlankIE) (Suc 0) = bit a (Suc 0)"
  by (simp_all add: kMaskLcdcStatIf_def kMaskVBlankIE_def bit_simps)

lemma CheckLyc_simps:
  "bit (reg_stat (CheckLycInterrupt v)) 0 = bit (reg_stat v) 0"
  "bit (reg_stat (CheckLycInterrupt v)) (Suc 0) = bit (reg_stat v) (Suc 0)"
  "bit (reg_stat (CheckLycInterrupt v)) 2 \<longleftrightarrow> reg_ly_comp v = reg_lcdc_y v"
  "bit (reg_stat (CheckLycInterrupt v)) 6 = bit (reg_stat v) 6"
  "reg_ly_comp (CheckLycInterrupt v) = reg_ly_comp v"
  "bit (reg_intr_pending (CheckLycInterrupt v)) 0 = bit (reg_intr_pending v) 0"
  "bit (reg_intr_pending (CheckLycInterrupt v)) (Suc 0) \<longleftrightarrow>
    bit (reg_intr_pending v) (Suc 0) \<or> bit (reg_stat v) 6 \<and> reg_ly_comp v = reg_lcdc_y v"
  by (auto simp: CheckLycInterrupt_def Let_def bit_SetBit and_masks bit_requests)

text \<open>The control point that follows another one.\<close>

fun next_pc :: "render_pc \<Rightarrow> render_pc" where
  "next_pc RenderStart = AfterOamSearch 0"
| "next_pc (AfterOamSearch i) = AfterTransfer i"
| "next_pc (AfterTransfer i) = AfterHBlank i"
| "next_pc (AfterHBlank i) = (if i < 143 then AfterOamSearch (i + 1) else AfterVBlank 0)"
| "next_pc (AfterVBlank i) = (if i < 9 then AfterVBlank (i + 1) else AfterOamSearch 0)"

definition good_step :: "ppu_mem \<times> Ppu \<Rightarrow> (nat \<times> ppu_mem \<times> Ppu) res \<Rightarrow> bool" where
  "good_step = (\<lambda>(v, p) r. \<exists>v' p'. r = Inr (step_time (render_pc p) * kNsPerClkCycle, v', p') \<and>
     render_pc p' = next_pc (render_pc p) \<and> (consistent (v, p) \<longrightarrow> consistent (v', p')) \<and>
     (bit (reg_intr_pending v') 0 \<longleftrightarrow> bit (reg_intr_pending v) 0 \<or> render_pc p = AfterHBlank 143) \<and>
     (bit (reg_intr_pending v') 1 \<longleftrightarrow> bit (reg_intr_pending v) 1 \<or> stat_request v p))"

lemma oam_search_consistent:
  "consistent (snd (oam_search i (v, p))) \<longleftrightarrow> reg_lcdc_y v = of_nat i"
  by (simp add: oam_search_def consistent_def mode_iff bit_SetBit)

lemma h_blank_good:
  assumes "ppu_ok p" and pc: "render_pc p = AfterTransfer i"
  shows "good_step (v, p) (h_blank ui i (v, p))"
proof -
  let ?v = "v\<lparr>reg_stat := SetBit (SetBit (reg_stat v) False 0) False 1\<rparr>"
  have i: "i < 144" "0 \<le> window_line p" "window_line p \<le> int i" "buffers_ok p"
    using assms by (simp_all add: ppu_ok_def lines_ok_def)
  obtain p' where p': "draw_line ui ?v i p = Inr p'"
    using draw_line_ok [OF i(4,1,2,3), of ui ?v] by blast
  have ly: "of_nat i + 1 = (of_nat (i + 1) :: u8)" by simp
  show ?thesis
    using p' pc
    by (auto simp: good_step_def h_blank_def Let_def step_time_def check_lyc_time_def consistent_def
        CheckLyc_simps stat_request_def and_masks bit_requests bit_SetBit mode_iff ly
        simp del: of_nat_Suc of_nat_add)
qed

lemma v_blank_good:
  assumes "ppu_ok p" and pc: "render_pc p = AfterHBlank 143"
  shows "good_step (v, p) (v_blank ui (v, p))"
proof -
  let ?p = "p\<lparr>window_line := 0\<rparr>" and ?v = "v\<lparr>reg_stat := SetBit (reg_stat v) True 0\<rparr>"
  have "buffers_ok ?p" "window_ok (game_wndw ?p)" "window_ok (ext_game_wndw ?p)" "window_ok (window_wndw ?p)"
    using assms by (simp_all add: ppu_ok_def buffers_ok_def)
  from draw_windows_ok [OF this, of ui ?v]
  obtain p' where p': "draw_windows ui ?v ?p = Inr p'" by blast
  then show ?thesis
    using pc
    by (auto simp: good_step_def v_blank_def Let_def step_time_def vblank_time_def consistent_def
        stat_request_def bit_requests mode_iff bit_SetBit)
qed

lemma oam_search_good:
  assumes "next_pc (render_pc p) = AfterOamSearch i" "step_time (render_pc p) = 80"
    and "consistent (v0, p) \<Longrightarrow> reg_lcdc_y v = of_nat i"
    and "\<not> stat_request v0 p \<and> reg_intr_pending v = reg_intr_pending v0"
    and "render_pc p \<noteq> AfterHBlank 143"
  shows "good_step (v0, p) (Inr (oam_search i (v, p)))"
proof -
  have "oam_search i (v, p) = (80 * kNsPerClkCycle, snd (oam_search i (v, p)))"
    "render_pc (snd (snd (oam_search i (v, p)))) = AfterOamSearch i"
    "reg_intr_pending (fst (snd (oam_search i (v, p)))) = reg_intr_pending v"
    by (simp_all add: oam_search_def oam_search_time_def)
  then show ?thesis
    using assms oam_search_consistent [of i v p]
    by (cases "snd (oam_search i (v, p))") (auto simp: good_step_def)
qed

lemma step_good:
  assumes "ppu_ok p"
  shows "good_step (v, p) (RenderLoop_step ui (v, p))"
proof (cases "render_pc p")
  case RenderStart
  then have "good_step (v, p) (Inr (oam_search 0 (v, p)))"
    by (intro oam_search_good) (simp_all add: step_time_def consistent_def stat_request_def)
  then show ?thesis using RenderStart by simp
next
  case (AfterOamSearch i)
  then show ?thesis
    by (auto simp: good_step_def lcd_transfer_def step_time_def lcd_transfer_time_def consistent_def
        stat_request_def mode_iff bit_SetBit)
next
  case (AfterTransfer i)
  then show ?thesis using h_blank_good [OF assms] by simp
next
  case (AfterHBlank i)
  show ?thesis
  proof (cases "i < 143")
    case True
    then have "good_step (v, p) (Inr (oam_search (i + 1) (v, p)))"
      using AfterHBlank
      by (intro oam_search_good) (simp_all add: step_time_def consistent_def stat_request_def)
    then show ?thesis using AfterHBlank True by (simp add: kGbScreenHeight_def)
  next
    case False
    then have "i = 143" using assms AfterHBlank by (simp add: ppu_ok_def lines_ok_def)
    then show ?thesis
      using v_blank_good [OF assms] AfterHBlank by (simp add: kGbScreenHeight_def)
  qed
next
  case (AfterVBlank i)
  let ?v = "CheckLycInterrupt (v\<lparr>reg_lcdc_y := reg_lcdc_y v + 1\<rparr>)"
  show ?thesis
  proof (cases "i < 9")
    case True
    have "of_nat (i + 144) + 1 = (of_nat (i + 1 + 144) :: u8)" by simp
    then show ?thesis
      using AfterVBlank True
      by (auto simp: good_step_def step_time_def vblank_time_def Let_def consistent_def stat_request_def
          mode_iff bit_SetBit CheckLyc_simps simp del: of_nat_Suc of_nat_add)
  next
    case False
    then have "i = 9" using assms AfterVBlank by (simp add: ppu_ok_def lines_ok_def)
    let ?w = "CheckLycInterrupt (?v\<lparr>reg_lcdc_y := 0\<rparr>)"
    have "bit (reg_intr_pending ?w) 0 = bit (reg_intr_pending v) 0"
      "bit (reg_intr_pending ?w) (Suc 0) \<longleftrightarrow> bit (reg_intr_pending v) (Suc 0) \<or> stat_request v p"
      using AfterVBlank \<open>i = 9\<close> by (auto simp: CheckLyc_simps stat_request_def)
    moreover have "RenderLoop_step ui (v, p) = Inr (oam_search 0 (?w, p))"
      using AfterVBlank \<open>i = 9\<close> by (simp add: Let_def)
    moreover have "snd (snd (oam_search 0 (?w, p))) = p\<lparr>render_pc := AfterOamSearch 0\<rparr>"
      "reg_intr_pending (fst (snd (oam_search 0 (?w, p)))) = reg_intr_pending ?w"
      "fst (oam_search 0 (?w, p)) = 80 * kNsPerClkCycle"
      "consistent (snd (oam_search 0 (?w, p)))"
      unfolding oam_search_consistent by (simp_all add: oam_search_def oam_search_time_def)
    ultimately show ?thesis
      using AfterVBlank \<open>i = 9\<close>
      by (cases "oam_search 0 (?w, p)") (auto simp: good_step_def step_time_def)
  qed
qed

lemma RenderLoop_step_pc:
  assumes "ppu_ok p"
  obtains v' p' where "RenderLoop_step ui (v, p) = Inr (step_time (render_pc p) * kNsPerClkCycle, v', p')"
    and "ppu_ok p'" and "render_pc p' = next_pc (render_pc p)"
  using step_good [OF assms, of v ui] RenderLoop_step_ok [OF assms, of v ui]
  by (auto simp: good_step_def step_result_def)

section \<open>Frames\<close>

text \<open>
  A run of the thread. Between two of its steps the processor may change the registers and memories
  in any way: \<open>others k\<close> is what it does before the step with \<open>k\<close> steps to go.
\<close>

fun render_run ::
  "ui_flags \<Rightarrow> (nat \<Rightarrow> ppu_mem \<Rightarrow> ppu_mem) \<Rightarrow> nat \<Rightarrow> ppu_mem \<times> Ppu \<Rightarrow> (nat \<times> ppu_mem \<times> Ppu) res" where
  "render_run ui others 0 s = Inr (0, s)"
| "render_run ui others (Suc k) (v, p) =
     rbind (RenderLoop_step ui (others k v, p)) (\<lambda>(t, s).
     rbind (render_run ui others k s) (\<lambda>(t', s'). Inr (t + t', s')))"

fun run_time :: "nat \<Rightarrow> render_pc \<Rightarrow> nat" where
  "run_time 0 c = 0"
| "run_time (Suc k) c = step_time c + run_time k (next_pc c)"

lemma render_run_ok:
  "ppu_ok p \<Longrightarrow> \<exists>v' p'. render_run ui others k (v, p) = Inr (run_time k (render_pc p) * kNsPerClkCycle, v', p') \<and>
    ppu_ok p' \<and> render_pc p' = (next_pc ^^ k) (render_pc p)"
proof (induction k arbitrary: v p)
  case (Suc k)
  obtain v1 p1 where 1: "RenderLoop_step ui (others k v, p) =
      Inr (step_time (render_pc p) * kNsPerClkCycle, v1, p1)" "ppu_ok p1" "render_pc p1 = next_pc (render_pc p)"
    using RenderLoop_step_pc [OF Suc.prems] .
  obtain v2 p2 where "render_run ui others k (v1, p1) = Inr (run_time k (render_pc p1) * kNsPerClkCycle, v2, p2)"
    "ppu_ok p2" "render_pc p2 = (next_pc ^^ k) (render_pc p1)"
    using Suc.IH [OF 1(2)] by blast
  then show ?case
    using 1(1,3) by (simp add: funpow_swap1 add_mult_distrib)
qed simp

lemma run_time_add: "run_time (m + n) c = run_time m c + run_time n ((next_pc ^^ m) c)"
  by (induction m arbitrary: c) (simp_all add: funpow_swap1)

lemma line_points:
  "i < 144 \<Longrightarrow> (next_pc ^^ (3 * i)) (AfterOamSearch 0) = AfterOamSearch i \<and>
    run_time (3 * i) (AfterOamSearch 0) = 456 * i"
proof (induction i)
  case (Suc i)
  have "3 * Suc i = 3 * i + 3" by simp
  moreover have "(next_pc ^^ (3 * i + 3)) c = (next_pc ^^ 3) ((next_pc ^^ (3 * i)) c)" for c
    by (subst add.commute) (simp only: funpow_add comp_apply)
  moreover have "(next_pc ^^ 3) (AfterOamSearch i) = AfterOamSearch (Suc i)"
    using Suc.prems by (simp add: numeral_3_eq_3)
  moreover have "run_time 3 (AfterOamSearch i) = 456"
    using Suc.prems by (simp add: numeral_3_eq_3 step_time_def)
  ultimately show ?case
    using Suc by (simp only: run_time_add) simp
qed simp

lemma blank_points:
  "i < 10 \<Longrightarrow> (next_pc ^^ i) (AfterVBlank 0) = AfterVBlank i \<and> run_time i (AfterVBlank 0) = 456 * i"
proof (induction i)
  case (Suc i)
  then show ?case
    using run_time_add [of i 1 "AfterVBlank 0"] by (simp add: step_time_def)
qed simp

lemma funpow_plus: "(f ^^ (m + n)) x = (f ^^ n) ((f ^^ m) x)"
  by (subst add.commute) (simp only: funpow_add comp_apply)

lemma last_line:
  "(next_pc ^^ 432) (AfterOamSearch 0) = AfterVBlank 0"
  "run_time 432 (AfterOamSearch 0) = 456 * 144 + 376"
proof -
  have "(next_pc ^^ (3 * 143)) (AfterOamSearch 0) = AfterOamSearch 143"
    "run_time (3 * 143) (AfterOamSearch 0) = 456 * 143"
    using line_points [of 143] by simp_all
  moreover have "(432 :: nat) = 3 * 143 + 3" by simp
  ultimately show "(next_pc ^^ 432) (AfterOamSearch 0) = AfterVBlank 0"
    "run_time 432 (AfterOamSearch 0) = 456 * 144 + 376"
    by (simp_all only: funpow_plus run_time_add) (simp_all add: numeral_3_eq_3 step_time_def)
qed

lemma frame_points:
  "(next_pc ^^ 442) (AfterOamSearch 0) = AfterOamSearch 0"
  "run_time 442 (AfterOamSearch 0) = 70224"
proof -
  have "(next_pc ^^ 9) (AfterVBlank 0) = AfterVBlank 9" "run_time 9 (AfterVBlank 0) = 456 * 9"
    using blank_points [of 9] by simp_all
  moreover have "(442 :: nat) = 432 + (9 + 1)" by simp
  ultimately show "(next_pc ^^ 442) (AfterOamSearch 0) = AfterOamSearch 0"
    "run_time 442 (AfterOamSearch 0) = 70224"
    by (simp_all only: funpow_plus run_time_add last_line) (simp_all add: step_time_def)
qed

lemma points_of_frame:
  assumes "lines_ok p" and "render_pc p \<noteq> RenderStart"
  shows "\<exists>k. render_pc p = (next_pc ^^ k) (AfterOamSearch 0)"
proof (cases "render_pc p")
  case (AfterOamSearch i)
  then have "(next_pc ^^ (3 * i)) (AfterOamSearch 0) = AfterOamSearch i"
    using assms(1) line_points [of i] by (simp add: lines_ok_def)
  then show ?thesis using AfterOamSearch by metis
next
  case (AfterTransfer i)
  then have "(next_pc ^^ (3 * i + 1)) (AfterOamSearch 0) = AfterTransfer i"
    using assms(1) line_points [of i] by (simp only: funpow_plus lines_ok_def) simp
  then show ?thesis using AfterTransfer by metis
next
  case (AfterHBlank i)
  then have "(next_pc ^^ (3 * i + 2)) (AfterOamSearch 0) = AfterHBlank i"
    using assms(1) line_points [of i] by (simp only: funpow_plus lines_ok_def) (simp add: numeral_2_eq_2)
  then show ?thesis using AfterHBlank by metis
next
  case (AfterVBlank i)
  then have "(next_pc ^^ (432 + i)) (AfterOamSearch 0) = AfterVBlank i"
    using assms(1) blank_points [of i] by (simp only: funpow_plus lines_ok_def last_line) simp
  then show ?thesis using AfterVBlank by metis
qed (use assms(2) in simp)

text \<open>The steps of a frame take the same time from any of its points on.\<close>

lemma frame_from:
  "(next_pc ^^ 442) ((next_pc ^^ k) (AfterOamSearch 0)) = (next_pc ^^ k) (AfterOamSearch 0)"
  "run_time 442 ((next_pc ^^ k) (AfterOamSearch 0)) = 70224"
proof -
  have "(next_pc ^^ (k + 442)) (AfterOamSearch 0) = (next_pc ^^ (442 + k)) (AfterOamSearch 0)"
    "run_time (k + 442) (AfterOamSearch 0) = run_time (442 + k) (AfterOamSearch 0)"
    by (simp_all only: add.commute)
  then show "(next_pc ^^ 442) ((next_pc ^^ k) (AfterOamSearch 0)) = (next_pc ^^ k) (AfterOamSearch 0)"
    "run_time 442 ((next_pc ^^ k) (AfterOamSearch 0)) = 70224"
    unfolding funpow_plus run_time_add frame_points by simp_all
qed

section \<open>The properties\<close>

text \<open>A unit and a register set for the witnesses.\<close>

definition test_Ppu :: "bool \<Rightarrow> Ppu" where
  "test_Ppu headless = new_Ppu headless False False grey_palette 0 (\<lambda>_. 0)"

definition test_ppu_mem :: ppu_mem where
  "test_ppu_mem = \<lparr>reg_lcdc = 0x93, reg_stat = 0x02, reg_scroll_y = 0, reg_scroll_x = 0, reg_lcdc_y = 0,
     reg_ly_comp = 0, reg_bgp = 0xE4, reg_obp_0 = 0xE4, reg_obp_1 = 0xE4, reg_wndw_y = 0, reg_wndw_x = 0,
     reg_intr_pending = 0, video = (\<lambda>_. 0xFF), oam_table = (\<lambda>i. if i < 8 then 16 else 0)\<rparr>"

lemma test_Ppu_start: "render_pc (test_Ppu headless) = RenderStart" "window_line (test_Ppu headless) = 0"
  by (simp_all add: test_Ppu_def new_Ppu_def Let_def)

lemma test_Ppu_consistent: "consistent (test_ppu_mem, test_Ppu headless)"
  by (simp add: consistent_def test_Ppu_start test_ppu_mem_def)

lemma test_Ppu_ok: "ppu_ok (test_Ppu headless)"
  by (simp add: test_Ppu_def grey_palette_def new_Ppu_ok)

text \<open>
  C14. Whatever the registers and memories hold, a step of the rendering thread from a state that meets
  the invariant succeeds, meets it again, waits for the documented time of the mode (80 cycles of
  search, 168 of transfer, 208 of horizontal blank, 456 for each line of the vertical blank), keeps
  the line register and the mode bits of STAT in agreement with the position in the frame, requests
  the vertical blank interrupt exactly after line 143, and the STAT interrupt exactly when it is
  enabled for the horizontal blank or for the line that LYC names.
\<close>

theorem Ppu_modes:
  assumes "ppu_ok p"
  shows "\<exists>v' p'. RenderLoop_step ui (v, p) = Inr (step_time (render_pc p) * kNsPerClkCycle, v', p') \<and>
    ppu_ok p' \<and> (consistent (v, p) \<longrightarrow> consistent (v', p')) \<and>
    (bit (reg_intr_pending v') 0 \<longleftrightarrow> bit (reg_intr_pending v) 0 \<or> render_pc p = AfterHBlank 143) \<and>
    (bit (reg_intr_pending v') 1 \<longleftrightarrow> bit (reg_intr_pending v) 1 \<or> stat_request v p)"
  using step_good [OF assms, of v ui] RenderLoop_step_ok [OF assms, of v ui]
  by (auto simp: good_step_def step_result_def)

lemma Ppu_modes_witness:
  "\<exists>v' p'. RenderLoop_step ui_default (test_ppu_mem, test_Ppu True) = Inr (80 * kNsPerClkCycle, v', p') \<and>
    ppu_ok p' \<and> consistent (v', p')"
  using Ppu_modes [OF test_Ppu_ok, of ui_default test_ppu_mem True] test_Ppu_consistent
  unfolding test_Ppu_start step_time_def by (auto simp del: RenderLoop_step.simps)

text \<open>
  C17. A frame takes 70224 cycles: from any point of the frame the thread is back at the same point
  after 442 steps and that time, whatever the processor does to the registers and memories between
  the steps.
\<close>

theorem Ppu_frame_time:
  assumes "ppu_ok p" and "render_pc p \<noteq> RenderStart"
  shows "\<exists>v' p'. render_run ui others 442 (v, p) = Inr (70224 * kNsPerClkCycle, v', p') \<and>
    render_pc p' = render_pc p \<and> ppu_ok p'"
proof -
  obtain k where "render_pc p = (next_pc ^^ k) (AfterOamSearch 0)"
    using points_of_frame [of p] assms by (auto simp: ppu_ok_def)
  then show ?thesis
    using render_run_ok [OF assms(1), of ui others 442 v] frame_from [of k] by auto
qed

lemma Ppu_frame_time_witness:
  "\<exists>v' p'. render_run ui_default (\<lambda>k v. v\<lparr>reg_lcdc := of_nat k\<rparr>) 442
      (test_ppu_mem, (test_Ppu True)\<lparr>render_pc := AfterVBlank 9\<rparr>) = Inr (70224 * kNsPerClkCycle, v', p') \<and>
    render_pc p' = AfterVBlank 9 \<and> ppu_ok p'"
proof -
  have "ppu_ok ((test_Ppu True)\<lparr>render_pc := AfterVBlank 9\<rparr>)"
    using test_Ppu_ok [of True] by (simp add: ppu_ok_def buffers_ok_def lines_ok_def test_Ppu_def new_Ppu_def Let_def)
  from Ppu_frame_time [OF this] show ?thesis by simp
qed

text \<open>What a line shows before the sprites: the window where it is, else the background.\<close>

definition back_pixel :: "ui_flags \<Rightarrow> ppu_mem \<Rightarrow> nat \<Rightarrow> nat \<Rightarrow> nat \<Rightarrow> u8" where
  "back_pixel ui v line wline x =
     (if wndw_on v line \<and> wndw_covers ui v x then wndw_pixel ui v wline x else bg_line ui v line x)"

text \<open>
  C15. Background and window of a line: each pixel is the one of the tile map that LCDC selects, at the
  scrolled position modulo 256 for the background and at the window's own line and column for the
  window, with signed or unsigned tile numbers after bit 4 of LCDC, through the palette. Nothing else
  of the buffer changes, and the line counter of the window advances exactly on lines that show it.
\<close>

theorem Ppu_background_line:
  assumes "line < 144" and "window_line p = int wl" and "wl \<le> line"
  shows "rbind (DrawBgToLine ui v line p) (DrawWndwToLine ui v line) =
    Inr (p\<lparr>bg_buffer := (\<lambda>y x. if y = line \<and> x < 160 then back_pixel ui v line wl x else bg_buffer p y x),
      window_line := int wl + of_bool (wndw_on v line)\<rparr>)"
proof (cases "wndw_on v line")
  case True
  have "wl < 256" using assms(1,3) by simp
  then show ?thesis
    using True assms(2) DrawWndwToLine_on [OF True assms(1), of "p\<lparr>bg_buffer := _\<rparr>" wl ui]
    by (auto simp: DrawBgToLine_eq [OF assms(1)] back_pixel_def fun_eq_iff)
next
  case False
  then show ?thesis
    using assms(2)
    by (auto simp: DrawBgToLine_eq [OF assms(1)] back_pixel_def fun_eq_iff DrawWndwToLine_off
        intro!: Ppu.equality)
qed

lemma Ppu_background_line_witness:
  "rbind (DrawBgToLine ui_default test_ppu_mem 100 (test_Ppu True)) (DrawWndwToLine ui_default test_ppu_mem 100) =
    Inr ((test_Ppu True)\<lparr>bg_buffer := (\<lambda>y x. if y = 100 \<and> x < 160
        then back_pixel ui_default test_ppu_mem 100 0 x else bg_buffer (test_Ppu True) y x),
      window_line := int 0 + of_bool (wndw_on test_ppu_mem 100)\<rparr>)"
  by (rule Ppu_background_line) (simp_all add: test_Ppu_def new_Ppu_def Let_def)

text \<open>
  The sprites drawn on a line are at most ten of those that touch it and the screen, in the order
  of priority: by position from the left, and by number at the same position. A sprite on the line is
  left out only if there are ten before it in that order.
\<close>

lemma Ppu_sprite_selection:
  "sorted_wrt (before_sprite v) (map fst (line_sprites v line)) \<and> length (line_sprites v line) \<le> 10 \<and>
    set (map fst (line_sprites v line)) \<subseteq> {i. i < 40 \<and> on_line v line i} \<and>
    (\<forall>j < 40. on_line v line j \<longrightarrow> j \<in> set (map fst (line_sprites v line)) \<or>
      length (line_sprites v line) = 10 \<and>
      (\<forall>i \<in> set (map fst (line_sprites v line)). before_sprite v i j))"
proof -
  have "length (line_sprites v line) = length (sprite_list v line)" by (simp add: sprite_list_def)
  then show ?thesis
    using sprite_list_sorted [of v line] in_sprite_list [of _ v line] left_out [of _ v line]
    unfolding sprite_list_def [symmetric] by (auto simp: line_sprites_eq)
qed



text \<open>
  C18. The game window shows a frame: with the display on, every pixel of its texture is the sprite
  pixel if there is one, else the background pixel, in the colours of the palette (or the colour of
  an empty screen when background and window are switched off), and the sprite buffer is cleared for
  the next frame.
\<close>

theorem Ppu_frame_shown:
  assumes "buffers_ok p" and "log_width w = 160" and "log_height w = 144" and "bit (reg_lcdc v) 7"
  shows "\<exists>w'. GameWindow_DrawToScreen ui v w p =
      Inr (w', p\<lparr>sprite_buffer := (\<lambda>y x. if uiRenderSprites ui \<and> y < 144 \<and> x < 160
        then color_code Transparent else sprite_buffer p y x)\<rparr>) \<and>
    (\<forall>y < 144. \<forall>x < 160. pixels w' (y * 160 + x) =
       (if uiRenderSprites ui \<and> sprite_buffer p y x \<noteq> color_code Transparent
        then shade p (sprite_buffer p y x)
        else if uiRenderBg ui \<or> uiRenderWndw ui then shade p (bg_buffer p y x)
        else ToTextureColor 242 255 217))"
  using GameWindow_shows [OF assms, of ui] unfolding frame_pixel_def by blast

lemma Ppu_frame_shown_witness:
  "\<exists>w' p'. GameWindow_DrawToScreen ui_default test_ppu_mem (game_wndw (test_Ppu False)) (test_Ppu False) =
      Inr (w', p') \<and> pixels w' (143 * 160 + 159) = shade (test_Ppu False) 0"
proof -
  have "buffers_ok (test_Ppu False)" using test_Ppu_ok by (simp add: ppu_ok_def)
  from Ppu_frame_shown [OF this, of "game_wndw (test_Ppu False)" test_ppu_mem ui_default]
  have "\<exists>w' p'. GameWindow_DrawToScreen ui_default test_ppu_mem (game_wndw (test_Ppu False)) (test_Ppu False) =
      Inr (w', p') \<and> (\<forall>y < 144. \<forall>x < 160. pixels w' (y * 160 + x) = shade (test_Ppu False) 0)"
    by (simp add: test_Ppu_def new_Ppu_def new_window_def Let_def ppu_consts test_ppu_mem_def ui_default_def)
      blast
  then obtain w' p' where "GameWindow_DrawToScreen ui_default test_ppu_mem (game_wndw (test_Ppu False))
      (test_Ppu False) = Inr (w', p')"
    "\<And>y x. y < 144 \<Longrightarrow> x < 160 \<Longrightarrow> pixels w' (y * 160 + x) = shade (test_Ppu False) 0"
    by blast
  moreover have "(143 :: nat) < 144" "(159 :: nat) < 160" by simp_all
  ultimately show ?thesis by (intro exI conjI) blast+
qed

end
